(* ===== verification/Prelude.thy ===== *)
theory Prelude
  imports
    Main
    "HOL-Library.Word"
    "HOL-Library.Sublist"
    "HOL-Library.Char_ord"
    "HOL-Library.List_Lexorder"
begin

text \<open>
  Shared vocabulary of the development: Rust's \<open>Result\<close> as a sum type (\<open>Inl\<close> is
  \<open>Err\<close>, \<open>Inr\<close> is \<open>Ok\<close>), fallible iteration, checked arithmetic on
  \<open>u64\<close>, and the generic facts on lists and lexicographic order the components use.

  A Rust \<open>String\<close> is a HOL \<open>string\<close> whose characters are the bytes of its UTF-8
  encoding.  Rust compares strings bytewise, which is the lexicographic order on lists of
  characters; searching for an ASCII character is the same on bytes and on code points.
\<close>

named_theorems result_simps \<open>unfolding of the result combinators\<close>

type_synonym byte = "8 word"
type_synonym u32 = "32 word"
type_synonym u64 = "64 word"

section \<open>Results\<close>

text \<open>\<open>Result::and_then\<close>, which is also the \<open>?\<close> operator, and the other combinators.\<close>

definition and_then :: "'e + 'a \<Rightarrow> ('a \<Rightarrow> 'e + 'b) \<Rightarrow> 'e + 'b" where
  "and_then r f = (case r of Inl e \<Rightarrow> Inl e | Inr a \<Rightarrow> f a)"

definition map_err :: "('e \<Rightarrow> 'f) \<Rightarrow> 'e + 'a \<Rightarrow> 'f + 'a" where
  "map_err g r = (case r of Inl e \<Rightarrow> Inl (g e) | Inr a \<Rightarrow> Inr a)"

definition ok_or :: "'e \<Rightarrow> 'a option \<Rightarrow> 'e + 'a" where
  "ok_or e r = (case r of None \<Rightarrow> Inl e | Some a \<Rightarrow> Inr a)"

definition ensure :: "bool \<Rightarrow> 'e \<Rightarrow> 'e + unit" where
  "ensure b e = (if b then Inr () else Inl e)"

definition is_ok :: "'e + 'a \<Rightarrow> bool" where
  "is_ok r = (case r of Inl _ \<Rightarrow> False | Inr _ \<Rightarrow> True)"

text \<open>A \<open>for\<close> loop whose body may return early with an error.\<close>

primrec try_fold :: "('s \<Rightarrow> 'a \<Rightarrow> 'e + 's) \<Rightarrow> 's \<Rightarrow> 'a list \<Rightarrow> 'e + 's" where
  "try_fold f s [] = Inr s"
| "try_fold f s (x # xs) = and_then (f s x) (\<lambda>s'. try_fold f s' xs)"

lemma and_then_Inl [simp, result_simps]: "and_then (Inl e) f = Inl e"
  by (simp add: and_then_def)

lemma and_then_Inr [simp, result_simps]: "and_then (Inr a) f = f a"
  by (simp add: and_then_def)

lemma and_then_eq_Inr [simp]: "and_then r f = Inr b \<longleftrightarrow> (\<exists>a. r = Inr a \<and> f a = Inr b)"
  by (cases r) simp_all

lemma and_then_eq_Inl: "and_then r f = Inl e \<longleftrightarrow> r = Inl e \<or> (\<exists>a. r = Inr a \<and> f a = Inl e)"
  by (cases r) simp_all

lemma and_then_assoc: "and_then (and_then r f) g = and_then r (\<lambda>a. and_then (f a) g)"
  by (cases r) simp_all

lemma map_err_Inl [simp, result_simps]: "map_err g (Inl e) = Inl (g e)"
  by (simp add: map_err_def)

lemma map_err_Inr [simp, result_simps]: "map_err g (Inr a) = Inr a"
  by (simp add: map_err_def)

lemma map_err_eq_Inr [simp]: "map_err g r = Inr a \<longleftrightarrow> r = Inr a"
  by (cases r) simp_all

lemma ok_or_eq_Inr [simp]: "ok_or e r = Inr a \<longleftrightarrow> r = Some a"
  by (cases r) (simp_all add: ok_or_def)

lemma ok_or_Some [simp, result_simps]: "ok_or e (Some a) = Inr a"
  by (simp add: ok_or_def)

lemma ok_or_None [simp, result_simps]: "ok_or e None = Inl e"
  by (simp add: ok_or_def)

lemma ensure_eq_Inr [simp]: "ensure b e = Inr u \<longleftrightarrow> b"
  by (simp add: ensure_def)

lemma ensure_True [simp, result_simps]: "ensure True e = Inr ()"
  by (simp add: ensure_def)

lemma ensure_False [simp, result_simps]: "ensure False e = Inl e"
  by (simp add: ensure_def)

lemma is_ok_simps [simp, result_simps]: "\<not> is_ok (Inl e)" "is_ok (Inr a)"
  by (simp_all add: is_ok_def)

lemma is_ok_iff: "is_ok r \<longleftrightarrow> (\<exists>a. r = Inr a)"
  by (cases r) simp_all

lemma not_is_ok_iff: "\<not> is_ok r \<longleftrightarrow> (\<exists>e. r = Inl e)"
  by (cases r) simp_all

lemma try_fold_append:
  "try_fold f s (xs @ ys) = and_then (try_fold f s xs) (\<lambda>s'. try_fold f s' ys)"
  by (induction xs arbitrary: s) (simp_all add: and_then_assoc)

lemma try_fold_invariant:
  assumes "try_fold f s xs = Inr s'" and "P s"
    and "\<And>s x s'. P s \<Longrightarrow> x \<in> set xs \<Longrightarrow> f s x = Inr s' \<Longrightarrow> P s'"
  shows "P s'"
  using assms
proof (induction xs arbitrary: s)
  case (Cons x xs)
  from Cons.prems(1) obtain s1 where s1: "f s x = Inr s1" "try_fold f s1 xs = Inr s'" by auto
  have "P s1" using Cons.prems(3) [OF Cons.prems(2) _ s1(1)] by simp
  with s1(2) show ?case
  proof (rule Cons.IH)
    show "P t'" if "P t" "y \<in> set xs" "f t y = Inr t'" for t y t'
      using Cons.prems(3) [OF that(1) _ that(3)] that(2) by simp
  qed
qed simp

lemma try_fold_map_err:
  assumes "\<And>s x. f s x = map_err g (h s x)"
  shows "try_fold f s xs = map_err g (try_fold h s xs)"
proof (induction xs arbitrary: s)
  case (Cons x xs)
  then show ?case by (cases "h s x") (simp_all add: assms)
qed simp

lemma err_if_Inr: "(if c then Inl e else r) = Inr a \<longleftrightarrow> \<not> c \<and> r = Inr a"
  by simp

lemma try_fold_prefix_induct:
  assumes "try_fold f s xs = Inr s'" and "P [] s"
    and "\<And>ys y t t'. P ys t \<Longrightarrow> prefix (ys @ [y]) xs \<Longrightarrow> f t y = Inr t' \<Longrightarrow> P (ys @ [y]) t'"
  shows "P xs s'"
  using assms(1,3)
proof (induction xs arbitrary: s' rule: rev_induct)
  case Nil
  then show ?case using assms(2) by simp
next
  case (snoc x xs)
  then obtain t where t: "try_fold f s xs = Inr t" "f t x = Inr s'" by (auto simp: try_fold_append)
  have "P xs t"
  proof (rule snoc.IH [OF t(1)])
    show "P (ys @ [y]) u'" if "P ys u" "prefix (ys @ [y]) xs" "f u y = Inr u'" for ys y u u'
      using snoc.prems(2) [OF that(1) _ that(3)] that(2) by simp
  qed
  with t(2) show ?case using snoc.prems(2) [of xs t x s'] by simp
qed

section \<open>Checked arithmetic on u64\<close>

definition checked_add :: "u64 \<Rightarrow> u64 \<Rightarrow> u64 option" where
  "checked_add a b = (if unat a + unat b < 2 ^ 64 then Some (a + b) else None)"

text \<open>\<open>u64::try_from\<close> of a \<open>usize\<close>; a \<open>usize\<close> is a natural number.\<close>

definition u64_try_from :: "nat \<Rightarrow> u64 option" where
  "u64_try_from n = (if n < 2 ^ 64 then Some (of_nat n) else None)"

definition u32_try_from :: "nat \<Rightarrow> u32 option" where
  "u32_try_from n = (if n < 2 ^ 32 then Some (of_nat n) else None)"

lemma unat_u64_bound: "unat (w :: u64) < 2 ^ 64"
  using unsigned_less [of w, where 'a = nat] by simp

lemma checked_add_eq_Some:
  "checked_add a b = Some c \<longleftrightarrow> unat c = unat a + unat b"
proof (cases "unat a + unat b < 2 ^ 64")
  case True
  then have "unat (a + b) = unat a + unat b"
    by (simp add: unat_word_ariths take_bit_nat_eq_self)
  with True show ?thesis by (simp only: checked_add_def if_True option.inject word_unat_eq_iff) auto
next
  case False
  with unat_u64_bound [of c] show ?thesis by (simp only: checked_add_def if_False) auto
qed

lemma u64_try_from_eq_Some: "u64_try_from n = Some w \<longleftrightarrow> unat w = n"
proof (cases "n < 2 ^ 64")
  case True
  then have "unat (of_nat n :: u64) = n" by (simp add: unat_of_nat)
  with True show ?thesis by (simp only: u64_try_from_def if_True option.inject word_unat_eq_iff) auto
next
  case False
  with unat_u64_bound [of w] show ?thesis by (simp only: u64_try_from_def if_False) auto
qed

lemma u32_try_from_eq_Some: "u32_try_from n = Some w \<longleftrightarrow> unat w = n"
proof (cases "n < 2 ^ 32")
  case True
  then have "unat (of_nat n :: u32) = n" by (simp add: unat_of_nat)
  with True show ?thesis by (simp only: u32_try_from_def if_True option.inject word_unat_eq_iff) auto
next
  case False
  have "unat w < 2 ^ 32" using unsigned_less [of w, where 'a = nat] by simp
  with False show ?thesis by (simp only: u32_try_from_def if_False) auto
qed

lemma checked_add_None: "checked_add a b = None \<longleftrightarrow> 2 ^ 64 \<le> unat a + unat b"
  unfolding checked_add_def by (simp only: option.distinct not_less split: if_split) auto

text \<open>Code equations that compute on machine words instead of on large natural numbers.\<close>

lemma fits_word: "n < 2 ^ LENGTH('a) \<longleftrightarrow> unat (of_nat n :: 'a::len word) = n"
proof
  assume "unat (of_nat n :: 'a word) = n"
  then show "n < 2 ^ LENGTH('a)" using unsigned_less [of "of_nat n :: 'a word", where 'a = nat] by simp
qed (simp add: unsigned_of_nat take_bit_nat_eq_self)

lemma u64_try_from_code [code]:
  "u64_try_from n = (let w = of_nat n in if unat w = n then Some w else None)"
  using fits_word [where 'a = 64, of n] by (simp only: u64_try_from_def Let_def) (simp del: power.simps unsigned_of_nat)

lemma u32_try_from_code [code]:
  "u32_try_from n = (let w = of_nat n in if unat w = n then Some w else None)"
  using fits_word [where 'a = 32, of n] by (simp add: u32_try_from_def Let_def)

lemma checked_add_code [code]:
  "checked_add a b = (if a \<le> a + b then Some (a + b) else None)"
  using no_olen_add_nat [of a b] by (simp add: checked_add_def)

section \<open>Lexicographic order and prefixes\<close>

text \<open>
  A list between a prefix \<open>d\<close> and an extension of \<open>d\<close> itself extends \<open>d\<close>: the first key at or
  after \<open>d\<close> in a sorted collection decides whether any key extends \<open>d\<close>.
\<close>

lemma prefix_le: "d \<le> d @ (t :: 'a::linorder list)"
  by (induction d) simp_all

lemma prefix_between:
  fixes d :: "'a::linorder list"
  assumes "d \<le> k" and "k \<le> d @ t"
  shows "prefix d k"
  using assms
proof (induction d arbitrary: k)
  case (Cons x d)
  then show ?case by (cases k) auto
qed simp

lemma find_first_geq:
  fixes d :: "'a::linorder list"
  assumes "sorted ks"
  shows "(case find (\<lambda>k. d \<le> k) ks of None \<Rightarrow> False | Some k \<Rightarrow> prefix d k)
         \<longleftrightarrow> (\<exists>k \<in> set ks. prefix d k)"
  using assms
proof (induction ks)
  case (Cons k ks)
  show ?case
  proof (cases "d \<le> k")
    case True
    then show ?thesis using Cons.prems prefix_between [of d k]
      by (auto elim!: prefixE)
  next
    case False
    then have "\<not> prefix d k" using prefix_le by (auto elim!: prefixE)
    then show ?thesis using False Cons by simp
  qed
qed simp

end
