(* ===== verification/Encoding.thy ===== *)
theory Encoding
  imports Prelude
begin

text \<open>
  Byte encodings: the fixed-width integer encodings of \<open>to_le_bytes\<close> and \<open>to_be_bytes\<close>, the bytes
  of a string, and the interface \<open>self_delimiting\<close> of encoders whose output can be recognised
  at the front of a longer input.  Every canonical encoder of the program is built from such
  parts, so each identity theorem follows from the lemmas proved once in the locale.
\<close>

named_theorems delim \<open>cancellation of self-delimiting encodings at the front of an input\<close>

section \<open>Integers and strings as bytes\<close>

definition le_bytes :: "nat \<Rightarrow> 'a::len word \<Rightarrow> byte list" where
  "le_bytes n w = map (\<lambda>i. ucast (drop_bit (8 * i) w)) [0..<n]"

definition be_bytes :: "nat \<Rightarrow> 'a::len word \<Rightarrow> byte list" where
  "be_bytes n w = rev (le_bytes n w)"

definition str_bytes :: "string \<Rightarrow> byte list" where
  "str_bytes s = map of_char s"

lemma length_le_bytes [simp]: "length (le_bytes n w) = n"
  by (simp add: le_bytes_def)

lemma length_be_bytes [simp]: "length (be_bytes n w) = n"
  by (simp add: be_bytes_def)

lemma length_str_bytes [simp]: "length (str_bytes s) = length s"
  by (simp add: str_bytes_def)

lemma le_bytes_inj:
  fixes a b :: "'a::len word"
  assumes "LENGTH('a) = 8 * n" and eq: "le_bytes n a = le_bytes n b"
  shows "a = b"
proof (rule bit_word_eqI)
  fix i
  assume "i < LENGTH('a)"
  with assms(1) have lt: "i div 8 < n" by simp
  from arg_cong [OF eq, of "\<lambda>bs. bs ! (i div 8)"] lt
  have "(ucast (drop_bit (8 * (i div 8)) a) :: byte) = ucast (drop_bit (8 * (i div 8)) b)"
    by (simp add: le_bytes_def)
  then have "bit (ucast (drop_bit (8 * (i div 8)) a) :: byte) (i mod 8)
           = bit (ucast (drop_bit (8 * (i div 8)) b) :: byte) (i mod 8)"
    by simp
  then show "bit a i = bit b i"
    by (simp add: bit_ucast_iff bit_drop_bit_eq)
qed

lemma be_bytes_inj:
  fixes a b :: "'a::len word"
  assumes "LENGTH('a) = 8 * n" and "be_bytes n a = be_bytes n b"
  shows "a = b"
  using assms le_bytes_inj [of n a b] by (simp add: be_bytes_def)

lemma of_char_byte_inj: "(of_char c :: byte) = of_char d \<longleftrightarrow> c = d"
proof
  assume eq: "(of_char c :: byte) = of_char d"
  have "unat (of_char e :: byte) = of_char e" for e :: char
    using unat_of_nat [of "of_char e", where 'a = 8] by (simp add: of_nat_of_char)
  with eq have "(of_char c :: nat) = of_char d" by metis
  then show "c = d" by simp
qed simp

lemma str_bytes_inj [simp]: "str_bytes s = str_bytes t \<longleftrightarrow> s = t"
  using inj_map_eq_map [of "of_char :: char \<Rightarrow> byte"] of_char_byte_inj
  by (auto simp: str_bytes_def inj_def)

section \<open>Self-delimiting encoders\<close>

text \<open>
  \<open>enc\<close> encodes the values accepted by \<open>ok\<close>.  Its output is never empty, and from an input
  that starts with an encoding both the value and the rest can be recovered.
\<close>

locale self_delimiting =
  fixes enc :: "'a \<Rightarrow> byte list"
    and ok :: "'a \<Rightarrow> bool"
  assumes cancel: "ok a \<Longrightarrow> ok b \<Longrightarrow> enc a @ s = enc b @ t \<Longrightarrow> a = b \<and> s = t"
    and nonempty: "enc a \<noteq> []"
begin

lemma cancel_iff: "ok a \<Longrightarrow> ok b \<Longrightarrow> enc a @ s = enc b @ t \<longleftrightarrow> a = b \<and> s = t"
  using cancel by blast

lemma injective: "ok a \<Longrightarrow> ok b \<Longrightarrow> enc a = enc b \<Longrightarrow> a = b"
  using cancel [of a b "[]" "[]"] by simp

text \<open>
  A sequence of encodings followed by a trailer of known length (an entry count, a digest)
  determines the sequence and the trailer.
\<close>

lemma sequence_trailer:
  assumes "list_all ok xs" and "list_all ok ys" and "length t = length u"
    and "concat (map enc xs) @ t = concat (map enc ys) @ u"
  shows "xs = ys \<and> t = u"
  using assms
proof (induction xs arbitrary: ys)
  case Nil
  then have "length (concat (map enc ys)) = 0"
    by (metis append_Nil concat.simps(1) add_cancel_left_left length_append list.map(1))
  then have "ys = []" using nonempty by (cases ys) simp_all
  with Nil show ?case by simp
next
  case (Cons x xs)
  show ?case
  proof (cases ys)
    case Nil
    then have "length (enc x) + length (concat (map enc xs)) + length t = length u"
      using arg_cong [OF Cons.prems(4), of length] by simp
    then show ?thesis using Cons.prems(3) nonempty [of x] by simp
  next
    case (Cons y zs)
    with Cons.prems have "enc x @ concat (map enc xs) @ t = enc y @ concat (map enc zs) @ u" by simp
    with cancel Cons.prems(1,2) Cons have "x = y" "concat (map enc xs) @ t = concat (map enc zs) @ u"
      by (metis list.pred_inject(2))+
    then show ?thesis using Cons.prems(1,2,3) Cons.IH [of zs] Cons by simp
  qed
qed

text \<open>So does a sequence whose number of elements is known.\<close>

lemma sequence_counted:
  assumes "list_all ok xs" and "list_all ok ys" and "length xs = length ys"
    and "concat (map enc xs) @ s = concat (map enc ys) @ t"
  shows "xs = ys \<and> s = t"
  using assms(3,1,2,4)
proof (induction xs ys rule: list_induct2)
  case (Cons x xs y ys)
  then have "x = y \<and> concat (map enc xs) @ s = concat (map enc ys) @ t"
    using cancel [of x y] by simp
  with Cons show ?case by simp
qed simp

end

text \<open>Encoders of a fixed width are self-delimiting when they are injective.\<close>

lemma fixed_width_cancel:
  assumes "\<And>a. length (enc a) = n" and "\<And>a b. enc a = enc b \<Longrightarrow> a = b"
    and "enc a @ s = enc b @ (t :: byte list)"
  shows "a = b \<and> s = t"
  using assms by (metis append_eq_append_conv)

lemma fixed_width_nonempty: "length bs = n \<Longrightarrow> 0 < n \<Longrightarrow> bs \<noteq> []"
  by auto

definition le64 :: "u64 \<Rightarrow> byte list" where
  "le64 w = le_bytes 8 w"

definition be64 :: "u64 \<Rightarrow> byte list" where
  "be64 w = be_bytes 8 w"

definition le32 :: "u32 \<Rightarrow> byte list" where
  "le32 w = le_bytes 4 w"

lemma length_int_bytes [simp]: "length (le64 w) = 8" "length (be64 w) = 8" "length (le32 v) = 4"
  by (simp_all add: le64_def be64_def le32_def)

lemma le64_inj: "le64 a = le64 b \<Longrightarrow> a = b"
  unfolding le64_def by (rule le_bytes_inj [of 8]) simp_all

lemma be64_inj: "be64 a = be64 b \<Longrightarrow> a = b"
  unfolding be64_def by (rule be_bytes_inj [of 8]) simp_all

interpretation le64: self_delimiting le64 "\<lambda>_. True"
proof
  show "a = b \<and> s = t" if "le64 a @ s = le64 b @ t" for a b s t
    by (rule fixed_width_cancel [OF _ le64_inj that]) simp_all
  show "le64 a \<noteq> []" for a by (rule fixed_width_nonempty [of _ 8]) simp_all
qed

interpretation be64: self_delimiting be64 "\<lambda>_. True"
proof
  show "a = b \<and> s = t" if "be64 a @ s = be64 b @ t" for a b s t
    by (rule fixed_width_cancel [OF _ be64_inj that]) simp_all
  show "be64 a \<noteq> []" for a by (rule fixed_width_nonempty [of _ 8]) simp_all
qed

text \<open>Byte strings preceded by their length in eight bytes.\<close>

definition fits_u64 :: "'a list \<Rightarrow> bool" where
  "fits_u64 xs \<longleftrightarrow> length xs < 2 ^ 64"

definition le_len_prefixed :: "byte list \<Rightarrow> byte list" where
  "le_len_prefixed bs = le64 (of_nat (length bs)) @ bs"

definition be_len_prefixed :: "byte list \<Rightarrow> byte list" where
  "be_len_prefixed bs = be64 (of_nat (length bs)) @ bs"

lemma of_nat_u64_inj:
  assumes "m < 2 ^ 64" and "n < 2 ^ 64" and "(of_nat m :: u64) = of_nat n"
  shows "m = n"
proof -
  have "unat (of_nat k :: u64) = k" if "k < 2 ^ 64" for k
    using that by (simp add: unat_of_nat take_bit_nat_eq_self)
  then show ?thesis using assms by metis
qed

lemma len_prefixed_cancel:
  assumes "fits_u64 a" and "fits_u64 b"
    and "(of_nat (length a) :: u64) = of_nat (length b) \<and> a @ s = b @ t"
  shows "a = b \<and> s = (t :: byte list)"
proof -
  have "length a = length b" using assms by (auto simp only: fits_u64_def intro: of_nat_u64_inj)
  with assms(3) show ?thesis by simp
qed

interpretation le_len: self_delimiting le_len_prefixed fits_u64
proof
  show "a = b \<and> s = t"
    if "fits_u64 a" "fits_u64 b" "le_len_prefixed a @ s = le_len_prefixed b @ t" for a b s t
  proof -
    have "le64 (of_nat (length a)) @ a @ s = le64 (of_nat (length b)) @ b @ t"
      using that(3) by (simp add: le_len_prefixed_def)
    from le64.cancel [OF TrueI TrueI this] that(1,2) show ?thesis
      by (intro len_prefixed_cancel) simp_all
  qed
  show "le_len_prefixed a \<noteq> []" for a by (simp add: le_len_prefixed_def le64.nonempty)
qed

interpretation be_len: self_delimiting be_len_prefixed fits_u64
proof
  show "a = b \<and> s = t"
    if "fits_u64 a" "fits_u64 b" "be_len_prefixed a @ s = be_len_prefixed b @ t" for a b s t
  proof -
    have "be64 (of_nat (length a)) @ a @ s = be64 (of_nat (length b)) @ b @ t"
      using that(3) by (simp add: be_len_prefixed_def)
    from be64.cancel [OF TrueI TrueI this] that(1,2) show ?thesis
      by (intro len_prefixed_cancel) simp_all
  qed
  show "be_len_prefixed a \<noteq> []" for a by (simp add: be_len_prefixed_def be64.nonempty)
qed

text \<open>A sequence preceded by its length as a big-endian count is self-delimiting, too.\<close>

definition be_seq :: "('a \<Rightarrow> byte list) \<Rightarrow> 'a list \<Rightarrow> byte list" where
  "be_seq enc xs = be64 (of_nat (length xs)) @ concat (map enc xs)"

context self_delimiting
begin

lemma seq_cancel:
  assumes "list_all ok xs" and "list_all ok ys" and "length xs < 2 ^ 64" and "length ys < 2 ^ 64"
  shows "be_seq enc xs @ s = be_seq enc ys @ t \<longleftrightarrow> xs = ys \<and> s = t"
proof
  assume "be_seq enc xs @ s = be_seq enc ys @ t"
  then have "(of_nat (length xs) :: u64) = of_nat (length ys)" and "concat (map enc xs) @ s = concat (map enc ys) @ t"
    using be64.cancel unfolding be_seq_def append_assoc by blast+
  then show "xs = ys \<and> s = t"
    using assms by (intro sequence_counted) (simp_all add: of_nat_u64_inj)
qed simp

lemmas seq_inj = seq_cancel [where s = "[]" and t = "[]", simplified]

end

end
