(* ===== verification/Digests.thy ===== *)
theory Digests
  imports Encoding
begin

text \<open>
  Validation errors (\<open>core/error.rs\<close>) and content identifiers (\<open>core/ids.rs\<close>).

  A \<open>ValidationError\<close> is represented by its stable category; the diagnostic message is not
  part of the model.  A \<open>ContentDigest\<close> holds its 32 bytes as one 256-bit word, most significant
  byte first, so the derived bytewise order of the source is the order of the words (lemma
  \<open>digest_le_as_bytes\<close>).  BLAKE3 is a parameter of the definitions that hash.
\<close>

section \<open>Errors\<close>

datatype validation_error_kind =
    InvalidDigest | InvalidPath | InvalidObject | InvalidManifest | InvalidDirectory
  | InvalidCommit | InvalidPublication | InvalidIndex | Overflow

type_synonym 'a validation_result = "validation_error_kind + 'a"

section \<open>Content digests and typed identifiers\<close>

datatype content_digest = ContentDigest "256 word"

primrec digest_word :: "content_digest \<Rightarrow> 256 word" where
  "digest_word (ContentDigest w) = w"

definition digest_as_bytes :: "content_digest \<Rightarrow> byte list" where
  "digest_as_bytes d = be_bytes 32 (digest_word d)"

definition digest_from_bytes :: "byte list \<Rightarrow> content_digest" where
  "digest_from_bytes bs =
     ContentDigest (horner_sum of_bool 2 (concat (map (\<lambda>b. map (bit b) [0..<8]) (rev bs))))"

datatype object_id = ObjectId content_digest
datatype manifest_id = ManifestId content_digest
datatype directory_id = DirectoryId content_digest
datatype commit_id = CommitId content_digest

primrec object_digest :: "object_id \<Rightarrow> content_digest" where
  "object_digest (ObjectId d) = d"

primrec manifest_digest :: "manifest_id \<Rightarrow> content_digest" where
  "manifest_digest (ManifestId d) = d"

primrec directory_digest :: "directory_id \<Rightarrow> content_digest" where
  "directory_digest (DirectoryId d) = d"

primrec commit_digest :: "commit_id \<Rightarrow> content_digest" where
  "commit_digest (CommitId d) = d"

text \<open>\<open>ObjectId::for_bytes\<close>; \<open>blake3\<close> is the hash of the complete byte string.\<close>

definition object_id_for_bytes :: "(byte list \<Rightarrow> content_digest) \<Rightarrow> byte list \<Rightarrow> object_id" where
  "object_id_for_bytes blake3 bs = ObjectId (blake3 bs)"

section \<open>Hexadecimal text\<close>

definition hex_digit :: "nat \<Rightarrow> char" where
  "hex_digit n = (if n < 10 then char_of (48 + n) else char_of (87 + n))"

text \<open>\<open>{byte:02x}\<close> for every byte.\<close>

definition hex_byte :: "byte \<Rightarrow> string" where
  "hex_byte b = [hex_digit (unat b div 16), hex_digit (unat b mod 16)]"

definition digest_to_hex :: "content_digest \<Rightarrow> string" where
  "digest_to_hex d = concat (map hex_byte (digest_as_bytes d))"

definition is_lower_hex :: "char \<Rightarrow> bool" where
  "is_lower_hex c \<longleftrightarrow> (CHR ''0'' \<le> c \<and> c \<le> CHR ''9'') \<or> (CHR ''a'' \<le> c \<and> c \<le> CHR ''f'')"

definition digest_from_str :: "(string \<Rightarrow> content_digest option) \<Rightarrow> string \<Rightarrow> content_digest validation_result" where
  "digest_from_str hash_from_hex s =
     (if length s \<noteq> 64 \<or> \<not> list_all is_lower_hex s then Inl InvalidDigest
      else ok_or InvalidDigest (hash_from_hex s))"

text \<open>
  The documented behaviour of \<open>blake3::Hash::from_hex\<close> on lowercase text: each pair of digits is
  one byte, high digit first.  \<open>hex_decode\<close> is such a decoder.
\<close>

definition hex_value :: "char \<Rightarrow> nat" where
  "hex_value c = (let n = of_char c in if n < 58 then n - 48 else n - 87)"

fun hex_pairs :: "string \<Rightarrow> byte list" where
  "hex_pairs (h # l # s) = of_nat (16 * hex_value h + hex_value l) # hex_pairs s"
| "hex_pairs _ = []"

definition decodes_hex :: "(string \<Rightarrow> content_digest option) \<Rightarrow> bool" where
  "decodes_hex hash_from_hex \<longleftrightarrow>
     (\<forall>s. length s = 64 \<and> list_all is_lower_hex s \<longrightarrow> hash_from_hex s = Some (digest_from_bytes (hex_pairs s)))"

definition hex_decode :: "string \<Rightarrow> content_digest option" where
  "hex_decode s =
     (if length s = 64 \<and> list_all is_lower_hex s then Some (digest_from_bytes (hex_pairs s)) else None)"

section \<open>Bytes of a digest\<close>

lemma length_digest_as_bytes [simp]: "length (digest_as_bytes d) = 32"
  by (simp add: digest_as_bytes_def)

lemma digest_as_bytes_inj [simp]: "digest_as_bytes a = digest_as_bytes b \<longleftrightarrow> a = b"
proof
  assume "digest_as_bytes a = digest_as_bytes b"
  then have "digest_word a = digest_word b"
    unfolding digest_as_bytes_def by (intro be_bytes_inj [of 32]) simp_all
  then show "a = b" by (cases a; cases b) simp
qed simp

lemma nth_concat_chunks:
  assumes "\<And>xs. xs \<in> set xss \<Longrightarrow> length xs = n" and "i < n * length xss"
  shows "concat xss ! i = xss ! (i div n) ! (i mod n)"
  using assms
proof (induction xss arbitrary: i)
  case (Cons xs xss)
  then have len: "length xs = n" by simp
  show ?case
  proof (cases "i < n")
    case False
    then have "0 < n" using Cons.prems(2) by (cases n) simp_all
    then have "i div n = Suc ((i - n) div n)" "i mod n = (i - n) mod n"
      using False by (simp_all add: le_div_geq le_mod_geq)
    then show ?thesis using False len Cons.IH [of "i - n"] Cons.prems by (simp add: nth_append)
  qed (simp add: nth_append len)
qed simp

lemma length_concat_chunks:
  "(\<And>xs. xs \<in> set xss \<Longrightarrow> length xs = n) \<Longrightarrow> length (concat xss) = n * length xss"
  by (induction xss) simp_all

lemma digest_as_from_bytes [simp]:
  assumes "length bs = 32"
  shows "digest_as_bytes (digest_from_bytes bs) = bs"
proof -
  define bits where "bits = concat (map (\<lambda>b :: byte. map (bit b) [0..<8]) (rev bs))"
  have len: "length bits = 256"
    unfolding bits_def using assms by (subst length_concat_chunks [where n = 8]) auto
  have nth: "bits ! i = bit (rev bs ! (i div 8)) (i mod 8)" if "i < 256" for i
    unfolding bits_def using that assms by (subst nth_concat_chunks [where n = 8]) auto
  have "le_bytes 32 (horner_sum of_bool 2 bits :: 256 word) = rev bs"
  proof (rule nth_equalityI)
    fix i
    assume "i < length (le_bytes 32 (horner_sum of_bool 2 bits :: 256 word))"
    then have i: "i < 32" by simp
    show "le_bytes 32 (horner_sum of_bool 2 bits :: 256 word) ! i = rev bs ! i"
    proof (rule bit_word_eqI)
      fix k
      assume "k < LENGTH(8)"
      then have k: "k < 8" by simp
      then show "bit (le_bytes 32 (horner_sum of_bool 2 bits :: 256 word) ! i) k = bit (rev bs ! i) k"
        using i len nth [of "8 * i + k"]
        by (simp add: le_bytes_def bit_ucast_iff bit_drop_bit_eq bit_horner_sum_bit_iff)
    qed
  qed (simp add: assms)
  then show ?thesis
    by (simp add: digest_as_bytes_def digest_from_bytes_def be_bytes_def bits_def)
qed

lemma digest_from_as_bytes [simp]: "digest_from_bytes (digest_as_bytes d) = d"
  by (metis digest_as_bytes_inj digest_as_from_bytes length_digest_as_bytes)

interpretation digest: self_delimiting digest_as_bytes "\<lambda>_. True"
proof
  show "a = b \<and> s = t" if "digest_as_bytes a @ s = digest_as_bytes b @ t" for a b s t
    using that by (rule fixed_width_cancel [of digest_as_bytes 32, rotated 2]) simp_all
  show "digest_as_bytes a \<noteq> []" for a by (rule fixed_width_nonempty [of _ 32]) simp_all
qed

section \<open>Order\<close>

instantiation content_digest :: linorder
begin

definition less_eq_content_digest :: "content_digest \<Rightarrow> content_digest \<Rightarrow> bool" where
  "a \<le> b \<longleftrightarrow> digest_word a \<le> digest_word b"

definition less_content_digest :: "content_digest \<Rightarrow> content_digest \<Rightarrow> bool" where
  "a < b \<longleftrightarrow> digest_word a < digest_word b"

instance
proof
  fix a b :: content_digest
  show "a \<le> b \<Longrightarrow> b \<le> a \<Longrightarrow> a = b"
    by (cases a; cases b) (simp add: less_eq_content_digest_def)
qed (auto simp: less_eq_content_digest_def less_content_digest_def)

end

text \<open>The numeric order of big-endian words is the lexicographic order of their bytes.\<close>

lemma be_bytes_Suc:
  "be_bytes (Suc n) w = ucast (drop_bit (8 * n) w) # be_bytes n w"
  by (simp add: be_bytes_def le_bytes_def)

lemma take_bit_Suc_byte:
  fixes x :: nat
  shows "take_bit (8 * Suc n) x = take_bit 8 (drop_bit (8 * n) x) * 2 ^ (8 * n) + take_bit (8 * n) x"
proof -
  have "(2 :: nat) ^ (8 * Suc n) = 2 ^ (8 * n) * 256" by (simp add: power_add)
  then show ?thesis
    by (simp only: take_bit_eq_mod drop_bit_eq_div mod_mult2_eq) simp
qed

lemma digit_order:
  fixes p q r s m :: nat
  assumes "r < m" and "s < m"
  shows "p * m + r \<le> q * m + s \<longleftrightarrow> p < q \<or> p = q \<and> r \<le> s"
proof -
  have *: "p * m + r < q * m + s" if "p < q" "r < m" for p q r s :: nat
  proof -
    have "Suc p * m \<le> q * m" using that by (intro mult_le_mono1) simp
    then show ?thesis using that by simp
  qed
  show ?thesis
    using * [of p q r s] * [of q p s r] assms by (cases p q rule: linorder_cases) auto
qed

lemma be_bytes_le:
  fixes a b :: "'a::len word"
  shows "be_bytes n a \<le> be_bytes n b \<longleftrightarrow> take_bit (8 * n) (unat a) \<le> take_bit (8 * n) (unat b)"
proof (induction n)
  case 0
  then show ?case by (simp add: be_bytes_def le_bytes_def)
next
  case (Suc n)
  have u: "unat (ucast (drop_bit (8 * n) w) :: byte) = take_bit 8 (drop_bit (8 * n) (unat w))" for w :: "'a word"
    using unsigned_less [of w, where 'a = nat]
    by (simp add: unsigned_ucast_eq unsigned_drop_bit_eq take_bit_nat_eq_self)
  show ?case
    unfolding be_bytes_Suc take_bit_Suc_byte
    by (subst digit_order) (simp_all add: Suc u word_less_nat_alt word_unat_eq_iff)
qed

lemma digest_le_as_bytes: "a \<le> b \<longleftrightarrow> digest_as_bytes a \<le> digest_as_bytes b"
proof -
  have "take_bit 256 (unat (w :: 256 word)) = unat w" for w
    using unsigned_less [of w, where 'a = nat] by (simp add: take_bit_nat_eq_self)
  then show ?thesis
    by (simp add: less_eq_content_digest_def digest_as_bytes_def be_bytes_le word_le_nat_alt)
qed

instantiation object_id :: linorder
begin

definition less_eq_object_id :: "object_id \<Rightarrow> object_id \<Rightarrow> bool" where
  "a \<le> b \<longleftrightarrow> object_digest a \<le> object_digest b"

definition less_object_id :: "object_id \<Rightarrow> object_id \<Rightarrow> bool" where
  "a < b \<longleftrightarrow> object_digest a < object_digest b"

instance
proof
  fix a b :: object_id
  show "a \<le> b \<Longrightarrow> b \<le> a \<Longrightarrow> a = b"
    by (cases a; cases b) (simp add: less_eq_object_id_def)
qed (auto simp: less_eq_object_id_def less_object_id_def)

end

instantiation manifest_id :: linorder
begin

definition less_eq_manifest_id :: "manifest_id \<Rightarrow> manifest_id \<Rightarrow> bool" where
  "a \<le> b \<longleftrightarrow> manifest_digest a \<le> manifest_digest b"

definition less_manifest_id :: "manifest_id \<Rightarrow> manifest_id \<Rightarrow> bool" where
  "a < b \<longleftrightarrow> manifest_digest a < manifest_digest b"

instance
proof
  fix a b :: manifest_id
  show "a \<le> b \<Longrightarrow> b \<le> a \<Longrightarrow> a = b"
    by (cases a; cases b) (simp add: less_eq_manifest_id_def)
qed (auto simp: less_eq_manifest_id_def less_manifest_id_def)

end

instantiation directory_id :: linorder
begin

definition less_eq_directory_id :: "directory_id \<Rightarrow> directory_id \<Rightarrow> bool" where
  "a \<le> b \<longleftrightarrow> directory_digest a \<le> directory_digest b"

definition less_directory_id :: "directory_id \<Rightarrow> directory_id \<Rightarrow> bool" where
  "a < b \<longleftrightarrow> directory_digest a < directory_digest b"

instance
proof
  fix a b :: directory_id
  show "a \<le> b \<Longrightarrow> b \<le> a \<Longrightarrow> a = b"
    by (cases a; cases b) (simp add: less_eq_directory_id_def)
qed (auto simp: less_eq_directory_id_def less_directory_id_def)

end

instantiation commit_id :: linorder
begin

definition less_eq_commit_id :: "commit_id \<Rightarrow> commit_id \<Rightarrow> bool" where
  "a \<le> b \<longleftrightarrow> commit_digest a \<le> commit_digest b"

definition less_commit_id :: "commit_id \<Rightarrow> commit_id \<Rightarrow> bool" where
  "a < b \<longleftrightarrow> commit_digest a < commit_digest b"

instance
proof
  fix a b :: commit_id
  show "a \<le> b \<Longrightarrow> b \<le> a \<Longrightarrow> a = b"
    by (cases a; cases b) (simp add: less_eq_commit_id_def)
qed (auto simp: less_eq_commit_id_def less_commit_id_def)

end

lemmas id_order_defs =
  less_eq_content_digest_def less_content_digest_def less_eq_object_id_def less_object_id_def
  less_eq_manifest_id_def less_manifest_id_def less_eq_directory_id_def less_directory_id_def
  less_eq_commit_id_def less_commit_id_def

lemma id_digest_inj [simp]:
  "object_digest a = object_digest b \<longleftrightarrow> a = b"
  "manifest_digest c = manifest_digest d \<longleftrightarrow> c = d"
  "directory_digest e = directory_digest f \<longleftrightarrow> e = f"
  "commit_digest g = commit_digest h \<longleftrightarrow> g = h"
  subgoal by (cases a; cases b) simp
  subgoal by (cases c; cases d) simp
  subgoal by (cases e; cases f) simp
  subgoal by (cases g; cases h) simp
  done

section \<open>Hexadecimal round trip\<close>

lemma hex_digit_props:
  assumes "n < 16"
  shows "is_lower_hex (hex_digit n)" and "hex_value (hex_digit n) = n"
proof -
  have "(of_char (hex_digit n) :: nat) = (if n < 10 then 48 + n else 87 + n)"
    using assms by (simp add: hex_digit_def)
  then show "is_lower_hex (hex_digit n)" "hex_value (hex_digit n) = n"
    using assms by (auto simp: is_lower_hex_def hex_value_def less_eq_char_def Let_def)
qed

lemma hex_digit_value:
  assumes "is_lower_hex c"
  shows "hex_digit (hex_value c) = c" and "hex_value c < 16"
proof -
  have "of_char c \<in> {48..57} \<union> {97..102 :: nat}"
    using assms by (auto simp: is_lower_hex_def less_eq_char_def)
  then have "of_char c < (58 :: nat) \<and> 48 \<le> (of_char c :: nat) \<or> 97 \<le> (of_char c :: nat) \<and> (of_char c :: nat) < 103"
    by auto
  then show "hex_digit (hex_value c) = c" "hex_value c < 16"
    by (auto simp: hex_digit_def hex_value_def Let_def)
qed

lemma hex_pairs_hex_byte: "hex_pairs (concat (map hex_byte bs)) = bs"
proof (induction bs)
  case (Cons b bs)
  have "unat b < 256" using unsigned_less [of b, where 'a = nat] by simp
  then have "unat b div 16 < 16" "unat b mod 16 < 16" by auto
  then show ?case using Cons by (simp add: hex_byte_def hex_digit_props)
qed simp

lemma concat_hex_byte_pairs:
  "even (length s) \<Longrightarrow> list_all is_lower_hex s \<Longrightarrow> concat (map hex_byte (hex_pairs s)) = s"
proof (induction s rule: hex_pairs.induct)
  case (1 h l s)
  then have "hex_value h < 16" "hex_value l < 16" by (simp_all add: hex_digit_value)
  moreover from this have "unat (of_nat (16 * hex_value h + hex_value l) :: byte) = 16 * hex_value h + hex_value l"
    by (subst unat_of_nat) simp
  ultimately show ?case using 1 by (simp add: hex_byte_def hex_digit_value)
qed auto

lemma length_hex_pairs: "length (hex_pairs s) = length s div 2"
  by (induction s rule: hex_pairs.induct) auto

lemma digest_to_hex_shape: "length (digest_to_hex d) = 64" "list_all is_lower_hex (digest_to_hex d)"
proof -
  have "length (concat (map hex_byte bs)) = 2 * length bs" for bs
    by (induction bs) (simp_all add: hex_byte_def)
  then show "length (digest_to_hex d) = 64" by (simp add: digest_to_hex_def)
  have "list_all is_lower_hex (concat (map hex_byte bs))" for bs
  proof (induction bs)
    case (Cons b bs)
    have "unat b < 256" using unsigned_less [of b, where 'a = nat] by simp
    then have "unat b div 16 < 16" "unat b mod 16 < 16" by auto
    then show ?case using Cons by (simp add: hex_byte_def hex_digit_props)
  qed simp
  then show "list_all is_lower_hex (digest_to_hex d)" by (simp add: digest_to_hex_def)
qed

lemma hex_decode_decodes: "decodes_hex hex_decode"
  by (simp add: decodes_hex_def hex_decode_def)

lemma digest_from_str_iff:
  assumes "decodes_hex hash_from_hex"
  shows "digest_from_str hash_from_hex s = Inr d \<longleftrightarrow> s = digest_to_hex d"
proof
  assume "digest_from_str hash_from_hex s = Inr d"
  then have s: "length s = 64" "list_all is_lower_hex s" "hash_from_hex s = Some d"
    by (simp_all add: digest_from_str_def split: if_splits)
  then have "d = digest_from_bytes (hex_pairs s)" using assms by (simp add: decodes_hex_def)
  then show "s = digest_to_hex d"
    using s by (simp add: digest_to_hex_def length_hex_pairs concat_hex_byte_pairs)
next
  assume "s = digest_to_hex d"
  then show "digest_from_str hash_from_hex s = Inr d"
    using assms digest_to_hex_shape [of d]
    by (simp add: digest_from_str_def decodes_hex_def)
       (simp add: digest_to_hex_def hex_pairs_hex_byte)
qed

section \<open>Properties\<close>

text \<open>
  The textual form of a content digest is canonical: \<open>ContentDigest::from_str\<close> accepts exactly
  the text that \<open>to_hex\<close> prints, and parsing it gives the digest back.
\<close>

theorem digest_text_round_trip:
  assumes "decodes_hex hash_from_hex"
  shows "digest_from_str hash_from_hex s = Inr d \<longleftrightarrow> s = digest_to_hex d"
  using assms by (rule digest_from_str_iff)

theorem digest_text_round_trip_witness:
  "digest_from_str hex_decode (digest_to_hex (ContentDigest 255)) = Inr (ContentDigest 255)"
  using digest_text_round_trip [OF hex_decode_decodes] by simp

end
