(* ===== verification/BTree.thy ===== *)
theory BTree
  imports Prelude
begin

text \<open>
  The ordered collections of Rust's standard library.  A \<open>BTreeMap\<close> is an association list with
  strictly increasing keys and a \<open>BTreeSet\<close> a strictly increasing list; iteration is the list
  order.  The contract the clients rely on is the locale \<open>ordered_map\<close>, interpreted on the list
  implementation at the end.
\<close>

type_synonym ('k, 'v) btree_map = "('k \<times> 'v) list"
type_synonym 'k btree_set = "'k list"

section \<open>Operations\<close>

fun bt_insert :: "'k::linorder \<Rightarrow> 'v \<Rightarrow> ('k, 'v) btree_map \<Rightarrow> ('k, 'v) btree_map" where
  "bt_insert k v [] = [(k, v)]"
| "bt_insert k v ((k', v') # m) =
     (if k < k' then (k, v) # (k', v') # m
      else if k = k' then (k, v) # m
      else (k', v') # bt_insert k v m)"

definition bt_get :: "('k, 'v) btree_map \<Rightarrow> 'k \<Rightarrow> 'v option" where
  "bt_get m k = map_of m k"

definition bt_contains :: "('k, 'v) btree_map \<Rightarrow> 'k \<Rightarrow> bool" where
  "bt_contains m k \<longleftrightarrow> map_of m k \<noteq> None"

definition bt_remove :: "'k \<Rightarrow> ('k, 'v) btree_map \<Rightarrow> ('k, 'v) btree_map" where
  "bt_remove k m = filter (\<lambda>(k', _). k' \<noteq> k) m"

definition bt_keys :: "('k, 'v) btree_map \<Rightarrow> 'k list" where
  "bt_keys m = map fst m"

definition bt_values :: "('k, 'v) btree_map \<Rightarrow> 'v list" where
  "bt_values m = map snd m"

text \<open>\<open>collect\<close> into a map: later bindings replace earlier ones.\<close>

definition bt_collect :: "('k::linorder \<times> 'v) list \<Rightarrow> ('k, 'v) btree_map" where
  "bt_collect kvs = fold (\<lambda>(k, v). bt_insert k v) kvs []"

definition bt_ok :: "('k::linorder, 'v) btree_map \<Rightarrow> bool" where
  "bt_ok m \<longleftrightarrow> sorted_wrt (<) (map fst m)"

fun bts_insert :: "'k::linorder \<Rightarrow> 'k btree_set \<Rightarrow> 'k btree_set" where
  "bts_insert k [] = [k]"
| "bts_insert k (k' # s) =
     (if k < k' then k # k' # s else if k = k' then k' # s else k' # bts_insert k s)"

definition bts_collect :: "'k::linorder list \<Rightarrow> 'k btree_set" where
  "bts_collect ks = fold bts_insert ks []"

text \<open>\<open>set.range(d..).next()\<close>\<close>

definition bts_range_next :: "'k::linorder \<Rightarrow> 'k btree_set \<Rightarrow> 'k option" where
  "bts_range_next d s = find (\<lambda>k. d \<le> k) s"

section \<open>Laws\<close>

lemma fst_set_bt_insert [simp]: "fst ` set (bt_insert k v m) = insert k (fst ` set m)"
  by (induction k v m rule: bt_insert.induct) auto

lemma set_map_fst_bt_insert [simp]: "set (map fst (bt_insert k v m)) = insert k (fst ` set m)"
  by simp

lemma set_bt_insert_subset: "set (bt_insert k v m) \<subseteq> insert (k, v) (set m)"
  by (induction k v m rule: bt_insert.induct) auto

lemma bt_ok_insert [simp]: "bt_ok m \<Longrightarrow> bt_ok (bt_insert k v m)"
  by (induction k v m rule: bt_insert.induct) (auto simp: bt_ok_def)

lemma bt_ok_Nil [simp]: "bt_ok []"
  by (simp add: bt_ok_def)

lemma bt_get_Nil [simp]: "bt_get [] = Map.empty"
  by (simp add: bt_get_def fun_eq_iff)

lemma bt_get_insert [simp]: "bt_ok m \<Longrightarrow> bt_get (bt_insert k v m) = (bt_get m)(k \<mapsto> v)"
proof (induction k v m rule: bt_insert.induct)
  case (2 k v k' v' m)
  then show ?case by (auto simp: bt_ok_def bt_get_def fun_eq_iff)
qed (simp add: bt_get_def fun_eq_iff)

lemma bt_ok_remove [simp]: "bt_ok m \<Longrightarrow> bt_ok (bt_remove k m)"
  by (induction m) (auto simp: bt_ok_def bt_remove_def)

lemma bt_get_remove [simp]: "bt_get (bt_remove k m) = (bt_get m)(k := None)"
  by (induction m) (auto simp: bt_get_def bt_remove_def fun_eq_iff)

lemma bt_ok_distinct: "bt_ok m \<Longrightarrow> distinct (map fst m)"
  by (simp add: bt_ok_def strict_sorted_iff)

lemma bt_get_iff: "bt_ok m \<Longrightarrow> bt_get m k = Some v \<longleftrightarrow> (k, v) \<in> set m"
  by (simp add: bt_get_def bt_ok_distinct)

lemma bt_contains_iff [simp]: "bt_contains m k \<longleftrightarrow> k \<in> fst ` set m"
  by (simp add: bt_contains_def map_of_eq_None_iff)

lemma bt_get_None_iff: "bt_get m k = None \<longleftrightarrow> k \<notin> fst ` set m"
  by (simp add: bt_get_def map_of_eq_None_iff)

lemma bts_insert_set [simp]: "set (bts_insert k s) = insert k (set s)"
  by (induction k s rule: bts_insert.induct) auto

lemma bts_insert_sorted [simp]: "sorted_wrt (<) s \<Longrightarrow> sorted_wrt (<) (bts_insert k s)"
  by (induction k s rule: bts_insert.induct) auto

lemma set_bts_collect [simp]: "set (bts_collect ks) = set ks"
proof -
  have "set (fold bts_insert ks s) = set ks \<union> set s" for s
    by (induction ks arbitrary: s) auto
  then show ?thesis by (simp add: bts_collect_def)
qed

lemma sorted_bts_collect [simp]: "sorted_wrt (<) (bts_collect ks)"
proof -
  have "sorted_wrt (<) s \<Longrightarrow> sorted_wrt (<) (fold bts_insert ks s)" for s
    by (induction ks arbitrary: s) auto
  then show ?thesis by (simp add: bts_collect_def)
qed

lemma bts_range_next_prefix:
  assumes "sorted_wrt (<) s"
  shows "(case bts_range_next d s of None \<Rightarrow> False | Some k \<Rightarrow> prefix d k) \<longleftrightarrow> (\<exists>k \<in> set s. prefix d k)"
  unfolding bts_range_next_def using assms by (intro find_first_geq strict_sorted_imp_sorted)

lemma distinct_alist_eq:
  assumes d: "distinct (map fst n)" and fst_eq: "map fst m = map fst n" and sub: "set m \<subseteq> set n"
  shows "m = n"
proof (rule nth_equalityI)
  show len: "length m = length n" using arg_cong [OF fst_eq, of length] by simp
  fix i
  assume i: "i < length m"
  with sub have "m ! i \<in> set n" by auto
  then obtain j where j: "j < length n" "n ! j = m ! i" by (auto simp: in_set_conv_nth)
  have "map fst n ! j = map fst n ! i" using i j len fst_eq by (metis nth_map)
  then have "j = i" using d i j(1) len by (simp add: nth_eq_iff_index_eq del: nth_map)
  with j show "m ! i = n ! i" by simp
qed

text \<open>A strictly sorted association list is determined by the map it denotes.\<close>

lemma sorted_keys_unique:
  assumes "sorted_wrt (<) (map fst m)" and "sorted_wrt (<) (map fst n)"
    and "map_of m = (map_of n :: 'k::linorder \<Rightarrow> 'v option)"
  shows "m = n"
proof -
  have d: "distinct (map fst m)" "distinct (map fst n)"
    using assms(1,2) by (simp_all add: strict_sorted_iff)
  have "set m = set n"
    using d assms(3) map_of_inject_set by blast
  moreover from this have "map fst m = map fst n"
    using assms(1,2) by (intro strict_sorted_equal) simp_all
  ultimately show ?thesis
    using d(2) by (intro distinct_alist_eq) simp_all
qed

lemma bt_keys_insert: "bt_keys (bt_insert k v m) = bts_insert k (bt_keys m)"
  by (induction k v m rule: bt_insert.induct) (auto simp: bt_keys_def)

lemma bts_insert_present: "sorted_wrt (<) s \<Longrightarrow> k \<in> set s \<Longrightarrow> bts_insert k s = s"
  by (induction k s rule: bts_insert.induct) auto

lemma bt_insert_last: "\<forall>k' \<in> fst ` set m. k' < k \<Longrightarrow> bt_insert k v m = m @ [(k :: 'k::linorder, v)]"
  by (induction m) auto

lemma bt_insert_again [simp]: "bt_insert k v (bt_insert k u m) = bt_insert k v (m :: ('k::linorder, 'v) btree_map)"
  by (induction k u m rule: bt_insert.induct) auto

lemma sorted_prefix_last:
  assumes "bt_ok xs" and "prefix (ys @ [y]) xs"
  shows "\<forall>k \<in> fst ` set ys. k < fst y"
  using assms by (fastforce simp: bt_ok_def prefix_def sorted_wrt_append)

lemma map_of_snoc_new: "p \<notin> fst ` set fs \<Longrightarrow> map_of (fs @ [(p, f)]) = (map_of fs)(p \<mapsto> f)"
  by (auto simp: fun_eq_iff map_add_def split: option.splits dest: map_of_SomeD intro: rev_image_eqI)

section \<open>The interface of an ordered map\<close>

locale ordered_map =
  fixes empty :: "'m"
    and insert_key :: "'k::linorder \<Rightarrow> 'v \<Rightarrow> 'm \<Rightarrow> 'm"
    and remove_key :: "'k \<Rightarrow> 'm \<Rightarrow> 'm"
    and get :: "'m \<Rightarrow> 'k \<Rightarrow> 'v option"
    and entries :: "'m \<Rightarrow> ('k \<times> 'v) list"
    and invar :: "'m \<Rightarrow> bool"
  assumes get_empty: "get empty = Map.empty"
    and get_insert: "invar m \<Longrightarrow> get (insert_key k v m) = (get m)(k \<mapsto> v)"
    and get_remove: "invar m \<Longrightarrow> get (remove_key k m) = (get m)(k := None)"
    and invar_empty: "invar empty"
    and invar_insert: "invar m \<Longrightarrow> invar (insert_key k v m)"
    and invar_remove: "invar m \<Longrightarrow> invar (remove_key k m)"
    and entries_sorted: "invar m \<Longrightarrow> sorted_wrt (<) (map fst (entries m))"
    and entries_get: "invar m \<Longrightarrow> map_of (entries m) = get m"
begin

lemma entries_iff: "invar m \<Longrightarrow> (k, v) \<in> set (entries m) \<longleftrightarrow> get m k = Some v"
  using entries_sorted [of m] entries_get [of m]
  by (metis map_of_eq_Some_iff strict_sorted_iff)

lemma entries_unique: "invar m \<Longrightarrow> invar n \<Longrightarrow> get m = get n \<Longrightarrow> entries m = entries n"
  using entries_sorted entries_get by (intro sorted_keys_unique) simp_all

lemma collect_invar: "invar m \<Longrightarrow> invar (fold (\<lambda>(k, v). insert_key k v) kvs m)"
  by (induction kvs arbitrary: m) (auto simp: invar_insert)

lemma collect_get: "invar m \<Longrightarrow> get (fold (\<lambda>(k, v). insert_key k v) kvs m) = get m ++ map_of (rev kvs)"
proof (induction kvs arbitrary: m)
  case (Cons kv kvs)
  then show ?case
    by (cases kv) (auto simp: get_insert invar_insert map_add_def fun_eq_iff split: option.splits)
qed simp

text \<open>
  Distinct bindings may be inserted in any order: the resulting iteration order is the same.
\<close>

lemma collect_permutation:
  assumes "distinct (map fst kvs)" and "distinct (map fst kvs')" and "set kvs = set kvs'"
  shows "entries (fold (\<lambda>(k, v). insert_key k v) kvs empty)
       = entries (fold (\<lambda>(k, v). insert_key k v) kvs' empty)"
proof -
  have "map_of (rev kvs) = map_of (rev kvs')"
    using assms by (subst map_of_inject_set) (simp_all add: rev_map [symmetric])
  then show ?thesis
    by (intro entries_unique) (simp_all add: collect_get collect_invar invar_empty)
qed

end

interpretation bt: ordered_map "[]" bt_insert bt_remove bt_get "\<lambda>m. m" bt_ok
proof
  show "sorted_wrt (<) (map fst m)" if "bt_ok m" for m :: "('a \<times> 'b) list"
    using that by (simp add: bt_ok_def)
  show "map_of m = bt_get m" for m :: "('a \<times> 'b) list"
    by (simp add: bt_get_def fun_eq_iff)
qed simp_all

lemma bt_ok_collect [simp]: "bt_ok (bt_collect kvs)"
  unfolding bt_collect_def by (rule bt.collect_invar) simp

lemma bt_get_collect: "bt_get (bt_collect kvs) = map_of (rev kvs)"
  unfolding bt_collect_def by (subst bt.collect_get) simp_all

lemma fst_set_bt_collect [simp]: "fst ` set (bt_collect kvs) = fst ` set kvs"
proof -
  have "k \<in> fst ` set (bt_collect kvs) \<longleftrightarrow> k \<in> fst ` set kvs" for k
    using bt_get_None_iff [of "bt_collect kvs" k] by (simp add: bt_get_collect map_of_eq_None_iff)
  then show ?thesis by blast
qed

lemma set_bt_collect:
  assumes "distinct (map fst kvs)"
  shows "set (bt_collect kvs) = set kvs"
proof -
  have "map_of (bt_collect kvs) = map_of (rev kvs)"
    using bt_get_collect [of kvs] by (simp add: bt_get_def fun_eq_iff)
  then have "set (bt_collect kvs) = set (rev kvs)"
    using assms by (subst (asm) map_of_inject_set) (simp_all add: bt_ok_distinct rev_map [symmetric])
  then show ?thesis by simp
qed

end
