(* ===== verification/Paths.thy ===== *)
theory Paths
  imports Digests BTree
begin

text \<open>
  Logical paths (\<open>core/path.rs\<close>): portable path components, repository-relative paths with
  \<open>/\<close> separators and the validation of sets of paths.  Unicode normalisation and case folding
  come from the crates \<open>unicode-normalization\<close> and \<open>unicode-casefold\<close>; they are the two functions
  of the record \<open>unicode\<close>, a parameter of every definition that uses them.
\<close>

section \<open>String primitives of the standard library\<close>

text \<open>\<open>str::split\<close> on one character, which always yields at least one piece.\<close>

fun split_on :: "char \<Rightarrow> string \<Rightarrow> string list" where
  "split_on c [] = [[]]"
| "split_on c (x # xs) =
     (if x = c then [] # split_on c xs
      else (case split_on c xs of [] \<Rightarrow> [[x]] | p # ps \<Rightarrow> (x # p) # ps))"

fun join_with :: "char \<Rightarrow> string list \<Rightarrow> string" where
  "join_with c [] = []"
| "join_with c [p] = p"
| "join_with c (p # ps) = p @ c # join_with c ps"

definition strip_prefix :: "string \<Rightarrow> string \<Rightarrow> string option" where
  "strip_prefix p s = (if prefix p s then Some (drop (length p) s) else None)"

definition rsplit_once :: "char \<Rightarrow> string \<Rightarrow> (string \<times> string) option" where
  "rsplit_once c s =
     (if c \<in> set s
      then Some (rev (tl (dropWhile (\<lambda>x. x \<noteq> c) (rev s))), rev (takeWhile (\<lambda>x. x \<noteq> c) (rev s)))
      else None)"

definition to_ascii_uppercase :: "char \<Rightarrow> char" where
  "to_ascii_uppercase c =
     (if CHR ''a'' \<le> c \<and> c \<le> CHR ''z'' then char_of (of_char c - 32 :: nat) else c)"

definition eq_ignore_ascii_case :: "string \<Rightarrow> string \<Rightarrow> bool" where
  "eq_ignore_ascii_case s t \<longleftrightarrow> map to_ascii_uppercase s = map to_ascii_uppercase t"

section \<open>Components\<close>

record unicode =
  nfc :: "string \<Rightarrow> string"
  case_fold :: "string \<Rightarrow> string"

datatype path_component = PathComponent string

primrec component_str :: "path_component \<Rightarrow> string" where
  "component_str (PathComponent s) = s"

definition REPOSITORY_DIRECTORY :: string where
  "REPOSITORY_DIRECTORY = ''.neoengram''"

definition STORAGE_TEMP_PREFIX :: string where
  "STORAGE_TEMP_PREFIX = ''.neoengram-tmp-''"

text \<open>The superscript digits one, two and three are the byte pairs C2 B9, C2 B2 and C2 B3.\<close>

definition is_reserved_device_number :: "string \<Rightarrow> bool" where
  "is_reserved_device_number n \<longleftrightarrow>
     n \<in> {''1'', ''2'', ''3'', ''4'', ''5'', ''6'', ''7'', ''8'', ''9'',
                [CHR 0xC2, CHR 0xB9], [CHR 0xC2, CHR 0xB2], [CHR 0xC2, CHR 0xB3]}"

definition is_reserved_device :: "string \<Rightarrow> bool" where
  "is_reserved_device component =
     (let device_name = map to_ascii_uppercase (hd (split_on (CHR ''.'') component)) in
      device_name \<in> {''CON'', ''PRN'', ''AUX'', ''NUL'', ''CLOCK$'', ''CONIN$'', ''CONOUT$''}
      \<or> (case strip_prefix ''COM'' device_name of None \<Rightarrow> False | Some n \<Rightarrow> is_reserved_device_number n)
      \<or> (case strip_prefix ''LPT'' device_name of None \<Rightarrow> False | Some n \<Rightarrow> is_reserved_device_number n))"

definition validate_component :: "unicode \<Rightarrow> string \<Rightarrow> unit validation_result" where
  "validate_component uni component =
     (if component \<in> {[], ''.'', ''..''} then Inl InvalidPath
      else if \<exists>c \<in> set component. c \<in> {CHR ''/'', CHR 0x5C, CHR 0x00} then Inl InvalidPath
      else if nfc uni component \<noteq> component then Inl InvalidPath
      else if last component \<in> {CHR '' '', CHR ''.''} then Inl InvalidPath
      else if \<exists>c \<in> set component.
                c \<le> CHR 0x1F \<or> c \<in> {CHR ''<'', CHR ''>'', CHR '':'', CHR 0x22, CHR ''|'', CHR ''?'', CHR ''*''}
           then Inl InvalidPath
      else if eq_ignore_ascii_case component REPOSITORY_DIRECTORY
              \<or> (length STORAGE_TEMP_PREFIX \<le> length component
                 \<and> eq_ignore_ascii_case (take (length STORAGE_TEMP_PREFIX) component) STORAGE_TEMP_PREFIX)
           then Inl InvalidPath
      else if is_reserved_device component then Inl InvalidPath
      else Inr ())"

definition portable_component_key :: "unicode \<Rightarrow> string \<Rightarrow> string" where
  "portable_component_key uni component = nfc uni (case_fold uni component)"

definition component_parse :: "unicode \<Rightarrow> string \<Rightarrow> path_component validation_result" where
  "component_parse uni s = and_then (validate_component uni s) (\<lambda>_. Inr (PathComponent s))"

definition component_portable_key :: "unicode \<Rightarrow> path_component \<Rightarrow> string" where
  "component_portable_key uni c = portable_component_key uni (component_str c)"

section \<open>Logical paths\<close>

datatype logical_path = LogicalPath string

primrec path_str :: "logical_path \<Rightarrow> string" where
  "path_str (LogicalPath s) = s"

definition path_parse :: "unicode \<Rightarrow> string \<Rightarrow> logical_path validation_result" where
  "path_parse uni s =
     (if s = [] then Inl InvalidPath
      else if prefix ''/'' s then Inl InvalidPath
      else if CHR 0x5C \<in> set s then Inl InvalidPath
      else and_then (try_fold (\<lambda>_ c. map_err (\<lambda>_. InvalidPath) (validate_component uni c)) () (split_on (CHR ''/'') s))
             (\<lambda>_. Inr (LogicalPath s)))"

definition path_components :: "logical_path \<Rightarrow> string list" where
  "path_components p = split_on (CHR ''/'') (path_str p)"

definition path_file_name :: "logical_path \<Rightarrow> string" where
  "path_file_name p = rev (takeWhile (\<lambda>x. x \<noteq> CHR ''/'') (rev (path_str p)))"

definition path_parent :: "logical_path \<Rightarrow> logical_path option" where
  "path_parent p = map_option (\<lambda>(parent, _). LogicalPath parent) (rsplit_once (CHR ''/'') (path_str p))"

definition path_join :: "logical_path \<Rightarrow> path_component \<Rightarrow> logical_path" where
  "path_join p c = LogicalPath (path_str p @ ''/'' @ component_str c)"

definition path_portable_key :: "unicode \<Rightarrow> logical_path \<Rightarrow> string" where
  "path_portable_key uni p = join_with (CHR ''/'') (map (portable_component_key uni) (path_components p))"

definition is_ancestor_of :: "logical_path \<Rightarrow> logical_path \<Rightarrow> bool" where
  "is_ancestor_of p other =
     (case strip_prefix (path_str p) (path_str other) of
        None \<Rightarrow> False
      | Some rest \<Rightarrow> prefix ''/'' rest)"

instantiation logical_path :: linorder
begin

definition less_eq_logical_path :: "logical_path \<Rightarrow> logical_path \<Rightarrow> bool" where
  "p \<le> q \<longleftrightarrow> path_str p \<le> path_str q"

definition less_logical_path :: "logical_path \<Rightarrow> logical_path \<Rightarrow> bool" where
  "p < q \<longleftrightarrow> path_str p < path_str q"

instance
proof
  fix p q :: logical_path
  show "p \<le> q \<Longrightarrow> q \<le> p \<Longrightarrow> p = q"
    by (cases p; cases q) (simp add: less_eq_logical_path_def)
qed (auto simp: less_eq_logical_path_def less_logical_path_def)

end

section \<open>Sets of paths\<close>

text \<open>\<open>portable_path.match_indices('/')\<close>: the strict ancestors of a key.\<close>

definition slash_prefixes :: "string \<Rightarrow> string list" where
  "slash_prefixes s = map (\<lambda>i. take i s) (filter (\<lambda>i. s ! i = CHR ''/'') [0..<length s])"

definition validate_path_set_step ::
  "unicode \<Rightarrow> logical_path option \<times> string btree_set \<Rightarrow> logical_path
   \<Rightarrow> (logical_path option \<times> string btree_set) validation_result" where
  "validate_path_set_step uni st path =
     (case st of (previous, portable_paths) \<Rightarrow>
      if (case previous of None \<Rightarrow> False | Some q \<Rightarrow> q \<ge> path) then Inl InvalidPath
      else
        let portable_path = path_portable_key uni path in
        if portable_path \<in> set portable_paths then Inl InvalidPath
        else if \<exists>a \<in> set (slash_prefixes portable_path). a \<in> set portable_paths then Inl InvalidPath
        else
          let descendant_prefix = portable_path @ ''/'' in
          if (case bts_range_next descendant_prefix portable_paths of
                None \<Rightarrow> False | Some candidate \<Rightarrow> prefix descendant_prefix candidate)
          then Inl InvalidPath
          else Inr (Some path, bts_insert portable_path portable_paths))"

definition validate_path_set :: "unicode \<Rightarrow> logical_path list \<Rightarrow> unit validation_result" where
  "validate_path_set uni paths =
     and_then (try_fold (validate_path_set_step uni) (None, []) paths) (\<lambda>_. Inr ())"

section \<open>Splitting and joining\<close>

lemma split_on_nonempty [simp]: "split_on c s \<noteq> []"
  by (induction s) (auto split: list.splits)

lemma split_on_no_sep: "p \<in> set (split_on c s) \<Longrightarrow> c \<notin> set p"
  by (induction s arbitrary: p) (auto split: list.splits if_splits)

lemma join_split [simp]: "join_with c (split_on c s) = s"
proof (induction s)
  case (Cons x s)
  then show ?case by (cases "split_on c s"; cases "tl (split_on c s)") auto
qed simp

lemma split_on_plain: "c \<notin> set s \<Longrightarrow> split_on c s = [s]"
  by (induction s) auto

lemma split_on_append_sep: "split_on c (s @ c # t) = split_on c s @ split_on c t"
  by (induction s) (auto split: list.splits)

lemma split_join [simp]:
  "ps \<noteq> [] \<Longrightarrow> (\<And>p. p \<in> set ps \<Longrightarrow> c \<notin> set p) \<Longrightarrow> split_on c (join_with c ps) = ps"
  by (induction c ps rule: join_with.induct) (simp_all add: split_on_plain split_on_append_sep)

lemma split_on_inj: "split_on c s = split_on c t \<longleftrightarrow> s = t"
  by (metis join_split)

lemma last_separator_cases:
  obtains (plain) "c \<notin> set s"
  | (sep) a b where "s = a @ c # b" and "c \<notin> set b"
  by (meson split_list_last)

lemma takeWhile_rev_sep [simp]:
  "c \<notin> set b \<Longrightarrow> takeWhile (\<lambda>x. x \<noteq> c) (rev b @ c # r) = rev b"
  "c \<notin> set b \<Longrightarrow> dropWhile (\<lambda>x. x \<noteq> c) (rev b @ c # r) = c # r"
  "c \<notin> set b \<Longrightarrow> takeWhile (\<lambda>x. x \<noteq> c) (rev b) = rev b"
  by (induction b arbitrary: r rule: rev_induct) auto

lemma rsplit_last: "rev (takeWhile (\<lambda>x. x \<noteq> c) (rev s)) = last (split_on c s)"
  by (cases rule: last_separator_cases [of c s]) (simp_all add: split_on_append_sep split_on_plain)

lemma rsplit_once_sep [simp]: "c \<notin> set b \<Longrightarrow> rsplit_once c (a @ c # b) = Some (a, b)"
  by (simp add: rsplit_once_def)

lemma rsplit_once_plain [simp]: "c \<notin> set s \<Longrightarrow> rsplit_once c s = None"
  by (simp add: rsplit_once_def)

section \<open>Structure of a path\<close>

lemma path_components_inj: "path_components p = path_components q \<longleftrightarrow> p = q"
  by (cases p; cases q) (simp add: path_components_def split_on_inj)

lemma path_components_nonempty [simp]: "path_components p \<noteq> []" "[] \<noteq> path_components p"
  by (simp_all add: path_components_def split_on_nonempty [THEN not_sym])

lemma path_file_name_last: "path_file_name p = last (path_components p)"
  by (simp add: path_file_name_def path_components_def rsplit_last)

lemma validate_component_no_slash:
  "validate_component uni c = Inr u \<Longrightarrow> CHR ''/'' \<notin> set c \<and> c \<noteq> []"
  by (auto simp: validate_component_def split: if_splits)

lemma validate_component_safe:
  assumes "validate_component uni c = Inr u"
  shows "c \<notin> {[], ''.'', ''..''} \<and> set c \<inter> {CHR ''/'', CHR 0x5C, CHR 0x00} = {}
    \<and> nfc uni c = c \<and> \<not> eq_ignore_ascii_case c REPOSITORY_DIRECTORY \<and> \<not> is_reserved_device c"
proof -
  have "c \<notin> {[], ''.'', ''..''}" "\<not> (\<exists>x \<in> set c. x \<in> {CHR ''/'', CHR 0x5C, CHR 0x00})" "nfc uni c = c"
    "\<not> eq_ignore_ascii_case c REPOSITORY_DIRECTORY" "\<not> is_reserved_device c"
    using assms unfolding validate_component_def by (metis Inl_Inr_False)+
  then show ?thesis by blast
qed

lemma validate_component_kind: "validate_component uni c = Inl e \<Longrightarrow> e = InvalidPath"
  by (auto simp: validate_component_def split: if_splits)

lemma path_components_parent:
  "path_parent p = Some q \<longleftrightarrow> path_components p = path_components q @ [path_file_name p]"
proof (cases rule: last_separator_cases [of "CHR ''/''" "path_str p"])
  case plain
  then have "path_components p = [path_str p]" by (simp add: path_components_def split_on_plain)
  then show ?thesis using plain by (simp add: path_parent_def)
next
  case (sep a b)
  then have "path_components p = split_on (CHR ''/'') a @ [b]"
    by (simp add: path_components_def split_on_append_sep split_on_plain)
  then show ?thesis using sep
    by (cases q) (auto simp: path_parent_def path_file_name_last path_components_def split_on_inj)
qed

lemma path_components_join:
  "CHR ''/'' \<notin> set (component_str c) \<Longrightarrow>
   path_components (path_join p c) = path_components p @ [component_str c]"
  by (simp add: path_components_def path_join_def split_on_append_sep split_on_plain)

lemma strip_prefix_eq_Some: "strip_prefix p s = Some t \<longleftrightarrow> s = p @ t"
  by (auto simp: strip_prefix_def elim!: prefixE)

lemma is_ancestor_of_str: "is_ancestor_of p q \<longleftrightarrow> (\<exists>t. path_str q = path_str p @ ''/'' @ t)"
  by (auto simp: is_ancestor_of_def strip_prefix_eq_Some split: option.splits)
     (auto simp: strip_prefix_def elim!: prefixE split: if_splits)

lemma is_ancestor_of_components:
  "is_ancestor_of p q \<longleftrightarrow> strict_prefix (path_components p) (path_components q)"
proof
  assume "is_ancestor_of p q"
  then obtain t where "path_str q = path_str p @ CHR ''/'' # t" by (auto simp: is_ancestor_of_str)
  then have "path_components q = path_components p @ split_on (CHR ''/'') t"
    by (simp add: path_components_def split_on_append_sep)
  then show "strict_prefix (path_components p) (path_components q)"
    by (auto simp: strict_prefix_def)
next
  assume "strict_prefix (path_components p) (path_components q)"
  then obtain cs where cs: "path_components q = path_components p @ cs" "cs \<noteq> []"
    by (auto simp: strict_prefix_def elim: prefixE)
  have "CHR ''/'' \<notin> set c" if "c \<in> set cs" for c
    using that cs(1) split_on_no_sep [of c "CHR ''/''" "path_str q"] by (simp add: path_components_def)
  then have "split_on (CHR ''/'') (path_str p @ CHR ''/'' # join_with (CHR ''/'') cs) = path_components q"
    using cs by (simp add: split_on_append_sep path_components_def)
  then have "path_str q = path_str p @ CHR ''/'' # join_with (CHR ''/'') cs"
    by (simp add: path_components_def split_on_inj)
  then show "is_ancestor_of p q" by (simp add: is_ancestor_of_str)
qed

section \<open>Validated paths\<close>

text \<open>A valid path is one that \<open>LogicalPath::parse\<close> constructs.\<close>

definition path_valid :: "unicode \<Rightarrow> logical_path \<Rightarrow> bool" where
  "path_valid uni p \<longleftrightarrow> (\<forall>c \<in> set (path_components p). validate_component uni c = Inr ())"

lemma try_fold_checks:
  "try_fold (\<lambda>_ x. map_err (\<lambda>_. e) (f x)) () xs = Inr u \<longleftrightarrow> (\<forall>x \<in> set xs. f x = Inr ())"
  by (induction xs) auto

lemma path_parse_iff:
  "path_parse uni s = Inr p \<longleftrightarrow> p = LogicalPath s \<and> path_valid uni p"
proof -
  let ?sep = "CHR ''/''"
  have head: "s = [] \<or> prefix ''/'' s \<Longrightarrow> [] \<in> set (split_on ?sep s)"
    by (cases s) auto
  have bs: "CHR 0x5C \<in> set s \<Longrightarrow> \<exists>c \<in> set (split_on ?sep s). CHR 0x5C \<in> set c"
    by (induction s) (auto split: list.splits)
  have bad: "validate_component uni [] \<noteq> Inr ()"
    "\<And>c. CHR 0x5C \<in> set c \<Longrightarrow> validate_component uni c \<noteq> Inr ()"
    by (auto simp: validate_component_def)
  show ?thesis
    using head bs bad
    by (auto simp: path_parse_def path_valid_def path_components_def try_fold_checks)
qed

lemma path_parse_error: "path_parse uni s = Inl e \<Longrightarrow> e = InvalidPath"
proof -
  have "try_fold (\<lambda>_ x. map_err (\<lambda>_. InvalidPath) (f x)) () xs = Inl e \<Longrightarrow> e = InvalidPath"
    for f :: "string \<Rightarrow> unit validation_result" and xs
  proof (induction xs)
    case (Cons x xs)
    then show ?case by (cases "f x") auto
  qed simp
  then show "path_parse uni s = Inl e \<Longrightarrow> e = InvalidPath"
    by (auto simp: path_parse_def and_then_eq_Inl split: if_splits)
qed

section \<open>Portable path sets\<close>

text \<open>
  Two keys conflict when they are equal or one is an ancestor directory of the other.  A path
  set is portable when it is strictly sorted and no two of its keys conflict.
\<close>

definition key_ancestor :: "string \<Rightarrow> string \<Rightarrow> bool" where
  "key_ancestor a b \<longleftrightarrow> prefix (a @ ''/'') b"

definition key_conflict :: "string \<Rightarrow> string \<Rightarrow> bool" where
  "key_conflict a b \<longleftrightarrow> a = b \<or> key_ancestor a b \<or> key_ancestor b a"

definition portable_path_set :: "unicode \<Rightarrow> logical_path list \<Rightarrow> bool" where
  "portable_path_set uni ps \<longleftrightarrow>
     sorted_wrt (<) ps \<and> sorted_wrt (\<lambda>p q. \<not> key_conflict (path_portable_key uni p) (path_portable_key uni q)) ps"

lemma slash_prefixes_iff: "a \<in> set (slash_prefixes s) \<longleftrightarrow> key_ancestor a s"
proof
  assume "a \<in> set (slash_prefixes s)"
  then obtain i where i: "i < length s" "s ! i = CHR ''/''" "a = take i s"
    by (auto simp: slash_prefixes_def)
  then have "s = a @ CHR ''/'' # drop (Suc i) s" by (metis id_take_nth_drop)
  then show "key_ancestor a s" by (metis append_Cons append_Nil append_assoc key_ancestor_def prefixI)
next
  assume "key_ancestor a s"
  then obtain t where "s = a @ CHR ''/'' # t" by (auto simp: key_ancestor_def elim!: prefixE)
  then show "a \<in> set (slash_prefixes s)"
    by (auto simp: slash_prefixes_def nth_append intro!: image_eqI [of _ _ "length a"])
qed

text \<open>
  The scan for a conflict with the keys seen so far: three lookups in an ordered set decide
  the same question as comparing the new key with every key.
\<close>

lemma conflict_scan:
  assumes "sorted_wrt (<) ks"
  shows "(k \<in> set ks \<or> (\<exists>a \<in> set (slash_prefixes k). a \<in> set ks)
          \<or> (case bts_range_next (k @ ''/'') ks of None \<Rightarrow> False | Some c \<Rightarrow> prefix (k @ ''/'') c))
         \<longleftrightarrow> (\<exists>j \<in> set ks. key_conflict j k)"
  unfolding bts_range_next_prefix [OF assms] key_conflict_def
  by (auto simp: key_ancestor_def slash_prefixes_iff)

lemma validate_path_set_step_iff:
  assumes "sorted_wrt (<) ks"
  shows "validate_path_set_step uni (prev, ks) p = Inr st \<longleftrightarrow>
     (\<forall>q. prev = Some q \<longrightarrow> q < p) \<and> (\<forall>j \<in> set ks. \<not> key_conflict j (path_portable_key uni p))
     \<and> st = (Some p, bts_insert (path_portable_key uni p) ks)"
  using conflict_scan [OF assms, of "path_portable_key uni p"]
  by (cases prev) (auto simp: validate_path_set_step_def Let_def split: if_splits)

lemma validate_path_set_fold:
  assumes "sorted_wrt (<) ks"
  shows "is_ok (try_fold (validate_path_set_step uni) (prev, ks) ps) \<longleftrightarrow>
     (\<forall>q. prev = Some q \<longrightarrow> (\<forall>p \<in> set ps. q < p)) \<and> portable_path_set uni ps
     \<and> (\<forall>p \<in> set ps. \<forall>j \<in> set ks. \<not> key_conflict j (path_portable_key uni p))"
  using assms
proof (induction ps arbitrary: prev ks)
  case Nil
  then show ?case by (simp add: portable_path_set_def)
next
  case (Cons p ps)
  show ?case
  proof (cases "validate_path_set_step uni (prev, ks) p")
    case (Inl e)
    then have "\<not> ((\<forall>q. prev = Some q \<longrightarrow> q < p) \<and> (\<forall>j \<in> set ks. \<not> key_conflict j (path_portable_key uni p)))"
      using validate_path_set_step_iff [OF Cons.prems, of uni prev p] by auto
    then show ?thesis using Inl by auto
  next
    case (Inr st)
    with validate_path_set_step_iff [OF Cons.prems]
    have st: "\<forall>q. prev = Some q \<longrightarrow> q < p" "\<forall>j \<in> set ks. \<not> key_conflict j (path_portable_key uni p)"
      "st = (Some p, bts_insert (path_portable_key uni p) ks)" by auto
    show ?thesis
      using Inr st Cons.IH [of "bts_insert (path_portable_key uni p) ks" "Some p"] Cons.prems
      by (auto simp: portable_path_set_def dest: less_trans)
  qed
qed

lemma validate_path_set_iff: "validate_path_set uni ps = Inr () \<longleftrightarrow> portable_path_set uni ps"
  using validate_path_set_fold [of "[]" uni None ps]
  by (auto simp: validate_path_set_def is_ok_iff)

section \<open>Properties\<close>

text \<open>A trivial table: text that is already normalised and has no case.\<close>

definition ascii_unicode :: unicode where
  "ascii_unicode = \<lparr> nfc = (\<lambda>s. s), case_fold = (\<lambda>s. s) \<rparr>"

text \<open>
  C26: A parsed logical path cannot leave the repository or name reserved places: it is the given
  text, every component is non-empty, differs from \<open>.\<close> and \<open>..\<close>, contains no separator, backslash or
  NUL, is in normal form C and is not the repository directory in any ASCII case; text is refused
  only with \<open>InvalidPath\<close>, and exactly when a component is refused.
\<close>

theorem parsed_path_safe:
  "(path_parse uni s = Inr p \<longleftrightarrow> p = LogicalPath s \<and> path_valid uni p)
   \<and> (path_parse uni s = Inl e \<longrightarrow> e = InvalidPath)
   \<and> (path_valid uni p \<and> c \<in> set (path_components p) \<longrightarrow>
        c \<notin> {[], ''.'', ''..''} \<and> set c \<inter> {CHR ''/'', CHR 0x5C, CHR 0x00} = {}
        \<and> nfc uni c = c \<and> \<not> eq_ignore_ascii_case c REPOSITORY_DIRECTORY \<and> \<not> is_reserved_device c)"
  using path_parse_iff [of uni s p] path_parse_error [of uni s e] validate_component_safe [of uni c]
  unfolding path_valid_def by blast

theorem parsed_path_safe_witness:
  "path_parse ascii_unicode ''src/a.rs'' = Inr (LogicalPath ''src/a.rs'')
   \<and> path_parse ascii_unicode ''src/../a'' = Inl InvalidPath \<and> ''src'' \<noteq> ''..''"
proof -
  have ok: "path_parse ascii_unicode ''src/a.rs'' = Inr (LogicalPath ''src/a.rs'')"
    by code_simp
  have bad: "path_parse ascii_unicode ''src/../a'' = Inl InvalidPath"
    by code_simp
  have "''src'' \<notin> {[], ''.'', ''..'' :: string}"
    using parsed_path_safe [of ascii_unicode "''src/a.rs''" "LogicalPath ''src/a.rs''" InvalidPath "''src''"] ok
    by (simp add: path_components_def)
  with ok bad show ?thesis by simp
qed

text \<open>
  Appending a parsed component to a valid path gives a valid path whose parent, file name and
  components are the expected ones and which is a descendant of the original path.
\<close>

theorem path_join_parent:
  assumes "path_valid uni p" and "component_parse uni s = Inr c"
  shows "path_valid uni (path_join p c) \<and> path_parent (path_join p c) = Some p
    \<and> path_file_name (path_join p c) = s \<and> is_ancestor_of p (path_join p c)
    \<and> path_components (path_join p c) = path_components p @ [s]"
proof -
  have c: "c = PathComponent s" "validate_component uni s = Inr ()"
    using assms(2) by (auto simp: component_parse_def)
  then have comps: "path_components (path_join p c) = path_components p @ [s]"
    using validate_component_no_slash [of uni s] path_components_join [of c p] by simp
  then have "path_file_name (path_join p c) = s" by (simp add: path_file_name_last)
  with comps c assms(1) show ?thesis
    by (simp add: path_components_parent is_ancestor_of_components path_valid_def strict_prefix_def)
qed

theorem path_join_parent_witness:
  "path_parent (path_join (LogicalPath ''src'') (PathComponent ''a.rs'')) = Some (LogicalPath ''src'')"
proof -
  have "path_valid ascii_unicode (LogicalPath ''src'')" by code_simp
  moreover have "component_parse ascii_unicode ''a.rs'' = Inr (PathComponent ''a.rs'')" by code_simp
  ultimately show ?thesis using path_join_parent by blast
qed

text \<open>
  The textual ancestor test (strip a prefix, look for a slash) decides whether one path's
  components are a strict prefix of the other's.
\<close>

theorem ancestor_test_exact:
  "is_ancestor_of p q \<longleftrightarrow> strict_prefix (path_components p) (path_components q)"
  by (rule is_ancestor_of_components)

text \<open>
  C22: \<open>validate_path_set\<close>, which looks up each key, its slash prefixes and the first key of one
  range in an ordered set, accepts exactly the strictly sorted lists in which no two portable keys
  are equal or one an ancestor of the other.
\<close>

theorem path_set_scan_exact: "validate_path_set uni ps = Inr () \<longleftrightarrow> portable_path_set uni ps"
  by (rule validate_path_set_iff)

end
