(* ===== verification/Models.thy ===== *)
theory Models
  imports Paths
begin

text \<open>
  The immutable models of \<open>core/models\<close>: payload objects and chunks (\<open>chunk.rs\<close>), file manifests
  and index records (\<open>file.rs\<close>), directories (\<open>directory.rs\<close>) and commits (\<open>commit.rs\<close>), each with
  the validation the source performs and a characterisation of what it accepts.
\<close>

section \<open>Objects and chunks\<close>

record object_spec =
  os_id :: object_id
  os_size :: u64

definition object_spec_for_bytes :: "(byte list \<Rightarrow> content_digest) \<Rightarrow> byte list \<Rightarrow> object_spec" where
  "object_spec_for_bytes blake3 bs =
     \<lparr> os_id = object_id_for_bytes blake3 bs, os_size = of_nat (length bs) \<rparr>"

record chunk_ref =
  cr_object_id :: object_id
  cr_offset :: u64
  cr_size :: u64

definition chunk_validate :: "chunk_ref \<Rightarrow> unit validation_result" where
  "chunk_validate c =
     (if cr_size c = 0 then Inl InvalidObject
      else and_then (ok_or Overflow (checked_add (cr_offset c) (cr_size c))) (\<lambda>_. Inr ()))"

definition chunk_new :: "object_id \<Rightarrow> u64 \<Rightarrow> u64 \<Rightarrow> chunk_ref validation_result" where
  "chunk_new object_id offset sz =
     (let chunk = \<lparr> cr_object_id = object_id, cr_offset = offset, cr_size = sz \<rparr> in
      and_then (chunk_validate chunk) (\<lambda>_. Inr chunk))"

definition chunk_object_spec :: "chunk_ref \<Rightarrow> object_spec" where
  "chunk_object_spec c = \<lparr> os_id = cr_object_id c, os_size = cr_size c \<rparr>"

section \<open>Manifests and file records\<close>

datatype chunking_strategy = FastCdc | WholeFile

record manifest =
  m_total_size :: u64
  m_chunking :: chunking_strategy
  m_chunks :: "chunk_ref list"

definition manifest_step :: "u64 \<Rightarrow> chunk_ref \<Rightarrow> u64 validation_result" where
  "manifest_step next_offset chunk =
     and_then (map_err (\<lambda>_. InvalidManifest) (chunk_validate chunk)) (\<lambda>_.
       if cr_offset chunk \<noteq> next_offset then Inl InvalidManifest
       else ok_or Overflow (checked_add next_offset (cr_size chunk)))"

definition whole_file_ok :: "chunking_strategy \<Rightarrow> u64 \<Rightarrow> nat \<Rightarrow> bool" where
  "whole_file_ok chunking total_size n \<longleftrightarrow>
     chunking = WholeFile \<longrightarrow> (total_size = 0 \<and> n = 0) \<or> (total_size > 0 \<and> n = 1)"

definition manifest_validate :: "manifest \<Rightarrow> unit validation_result" where
  "manifest_validate m =
     and_then (try_fold manifest_step 0 (m_chunks m)) (\<lambda>next_offset.
       if next_offset \<noteq> m_total_size m then Inl InvalidManifest
       else if \<not> whole_file_ok (m_chunking m) (m_total_size m) (length (m_chunks m))
       then Inl InvalidManifest
       else Inr ())"

definition manifest_new :: "u64 \<Rightarrow> chunking_strategy \<Rightarrow> chunk_ref list \<Rightarrow> manifest validation_result" where
  "manifest_new total_size chunking chunks =
     (let m = \<lparr> m_total_size = total_size, m_chunking = chunking, m_chunks = chunks \<rparr> in
      and_then (manifest_validate m) (\<lambda>_. Inr m))"

definition manifest_chunk_count :: "manifest \<Rightarrow> u64 validation_result" where
  "manifest_chunk_count m = ok_or Overflow (u64_try_from (length (m_chunks m)))"

record file_record =
  fr_path :: logical_path
  fr_manifest_id :: manifest_id
  fr_total_size :: u64
  fr_chunk_count :: u64

definition file_record_validate :: "file_record \<Rightarrow> unit validation_result" where
  "file_record_validate r =
     (if (fr_total_size r = 0) \<noteq> (fr_chunk_count r = 0) then Inl InvalidIndex else Inr ())"

definition file_record_new ::
  "logical_path \<Rightarrow> manifest_id \<Rightarrow> u64 \<Rightarrow> u64 \<Rightarrow> file_record validation_result" where
  "file_record_new path mid total_size chunk_count =
     (let r = \<lparr> fr_path = path, fr_manifest_id = mid, fr_total_size = total_size,
                fr_chunk_count = chunk_count \<rparr> in
      and_then (file_record_validate r) (\<lambda>_. Inr r))"

section \<open>Directories\<close>

datatype directory_entry_kind = KindFile | KindDirectory

datatype directory_entry_target = TargetManifest manifest_id | TargetDirectory directory_id

primrec target_kind :: "directory_entry_target \<Rightarrow> directory_entry_kind" where
  "target_kind (TargetManifest _) = KindFile"
| "target_kind (TargetDirectory _) = KindDirectory"

primrec target_as_bytes :: "directory_entry_target \<Rightarrow> byte list" where
  "target_as_bytes (TargetManifest mid) = digest_as_bytes (manifest_digest mid)"
| "target_as_bytes (TargetDirectory did) = digest_as_bytes (directory_digest did)"

instantiation path_component :: linorder
begin

definition less_eq_path_component :: "path_component \<Rightarrow> path_component \<Rightarrow> bool" where
  "p \<le> q \<longleftrightarrow> component_str p \<le> component_str q"

definition less_path_component :: "path_component \<Rightarrow> path_component \<Rightarrow> bool" where
  "p < q \<longleftrightarrow> component_str p < component_str q"

instance
proof
  fix p q :: path_component
  show "p \<le> q \<Longrightarrow> q \<le> p \<Longrightarrow> p = q"
    by (cases p; cases q) (simp add: less_eq_path_component_def)
qed (auto simp: less_eq_path_component_def less_path_component_def)

end

record directory_entry =
  de_ordinal :: u64
  de_name :: path_component
  de_kind :: directory_entry_kind
  de_target_id :: directory_entry_target
  de_total_size :: u64

definition entry_file :: "u64 \<Rightarrow> path_component \<Rightarrow> manifest_id \<Rightarrow> u64 \<Rightarrow> directory_entry" where
  "entry_file ordinal name mid total_size =
     \<lparr> de_ordinal = ordinal, de_name = name, de_kind = KindFile,
       de_target_id = TargetManifest mid, de_total_size = total_size \<rparr>"

definition entry_directory :: "u64 \<Rightarrow> path_component \<Rightarrow> directory_id \<Rightarrow> directory_entry" where
  "entry_directory ordinal name did =
     \<lparr> de_ordinal = ordinal, de_name = name, de_kind = KindDirectory,
       de_target_id = TargetDirectory did, de_total_size = 0 \<rparr>"

definition entry_validate :: "directory_entry \<Rightarrow> unit validation_result" where
  "entry_validate e =
     (if de_kind e \<noteq> target_kind (de_target_id e) then Inl InvalidDirectory
      else if de_kind e = KindDirectory \<and> de_total_size e \<noteq> 0 then Inl InvalidDirectory
      else Inr ())"

record directory =
  dir_entries :: "directory_entry list"

definition directory_step ::
  "unicode \<Rightarrow> path_component option \<times> string btree_set \<Rightarrow> nat \<times> directory_entry
   \<Rightarrow> (path_component option \<times> string btree_set) validation_result" where
  "directory_step uni st ie =
     (case st of (previous_name, portable_names) \<Rightarrow> case ie of (i, e) \<Rightarrow>
      and_then (entry_validate e) (\<lambda>_.
      and_then (ok_or Overflow (u64_try_from i)) (\<lambda>expected_ordinal.
      if de_ordinal e \<noteq> expected_ordinal then Inl InvalidDirectory
      else if (case previous_name of None \<Rightarrow> False | Some previous \<Rightarrow> previous \<ge> de_name e)
      then Inl InvalidDirectory
      else
        let key = component_portable_key uni (de_name e) in
        if key \<in> set portable_names then Inl InvalidDirectory
        else Inr (Some (de_name e), bts_insert key portable_names))))"

definition directory_validate :: "unicode \<Rightarrow> directory \<Rightarrow> unit validation_result" where
  "directory_validate uni d =
     and_then (try_fold (directory_step uni) (None, []) (enumerate 0 (dir_entries d))) (\<lambda>_. Inr ())"

definition directory_new :: "unicode \<Rightarrow> directory_entry list \<Rightarrow> directory validation_result" where
  "directory_new uni entries =
     (let d = \<lparr> dir_entries = entries \<rparr> in and_then (directory_validate uni d) (\<lambda>_. Inr d))"

section \<open>Commits\<close>

text \<open>
  \<open>str::trim\<close> removes the Unicode \<open>White_Space\<close> characters; a message is blank when its UTF-8
  bytes are a sequence of encodings of such characters.
\<close>

fun is_blank :: "string \<Rightarrow> bool" where
  "is_blank [] = True"
| "is_blank (a # s) =
     (let n = of_char a :: nat in
      if 9 \<le> n \<and> n \<le> 13 \<or> n = 32 then is_blank s
      else if n = 0xC2 then (case s of b # t \<Rightarrow> of_char b \<in> {0x85, 0xA0 :: nat} \<and> is_blank t | [] \<Rightarrow> False)
      else (case s of
          b # c # t \<Rightarrow>
            ((n, of_char b :: nat, of_char c :: nat) = (0xE1, 0x9A, 0x80)
             \<or> n = 0xE2 \<and> of_char b = (0x80 :: nat)
               \<and> (0x80 \<le> (of_char c :: nat) \<and> of_char c \<le> (0x8A :: nat) \<or> of_char c \<in> {0xA8, 0xA9, 0xAF :: nat})
             \<or> (n, of_char b :: nat, of_char c :: nat) = (0xE2, 0x81, 0x9F)
             \<or> (n, of_char b :: nat, of_char c :: nat) = (0xE3, 0x80, 0x80))
            \<and> is_blank t
        | _ \<Rightarrow> False))"

record commit =
  c_root_directory_id :: directory_id
  c_parent :: "commit_id option"
  c_message :: string
  c_created_at_unix_ms :: u64

definition commit_validate :: "commit \<Rightarrow> unit validation_result" where
  "commit_validate c = (if is_blank (c_message c) then Inl InvalidCommit else Inr ())"

definition commit_new ::
  "directory_id \<Rightarrow> commit_id option \<Rightarrow> string \<Rightarrow> u64 \<Rightarrow> commit validation_result" where
  "commit_new root parent message created_at =
     (let c = \<lparr> c_root_directory_id = root, c_parent = parent, c_message = message,
                c_created_at_unix_ms = created_at \<rparr> in
      and_then (commit_validate c) (\<lambda>_. Inr c))"

section \<open>Manifests tile their file\<close>

text \<open>
  \<open>tiles start chunks end\<close>: the chunks are non-empty, follow each other without gap or overlap
  from \<open>start\<close> and end exactly at \<open>end\<close>, over the natural numbers.
\<close>

fun tiles :: "nat \<Rightarrow> chunk_ref list \<Rightarrow> nat \<Rightarrow> bool" where
  "tiles s [] e \<longleftrightarrow> s = e"
| "tiles s (c # cs) e \<longleftrightarrow>
     0 < unat (cr_size c) \<and> unat (cr_offset c) = s \<and> tiles (s + unat (cr_size c)) cs e"

definition chunk_covers :: "chunk_ref \<Rightarrow> nat \<Rightarrow> bool" where
  "chunk_covers c i \<longleftrightarrow> unat (cr_offset c) \<le> i \<and> i < unat (cr_offset c) + unat (cr_size c)"

lemma tiles_le: "tiles s cs e \<Longrightarrow> s \<le> e"
  by (induction s cs e rule: tiles.induct) auto

lemma chunk_validate_iff:
  "chunk_validate c = Inr u \<longleftrightarrow> 0 < unat (cr_size c) \<and> unat (cr_offset c) + unat (cr_size c) < 2 ^ 64"
  unfolding chunk_validate_def
  by (auto simp: checked_add_def unat_gt_0 simp del: power.simps split: if_splits)

lemma manifest_step_iff:
  "manifest_step w c = Inr w' \<longleftrightarrow>
     0 < unat (cr_size c) \<and> unat (cr_offset c) = unat w \<and> unat w' = unat w + unat (cr_size c)"
proof -
  have "unat w' < 2 ^ 64" by (rule unat_u64_bound)
  then show ?thesis
    unfolding manifest_step_def
    by (auto simp: chunk_validate_iff checked_add_eq_Some word_unat_eq_iff simp del: power.simps)
qed

lemma manifest_fold_iff: "try_fold manifest_step w cs = Inr w' \<longleftrightarrow> tiles (unat w) cs (unat w')"
proof (induction cs arbitrary: w)
  case Nil
  then show ?case by (simp add: word_unat_eq_iff)
next
  case (Cons c cs)
  show ?case
  proof
    assume "try_fold manifest_step w (c # cs) = Inr w'"
    then show "tiles (unat w) (c # cs) (unat w')" using Cons by (auto simp: manifest_step_iff)
  next
    assume t: "tiles (unat w) (c # cs) (unat w')"
    then have "unat w + unat (cr_size c) \<le> unat w'" by (auto dest: tiles_le)
    then have "unat w + unat (cr_size c) < 2 ^ 64" using unat_u64_bound [of w'] by (rule le_less_trans)
    then obtain v where v: "checked_add w (cr_size c) = Some v"
      by (simp add: checked_add_def)
    then have "manifest_step w c = Inr v" "unat v = unat w + unat (cr_size c)"
      using t by (simp_all add: manifest_step_iff checked_add_eq_Some)
    then show "try_fold manifest_step w (c # cs) = Inr w'" using t Cons by simp
  qed
qed

lemma manifest_validate_iff:
  "manifest_validate m = Inr u \<longleftrightarrow>
     tiles 0 (m_chunks m) (unat (m_total_size m))
     \<and> whole_file_ok (m_chunking m) (m_total_size m) (length (m_chunks m))"
  using manifest_fold_iff [of 0 "m_chunks m" "m_total_size m"]
  by (auto simp: manifest_validate_def split: if_splits)

lemma tiles_offset_ge: "tiles s cs e \<Longrightarrow> d \<in> set cs \<Longrightarrow> s \<le> unat (cr_offset d)"
  by (induction s cs e rule: tiles.induct) fastforce+

lemma tiles_covers_unique:
  assumes "tiles s cs e" and "s \<le> i" and "i < e"
  shows "\<exists>!k. k < length cs \<and> chunk_covers (cs ! k) i"
  using assms
proof (induction s cs e rule: tiles.induct)
  case (2 s c cs e)
  let ?s' = "s + unat (cr_size c)"
  have ge: "?s' \<le> unat (cr_offset d)" if "d \<in> set cs" for d
    using that 2(2) tiles_offset_ge [of ?s' cs e d] by simp
  show ?case
  proof (cases "i < ?s'")
    case True
    have "k = 0" if "k < length (c # cs)" "chunk_covers ((c # cs) ! k) i" for k
    proof (rule ccontr)
      assume "k \<noteq> 0"
      then obtain j where j: "k = Suc j" by (cases k) auto
      then have "?s' \<le> unat (cr_offset (cs ! j))" using that ge [of "cs ! j"] by simp
      then show False using that(2) j True by (simp add: chunk_covers_def)
    qed
    moreover have "chunk_covers c i" using 2 True by (simp add: chunk_covers_def)
    ultimately show ?thesis by (metis length_greater_0_conv list.distinct(1) nth_Cons_0)
  next
    case False
    then obtain k where k: "k < length cs" "chunk_covers (cs ! k) i"
      and u: "\<And>j. j < length cs \<Longrightarrow> chunk_covers (cs ! j) i \<Longrightarrow> j = k"
      using 2 by auto
    have "j = Suc k" if "j < length (c # cs)" "chunk_covers ((c # cs) ! j) i" for j
      using that u False 2(2) by (cases j) (auto simp: chunk_covers_def)
    then show ?thesis using k by (intro ex1I [of _ "Suc k"]) auto
  qed
qed simp

lemma tiles_end_le:
  "tiles s cs e \<Longrightarrow> d \<in> set cs \<Longrightarrow> unat (cr_offset d) + unat (cr_size d) \<le> e"
proof (induction s cs e rule: tiles.induct)
  case (2 s c cs e)
  then show ?case using tiles_le [of "s + unat (cr_size c)" cs e] by auto
qed simp

lemma tiles_sum: "tiles s cs e \<Longrightarrow> s + sum_list (map (\<lambda>c. unat (cr_size c)) cs) = e"
  by (induction s cs e rule: tiles.induct) auto

lemma tiles_length: "tiles s cs e \<Longrightarrow> s + length cs \<le> e"
  by (induction s cs e rule: tiles.induct) auto

lemma tiles_append: "tiles s (cs @ ds) e \<longleftrightarrow> (\<exists>m. tiles s cs m \<and> tiles m ds e)"
  by (induction s cs e rule: tiles.induct) auto

lemma manifest_chunk_count_ok:
  assumes "manifest_validate m = Inr u"
  shows "manifest_chunk_count m = Inr (of_nat (length (m_chunks m)))" and "length (m_chunks m) < 2 ^ 64"
proof -
  have "length (m_chunks m) \<le> unat (m_total_size m)"
    using assms tiles_length [of 0] by (auto simp: manifest_validate_iff)
  then show "length (m_chunks m) < 2 ^ 64"
    using unat_u64_bound [of "m_total_size m"] by (rule le_less_trans)
  then show "manifest_chunk_count m = Inr (of_nat (length (m_chunks m)))"
    by (simp add: manifest_chunk_count_def u64_try_from_def)
qed

section \<open>Accepted directories\<close>

text \<open>What a canonical directory is: ordinals are positions, names increase, keys are unique.\<close>

definition directory_ok :: "unicode \<Rightarrow> directory_entry list \<Rightarrow> bool" where
  "directory_ok uni es \<longleftrightarrow>
     (\<forall>e \<in> set es. entry_validate e = Inr ())
     \<and> map (\<lambda>e. unat (de_ordinal e)) es = [0..<length es]
     \<and> sorted_wrt (<) (map de_name es)
     \<and> distinct (map (\<lambda>e. component_portable_key uni (de_name e)) es)"

lemma directory_step_iff:
  "directory_step uni (prev, ks) (i, e) = Inr st \<longleftrightarrow>
     entry_validate e = Inr () \<and> unat (de_ordinal e) = i \<and> (\<forall>p. prev = Some p \<longrightarrow> p < de_name e)
     \<and> component_portable_key uni (de_name e) \<notin> set ks
     \<and> st = (Some (de_name e), bts_insert (component_portable_key uni (de_name e)) ks)"
  by (cases prev)
     (auto simp: directory_step_def u64_try_from_eq_Some Let_def split: if_splits)

lemma directory_fold_iff:
  "is_ok (try_fold (directory_step uni) (prev, ks) (enumerate n es)) \<longleftrightarrow>
     (\<forall>e \<in> set es. entry_validate e = Inr ())
     \<and> map (\<lambda>e. unat (de_ordinal e)) es = [n..<n + length es]
     \<and> sorted_wrt (<) (map de_name es) \<and> (\<forall>p. prev = Some p \<longrightarrow> (\<forall>e \<in> set es. p < de_name e))
     \<and> distinct (map (\<lambda>e. component_portable_key uni (de_name e)) es)
     \<and> (\<forall>e \<in> set es. component_portable_key uni (de_name e) \<notin> set ks)"
proof (induction es arbitrary: prev ks n)
  case Nil
  then show ?case by simp
next
  case (Cons e es)
  show ?case
  proof (cases "directory_step uni (prev, ks) (n, e)")
    case (Inl err)
    then have "\<not> (entry_validate e = Inr () \<and> unat (de_ordinal e) = n
        \<and> (\<forall>p. prev = Some p \<longrightarrow> p < de_name e) \<and> component_portable_key uni (de_name e) \<notin> set ks)"
      using directory_step_iff [of uni prev ks n e] by auto
    then show ?thesis using Inl by (auto simp: upt_rec [of n])
  next
    case (Inr st)
    then have st: "entry_validate e = Inr ()" "unat (de_ordinal e) = n"
      "\<forall>p. prev = Some p \<longrightarrow> p < de_name e" "component_portable_key uni (de_name e) \<notin> set ks"
      "st = (Some (de_name e), bts_insert (component_portable_key uni (de_name e)) ks)"
      by (simp_all add: directory_step_iff)
    have up: "[n..<n + length (e # es)] = n # [Suc n..<Suc n + length es]"
      by (simp add: upt_rec)
    show ?thesis
      using Inr st Cons.IH [of "Some (de_name e)" "bts_insert (component_portable_key uni (de_name e)) ks" "Suc n"]
      unfolding up by (auto simp: image_iff simp del: upt_Suc dest: less_trans)
  qed
qed

lemma directory_validate_iff: "directory_validate uni d = Inr u \<longleftrightarrow> directory_ok uni (dir_entries d)"
  using directory_fold_iff [of uni None "[]" 0 "dir_entries d"]
  by (auto simp: directory_validate_def is_ok_iff directory_ok_def)

section \<open>Properties\<close>

text \<open>
  C24: A manifest that validates tiles its file: every byte position below the total size lies in
  exactly one chunk, the chunk sizes add up to the total size without wrap-around, and no position
  beyond the end is covered.
\<close>

theorem manifest_tiles_file:
  assumes "manifest_validate m = Inr ()"
  shows "(i < unat (m_total_size m) \<longleftrightarrow> (\<exists>!k. k < length (m_chunks m) \<and> chunk_covers (m_chunks m ! k) i))
    \<and> sum_list (map (\<lambda>c. unat (cr_size c)) (m_chunks m)) = unat (m_total_size m)"
proof -
  have t: "tiles 0 (m_chunks m) (unat (m_total_size m))" using assms by (simp add: manifest_validate_iff)
  have "i < unat (m_total_size m)" if "k < length (m_chunks m) \<and> chunk_covers (m_chunks m ! k) i" for k
    using tiles_end_le [OF t, of "m_chunks m ! k"] that by (simp add: chunk_covers_def)
  then have "i < unat (m_total_size m) \<longleftrightarrow> (\<exists>!k. k < length (m_chunks m) \<and> chunk_covers (m_chunks m ! k) i)"
    using tiles_covers_unique [OF t le0, of i] by (metis (no_types, lifting))
  then show ?thesis using tiles_sum [OF t] by simp
qed

definition sample_chunk :: "nat \<Rightarrow> u64 \<Rightarrow> u64 \<Rightarrow> chunk_ref" where
  "sample_chunk n offset sz = \<lparr> cr_object_id = ObjectId (ContentDigest (of_nat n)), cr_offset = offset, cr_size = sz \<rparr>"

definition sample_manifest :: manifest where
  "sample_manifest = \<lparr> m_total_size = 7, m_chunking = FastCdc, m_chunks = [sample_chunk 1 0 4, sample_chunk 2 4 3] \<rparr>"

lemma sample_manifest_valid: "manifest_validate sample_manifest = Inr ()"
  by (simp add: manifest_validate_iff sample_manifest_def sample_chunk_def whole_file_ok_def)

theorem manifest_tiles_file_witness:
  "\<exists>!k. k < length (m_chunks sample_manifest) \<and> chunk_covers (m_chunks sample_manifest ! k) 5"
proof -
  have "5 < unat (m_total_size sample_manifest)" by (simp add: sample_manifest_def)
  with manifest_tiles_file [OF sample_manifest_valid, of 5] show ?thesis by blast
qed

end
