(* ===== verification/IndexModel.thy ===== *)
theory IndexModel
  imports Models
begin

text \<open>
  The index model (\<open>core/models/index.rs\<close>, \<open>core/models/format.rs\<close>): versions, mutations, bounded delta
  pages and the validation of deltas and snapshots.
\<close>

section \<open>Operations\<close>

definition WORKSPACE_INDEX_FORMAT_VERSION :: u32 where
  "WORKSPACE_INDEX_FORMAT_VERSION = 9"

definition MAX_INDEX_MUTATIONS_PER_PAGE :: nat where
  "MAX_INDEX_MUTATIONS_PER_PAGE = 4096"

record index_version =
  iv_revision :: u64
  iv_digest :: content_digest

datatype index_mutation = Upsert file_record | Delete logical_path

primrec mutation_path :: "index_mutation \<Rightarrow> logical_path" where
  "mutation_path (Upsert r) = fr_path r"
| "mutation_path (Delete p) = p"

primrec mutation_validate :: "index_mutation \<Rightarrow> unit validation_result" where
  "mutation_validate (Upsert r) = file_record_validate r"
| "mutation_validate (Delete p) = Inr ()"

definition mutation_paths_step ::
  "unicode \<Rightarrow> logical_path option \<times> string btree_set \<Rightarrow> logical_path
   \<Rightarrow> (logical_path option \<times> string btree_set) validation_result" where
  "mutation_paths_step uni st path =
     (case st of (previous, portable_paths) \<Rightarrow>
      if (case previous of None \<Rightarrow> False | Some q \<Rightarrow> q \<ge> path) then Inl InvalidIndex
      else
        let key = path_portable_key uni path in
        if key \<in> set portable_paths then Inl InvalidIndex
        else Inr (Some path, bts_insert key portable_paths))"

definition validate_index_mutation_paths :: "unicode \<Rightarrow> logical_path list \<Rightarrow> unit validation_result" where
  "validate_index_mutation_paths uni paths =
     and_then (try_fold (mutation_paths_step uni) (None, []) paths) (\<lambda>_. Inr ())"

definition validate_index_snapshot :: "unicode \<Rightarrow> file_record list \<Rightarrow> unit validation_result" where
  "validate_index_snapshot uni records =
     and_then (try_fold (\<lambda>_ r. file_record_validate r) () records) (\<lambda>_.
       map_err (\<lambda>_. InvalidIndex) (validate_path_set uni (map fr_path records)))"

record index_delta_page =
  pg_number :: u32
  pg_mutations :: "index_mutation list"

definition page_validate :: "unicode \<Rightarrow> index_delta_page \<Rightarrow> unit validation_result" where
  "page_validate uni page =
     (if pg_mutations page = [] then Inl InvalidIndex
      else if length (pg_mutations page) > MAX_INDEX_MUTATIONS_PER_PAGE then Inl InvalidIndex
      else and_then (try_fold (\<lambda>_ m. mutation_validate m) () (pg_mutations page)) (\<lambda>_.
        validate_index_mutation_paths uni (map mutation_path (pg_mutations page))))"

definition page_new :: "unicode \<Rightarrow> u32 \<Rightarrow> index_mutation list \<Rightarrow> index_delta_page validation_result" where
  "page_new uni number mutations =
     (let page = \<lparr> pg_number = number, pg_mutations = mutations \<rparr> in
      and_then (page_validate uni page) (\<lambda>_. Inr page))"

record index_delta =
  dl_base_version :: index_version
  dl_pages :: "index_delta_page list"
  dl_result_digest :: content_digest

definition delta_iter :: "index_delta \<Rightarrow> index_mutation list" where
  "delta_iter d = concat (map pg_mutations (dl_pages d))"

definition delta_mutation_count :: "index_delta \<Rightarrow> nat" where
  "delta_mutation_count d = sum_list (map (\<lambda>p. length (pg_mutations p)) (dl_pages d))"

definition delta_page_count :: "index_delta \<Rightarrow> nat" where
  "delta_page_count d = length (dl_pages d)"

definition delta_validate :: "unicode \<Rightarrow> index_delta \<Rightarrow> unit validation_result" where
  "delta_validate uni d =
     and_then
       (try_fold (\<lambda>_ (i, page).
          and_then (ok_or Overflow (u32_try_from i)) (\<lambda>expected.
            if pg_number page \<noteq> expected then Inl InvalidIndex else page_validate uni page))
          () (enumerate 0 (dl_pages d)))
       (\<lambda>_. validate_index_mutation_paths uni (map mutation_path (delta_iter d)))"

definition delta_from_pages ::
  "unicode \<Rightarrow> index_version \<Rightarrow> index_delta_page list \<Rightarrow> content_digest \<Rightarrow> index_delta validation_result" where
  "delta_from_pages uni base pages result_digest =
     (let d = \<lparr> dl_base_version = base, dl_pages = pages, dl_result_digest = result_digest \<rparr> in
      and_then (delta_validate uni d) (\<lambda>_. Inr d))"

text \<open>The loop of \<open>IndexDelta::new\<close> that cuts the mutations into pages of at most 4096.\<close>

function split_pages ::
  "index_delta_page list \<Rightarrow> index_mutation list \<Rightarrow> index_delta_page list validation_result" where
  "split_pages pages mutations =
     (let page_mutations = take MAX_INDEX_MUTATIONS_PER_PAGE mutations in
      if page_mutations = [] then Inr pages
      else and_then (ok_or Overflow (u32_try_from (length pages))) (\<lambda>page_number.
        split_pages (pages @ [\<lparr> pg_number = page_number, pg_mutations = page_mutations \<rparr>])
                    (drop MAX_INDEX_MUTATIONS_PER_PAGE mutations)))"
  by pat_completeness auto
termination
  by (relation "measure (\<lambda>(_, ms). length ms)") (auto simp: MAX_INDEX_MUTATIONS_PER_PAGE_def)

definition delta_new ::
  "unicode \<Rightarrow> index_version \<Rightarrow> index_mutation list \<Rightarrow> content_digest \<Rightarrow> index_delta validation_result" where
  "delta_new uni base mutations result_digest =
     and_then (split_pages [] mutations) (\<lambda>pages. delta_from_pages uni base pages result_digest)"

declare split_pages.simps [simp del]

section \<open>Accepted mutation sequences\<close>

definition mutations_ok :: "unicode \<Rightarrow> index_mutation list \<Rightarrow> bool" where
  "mutations_ok uni ms \<longleftrightarrow>
     (\<forall>m \<in> set ms. mutation_validate m = Inr ())
     \<and> sorted_wrt (<) (map mutation_path ms)
     \<and> distinct (map (\<lambda>m. path_portable_key uni (mutation_path m)) ms)"

lemma mutation_paths_fold:
  "is_ok (try_fold (mutation_paths_step uni) (prev, ks) ps) \<longleftrightarrow>
     sorted_wrt (<) ps \<and> (\<forall>q. prev = Some q \<longrightarrow> (\<forall>p \<in> set ps. q < p))
     \<and> distinct (map (path_portable_key uni) ps) \<and> (\<forall>p \<in> set ps. path_portable_key uni p \<notin> set ks)"
proof (induction ps arbitrary: prev ks)
  case (Cons p ps)
  show ?case
  proof (cases "mutation_paths_step uni (prev, ks) p")
    case (Inl e)
    then have "\<not> ((\<forall>q. prev = Some q \<longrightarrow> q < p) \<and> path_portable_key uni p \<notin> set ks)"
      by (auto simp: mutation_paths_step_def Let_def split: option.splits if_splits)
    then show ?thesis using Inl by auto
  next
    case (Inr st)
    then have st: "\<forall>q. prev = Some q \<longrightarrow> q < p" "path_portable_key uni p \<notin> set ks"
      "st = (Some p, bts_insert (path_portable_key uni p) ks)"
      by (auto simp: mutation_paths_step_def Let_def split: option.splits if_splits)
    show ?thesis
      using Inr st Cons.IH [of "Some p" "bts_insert (path_portable_key uni p) ks"]
      by (auto simp: image_iff dest: less_trans)
  qed
qed simp

lemma validate_index_mutation_paths_iff:
  "validate_index_mutation_paths uni ps = Inr u \<longleftrightarrow>
     sorted_wrt (<) ps \<and> distinct (map (path_portable_key uni) ps)"
  using mutation_paths_fold [of uni None "[]" ps]
  by (auto simp: validate_index_mutation_paths_def is_ok_iff)

lemma try_fold_unit: "try_fold (\<lambda>_ x. f x) () xs = Inr u \<longleftrightarrow> (\<forall>x \<in> set xs. f x = Inr ())"
  by (induction xs) auto

lemma page_validate_iff:
  "page_validate uni p = Inr u \<longleftrightarrow>
     pg_mutations p \<noteq> [] \<and> length (pg_mutations p) \<le> MAX_INDEX_MUTATIONS_PER_PAGE
     \<and> mutations_ok uni (pg_mutations p)"
  by (auto simp: page_validate_def try_fold_unit validate_index_mutation_paths_iff mutations_ok_def
      comp_def)

lemma mutations_ok_append:
  "mutations_ok uni (xs @ ys) \<Longrightarrow> mutations_ok uni xs \<and> mutations_ok uni ys"
  by (auto simp: mutations_ok_def sorted_wrt_append)

lemma mutations_ok_concat: "mutations_ok uni (concat xss) \<Longrightarrow> xs \<in> set xss \<Longrightarrow> mutations_ok uni xs"
  by (metis append_assoc concat_append mutations_ok_append split_list concat.simps(2))

lemma try_fold_numbered:
  "try_fold (\<lambda>_ (i, page). and_then (ok_or Overflow (u32_try_from i)) (\<lambda>expected.
       if pg_number page \<noteq> expected then Inl InvalidIndex else page_validate uni page))
     () (enumerate n pages) = Inr u \<longleftrightarrow>
   map (\<lambda>p. unat (pg_number p)) pages = [n..<n + length pages]
   \<and> (\<forall>p \<in> set pages. page_validate uni p = Inr ())"
proof (induction pages arbitrary: n)
  case (Cons p pages)
  have up: "[n..<n + length (p # pages)] = n # [Suc n..<Suc n + length pages]"
    by (simp add: upt_rec)
  show ?case
    unfolding up using Cons.IH [of "Suc n"]
    by (auto simp: u32_try_from_eq_Some simp del: upt_Suc)
qed simp

lemma delta_validate_iff:
  "delta_validate uni d = Inr u \<longleftrightarrow>
     map (\<lambda>p. unat (pg_number p)) (dl_pages d) = [0..<length (dl_pages d)]
     \<and> (\<forall>p \<in> set (dl_pages d). pg_mutations p \<noteq> []
          \<and> length (pg_mutations p) \<le> MAX_INDEX_MUTATIONS_PER_PAGE)
     \<and> mutations_ok uni (delta_iter d)"
proof -
  have "mutations_ok uni (pg_mutations p)"
    if "mutations_ok uni (delta_iter d)" "p \<in> set (dl_pages d)" for p
    using that mutations_ok_concat [of uni "map pg_mutations (dl_pages d)"] by (simp add: delta_iter_def)
  then show ?thesis
    using try_fold_numbered [of uni 0 "dl_pages d"]
    by (auto simp: delta_validate_def page_validate_iff validate_index_mutation_paths_iff)
       (auto simp: mutations_ok_def delta_iter_def comp_def)
qed

section \<open>Cutting into pages\<close>

definition pages_numbered :: "index_delta_page list \<Rightarrow> bool" where
  "pages_numbered pages \<longleftrightarrow>
     map (\<lambda>p. unat (pg_number p)) pages = [0..<length pages]
     \<and> (\<forall>p \<in> set pages. pg_mutations p \<noteq> [] \<and> length (pg_mutations p) \<le> MAX_INDEX_MUTATIONS_PER_PAGE)"

lemma page_ceiling:
  assumes "0 < n"
  shows "Suc ((n - 4096 + 4095) div 4096) = (n + 4095) div (4096 :: nat)"
proof (cases "4096 \<le> n")
  case True
  then show ?thesis by (auto simp: div_add_self2 le_div_geq)
next
  case False
  then have "n + 4095 = 4096 + (n - 1)" "(n - 1) div 4096 = 0" using assms by simp_all
  then show ?thesis using False by simp
qed

lemma split_pages_result:
  assumes "split_pages pages ms = Inr ps" and "pages_numbered pages"
  shows "pages_numbered ps \<and> concat (map pg_mutations ps) = concat (map pg_mutations pages) @ ms
         \<and> length ps = length pages + (length ms + 4095) div 4096"
  using assms
proof (induction pages ms rule: split_pages.induct)
  case (1 pages ms)
  show ?case
  proof (cases "take MAX_INDEX_MUTATIONS_PER_PAGE ms = []")
    case True
    then show ?thesis using 1(2,3)
      by (subst (asm) split_pages.simps) (simp add: MAX_INDEX_MUTATIONS_PER_PAGE_def)
  next
    case False
    then obtain n where n: "u32_try_from (length pages) = Some n"
      and rec: "split_pages (pages @ [\<lparr> pg_number = n, pg_mutations = take MAX_INDEX_MUTATIONS_PER_PAGE ms \<rparr>])
        (drop MAX_INDEX_MUTATIONS_PER_PAGE ms) = Inr ps"
      using 1(2) by (subst (asm) split_pages.simps) (auto simp: Let_def)
    have "pages_numbered (pages @ [\<lparr> pg_number = n, pg_mutations = take MAX_INDEX_MUTATIONS_PER_PAGE ms \<rparr>])"
      using 1(3) n False by (auto simp: pages_numbered_def u32_try_from_eq_Some)
    from 1(1) [OF refl False rec this]
    have *: "pages_numbered ps"
      "concat (map pg_mutations ps) = concat (map pg_mutations pages) @ ms"
      "length ps = Suc (length pages) + (length ms - 4096 + 4095) div 4096"
      by (simp_all add: MAX_INDEX_MUTATIONS_PER_PAGE_def)
    have "0 < length ms" using False by (cases ms) auto
    with * page_ceiling [of "length ms"] show ?thesis by simp
  qed
qed

lemma split_pages_is_ok:
  assumes "length pages + (length ms + 4095) div 4096 \<le> 2 ^ 32"
  shows "is_ok (split_pages pages ms)"
  using assms
proof (induction pages ms rule: split_pages.induct)
  case (1 pages ms)
  show ?case
  proof (cases "take MAX_INDEX_MUTATIONS_PER_PAGE ms = []")
    case True
    then show ?thesis by (subst split_pages.simps) simp
  next
    case False
    have "0 < length ms" using False by (cases ms) auto
    then have suc: "Suc ((length ms - 4096 + 4095) div 4096) = (length ms + 4095) div 4096"
      by (rule page_ceiling)
    then have "length pages < 2 ^ 32" using 1(2) by linarith
    then obtain n where n: "u32_try_from (length pages) = Some n" by (simp add: u32_try_from_def)
    have "length (pages @ [\<lparr> pg_number = n, pg_mutations = take MAX_INDEX_MUTATIONS_PER_PAGE ms \<rparr>])
        + (length (drop MAX_INDEX_MUTATIONS_PER_PAGE ms) + 4095) div 4096 \<le> 2 ^ 32"
      using 1(2) suc by (simp only: length_append length_drop MAX_INDEX_MUTATIONS_PER_PAGE_def list.size)
    from 1(1) [OF refl False this] n False show ?thesis
      by (subst split_pages.simps) (simp add: Let_def)
  qed
qed

lemma split_pages_fails:
  assumes "split_pages [] ms = Inr ps"
  shows "length ps \<le> 2 ^ 32"
proof -
  have num: "pages_numbered ps" using split_pages_result [OF assms] by (simp add: pages_numbered_def)
  show ?thesis
  proof (cases ps rule: rev_cases)
    case (snoc qs p)
    then have "unat (pg_number p) = length qs" using num by (simp add: pages_numbered_def)
    moreover have "unat (pg_number p) < 2 ^ 32" using unsigned_less [of "pg_number p", where 'a = nat] by simp
    ultimately show ?thesis using snoc by simp
  qed simp
qed

lemma delta_new_ok:
  assumes "mutations_ok uni ms" and "(length ms + 4095) div 4096 \<le> 2 ^ 32"
  shows "is_ok (delta_new uni base ms rd)"
proof -
  obtain ps where ps: "split_pages [] ms = Inr ps"
    using split_pages_is_ok [of "[]" ms] assms(2) by (auto simp: is_ok_iff)
  then have "pages_numbered ps" "concat (map pg_mutations ps) = ms"
    using split_pages_result [OF ps] by (simp_all add: pages_numbered_def)
  then have "delta_validate uni \<lparr> dl_base_version = base, dl_pages = ps, dl_result_digest = rd \<rparr> = Inr ()"
    using assms(1) by (simp add: delta_validate_iff pages_numbered_def delta_iter_def)
  then show ?thesis by (simp add: delta_new_def ps delta_from_pages_def)
qed

lemma delta_new_result:
  assumes "delta_new uni base ms rd = Inr d"
  shows "delta_iter d = ms" and "delta_validate uni d = Inr ()" and "dl_base_version d = base"
    and "dl_result_digest d = rd" and "mutations_ok uni ms" and "(length ms + 4095) div 4096 \<le> 2 ^ 32"
    and "delta_page_count d = (length ms + 4095) div 4096"
proof -
  obtain ps where ps: "split_pages [] ms = Inr ps"
    and d: "d = \<lparr> dl_base_version = base, dl_pages = ps, dl_result_digest = rd \<rparr>"
    and v: "delta_validate uni d = Inr ()"
    using assms by (auto simp: delta_new_def delta_from_pages_def Let_def)
  have r: "concat (map pg_mutations ps) = ms" "length ps = (length ms + 4095) div 4096"
    using split_pages_result [OF ps] by (simp_all add: pages_numbered_def)
  show "delta_iter d = ms" "delta_validate uni d = Inr ()" "dl_base_version d = base"
    "dl_result_digest d = rd" "delta_page_count d = (length ms + 4095) div 4096"
    using d v r by (simp_all add: delta_iter_def delta_page_count_def)
  then show "mutations_ok uni ms" using v by (simp add: delta_validate_iff)
  show "(length ms + 4095) div 4096 \<le> 2 ^ 32" using split_pages_fails [OF ps] r(2) by (simp del: div_le_dividend)
qed

lemma delta_mutation_count_iter: "delta_mutation_count d = length (delta_iter d)"
  by (simp add: delta_mutation_count_def delta_iter_def length_concat comp_def)

lemma validate_index_snapshot_iff:
  "validate_index_snapshot uni rs = Inr u \<longleftrightarrow>
     (\<forall>r \<in> set rs. file_record_validate r = Inr ()) \<and> portable_path_set uni (map fr_path rs)"
  by (auto simp: validate_index_snapshot_def try_fold_unit validate_path_set_iff [symmetric])

section \<open>Properties\<close>

text \<open>
  C23: \<open>IndexDelta::new\<close> succeeds exactly on valid, strictly ordered, portable-unique mutation
  sequences that fit into \<open>2^32\<close> pages, and the delta it builds is valid, has the least number of
  pages and iterates over the given mutations in order.
\<close>

theorem delta_paging_round_trip:
  "(is_ok (delta_new uni base ms rd) \<longleftrightarrow> mutations_ok uni ms \<and> (length ms + 4095) div 4096 \<le> 2 ^ 32)
   \<and> (delta_new uni base ms rd = Inr d \<longrightarrow>
        delta_iter d = ms \<and> delta_validate uni d = Inr () \<and> delta_page_count d = (length ms + 4095) div 4096)"
  using delta_new_ok [of uni ms base rd] delta_new_result [of uni base ms rd]
  by (auto simp only: is_ok_iff)

definition sample_path :: logical_path where
  "sample_path = LogicalPath ''a''"

theorem delta_paging_round_trip_witness:
  "\<exists>d. delta_new ascii_unicode \<lparr> iv_revision = 1, iv_digest = ContentDigest 0 \<rparr> [Delete sample_path] (ContentDigest 0) = Inr d
     \<and> delta_iter d = [Delete sample_path]"
proof -
  have "mutations_ok ascii_unicode [Delete sample_path]" by (simp add: mutations_ok_def)
  then have "is_ok (delta_new ascii_unicode \<lparr> iv_revision = 1, iv_digest = ContentDigest 0 \<rparr> [Delete sample_path] (ContentDigest 0))"
    using delta_paging_round_trip by simp
  then obtain d where d: "delta_new ascii_unicode \<lparr> iv_revision = 1, iv_digest = ContentDigest 0 \<rparr>
      [Delete sample_path] (ContentDigest 0) = Inr d" by (auto simp: is_ok_iff)
  then have "delta_iter d = [Delete sample_path]" using delta_paging_round_trip by blast
  with d show ?thesis by blast
qed

end
