(* ===== verification/Canonical.thy ===== *)
theory Canonical
  imports IndexModel
begin

text \<open>
  The canonical encoders and identities of \<open>core/canonical.rs\<close>.  A \<open>blake3::Hasher\<close> is the list of
  the bytes it has absorbed: \<open>update\<close> appends and \<open>finalize\<close> applies the parameter \<open>blake3\<close> to the
  whole list.  The incremental hashers are records as in the source.  The lemmas compute the
  bytes each of them hashes and show that the bytes determine the model.
\<close>

section \<open>Domains and shared parts\<close>

definition MANIFEST_HASH_DOMAIN :: string where "MANIFEST_HASH_DOMAIN = ''neoengram-manifest-v4''"
definition DIRECTORY_HASH_DOMAIN :: string where "DIRECTORY_HASH_DOMAIN = ''neoengram-directory-v1''"
definition COMMIT_HASH_DOMAIN :: string where "COMMIT_HASH_DOMAIN = ''neoengram-commit-v3''"
definition INDEX_RECORD_HASH_DOMAIN :: string where "INDEX_RECORD_HASH_DOMAIN = ''neoengram-index-record-v1''"
definition INDEX_SNAPSHOT_HASH_DOMAIN :: string where "INDEX_SNAPSHOT_HASH_DOMAIN = ''neoengram-index-snapshot-v1''"
definition INDEX_DELTA_HASH_DOMAIN :: string where "INDEX_DELTA_HASH_DOMAIN = ''neoengram-index-delta-v1''"
definition ADD_PUBLICATION_HASH_DOMAIN :: string where "ADD_PUBLICATION_HASH_DOMAIN = ''neoengram-add-publication-v1''"

definition CANONICAL_ENCODING_VERSION :: u32 where "CANONICAL_ENCODING_VERSION = 1"

definition canonical_hasher :: "string \<Rightarrow> byte list" where
  "canonical_hasher domain =
     le64 (of_nat (length domain)) @ str_bytes domain @ le32 CANONICAL_ENCODING_VERSION"

primrec chunking_tag :: "chunking_strategy \<Rightarrow> byte" where
  "chunking_tag FastCdc = 1"
| "chunking_tag WholeFile = 2"

primrec directory_kind_tag :: "directory_entry_kind \<Rightarrow> byte" where
  "directory_kind_tag KindFile = 1"
| "directory_kind_tag KindDirectory = 2"

definition update_bytes_with_len :: "byte list \<Rightarrow> byte list \<Rightarrow> byte list validation_result" where
  "update_bytes_with_len hasher bs =
     and_then (ok_or Overflow (u64_try_from (length bs))) (\<lambda>len. Inr (hasher @ le64 len @ bs))"

definition update_file_record :: "byte list \<Rightarrow> file_record \<Rightarrow> byte list validation_result" where
  "update_file_record hasher r =
     and_then (update_bytes_with_len hasher (str_bytes (path_str (fr_path r)))) (\<lambda>h.
       Inr (h @ digest_as_bytes (manifest_digest (fr_manifest_id r))
              @ le64 (fr_total_size r) @ le64 (fr_chunk_count r)))"

section \<open>Manifests\<close>

record manifest_hasher =
  mh_hasher :: "byte list"
  mh_total_size :: u64
  mh_chunking :: chunking_strategy
  mh_next_offset :: u64
  mh_chunk_count :: u64

definition manifest_hasher_new :: "u64 \<Rightarrow> chunking_strategy \<Rightarrow> manifest_hasher" where
  "manifest_hasher_new total_size chunking =
     \<lparr> mh_hasher = canonical_hasher MANIFEST_HASH_DOMAIN @ [chunking_tag chunking] @ le64 total_size,
       mh_total_size = total_size, mh_chunking = chunking, mh_next_offset = 0, mh_chunk_count = 0 \<rparr>"

definition manifest_hasher_push :: "manifest_hasher \<Rightarrow> chunk_ref \<Rightarrow> manifest_hasher validation_result" where
  "manifest_hasher_push s chunk =
     and_then (map_err (\<lambda>_. InvalidManifest) (chunk_validate chunk)) (\<lambda>_.
     if cr_offset chunk \<noteq> mh_next_offset s then Inl InvalidManifest
     else
       let h = mh_hasher s @ digest_as_bytes (object_digest (cr_object_id chunk))
                 @ le64 (cr_offset chunk) @ le64 (cr_size chunk) in
       and_then (ok_or Overflow (checked_add (mh_next_offset s) (cr_size chunk))) (\<lambda>next_offset.
       and_then (ok_or Overflow (checked_add (mh_chunk_count s) 1)) (\<lambda>count.
       Inr (s \<lparr> mh_hasher := h, mh_next_offset := next_offset, mh_chunk_count := count \<rparr>))))"

definition manifest_hasher_finish ::
  "(byte list \<Rightarrow> content_digest) \<Rightarrow> manifest_hasher \<Rightarrow> manifest_id validation_result" where
  "manifest_hasher_finish blake3 s =
     (if mh_next_offset s \<noteq> mh_total_size s then Inl InvalidManifest
      else
        let h = mh_hasher s @ le64 (mh_chunk_count s) in
        if mh_chunking s = WholeFile
           \<and> \<not> ((mh_total_size s = 0 \<and> mh_chunk_count s = 0) \<or> (mh_total_size s > 0 \<and> mh_chunk_count s = 1))
        then Inl InvalidManifest
        else Inr (ManifestId (blake3 h)))"

definition manifest_id :: "(byte list \<Rightarrow> content_digest) \<Rightarrow> manifest \<Rightarrow> manifest_id validation_result" where
  "manifest_id blake3 m =
     and_then (manifest_validate m) (\<lambda>_.
     and_then (try_fold manifest_hasher_push (manifest_hasher_new (m_total_size m) (m_chunking m)) (m_chunks m))
       (manifest_hasher_finish blake3))"

definition file_record_from_manifest ::
  "(byte list \<Rightarrow> content_digest) \<Rightarrow> logical_path \<Rightarrow> manifest \<Rightarrow> file_record validation_result" where
  "file_record_from_manifest blake3 path m =
     and_then (manifest_validate m) (\<lambda>_.
     and_then (manifest_id blake3 m) (\<lambda>mid.
     and_then (manifest_chunk_count m) (\<lambda>count.
       file_record_new path mid (m_total_size m) count)))"

section \<open>Directories\<close>

record directory_hasher =
  dh_hasher :: "byte list"
  dh_previous_name :: "path_component option"
  dh_portable_names :: "string btree_set"
  dh_entry_count :: u64

definition directory_hasher_new :: directory_hasher where
  "directory_hasher_new =
     \<lparr> dh_hasher = canonical_hasher DIRECTORY_HASH_DOMAIN, dh_previous_name = None,
       dh_portable_names = [], dh_entry_count = 0 \<rparr>"

definition directory_hasher_push ::
  "unicode \<Rightarrow> directory_hasher \<Rightarrow> directory_entry \<Rightarrow> directory_hasher validation_result" where
  "directory_hasher_push uni s e =
     and_then (entry_validate e) (\<lambda>_.
     if de_ordinal e \<noteq> dh_entry_count s then Inl InvalidDirectory
     else if (case dh_previous_name s of None \<Rightarrow> False | Some previous \<Rightarrow> previous \<ge> de_name e)
     then Inl InvalidDirectory
     else
       let key = component_portable_key uni (de_name e) in
       if key \<in> set (dh_portable_names s) then Inl InvalidDirectory
       else
         and_then (update_bytes_with_len (dh_hasher s @ [directory_kind_tag (de_kind e)])
                     (str_bytes (component_str (de_name e)))) (\<lambda>h.
         and_then (ok_or Overflow (checked_add (dh_entry_count s) 1)) (\<lambda>count.
         Inr (s \<lparr> dh_hasher := h @ target_as_bytes (de_target_id e) @ le64 (de_total_size e),
                  dh_previous_name := Some (de_name e),
                  dh_portable_names := bts_insert key (dh_portable_names s),
                  dh_entry_count := count \<rparr>))))"

definition directory_hasher_finish :: "(byte list \<Rightarrow> content_digest) \<Rightarrow> directory_hasher \<Rightarrow> directory_id" where
  "directory_hasher_finish blake3 s = DirectoryId (blake3 (dh_hasher s @ le64 (dh_entry_count s)))"

definition directory_id ::
  "unicode \<Rightarrow> (byte list \<Rightarrow> content_digest) \<Rightarrow> directory \<Rightarrow> directory_id validation_result" where
  "directory_id uni blake3 d =
     and_then (directory_validate uni d) (\<lambda>_.
     and_then (try_fold (directory_hasher_push uni) directory_hasher_new (dir_entries d)) (\<lambda>s.
       Inr (directory_hasher_finish blake3 s)))"

section \<open>Commits\<close>

definition commit_id :: "(byte list \<Rightarrow> content_digest) \<Rightarrow> commit \<Rightarrow> commit_id validation_result" where
  "commit_id blake3 c =
     and_then (commit_validate c) (\<lambda>_.
     let h = canonical_hasher COMMIT_HASH_DOMAIN @ digest_as_bytes (directory_digest (c_root_directory_id c));
         h = (case c_parent c of
                Some parent \<Rightarrow> h @ [1] @ digest_as_bytes (commit_digest parent)
              | None \<Rightarrow> h @ [0]) in
     and_then (update_bytes_with_len h (str_bytes (c_message c))) (\<lambda>h.
     Inr (CommitId (blake3 (h @ le64 (c_created_at_unix_ms c))))))"

section \<open>Index records, snapshots and deltas\<close>

definition index_record_digest ::
  "(byte list \<Rightarrow> content_digest) \<Rightarrow> file_record \<Rightarrow> content_digest validation_result" where
  "index_record_digest blake3 r =
     and_then (file_record_validate r) (\<lambda>_.
     and_then (update_file_record (canonical_hasher INDEX_RECORD_HASH_DOMAIN) r) (\<lambda>h. Inr (blake3 h)))"

definition validate_next_index_path ::
  "unicode \<Rightarrow> logical_path option \<Rightarrow> string btree_set \<Rightarrow> logical_path \<Rightarrow> string btree_set validation_result" where
  "validate_next_index_path uni previous portable_paths path =
     (if (case previous of None \<Rightarrow> False | Some q \<Rightarrow> q \<ge> path) then Inl InvalidIndex
      else
        let portable_path = path_portable_key uni path in
        if portable_path \<in> set portable_paths then Inl InvalidIndex
        else if \<exists>a \<in> set (slash_prefixes portable_path). a \<in> set portable_paths then Inl InvalidIndex
        else
          let descendant_prefix = portable_path @ ''/'' in
          if (case bts_range_next descendant_prefix portable_paths of
                None \<Rightarrow> False | Some candidate \<Rightarrow> prefix descendant_prefix candidate)
          then Inl InvalidIndex
          else Inr (bts_insert portable_path portable_paths))"

record index_snapshot_hasher =
  sh_hasher :: "byte list"
  sh_previous_path :: "logical_path option"
  sh_portable_paths :: "string btree_set"
  sh_record_count :: u64

definition index_snapshot_hasher_new :: index_snapshot_hasher where
  "index_snapshot_hasher_new =
     \<lparr> sh_hasher = canonical_hasher INDEX_SNAPSHOT_HASH_DOMAIN @ le32 WORKSPACE_INDEX_FORMAT_VERSION,
       sh_previous_path = None, sh_portable_paths = [], sh_record_count = 0 \<rparr>"

definition index_snapshot_hasher_push ::
  "unicode \<Rightarrow> index_snapshot_hasher \<Rightarrow> file_record \<Rightarrow> index_snapshot_hasher validation_result" where
  "index_snapshot_hasher_push uni s r =
     and_then (file_record_validate r) (\<lambda>_.
     and_then (validate_next_index_path uni (sh_previous_path s) (sh_portable_paths s) (fr_path r)) (\<lambda>paths.
     and_then (update_file_record (sh_hasher s) r) (\<lambda>h.
     and_then (ok_or Overflow (checked_add (sh_record_count s) 1)) (\<lambda>count.
     Inr (s \<lparr> sh_hasher := h, sh_previous_path := Some (fr_path r),
              sh_portable_paths := paths, sh_record_count := count \<rparr>)))))"

definition index_snapshot_hasher_finish ::
  "(byte list \<Rightarrow> content_digest) \<Rightarrow> index_snapshot_hasher \<Rightarrow> content_digest" where
  "index_snapshot_hasher_finish blake3 s = blake3 (sh_hasher s @ le64 (sh_record_count s))"

definition index_snapshot_hasher_finish_version ::
  "(byte list \<Rightarrow> content_digest) \<Rightarrow> index_snapshot_hasher \<Rightarrow> u64 \<Rightarrow> index_version" where
  "index_snapshot_hasher_finish_version blake3 s revision =
     \<lparr> iv_revision = revision, iv_digest = index_snapshot_hasher_finish blake3 s \<rparr>"

definition index_snapshot_digest ::
  "unicode \<Rightarrow> (byte list \<Rightarrow> content_digest) \<Rightarrow> file_record list \<Rightarrow> content_digest validation_result" where
  "index_snapshot_digest uni blake3 records =
     and_then (try_fold (index_snapshot_hasher_push uni) index_snapshot_hasher_new records) (\<lambda>s.
       Inr (index_snapshot_hasher_finish blake3 s))"

definition index_version_from_snapshot ::
  "unicode \<Rightarrow> (byte list \<Rightarrow> content_digest) \<Rightarrow> u64 \<Rightarrow> file_record list \<Rightarrow> index_version validation_result" where
  "index_version_from_snapshot uni blake3 revision records =
     and_then (index_snapshot_digest uni blake3 records) (\<lambda>d.
       Inr \<lparr> iv_revision = revision, iv_digest = d \<rparr>)"

primrec update_mutation :: "byte list \<Rightarrow> index_mutation \<Rightarrow> byte list validation_result" where
  "update_mutation h (Upsert r) = update_file_record (h @ [1]) r"
| "update_mutation h (Delete p) = update_bytes_with_len (h @ [2]) (str_bytes (path_str p))"

definition index_delta_digest ::
  "unicode \<Rightarrow> (byte list \<Rightarrow> content_digest) \<Rightarrow> index_delta \<Rightarrow> content_digest validation_result" where
  "index_delta_digest uni blake3 d =
     and_then (delta_validate uni d) (\<lambda>_.
     and_then (try_fold update_mutation
        (canonical_hasher INDEX_DELTA_HASH_DOMAIN @ le32 WORKSPACE_INDEX_FORMAT_VERSION
         @ le64 (iv_revision (dl_base_version d)) @ digest_as_bytes (iv_digest (dl_base_version d)))
        (delta_iter d)) (\<lambda>h.
     and_then (ok_or Overflow (u64_try_from (delta_mutation_count d))) (\<lambda>count.
     Inr (blake3 (h @ le64 count @ digest_as_bytes (dl_result_digest d))))))"

section \<open>Publications\<close>

text \<open>The scope of one managed Add, in the order of the parameters of \<open>add_publication_digest\<close>.\<close>

record publication_scope =
  ps_tenant_id :: string
  ps_project_id :: string
  ps_artifact_id :: string
  ps_workspace_id :: string
  ps_job_id :: string

definition scope_fields :: "publication_scope \<Rightarrow> string list" where
  "scope_fields s = [ps_tenant_id s, ps_project_id s, ps_artifact_id s, ps_workspace_id s, ps_job_id s]"

definition collect_chunk ::
  "(object_id, u64) btree_map \<Rightarrow> chunk_ref \<Rightarrow> (object_id, u64) btree_map validation_result" where
  "collect_chunk referenced chunk =
     (if (case bt_get referenced (cr_object_id chunk) of None \<Rightarrow> False | Some sz \<Rightarrow> sz \<noteq> cr_size chunk)
      then Inl InvalidPublication
      else Inr (bt_insert (cr_object_id chunk) (cr_size chunk) referenced))"

definition collect_manifest ::
  "(byte list \<Rightarrow> content_digest) \<Rightarrow> (manifest_id, manifest) btree_map \<times> (object_id, u64) btree_map \<Rightarrow> manifest
   \<Rightarrow> ((manifest_id, manifest) btree_map \<times> (object_id, u64) btree_map) validation_result" where
  "collect_manifest blake3 st m =
     (case st of (canonical_manifests, referenced_objects) \<Rightarrow>
      and_then (manifest_validate m) (\<lambda>_.
      and_then (manifest_id blake3 m) (\<lambda>mid.
      if bt_contains canonical_manifests mid then Inl InvalidPublication
      else and_then (try_fold collect_chunk referenced_objects (m_chunks m)) (\<lambda>referenced.
        Inr (bt_insert mid m canonical_manifests, referenced)))))"

definition check_upsert ::
  "(manifest_id, manifest) btree_map \<Rightarrow> manifest_id btree_set \<Rightarrow> index_mutation
   \<Rightarrow> manifest_id btree_set validation_result" where
  "check_upsert canonical_manifests referenced mut =
     (case mut of
        Upsert r \<Rightarrow>
          and_then (ok_or InvalidPublication (bt_get canonical_manifests (fr_manifest_id r))) (\<lambda>m.
          if m_total_size m \<noteq> fr_total_size r then Inl InvalidPublication
          else and_then (manifest_chunk_count m) (\<lambda>count.
            if count \<noteq> fr_chunk_count r then Inl InvalidPublication
            else Inr (bts_insert (fr_manifest_id r) referenced)))
      | Delete _ \<Rightarrow> Inr referenced)"

definition collect_object ::
  "(object_id, u64) btree_map \<Rightarrow> object_spec \<Rightarrow> (object_id, u64) btree_map validation_result" where
  "collect_object objects spec =
     (if bt_contains objects (os_id spec) then Inl InvalidPublication
      else Inr (bt_insert (os_id spec) (os_size spec) objects))"

definition add_publication_digest ::
  "unicode \<Rightarrow> (byte list \<Rightarrow> content_digest) \<Rightarrow> publication_scope \<Rightarrow> index_version \<Rightarrow> index_delta
   \<Rightarrow> manifest list \<Rightarrow> object_spec list \<Rightarrow> content_digest validation_result" where
  "add_publication_digest uni blake3 sc base delta manifests object_specs =
     (if \<exists>v \<in> set (scope_fields sc). v = [] then Inl InvalidPublication
      else if dl_base_version delta \<noteq> base then Inl InvalidPublication
      else
        and_then (delta_validate uni delta) (\<lambda>_.
        and_then (try_fold (collect_manifest blake3) ([], []) manifests) (\<lambda>(canonical_manifests, referenced_objects).
        and_then (try_fold (check_upsert canonical_manifests) [] (delta_iter delta)) (\<lambda>referenced_manifests.
        if bt_keys canonical_manifests \<noteq> referenced_manifests then Inl InvalidPublication
        else
          and_then (try_fold collect_object [] object_specs) (\<lambda>canonical_objects.
          if canonical_objects \<noteq> referenced_objects then Inl InvalidPublication
          else
            and_then (try_fold (\<lambda>h v. update_bytes_with_len h (str_bytes v))
                        (canonical_hasher ADD_PUBLICATION_HASH_DOMAIN) (scope_fields sc)) (\<lambda>h.
            and_then (index_delta_digest uni blake3 delta) (\<lambda>delta_digest.
            and_then (ok_or Overflow (u64_try_from (length canonical_manifests))) (\<lambda>manifest_count.
            and_then (ok_or Overflow (u64_try_from (length canonical_objects))) (\<lambda>object_count.
            Inr (blake3 (h @ le64 (iv_revision base) @ digest_as_bytes (iv_digest base)
                           @ digest_as_bytes delta_digest
                           @ le64 manifest_count
                           @ concat (map (\<lambda>mid. digest_as_bytes (manifest_digest mid)) (bt_keys canonical_manifests))
                           @ le64 object_count
                           @ concat (map (\<lambda>(oid, sz). digest_as_bytes (object_digest oid) @ le64 sz)
                                      canonical_objects))))))))))))"

end
