(* ===== verification/Identity.thy ===== *)
theory Identity
  imports Canonical
begin

text \<open>
  What the canonical identities identify.  For each model an encoding function gives the bytes
  its hasher absorbs; the incremental hasher is shown to hash exactly these bytes, and to
  succeed exactly on the valid models; and the encodings are shown to determine the model.
  Two models with one identity are therefore equal, or their encodings are a collision of the
  hash function.
\<close>

section \<open>Collisions and shared parts\<close>

definition collision :: "(byte list \<Rightarrow> content_digest) \<Rightarrow> byte list \<Rightarrow> byte list \<Rightarrow> bool" where
  "collision blake3 x y \<longleftrightarrow> x \<noteq> y \<and> blake3 x = blake3 y"

text \<open>
  An encoder that is injective on the models it accepts.  Every identity of the program is the
  hash of such an encoding, so equal identities mean equal models or a collision.
\<close>

locale identity_code =
  fixes code :: "'a \<Rightarrow> byte list"
    and ok :: "'a \<Rightarrow> bool"
  assumes code_inj: "ok a \<Longrightarrow> ok b \<Longrightarrow> code a = code b \<Longrightarrow> a = b"
begin

lemma same_identity:
  "ok a \<Longrightarrow> ok b \<Longrightarrow> blake3 (code a) = blake3 (code b) \<Longrightarrow> a = b \<or> collision blake3 (code a) (code b)"
  using code_inj by (auto simp: collision_def)

end

sublocale self_delimiting \<subseteq> identity_code enc ok
  by unfold_locales (rule injective)

lemmas fixed_cancel [delim] =
  le64.cancel_iff [OF TrueI TrueI] be64.cancel_iff [OF TrueI TrueI] digest.cancel_iff [OF TrueI TrueI]

lemma fixed_inj [delim]:
  "le64 a = le64 b \<longleftrightarrow> a = b" "be64 a = be64 b \<longleftrightarrow> a = b"
  using le64_inj be64_inj by blast+

definition len_str :: "string \<Rightarrow> byte list" where
  "len_str s = le_len_prefixed (str_bytes s)"

definition str_fits :: "string \<Rightarrow> bool" where
  "str_fits s \<longleftrightarrow> length s < 2 ^ 64"

interpretation len_str: self_delimiting len_str str_fits
proof
  show "a = b \<and> s = t" if "str_fits a" "str_fits b" "len_str a @ s = len_str b @ t" for a b s t
    using le_len.cancel [of "str_bytes a" "str_bytes b" s t] that
    by (simp add: len_str_def str_fits_def fits_u64_def)
  show "len_str a \<noteq> []" for a by (simp add: len_str_def le_len.nonempty)
qed

lemmas [delim] = len_str.cancel_iff

lemma update_bytes_with_len_str:
  "update_bytes_with_len h (str_bytes s) = (if str_fits s then Inr (h @ len_str s) else Inl Overflow)"
  by (simp add: update_bytes_with_len_def u64_try_from_def str_fits_def len_str_def le_len_prefixed_def
      and_then_def ok_or_def)

lemma canonical_hasher_str: "canonical_hasher d = len_str d @ le32 CANONICAL_ENCODING_VERSION"
  by (simp add: canonical_hasher_def len_str_def le_len_prefixed_def)

lemma canonical_hasher_cancel:
  assumes "str_fits d" "str_fits e"
  shows "canonical_hasher d @ s = canonical_hasher e @ t \<longleftrightarrow> d = e \<and> s = t"
  using assms by (simp add: canonical_hasher_str delim)

lemma domains_fit [simp]:
  "str_fits MANIFEST_HASH_DOMAIN" "str_fits DIRECTORY_HASH_DOMAIN" "str_fits COMMIT_HASH_DOMAIN"
  "str_fits INDEX_RECORD_HASH_DOMAIN" "str_fits INDEX_SNAPSHOT_HASH_DOMAIN"
  "str_fits INDEX_DELTA_HASH_DOMAIN" "str_fits ADD_PUBLICATION_HASH_DOMAIN"
  by (simp_all add: str_fits_def MANIFEST_HASH_DOMAIN_def DIRECTORY_HASH_DOMAIN_def COMMIT_HASH_DOMAIN_def
      INDEX_RECORD_HASH_DOMAIN_def INDEX_SNAPSHOT_HASH_DOMAIN_def INDEX_DELTA_HASH_DOMAIN_def
      ADD_PUBLICATION_HASH_DOMAIN_def)

lemmas domain_defs = MANIFEST_HASH_DOMAIN_def DIRECTORY_HASH_DOMAIN_def COMMIT_HASH_DOMAIN_def
  INDEX_RECORD_HASH_DOMAIN_def INDEX_SNAPSHOT_HASH_DOMAIN_def INDEX_DELTA_HASH_DOMAIN_def
  ADD_PUBLICATION_HASH_DOMAIN_def

section \<open>Manifests\<close>

definition chunk_encoding :: "chunk_ref \<Rightarrow> byte list" where
  "chunk_encoding c =
     digest_as_bytes (object_digest (cr_object_id c)) @ le64 (cr_offset c) @ le64 (cr_size c)"

definition manifest_encoding :: "manifest \<Rightarrow> byte list" where
  "manifest_encoding m =
     canonical_hasher MANIFEST_HASH_DOMAIN @ [chunking_tag (m_chunking m)] @ le64 (m_total_size m)
     @ concat (map chunk_encoding (m_chunks m)) @ le64 (of_nat (length (m_chunks m)))"

interpretation chunk_enc: self_delimiting chunk_encoding "\<lambda>_. True"
proof
  show "a = b \<and> s = t" if "chunk_encoding a @ s = chunk_encoding b @ t" for a b s t
    using that by (cases a; cases b) (auto simp: chunk_encoding_def delim)
  show "chunk_encoding a \<noteq> []" for a by (simp add: chunk_encoding_def digest.nonempty)
qed

lemma chunking_tag_inj [simp]: "chunking_tag a = chunking_tag b \<longleftrightarrow> a = b"
  by (cases a; cases b) simp_all

lemma manifest_encoding_inj: "manifest_encoding m = manifest_encoding n \<Longrightarrow> m = n"
proof -
  assume "manifest_encoding m = manifest_encoding n"
  then have "m_chunking m = m_chunking n" "m_total_size m = m_total_size n"
    and "concat (map chunk_encoding (m_chunks m)) @ le64 (of_nat (length (m_chunks m)))
       = concat (map chunk_encoding (m_chunks n)) @ le64 (of_nat (length (m_chunks n)))"
    by (simp_all add: manifest_encoding_def canonical_hasher_cancel delim)
  moreover from this(3) have "m_chunks m = m_chunks n"
    by (intro chunk_enc.sequence_trailer [THEN conjunct1]) (simp_all add: list_all_iff)
  ultimately show ?thesis by (cases m; cases n) simp
qed

lemma u64_of_nat_bound: "n < 2 ^ 64 \<Longrightarrow> unat (of_nat n :: u64) = n"
  by (simp add: unat_of_nat take_bit_nat_eq_self)

lemma manifest_hasher_push_ok:
  assumes "manifest_step (mh_next_offset s) c = Inr w" and "checked_add (mh_chunk_count s) 1 = Some n"
  shows "manifest_hasher_push s c = Inr (s \<lparr> mh_hasher := mh_hasher s @ chunk_encoding c,
           mh_next_offset := w, mh_chunk_count := n \<rparr>)"
  using assms
  by (auto simp: manifest_hasher_push_def manifest_step_def chunk_encoding_def Let_def split: if_splits)

lemma manifest_hasher_fold:
  assumes "try_fold manifest_step (mh_next_offset s) cs = Inr w"
    and "unat (mh_chunk_count s) + length cs < 2 ^ 64"
  shows "try_fold manifest_hasher_push s cs =
    Inr (s \<lparr> mh_hasher := mh_hasher s @ concat (map chunk_encoding cs), mh_next_offset := w,
             mh_chunk_count := mh_chunk_count s + of_nat (length cs) \<rparr>)"
  using assms
proof (induction cs arbitrary: s)
  case (Cons c cs)
  then obtain v where v: "manifest_step (mh_next_offset s) c = Inr v"
    and rest: "try_fold manifest_step v cs = Inr w" by auto
  have n: "checked_add (mh_chunk_count s) 1 = Some (mh_chunk_count s + 1)"
    using Cons.prems(2) by (simp add: checked_add_def)
  then have "unat (mh_chunk_count s + 1) = unat (mh_chunk_count s) + 1"
    by (simp add: checked_add_eq_Some)
  with Cons.prems(2) rest show ?case
    using Cons.IH [of "s \<lparr> mh_hasher := mh_hasher s @ chunk_encoding c, mh_next_offset := v,
        mh_chunk_count := mh_chunk_count s + 1 \<rparr>"]
    by (simp add: manifest_hasher_push_ok [OF v n] add.assoc)
qed simp

text \<open>\<open>manifest_id\<close> is the hash of the encoding, and fails exactly when validation fails.\<close>

lemma manifest_id_eq:
  "manifest_id blake3 m = and_then (manifest_validate m) (\<lambda>_. Inr (ManifestId (blake3 (manifest_encoding m))))"
proof (cases "manifest_validate m")
  case (Inr u)
  have fold: "try_fold manifest_step 0 (m_chunks m) = Inr (m_total_size m)"
    and whole: "whole_file_ok (m_chunking m) (m_total_size m) (length (m_chunks m))"
    using Inr by (auto simp: manifest_validate_def split: if_splits)
  have len: "length (m_chunks m) < 2 ^ 64" by (rule manifest_chunk_count_ok [OF Inr])
  let ?n = "of_nat (length (m_chunks m)) :: u64"
  have "?n = 0 \<longleftrightarrow> length (m_chunks m) = 0" "?n = 1 \<longleftrightarrow> length (m_chunks m) = 1"
    using u64_of_nat_bound [OF len] by (auto simp: word_unat_eq_iff)
  then have "\<not> (m_chunking m = WholeFile \<and> \<not> ((m_total_size m = 0 \<and> ?n = 0) \<or> (m_total_size m > 0 \<and> ?n = 1)))"
    using whole by (auto simp: whole_file_ok_def)
  moreover have "try_fold manifest_hasher_push (manifest_hasher_new (m_total_size m) (m_chunking m)) (m_chunks m)
    = Inr ((manifest_hasher_new (m_total_size m) (m_chunking m))
        \<lparr> mh_hasher := mh_hasher (manifest_hasher_new (m_total_size m) (m_chunking m)) @ concat (map chunk_encoding (m_chunks m)),
          mh_next_offset := m_total_size m, mh_chunk_count := ?n \<rparr>)"
    using manifest_hasher_fold [of "manifest_hasher_new (m_total_size m) (m_chunking m)" "m_chunks m" "m_total_size m"]
      fold len by (simp add: manifest_hasher_new_def)
  ultimately show ?thesis
    using Inr by (simp add: manifest_id_def manifest_hasher_finish_def manifest_hasher_new_def
        manifest_encoding_def Let_def)
qed (simp add: manifest_id_def)

interpretation manifest_code: identity_code manifest_encoding "\<lambda>_. True"
  by unfold_locales (rule manifest_encoding_inj)

lemma unat_u64_Suc: "Suc (unat w) < 2 ^ 64 \<Longrightarrow> unat (w + 1 :: u64) = Suc (unat w)"
  using checked_add_eq_Some [of w 1 "w + 1"] by (simp add: checked_add_def)

lemma len_str_eq [delim]: "str_fits a \<Longrightarrow> str_fits b \<Longrightarrow> len_str a = len_str b \<longleftrightarrow> a = b"
  using len_str.injective by blast

section \<open>Directories\<close>

definition entry_encoding :: "directory_entry \<Rightarrow> byte list" where
  "entry_encoding e =
     [directory_kind_tag (de_kind e)] @ len_str (component_str (de_name e))
     @ target_as_bytes (de_target_id e) @ le64 (de_total_size e)"

definition directory_encoding :: "directory \<Rightarrow> byte list" where
  "directory_encoding d =
     canonical_hasher DIRECTORY_HASH_DOMAIN @ concat (map entry_encoding (dir_entries d))
     @ le64 (of_nat (length (dir_entries d)))"

text \<open>The ordinal is not hashed: it is the position, so entries are compared with it cleared.\<close>

definition unplaced :: "directory_entry \<Rightarrow> directory_entry" where
  "unplaced e = e \<lparr> de_ordinal := 0 \<rparr>"

definition entry_encodable :: "directory_entry \<Rightarrow> bool" where
  "entry_encodable e \<longleftrightarrow> de_ordinal e = 0 \<and> de_kind e = target_kind (de_target_id e)
     \<and> str_fits (component_str (de_name e))"

lemma component_str_inj [simp]: "component_str a = component_str b \<longleftrightarrow> a = b"
  by (cases a; cases b) simp

lemma path_str_inj [simp]: "path_str a = path_str b \<longleftrightarrow> a = b"
  by (cases a; cases b) simp

lemma directory_kind_tag_inj [simp]: "directory_kind_tag a = directory_kind_tag b \<longleftrightarrow> a = b"
  by (cases a; cases b) simp_all

lemma target_cancel:
  "target_kind a = target_kind b \<Longrightarrow> target_as_bytes a @ s = target_as_bytes b @ t \<longleftrightarrow> a = b \<and> s = t"
  by (cases a; cases b) (simp_all add: delim)

interpretation entry_enc: self_delimiting entry_encoding entry_encodable
proof
  show "a = b \<and> s = t"
    if ok: "entry_encodable a" "entry_encodable b" and eq: "entry_encoding a @ s = entry_encoding b @ t"
    for a b s t
  proof -
    have k: "de_kind a = de_kind b" "de_name a = de_name b"
      and rest: "target_as_bytes (de_target_id a) @ le64 (de_total_size a) @ s
        = target_as_bytes (de_target_id b) @ le64 (de_total_size b) @ t"
      using eq ok by (simp_all add: entry_encoding_def entry_encodable_def delim)
    moreover have "target_kind (de_target_id a) = target_kind (de_target_id b)"
      using k ok by (simp add: entry_encodable_def)
    ultimately have "de_target_id a = de_target_id b" "de_total_size a = de_total_size b" "s = t"
      by (simp_all add: target_cancel delim)
    with k ok show ?thesis by (cases a; cases b) (simp add: entry_encodable_def)
  qed
  show "entry_encoding a \<noteq> []" for a by (simp add: entry_encoding_def)
qed

lemma entry_encoding_unplaced [simp]: "entry_encoding (unplaced e) = entry_encoding e"
  by (simp add: entry_encoding_def unplaced_def)

definition directory_encodable :: "unicode \<Rightarrow> directory \<Rightarrow> bool" where
  "directory_encodable uni d \<longleftrightarrow> directory_ok uni (dir_entries d)
     \<and> (\<forall>e \<in> set (dir_entries d). str_fits (component_str (de_name e))) \<and> length (dir_entries d) < 2 ^ 64"

lemma entry_validate_kind: "entry_validate e = Inr u \<Longrightarrow> de_kind e = target_kind (de_target_id e)"
  by (simp add: entry_validate_def split: if_splits)

lemma placed_eq:
  assumes "map unplaced es = map unplaced fs"
    and "map (\<lambda>e. unat (de_ordinal e)) es = map (\<lambda>e. unat (de_ordinal e)) fs"
  shows "es = fs"
proof (rule nth_equalityI)
  show len: "length es = length fs" using arg_cong [OF assms(1), of length] by simp
  fix i
  assume i: "i < length es"
  have "unplaced (es ! i) = unplaced (fs ! i)" "de_ordinal (es ! i) = de_ordinal (fs ! i)"
    using arg_cong [OF assms(1), of "\<lambda>l. l ! i"] arg_cong [OF assms(2), of "\<lambda>l. l ! i"] i len
    by (simp_all add: word_unat_eq_iff)
  then show "es ! i = fs ! i" by (cases "es ! i"; cases "fs ! i") (simp add: unplaced_def)
qed

interpretation directory_code: identity_code directory_encoding "directory_encodable uni"
proof
  fix d d' :: directory
  let ?es = "dir_entries d" and ?fs = "dir_entries d'"
  assume ok: "directory_encodable uni d" "directory_encodable uni d'"
    and eq: "directory_encoding d = directory_encoding d'"
  have enc: "list_all entry_encodable (map unplaced (dir_entries x))" if "directory_encodable uni x" for x
    using that entry_validate_kind
    by (auto simp: directory_encodable_def directory_ok_def entry_encodable_def unplaced_def list_all_iff)
  have "concat (map entry_encoding (map unplaced ?es)) @ le64 (of_nat (length ?es))
      = concat (map entry_encoding (map unplaced ?fs)) @ le64 (of_nat (length ?fs))"
    using eq by (simp add: directory_encoding_def canonical_hasher_cancel comp_def)
  then have un: "map unplaced ?es = map unplaced ?fs"
    using enc ok by (intro entry_enc.sequence_trailer [THEN conjunct1]) simp_all
  have "length ?es = length ?fs" using arg_cong [OF un, of length] by simp
  then have "map (\<lambda>e. unat (de_ordinal e)) ?es = map (\<lambda>e. unat (de_ordinal e)) ?fs"
    using ok by (simp add: directory_encodable_def directory_ok_def)
  with un have "?es = ?fs" by (rule placed_eq)
  then show "d = d'" by (cases d; cases d') simp
qed

text \<open>The incremental hasher follows the validation and appends one encoding per entry.\<close>

lemma directory_hasher_push_step:
  assumes "unat (dh_entry_count s) = i"
  shows "directory_hasher_push uni s e = Inr s' \<longleftrightarrow>
     (\<exists>prev ks. directory_step uni (dh_previous_name s, dh_portable_names s) (i, e) = Inr (prev, ks)
       \<and> str_fits (component_str (de_name e)) \<and> Suc i < 2 ^ 64
       \<and> s' = \<lparr> dh_hasher = dh_hasher s @ entry_encoding e, dh_previous_name = prev,
                dh_portable_names = ks, dh_entry_count = dh_entry_count s + 1 \<rparr>)"
proof -
  have "de_ordinal e = dh_entry_count s \<longleftrightarrow> unat (de_ordinal e) = i"
    using assms by (simp add: word_unat_eq_iff)
  moreover have "checked_add (dh_entry_count s) 1 = (if Suc i < 2 ^ 64 then Some (dh_entry_count s + 1) else None)"
    using assms by (simp add: checked_add_def)
  ultimately show ?thesis
    by (cases s; cases "dh_previous_name s")
       (auto simp: directory_hasher_push_def directory_step_iff update_bytes_with_len_str entry_encoding_def
         Let_def simp del: power.simps split: if_splits)
qed

lemma directory_hasher_fold:
  assumes "unat (dh_entry_count s) = n" and "n < 2 ^ 64"
  shows "is_ok (try_fold (directory_hasher_push uni) s es) \<longleftrightarrow>
      is_ok (try_fold (directory_step uni) (dh_previous_name s, dh_portable_names s) (enumerate n es))
      \<and> (\<forall>e \<in> set es. str_fits (component_str (de_name e))) \<and> n + length es < 2 ^ 64"
    and "try_fold (directory_hasher_push uni) s es = Inr s' \<Longrightarrow>
      dh_hasher s' = dh_hasher s @ concat (map entry_encoding es)
      \<and> dh_entry_count s' = dh_entry_count s + of_nat (length es)"
  using assms
proof (induction es arbitrary: s n)
  case Nil
  {
    case 1
    then show ?case by simp
  next
    case 2
    then show ?case by simp
  }
next
  case (Cons e es)
  {
    case 1
    show ?case
    proof (cases "directory_hasher_push uni s e")
      case (Inl err)
      then have "\<not> (is_ok (directory_step uni (dh_previous_name s, dh_portable_names s) (n, e))
          \<and> str_fits (component_str (de_name e)) \<and> Suc n < 2 ^ 64)"
        using directory_hasher_push_step [OF 1(1), of uni e] by (auto simp: is_ok_iff)
      then show ?thesis using Inl by (auto simp: is_ok_iff)
    next
      case (Inr t)
      then obtain prev ks where t: "directory_step uni (dh_previous_name s, dh_portable_names s) (n, e) = Inr (prev, ks)"
        "str_fits (component_str (de_name e))" "Suc n < 2 ^ 64"
        "dh_previous_name t = prev" "dh_portable_names t = ks" "dh_entry_count t = dh_entry_count s + 1"
        using directory_hasher_push_step [OF 1(1), of uni e t] by auto
      have "unat (dh_entry_count t) = Suc n"
        using t(3,6) 1(1) unat_u64_Suc [of "dh_entry_count s"] by simp
      then show ?thesis using Cons.IH(1) [of t "Suc n"] Inr t by simp
    qed
  next
    case 2
    then obtain t where t: "directory_hasher_push uni s e = Inr t"
      "try_fold (directory_hasher_push uni) t es = Inr s'" by auto
    then have p: "dh_hasher t = dh_hasher s @ entry_encoding e" "dh_entry_count t = dh_entry_count s + 1"
      "Suc n < 2 ^ 64"
      using directory_hasher_push_step [OF 2(2), of uni e t] by auto
    have "unat (dh_entry_count t) = Suc n"
      using p 2(2) unat_u64_Suc [of "dh_entry_count s"] by simp
    then show ?case using Cons.IH(2) [of t "Suc n"] t(2) p by (simp add: add.assoc)
  }
qed

lemma directory_id_iff:
  "directory_id uni blake3 d = Inr i \<longleftrightarrow>
     directory_encodable uni d \<and> i = DirectoryId (blake3 (directory_encoding d))"
proof -
  let ?f = "try_fold (directory_hasher_push uni) directory_hasher_new (dir_entries d)"
  have "directory_validate uni d = Inr () \<longleftrightarrow> is_ok (try_fold (directory_step uni) (None, []) (enumerate 0 (dir_entries d)))"
    by (auto simp: directory_validate_def is_ok_iff)
  then have ok: "is_ok ?f \<and> directory_validate uni d = Inr () \<longleftrightarrow> directory_encodable uni d"
    using directory_hasher_fold(1) [of directory_hasher_new 0 uni "dir_entries d"]
      directory_validate_iff [of uni d "()"]
    by (auto simp: directory_hasher_new_def directory_encodable_def)
  have enc: "dh_hasher s @ le64 (dh_entry_count s) = directory_encoding d" if "?f = Inr s" for s
    using directory_hasher_fold(2) [OF _ _ that, of 0] by (simp add: directory_hasher_new_def directory_encoding_def)
  show ?thesis
    using ok enc by (cases ?f) (auto simp: directory_id_def directory_hasher_finish_def)
qed

section \<open>Commits\<close>

definition parent_encoding :: "commit_id option \<Rightarrow> byte list" where
  "parent_encoding p = (case p of Some c \<Rightarrow> 1 # digest_as_bytes (commit_digest c) | None \<Rightarrow> [0])"

definition commit_encoding :: "commit \<Rightarrow> byte list" where
  "commit_encoding c =
     canonical_hasher COMMIT_HASH_DOMAIN @ digest_as_bytes (directory_digest (c_root_directory_id c))
     @ parent_encoding (c_parent c) @ len_str (c_message c) @ le64 (c_created_at_unix_ms c)"

interpretation parent_enc: self_delimiting parent_encoding "\<lambda>_. True"
proof
  show "a = b \<and> s = t" if "parent_encoding a @ s = parent_encoding b @ t" for a b s t
    using that by (cases a; cases b) (auto simp: parent_encoding_def delim)
  show "parent_encoding a \<noteq> []" for a by (cases a) (simp_all add: parent_encoding_def)
qed

interpretation commit_code: identity_code commit_encoding "\<lambda>c. str_fits (c_message c)"
proof
  fix a b
  assume "str_fits (c_message a)" "str_fits (c_message b)" "commit_encoding a = commit_encoding b"
  then show "a = b"
    by (cases a; cases b) (simp add: commit_encoding_def canonical_hasher_cancel delim parent_enc.cancel_iff)
qed

lemma commit_id_iff:
  "commit_id blake3 c = Inr i \<longleftrightarrow>
     commit_validate c = Inr () \<and> str_fits (c_message c) \<and> i = CommitId (blake3 (commit_encoding c))"
  by (cases "c_parent c")
     (auto simp: commit_id_def update_bytes_with_len_str commit_encoding_def parent_encoding_def Let_def)

section \<open>Index records and snapshots\<close>

definition record_encoding :: "file_record \<Rightarrow> byte list" where
  "record_encoding r =
     len_str (path_str (fr_path r)) @ digest_as_bytes (manifest_digest (fr_manifest_id r))
     @ le64 (fr_total_size r) @ le64 (fr_chunk_count r)"

definition record_encodable :: "file_record \<Rightarrow> bool" where
  "record_encodable r \<longleftrightarrow> str_fits (path_str (fr_path r))"

definition snapshot_encoding :: "file_record list \<Rightarrow> byte list" where
  "snapshot_encoding rs =
     canonical_hasher INDEX_SNAPSHOT_HASH_DOMAIN @ le32 WORKSPACE_INDEX_FORMAT_VERSION
     @ concat (map record_encoding rs) @ le64 (of_nat (length rs))"

interpretation record_enc: self_delimiting record_encoding record_encodable
proof
  show "a = b \<and> s = t"
    if "record_encodable a" "record_encodable b" "record_encoding a @ s = record_encoding b @ t" for a b s t
    using that by (cases a; cases b) (auto simp: record_encoding_def record_encodable_def delim)
  show "record_encoding a \<noteq> []" for a by (simp add: record_encoding_def len_str.nonempty)
qed

interpretation snapshot_code: identity_code snapshot_encoding "list_all record_encodable"
proof
  fix rs rs'
  assume ok: "list_all record_encodable rs" "list_all record_encodable rs'"
    and "snapshot_encoding rs = snapshot_encoding rs'"
  then have "concat (map record_encoding rs) @ le64 (of_nat (length rs))
           = concat (map record_encoding rs') @ le64 (of_nat (length rs'))"
    by (simp add: snapshot_encoding_def canonical_hasher_cancel)
  with ok show "rs = rs'" by (intro record_enc.sequence_trailer [THEN conjunct1]) simp_all
qed

lemma update_file_record_str:
  "update_file_record h r = (if record_encodable r then Inr (h @ record_encoding r) else Inl Overflow)"
  by (simp add: update_file_record_def update_bytes_with_len_str record_encodable_def record_encoding_def)

lemma index_record_digest_iff:
  "index_record_digest blake3 r = Inr d \<longleftrightarrow>
     file_record_validate r = Inr () \<and> record_encodable r
     \<and> d = blake3 (canonical_hasher INDEX_RECORD_HASH_DOMAIN @ record_encoding r)"
  by (auto simp: index_record_digest_def update_file_record_str)

text \<open>\<open>validate_next_index_path\<close> is the step of \<open>validate_path_set\<close> with another error kind.\<close>

lemma validate_next_index_path_step:
  "validate_next_index_path uni prev ks p = Inr ks' \<longleftrightarrow>
   validate_path_set_step uni (prev, ks) p = Inr (Some p, ks')"
  by (auto simp: validate_next_index_path_def validate_path_set_step_def Let_def split: if_splits)

lemma validate_path_set_step_Some:
  "validate_path_set_step uni st p = Inr st' \<Longrightarrow> fst st' = Some p"
  by (auto simp: validate_path_set_step_def Let_def split: prod.splits if_splits)

lemma index_snapshot_push_step:
  assumes "unat (sh_record_count s) = n"
  shows "index_snapshot_hasher_push uni s r = Inr s' \<longleftrightarrow>
     file_record_validate r = Inr () \<and> record_encodable r \<and> Suc n < 2 ^ 64
     \<and> (\<exists>ks. validate_path_set_step uni (sh_previous_path s, sh_portable_paths s) (fr_path r) = Inr (Some (fr_path r), ks)
          \<and> s' = \<lparr> sh_hasher = sh_hasher s @ record_encoding r, sh_previous_path = Some (fr_path r),
                   sh_portable_paths = ks, sh_record_count = sh_record_count s + 1 \<rparr>)"
proof -
  have "checked_add (sh_record_count s) 1 = (if Suc n < 2 ^ 64 then Some (sh_record_count s + 1) else None)"
    using assms by (simp add: checked_add_def)
  then show ?thesis
    by (cases s)
       (auto simp: index_snapshot_hasher_push_def update_file_record_str validate_next_index_path_step
         simp del: power.simps split: if_splits)
qed

lemma index_snapshot_fold:
  assumes "unat (sh_record_count s) = n" and "n < 2 ^ 64"
  shows "is_ok (try_fold (index_snapshot_hasher_push uni) s rs) \<longleftrightarrow>
      (\<forall>r \<in> set rs. file_record_validate r = Inr () \<and> record_encodable r) \<and> n + length rs < 2 ^ 64
      \<and> is_ok (try_fold (validate_path_set_step uni) (sh_previous_path s, sh_portable_paths s) (map fr_path rs))"
    and "try_fold (index_snapshot_hasher_push uni) s rs = Inr s' \<Longrightarrow>
      sh_hasher s' = sh_hasher s @ concat (map record_encoding rs)
      \<and> sh_record_count s' = sh_record_count s + of_nat (length rs)"
  using assms
proof (induction rs arbitrary: s n)
  case Nil
  {
    case 1
    then show ?case by simp
  next
    case 2
    then show ?case by simp
  }
next
  case (Cons r rs)
  {
    case 1
    show ?case
    proof (cases "index_snapshot_hasher_push uni s r")
      case (Inl err)
      then have "\<not> (file_record_validate r = Inr () \<and> record_encodable r \<and> Suc n < 2 ^ 64
          \<and> is_ok (validate_path_set_step uni (sh_previous_path s, sh_portable_paths s) (fr_path r)))"
        using index_snapshot_push_step [OF 1(1), of uni r] validate_path_set_step_Some
        by (fastforce simp: is_ok_iff)
      then show ?thesis using Inl by (auto simp: is_ok_iff)
    next
      case (Inr t)
      then obtain ks where t: "file_record_validate r = Inr ()" "record_encodable r" "Suc n < 2 ^ 64"
        "validate_path_set_step uni (sh_previous_path s, sh_portable_paths s) (fr_path r) = Inr (Some (fr_path r), ks)"
        "sh_previous_path t = Some (fr_path r)" "sh_portable_paths t = ks" "sh_record_count t = sh_record_count s + 1"
        using index_snapshot_push_step [OF 1(1), of uni r t] by auto
      have "unat (sh_record_count t) = Suc n" using t(3,7) 1(1) unat_u64_Suc [of "sh_record_count s"] by simp
      then show ?thesis using Cons.IH(1) [of t "Suc n"] Inr t by auto
    qed
  next
    case 2
    then obtain t where t: "index_snapshot_hasher_push uni s r = Inr t"
      "try_fold (index_snapshot_hasher_push uni) t rs = Inr s'" by auto
    then have p: "sh_hasher t = sh_hasher s @ record_encoding r" "sh_record_count t = sh_record_count s + 1"
      "Suc n < 2 ^ 64"
      using index_snapshot_push_step [OF 2(2), of uni r t] by auto
    have "unat (sh_record_count t) = Suc n" using p 2(2) unat_u64_Suc [of "sh_record_count s"] by simp
    then show ?case using Cons.IH(2) [of t "Suc n"] t(2) p by (simp add: add.assoc)
  }
qed

definition snapshot_ok :: "unicode \<Rightarrow> file_record list \<Rightarrow> bool" where
  "snapshot_ok uni rs \<longleftrightarrow> validate_index_snapshot uni rs = Inr ()
     \<and> list_all record_encodable rs \<and> length rs < 2 ^ 64"

text \<open>The incremental snapshot hasher accepts exactly what \<open>validate_index_snapshot\<close> accepts.\<close>

lemma index_snapshot_digest_iff:
  "index_snapshot_digest uni blake3 rs = Inr d \<longleftrightarrow> snapshot_ok uni rs \<and> d = blake3 (snapshot_encoding rs)"
proof -
  let ?f = "try_fold (index_snapshot_hasher_push uni) index_snapshot_hasher_new rs"
  have "validate_path_set uni (map fr_path rs) = Inr () \<longleftrightarrow>
      is_ok (try_fold (validate_path_set_step uni) (None, []) (map fr_path rs))"
    by (auto simp: validate_path_set_def is_ok_iff)
  then have ok: "is_ok ?f \<longleftrightarrow> snapshot_ok uni rs"
    using index_snapshot_fold(1) [of index_snapshot_hasher_new 0 uni rs]
    by (auto simp: index_snapshot_hasher_new_def snapshot_ok_def validate_index_snapshot_iff
        validate_path_set_iff list_all_iff)
  have enc: "sh_hasher s @ le64 (sh_record_count s) = snapshot_encoding rs" if "?f = Inr s" for s
    using index_snapshot_fold(2) [OF _ _ that, of 0] by (simp add: index_snapshot_hasher_new_def snapshot_encoding_def)
  show ?thesis
    using ok enc by (cases ?f) (auto simp: index_snapshot_digest_def index_snapshot_hasher_finish_def)
qed

section \<open>Properties\<close>

text \<open>
  C20: A manifest identity is the hash of the manifest's canonical encoding and exists exactly for
  valid manifests, with the error of the validation otherwise; manifests with one identity are
  equal unless their encodings collide under the hash function.
\<close>

theorem manifest_identity:
  "manifest_id blake3 m = and_then (manifest_validate m) (\<lambda>_. Inr (ManifestId (blake3 (manifest_encoding m))))
   \<and> (manifest_id blake3 m = Inr i \<and> manifest_id blake3 n = Inr i \<longrightarrow>
        m = n \<or> collision blake3 (manifest_encoding m) (manifest_encoding n))"
proof (intro conjI impI)
  show "manifest_id blake3 m = and_then (manifest_validate m) (\<lambda>_. Inr (ManifestId (blake3 (manifest_encoding m))))"
    by (rule manifest_id_eq)
  assume "manifest_id blake3 m = Inr i \<and> manifest_id blake3 n = Inr i"
  then have "blake3 (manifest_encoding m) = blake3 (manifest_encoding n)" by (auto simp: manifest_id_eq)
  then show "m = n \<or> collision blake3 (manifest_encoding m) (manifest_encoding n)"
    by (rule manifest_code.same_identity [OF TrueI TrueI])
qed

definition sum_hash :: "byte list \<Rightarrow> content_digest" where
  "sum_hash bs = ContentDigest (sum_list (map ucast bs))"

theorem manifest_identity_witness:
  "manifest_id sum_hash sample_manifest = Inr (ManifestId (sum_hash (manifest_encoding sample_manifest)))"
  using manifest_identity [of sum_hash sample_manifest] by (simp add: sample_manifest_valid)

text \<open>
  A directory identity exists exactly for canonical directories (positions as ordinals,
  increasing names, no two names equal under case folding, targets of the declared kind) whose
  names and entry count can be encoded, and determines the directory up to a hash collision
  although ordinals are not hashed.
\<close>

theorem directory_identity:
  "(directory_id uni blake3 d = Inr i \<longleftrightarrow>
      directory_encodable uni d \<and> i = DirectoryId (blake3 (directory_encoding d)))
   \<and> (directory_id uni blake3 d = Inr i \<and> directory_id uni blake3 e = Inr i \<longrightarrow>
        d = e \<or> collision blake3 (directory_encoding d) (directory_encoding e))"
  using directory_code.same_identity [of uni d e blake3] by (auto simp: directory_id_iff)

theorem directory_identity_witness:
  "directory_id ascii_unicode sum_hash \<lparr> dir_entries = [] \<rparr>
     = Inr (DirectoryId (sum_hash (directory_encoding \<lparr> dir_entries = [] \<rparr>)))"
  using directory_identity [of ascii_unicode sum_hash "\<lparr> dir_entries = [] \<rparr>"]
  by (simp add: directory_encodable_def directory_ok_def)

text \<open>
  A commit identity exists exactly for commits whose message is not blank (and can be encoded),
  and determines root directory, parent, message and time up to a hash collision; in particular a
  commit and its history cannot be rewritten under the same identity.
\<close>

theorem commit_identity:
  "(commit_id blake3 c = Inr i \<longleftrightarrow>
      \<not> is_blank (c_message c) \<and> str_fits (c_message c) \<and> i = CommitId (blake3 (commit_encoding c)))
   \<and> (commit_id blake3 c = Inr i \<and> commit_id blake3 c' = Inr i \<longrightarrow>
        c = c' \<or> collision blake3 (commit_encoding c) (commit_encoding c'))"
  using commit_code.same_identity [of c c' blake3] by (auto simp: commit_id_iff commit_validate_def)

definition sample_commit :: commit where
  "sample_commit = \<lparr> c_root_directory_id = DirectoryId (ContentDigest 7), c_parent = None,
     c_message = ''init'', c_created_at_unix_ms = 5 \<rparr>"

theorem commit_identity_witness:
  "commit_id sum_hash sample_commit = Inr (CommitId (sum_hash (commit_encoding sample_commit)))"
  using commit_identity [of sum_hash sample_commit]
  by (simp add: sample_commit_def str_fits_def)

text \<open>
  C21: The streaming snapshot hasher accepts exactly the record lists that \<open>validate_index_snapshot\<close>
  accepts (up to lengths that do not fit 64 bits), and its digest determines the snapshot up to a
  hash collision.
\<close>

theorem snapshot_identity:
  "(index_snapshot_digest uni blake3 rs = Inr d \<longleftrightarrow>
      validate_index_snapshot uni rs = Inr () \<and> list_all record_encodable rs \<and> length rs < 2 ^ 64
      \<and> d = blake3 (snapshot_encoding rs))
   \<and> (index_snapshot_digest uni blake3 rs = Inr d \<and> index_snapshot_digest uni blake3 rs' = Inr d \<longrightarrow>
        rs = rs' \<or> collision blake3 (snapshot_encoding rs) (snapshot_encoding rs'))"
  using snapshot_code.same_identity [of rs rs' blake3]
  by (auto simp: index_snapshot_digest_iff snapshot_ok_def)

theorem snapshot_identity_witness:
  "index_snapshot_digest ascii_unicode sum_hash [] = Inr (sum_hash (snapshot_encoding []))"
  using snapshot_identity [of ascii_unicode sum_hash "[]"]
  by (simp add: validate_index_snapshot_iff portable_path_set_def)

text \<open>
  Identities of different kinds never hash the same bytes: the encodings of a manifest, a
  directory, a commit and an index snapshot are pairwise different, whatever the models.
\<close>

theorem domains_separated:
  "distinct [manifest_encoding m, directory_encoding d, commit_encoding c, snapshot_encoding rs]"
  by (simp add: manifest_encoding_def directory_encoding_def commit_encoding_def snapshot_encoding_def
      canonical_hasher_cancel) (simp add: domain_defs)

end
