(* ===== verification/Publication.thy ===== *)
theory Publication
  imports Identity "HOL-Library.Multiset"
begin

text \<open>
  Identities of index deltas and of managed publications (\<open>index_delta_digest\<close> and
  \<open>add_publication_digest\<close> of \<open>core/canonical.rs\<close>): which inputs are accepted, that page boundaries and
  the order of manifests and objects do not matter, and what the digest determines.
\<close>

section \<open>Index deltas\<close>

primrec mutation_encoding :: "index_mutation \<Rightarrow> byte list" where
  "mutation_encoding (Upsert r) = 1 # record_encoding r"
| "mutation_encoding (Delete p) = 2 # len_str (path_str p)"

primrec mutation_encodable :: "index_mutation \<Rightarrow> bool" where
  "mutation_encodable (Upsert r) = record_encodable r"
| "mutation_encodable (Delete p) = str_fits (path_str p)"

text \<open>The logical content of a delta: base version, mutations, expected result.\<close>

type_synonym logical_delta = "index_version \<times> index_mutation list \<times> content_digest"

definition delta_content :: "index_delta \<Rightarrow> logical_delta" where
  "delta_content d = (dl_base_version d, delta_iter d, dl_result_digest d)"

definition delta_encoding :: "logical_delta \<Rightarrow> byte list" where
  "delta_encoding l = (case l of (base, ms, result) \<Rightarrow>
     canonical_hasher INDEX_DELTA_HASH_DOMAIN @ le32 WORKSPACE_INDEX_FORMAT_VERSION
     @ le64 (iv_revision base) @ digest_as_bytes (iv_digest base)
     @ concat (map mutation_encoding ms) @ le64 (of_nat (length ms)) @ digest_as_bytes result)"

interpretation mutation_enc: self_delimiting mutation_encoding mutation_encodable
proof
  show "a = b \<and> s = t"
    if "mutation_encodable a" "mutation_encodable b" "mutation_encoding a @ s = mutation_encoding b @ t" for a b s t
    using that by (cases a; cases b) (auto simp: delim record_enc.cancel_iff)
  show "mutation_encoding a \<noteq> []" for a by (cases a) simp_all
qed

interpretation delta_code: identity_code delta_encoding "\<lambda>(_, ms, _). list_all mutation_encodable ms"
proof
  fix a b :: logical_delta
  obtain base ms result base' ms' result' where ab: "a = (base, ms, result)" "b = (base', ms', result')"
    by (cases a; cases b) blast
  assume "case a of (_, ms, _) \<Rightarrow> list_all mutation_encodable ms"
    and "case b of (_, ms, _) \<Rightarrow> list_all mutation_encodable ms" and "delta_encoding a = delta_encoding b"
  then have ok: "list_all mutation_encodable ms" "list_all mutation_encodable ms'"
    and "iv_revision base = iv_revision base'" "iv_digest base = iv_digest base'"
    and eq: "concat (map mutation_encoding ms) @ (le64 (of_nat (length ms)) @ digest_as_bytes result)
       = concat (map mutation_encoding ms') @ (le64 (of_nat (length ms')) @ digest_as_bytes result')"
    by (simp_all add: ab delta_encoding_def canonical_hasher_cancel delim)
  moreover have "ms = ms' \<and> le64 (of_nat (length ms)) @ digest_as_bytes result
       = le64 (of_nat (length ms')) @ digest_as_bytes result'"
    using ok _ eq by (rule mutation_enc.sequence_trailer) simp
  ultimately show "a = b" by (cases base; cases base') (simp add: ab)
qed

lemma update_mutation_str:
  "update_mutation h m = (if mutation_encodable m then Inr (h @ mutation_encoding m) else Inl Overflow)"
  by (cases m) (simp_all add: update_file_record_str update_bytes_with_len_str)

lemma update_mutations_fold:
  "try_fold update_mutation h ms =
     (if list_all mutation_encodable ms then Inr (h @ concat (map mutation_encoding ms)) else Inl Overflow)"
  by (induction ms arbitrary: h) (simp_all add: update_mutation_str)

definition delta_ok :: "unicode \<Rightarrow> index_delta \<Rightarrow> bool" where
  "delta_ok uni d \<longleftrightarrow> delta_validate uni d = Inr () \<and> list_all mutation_encodable (delta_iter d)
     \<and> length (delta_iter d) < 2 ^ 64"

lemma index_delta_digest_iff:
  "index_delta_digest uni blake3 d = Inr x \<longleftrightarrow> delta_ok uni d \<and> x = blake3 (delta_encoding (delta_content d))"
  by (auto simp: index_delta_digest_def update_mutations_fold delta_mutation_count_iter u64_try_from_def
      delta_ok_def delta_encoding_def delta_content_def simp del: power.simps split: if_splits)

section \<open>Collecting a publication\<close>

definition chunk_pair :: "chunk_ref \<Rightarrow> object_id \<times> u64" where
  "chunk_pair c = (cr_object_id c, cr_size c)"

definition spec_pair :: "object_spec \<Rightarrow> object_id \<times> u64" where
  "spec_pair s = (os_id s, os_size s)"

definition sizes_agree :: "chunk_ref list \<Rightarrow> bool" where
  "sizes_agree cs \<longleftrightarrow> (\<forall>c \<in> set cs. \<forall>d \<in> set cs. cr_object_id c = cr_object_id d \<longrightarrow> cr_size c = cr_size d)"

definition id_of_manifest :: "(byte list \<Rightarrow> content_digest) \<Rightarrow> manifest \<Rightarrow> manifest_id" where
  "id_of_manifest blake3 m = ManifestId (blake3 (manifest_encoding m))"

definition upserts :: "index_mutation list \<Rightarrow> file_record list" where
  "upserts ms = concat (map (\<lambda>m. case m of Upsert r \<Rightarrow> [r] | Delete _ \<Rightarrow> []) ms)"

lemma bt_collect_snoc: "bt_collect (kvs @ [kv]) = bt_insert (fst kv) (snd kv) (bt_collect kvs)"
  by (cases kv) (simp add: bt_collect_def)

lemma functional_map_of:
  assumes "\<forall>p \<in> set kvs. \<forall>q \<in> set kvs. fst p = fst q \<longrightarrow> snd p = snd q"
  shows "map_of (rev kvs) k = Some v \<longleftrightarrow> (k, v) \<in> set kvs"
proof
  assume "map_of (rev kvs) k = Some v"
  then show "(k, v) \<in> set kvs" by (auto dest: map_of_SomeD)
next
  assume kv: "(k, v) \<in> set kvs"
  then obtain w where w: "map_of (rev kvs) k = Some w"
    by (metis map_of_eq_None_iff not_None_eq set_rev image_eqI fst_conv)
  then have "(k, w) \<in> set kvs" by (auto dest: map_of_SomeD)
  with kv assms w show "map_of (rev kvs) k = Some v" by fastforce
qed

lemma set_bt_collect_functional:
  assumes "\<forall>p \<in> set kvs. \<forall>q \<in> set kvs. fst p = fst q \<longrightarrow> snd p = snd q"
  shows "set (bt_collect kvs) = set kvs"
  using functional_map_of [OF assms] bt_get_iff [of "bt_collect kvs"] by (auto simp: bt_get_collect)

lemma sizes_agree_pairs:
  "sizes_agree cs \<longleftrightarrow>
     (\<forall>p \<in> set (map chunk_pair cs). \<forall>q \<in> set (map chunk_pair cs). fst p = fst q \<longrightarrow> snd p = snd q)"
  by (simp add: sizes_agree_def chunk_pair_def)

lemma sizes_agree_snoc:
  "sizes_agree (cs @ [c]) \<longleftrightarrow> sizes_agree cs \<and> (\<forall>d \<in> set cs. cr_object_id d = cr_object_id c \<longrightarrow> cr_size d = cr_size c)"
  by (auto simp: sizes_agree_def)

lemma sizes_agree_prefix: "sizes_agree (cs @ ds) \<Longrightarrow> sizes_agree cs"
  unfolding sizes_agree_def by simp

lemma collect_chunk_iff:
  assumes "sizes_agree pre"
  shows "collect_chunk (bt_collect (map chunk_pair pre)) c = Inr r \<longleftrightarrow>
    sizes_agree (pre @ [c]) \<and> r = bt_collect (map chunk_pair (pre @ [c]))"
proof -
  have get: "bt_get (bt_collect (map chunk_pair pre)) (cr_object_id c) = Some s \<longleftrightarrow>
      (cr_object_id c, s) \<in> set (map chunk_pair pre)" for s
    unfolding bt_get_collect by (rule functional_map_of [OF assms [unfolded sizes_agree_pairs]])
  have none: "bt_get (bt_collect (map chunk_pair pre)) (cr_object_id c) = None \<longleftrightarrow>
      (\<forall>d \<in> set pre. cr_object_id d \<noteq> cr_object_id c)"
    by (auto simp: bt_get_None_iff chunk_pair_def image_iff)
  have scan: "(case bt_get (bt_collect (map chunk_pair pre)) (cr_object_id c) of None \<Rightarrow> False | Some sz \<Rightarrow> sz \<noteq> cr_size c)
      \<longleftrightarrow> \<not> sizes_agree (pre @ [c])"
  proof (cases "bt_get (bt_collect (map chunk_pair pre)) (cr_object_id c)")
    case None
    then show ?thesis using none assms by (simp add: sizes_agree_snoc)
  next
    case (Some s)
    then obtain d where d: "d \<in> set pre" "cr_object_id d = cr_object_id c" "cr_size d = s"
      using get [of s] by (auto simp: chunk_pair_def)
    then have "\<forall>e \<in> set pre. cr_object_id e = cr_object_id c \<longrightarrow> cr_size e = s"
      using assms d unfolding sizes_agree_def by metis
    then have "sizes_agree (pre @ [c]) \<longleftrightarrow> s = cr_size c"
      unfolding sizes_agree_snoc using assms d by blast
    then show ?thesis using Some by simp
  qed
  show ?thesis
    unfolding collect_chunk_def scan by (auto simp: bt_collect_snoc chunk_pair_def)
qed

lemma collect_chunks_iff:
  assumes "sizes_agree pre"
  shows "try_fold collect_chunk (bt_collect (map chunk_pair pre)) cs = Inr r \<longleftrightarrow>
    sizes_agree (pre @ cs) \<and> r = bt_collect (map chunk_pair (pre @ cs))"
  using assms
proof (induction cs arbitrary: pre)
  case (Cons c cs)
  show ?case
  proof (cases "sizes_agree (pre @ [c])")
    case True
    then show ?thesis using Cons.IH [OF True] Cons.prems collect_chunk_iff [OF Cons.prems, of c] by auto
  next
    case False
    then show ?thesis using collect_chunk_iff [OF Cons.prems, of c] sizes_agree_prefix [of "pre @ [c]" cs] by auto
  qed
qed auto

definition all_chunks :: "manifest list \<Rightarrow> chunk_ref list" where
  "all_chunks ms = concat (map m_chunks ms)"

definition manifests_collect :: "(byte list \<Rightarrow> content_digest) \<Rightarrow> manifest list \<Rightarrow> bool" where
  "manifests_collect blake3 ms \<longleftrightarrow>
     (\<forall>m \<in> set ms. manifest_validate m = Inr ()) \<and> distinct (map (id_of_manifest blake3) ms)
     \<and> sizes_agree (all_chunks ms)"

definition manifest_pair :: "(byte list \<Rightarrow> content_digest) \<Rightarrow> manifest \<Rightarrow> manifest_id \<times> manifest" where
  "manifest_pair blake3 m = (id_of_manifest blake3 m, m)"

definition collected ::
  "(byte list \<Rightarrow> content_digest) \<Rightarrow> manifest list \<Rightarrow> (manifest_id, manifest) btree_map \<times> (object_id, u64) btree_map" where
  "collected blake3 ms =
     (bt_collect (map (manifest_pair blake3) ms), bt_collect (map chunk_pair (all_chunks ms)))"

lemma manifests_collect_snoc:
  "manifests_collect blake3 (ms @ [m]) \<longleftrightarrow>
     manifests_collect blake3 ms \<and> manifest_validate m = Inr ()
     \<and> id_of_manifest blake3 m \<notin> set (map (id_of_manifest blake3) ms)
     \<and> sizes_agree (all_chunks ms @ m_chunks m)"
  using sizes_agree_prefix [of "all_chunks ms" "m_chunks m"]
  by (auto simp: manifests_collect_def all_chunks_def)

lemma collect_manifest_iff:
  assumes "manifests_collect blake3 pre"
  shows "collect_manifest blake3 (collected blake3 pre) m = Inr st \<longleftrightarrow>
    manifests_collect blake3 (pre @ [m]) \<and> st = collected blake3 (pre @ [m])"
proof -
  have agree: "sizes_agree (all_chunks pre)" using assms by (simp add: manifests_collect_def)
  have contains: "bt_contains (bt_collect (map (manifest_pair blake3) pre)) i \<longleftrightarrow> i \<in> set (map (id_of_manifest blake3) pre)" for i
    by (simp add: manifest_pair_def image_image)
  have all: "all_chunks (pre @ [m]) = all_chunks pre @ m_chunks m" by (simp add: all_chunks_def)
  show ?thesis
    using assms
    unfolding collect_manifest_def collected_def prod.case contains manifests_collect_snoc all
    by (auto simp: manifest_id_eq id_of_manifest_def collect_chunks_iff [OF agree] bt_collect_snoc manifest_pair_def)
qed

lemma collect_manifests_iff:
  assumes "manifests_collect blake3 pre"
  shows "try_fold (collect_manifest blake3) (collected blake3 pre) ms = Inr st \<longleftrightarrow>
    manifests_collect blake3 (pre @ ms) \<and> st = collected blake3 (pre @ ms)"
  using assms
proof (induction ms arbitrary: pre)
  case (Cons m ms)
  show ?case
  proof (cases "manifests_collect blake3 (pre @ [m])")
    case True
    then show ?thesis using Cons.IH [OF True] collect_manifest_iff [OF Cons.prems, of m] by auto
  next
    case False
    have "\<not> manifests_collect blake3 ((pre @ [m]) @ ms)"
    proof
      assume "manifests_collect blake3 ((pre @ [m]) @ ms)"
      then have "manifests_collect blake3 (pre @ [m])"
        using sizes_agree_prefix [of "all_chunks (pre @ [m])" "all_chunks ms"]
        by (simp add: manifests_collect_def all_chunks_def)
      with False show False by simp
    qed
    then show ?thesis using False collect_manifest_iff [OF Cons.prems, of m] by auto
  qed
qed auto

definition upsert_matches :: "(manifest_id, manifest) btree_map \<Rightarrow> file_record \<Rightarrow> bool" where
  "upsert_matches cm r \<longleftrightarrow>
     (\<exists>m. bt_get cm (fr_manifest_id r) = Some m \<and> m_total_size m = fr_total_size r
          \<and> manifest_chunk_count m = Inr (fr_chunk_count r))"

lemma upserts_simps [simp]:
  "upserts [] = []" "upserts (Upsert r # ms) = r # upserts ms" "upserts (Delete p # ms) = upserts ms"
  by (simp_all add: upserts_def)

lemma set_upserts: "r \<in> set (upserts ms) \<longleftrightarrow> Upsert r \<in> set ms"
  by (induction ms) (auto simp: upserts_def split: index_mutation.splits)

lemma check_upserts_iff:
  "try_fold (check_upsert cm) rs ms = Inr rs' \<longleftrightarrow>
     (\<forall>r \<in> set (upserts ms). upsert_matches cm r) \<and> rs' = fold bts_insert (map fr_manifest_id (upserts ms)) rs"
proof (induction ms arbitrary: rs)
  case (Cons m ms)
  show ?case
  proof (cases m)
    case (Upsert r)
    have "check_upsert cm rs m = Inr t \<longleftrightarrow> upsert_matches cm r \<and> t = bts_insert (fr_manifest_id r) rs" for t
      by (auto simp: Upsert check_upsert_def upsert_matches_def)
    then show ?thesis using Upsert Cons.IH by auto
  next
    case (Delete p)
    then show ?thesis using Cons.IH by (simp add: check_upsert_def)
  qed
qed auto

lemma collect_objects_iff:
  assumes "distinct (map os_id pre)"
  shows "try_fold collect_object (bt_collect (map spec_pair pre)) os = Inr r \<longleftrightarrow>
     distinct (map os_id (pre @ os)) \<and> r = bt_collect (map spec_pair (pre @ os))"
  using assms
proof (induction os arbitrary: pre)
  case (Cons s os)
  have "collect_object (bt_collect (map spec_pair pre)) s = Inr t \<longleftrightarrow>
      distinct (map os_id (pre @ [s])) \<and> t = bt_collect (map spec_pair (pre @ [s]))" for t
    using Cons.prems by (auto simp: collect_object_def bt_collect_snoc spec_pair_def image_iff)
  then show ?case using Cons.IH [of "pre @ [s]"] Cons.prems by auto
qed auto

lemma scope_fold:
  "try_fold (\<lambda>h v. update_bytes_with_len h (str_bytes v)) h vs =
     (if list_all str_fits vs then Inr (h @ concat (map len_str vs)) else Inl Overflow)"
  by (induction vs arbitrary: h) (simp_all add: update_bytes_with_len_str)

section \<open>The digest of a publication\<close>

text \<open>
  What a publication digest is computed from: scope, base version, digest of the delta, manifest
  identities and object specifications in increasing order.
\<close>

type_synonym publication_content =
  "publication_scope \<times> index_version \<times> content_digest \<times> manifest_id list \<times> (object_id \<times> u64) list"

definition mid_bytes :: "manifest_id \<Rightarrow> byte list" where
  "mid_bytes mid = digest_as_bytes (manifest_digest mid)"

definition object_bytes :: "object_id \<times> u64 \<Rightarrow> byte list" where
  "object_bytes p = (case p of (oid, sz) \<Rightarrow> digest_as_bytes (object_digest oid) @ le64 sz)"

definition publication_encoding :: "publication_content \<Rightarrow> byte list" where
  "publication_encoding p = (case p of (sc, base, delta_digest, mids, objs) \<Rightarrow>
     canonical_hasher ADD_PUBLICATION_HASH_DOMAIN @ concat (map len_str (scope_fields sc))
     @ le64 (iv_revision base) @ digest_as_bytes (iv_digest base) @ digest_as_bytes delta_digest
     @ le64 (of_nat (length mids)) @ concat (map mid_bytes mids)
     @ le64 (of_nat (length objs)) @ concat (map object_bytes objs))"

definition publication_encodable :: "publication_content \<Rightarrow> bool" where
  "publication_encodable p \<longleftrightarrow> (case p of (sc, base, delta_digest, mids, objs) \<Rightarrow>
     list_all str_fits (scope_fields sc) \<and> length mids < 2 ^ 64 \<and> length objs < 2 ^ 64)"

interpretation mid_enc: self_delimiting mid_bytes "\<lambda>_. True"
  by unfold_locales (simp_all add: mid_bytes_def delim digest.nonempty)

interpretation object_enc: self_delimiting object_bytes "\<lambda>_. True"
  by unfold_locales (auto simp: object_bytes_def delim digest.nonempty split: prod.splits)

interpretation publication_code: identity_code publication_encoding publication_encodable
proof
  fix p q :: publication_content
  obtain sc base dd mids objs sc' base' dd' mids' objs'
    where pq: "p = (sc, base, dd, mids, objs)" "q = (sc', base', dd', mids', objs')"
    by (cases p; cases q) blast
  assume ok: "publication_encodable p" "publication_encodable q"
    and eq: "publication_encoding p = publication_encoding q"
  have "concat (map len_str (scope_fields sc)) @ le64 (iv_revision base) @ digest_as_bytes (iv_digest base) @ digest_as_bytes dd
     @ le64 (of_nat (length mids)) @ concat (map mid_bytes mids)
     @ le64 (of_nat (length objs)) @ concat (map object_bytes objs)
   = concat (map len_str (scope_fields sc')) @ le64 (iv_revision base') @ digest_as_bytes (iv_digest base') @ digest_as_bytes dd'
     @ le64 (of_nat (length mids')) @ concat (map mid_bytes mids')
     @ le64 (of_nat (length objs')) @ concat (map object_bytes objs')"
    using eq by (simp add: pq publication_encoding_def canonical_hasher_cancel)
  from len_str.sequence_counted [OF _ _ _ this] ok
  have f: "scope_fields sc = scope_fields sc'" and
    "le64 (iv_revision base) @ digest_as_bytes (iv_digest base) @ digest_as_bytes dd
     @ le64 (of_nat (length mids)) @ concat (map mid_bytes mids)
     @ le64 (of_nat (length objs)) @ concat (map object_bytes objs)
   = le64 (iv_revision base') @ digest_as_bytes (iv_digest base') @ digest_as_bytes dd'
     @ le64 (of_nat (length mids')) @ concat (map mid_bytes mids')
     @ le64 (of_nat (length objs')) @ concat (map object_bytes objs')"
    by (simp_all add: pq publication_encodable_def scope_fields_def)
  then have b: "iv_revision base = iv_revision base'" "iv_digest base = iv_digest base'" "dd = dd'"
    and n: "(of_nat (length mids) :: u64) = of_nat (length mids')"
    and r: "concat (map mid_bytes mids) @ le64 (of_nat (length objs)) @ concat (map object_bytes objs)
     = concat (map mid_bytes mids') @ le64 (of_nat (length objs')) @ concat (map object_bytes objs')"
    by (simp_all add: delim)
  have lenm: "length mids = length mids'"
    using ok n by (intro of_nat_u64_inj) (simp_all add: pq publication_encodable_def)
  have m: "mids = mids'" and r2: "le64 (of_nat (length objs)) @ concat (map object_bytes objs)
     = le64 (of_nat (length objs')) @ concat (map object_bytes objs')"
    using mid_enc.sequence_counted [OF _ _ lenm r] by (simp_all add: list_all_iff)
  from r2 have "(of_nat (length objs) :: u64) = of_nat (length objs')"
    and r3: "concat (map object_bytes objs) @ [] = concat (map object_bytes objs') @ []"
    by (simp_all add: delim)
  then have leno: "length objs = length objs'"
    using ok by (intro of_nat_u64_inj) (simp_all add: pq publication_encodable_def)
  have "objs = objs'" using object_enc.sequence_counted [OF _ _ leno r3] by (simp add: list_all_iff)
  with f b m show "p = q"
    by (cases sc; cases sc'; cases base; cases base') (simp add: pq scope_fields_def)
qed

text \<open>A closed publication graph.\<close>

definition publication_closed ::
  "unicode \<Rightarrow> (byte list \<Rightarrow> content_digest) \<Rightarrow> publication_scope \<Rightarrow> index_version \<Rightarrow> index_delta
   \<Rightarrow> manifest list \<Rightarrow> object_spec list \<Rightarrow> bool" where
  "publication_closed uni blake3 sc base delta ms os \<longleftrightarrow>
     [] \<notin> set (scope_fields sc) \<and> dl_base_version delta = base \<and> delta_validate uni delta = Inr ()
     \<and> manifests_collect blake3 ms
     \<and> (\<forall>r \<in> set (upserts (delta_iter delta)). \<exists>m \<in> set ms. id_of_manifest blake3 m = fr_manifest_id r
          \<and> m_total_size m = fr_total_size r \<and> unat (fr_chunk_count r) = length (m_chunks m))
     \<and> id_of_manifest blake3 ` set ms = fr_manifest_id ` set (upserts (delta_iter delta))
     \<and> distinct (map os_id os) \<and> spec_pair ` set os = chunk_pair ` set (all_chunks ms)"

definition publication_content ::
  "(byte list \<Rightarrow> content_digest) \<Rightarrow> publication_scope \<Rightarrow> index_delta \<Rightarrow> manifest list \<Rightarrow> object_spec list \<Rightarrow> publication_content" where
  "publication_content blake3 sc delta ms os =
     (sc, dl_base_version delta, blake3 (delta_encoding (delta_content delta)),
      bts_collect (map (id_of_manifest blake3) ms), bt_collect (map spec_pair os))"

lemma map_fst_manifest_pair: "map fst (map (manifest_pair blake3) ms) = map (id_of_manifest blake3) ms"
  by (simp add: manifest_pair_def)

lemma bt_get_manifest:
  assumes "manifests_collect blake3 ms"
  shows "bt_get (bt_collect (map (manifest_pair blake3) ms)) i = Some m \<longleftrightarrow> m \<in> set ms \<and> id_of_manifest blake3 m = i"
proof -
  have "distinct (map fst (map (manifest_pair blake3) ms))"
    unfolding map_fst_manifest_pair using assms by (simp add: manifests_collect_def)
  then have "set (bt_collect (map (manifest_pair blake3) ms)) = set (map (manifest_pair blake3) ms)"
    by (rule set_bt_collect)
  then show ?thesis using bt_get_iff [of "bt_collect (map (manifest_pair blake3) ms)" i m]
    by (auto simp: manifest_pair_def)
qed

lemma bt_keys_collect: "bt_keys (bt_collect kvs) = bts_collect (map fst kvs)"
proof (rule strict_sorted_equal)
  show "sorted_wrt (<) (bt_keys (bt_collect kvs))" using bt_ok_collect [of kvs] by (simp add: bt_keys_def bt_ok_def)
qed (simp_all add: bt_keys_def)

lemma bts_collect_eq: "bts_collect xs = bts_collect ys \<longleftrightarrow> set xs = set ys"
  by (metis set_bts_collect sorted_bts_collect strict_sorted_equal)

lemma bt_collect_eq_functional:
  assumes "\<forall>p \<in> set xs. \<forall>q \<in> set xs. fst p = fst q \<longrightarrow> snd p = snd q"
    and "\<forall>p \<in> set ys. \<forall>q \<in> set ys. fst p = fst q \<longrightarrow> snd p = snd q"
  shows "bt_collect xs = bt_collect ys \<longleftrightarrow> set xs = set ys"
proof
  assume "bt_collect xs = bt_collect ys"
  then show "set xs = set ys" using set_bt_collect_functional [OF assms(1)] set_bt_collect_functional [OF assms(2)] by simp
next
  assume "set xs = set ys"
  then have "map_of (rev xs) = map_of (rev ys)"
    using functional_map_of [OF assms(1)] functional_map_of [OF assms(2)] by (metis (no_types) option.exhaust ext)
  then show "bt_collect xs = bt_collect ys"
    by (intro bt.entries_unique) (simp_all add: bt_get_collect)
qed

lemma length_bts_collect: "distinct xs \<Longrightarrow> length (bts_collect xs) = length xs"
  by (metis distinct_card set_bts_collect sorted_bts_collect strict_sorted_iff)

lemma length_bt_collect: "distinct (map fst kvs) \<Longrightarrow> length (bt_collect kvs) = length kvs"
proof -
  assume "distinct (map fst kvs)"
  then have "length (bt_keys (bt_collect kvs)) = length kvs" by (simp add: bt_keys_collect length_bts_collect)
  then show ?thesis by (simp add: bt_keys_def)
qed

lemma map_fst_spec_pair: "map fst (map spec_pair os) = map os_id os"
  by (simp add: spec_pair_def)

lemma upsert_matches_iff:
  assumes "manifests_collect blake3 ms"
  shows "upsert_matches (bt_collect (map (manifest_pair blake3) ms)) r \<longleftrightarrow>
     (\<exists>m \<in> set ms. id_of_manifest blake3 m = fr_manifest_id r
        \<and> m_total_size m = fr_total_size r \<and> unat (fr_chunk_count r) = length (m_chunks m))"
proof -
  have "manifest_chunk_count m = Inr (fr_chunk_count r) \<longleftrightarrow> unat (fr_chunk_count r) = length (m_chunks m)" for m
    by (simp add: manifest_chunk_count_def u64_try_from_eq_Some)
  then show ?thesis unfolding upsert_matches_def bt_get_manifest [OF assms] by auto
qed

lemma objects_equal_iff:
  assumes "distinct (map os_id os)" and "sizes_agree cs"
  shows "bt_collect (map spec_pair os) = bt_collect (map chunk_pair cs) \<longleftrightarrow> spec_pair ` set os = chunk_pair ` set cs"
proof -
  have "snd p = snd q" if "p \<in> set (map spec_pair os)" "q \<in> set (map spec_pair os)" "fst p = fst q" for p q
    using that assms(1) by (metis eq_key_imp_eq_value map_fst_spec_pair prod.collapse)
  then have "bt_collect (map spec_pair os) = bt_collect (map chunk_pair cs) \<longleftrightarrow>
      set (map spec_pair os) = set (map chunk_pair cs)"
    using assms(2) unfolding sizes_agree_pairs by (intro bt_collect_eq_functional) blast+
  then show ?thesis by simp
qed

text \<open>The loops of a publication check, started on empty collections.\<close>

lemma collect_manifests_start:
  "try_fold (collect_manifest blake3) ([], []) ms = Inr st \<longleftrightarrow>
     manifests_collect blake3 ms
     \<and> st = (bt_collect (map (manifest_pair blake3) ms), bt_collect (map chunk_pair (all_chunks ms)))"
  using collect_manifests_iff [of blake3 "[]" ms st]
  by (simp add: manifests_collect_def collected_def all_chunks_def bt_collect_def sizes_agree_def)

lemma collect_objects_start:
  "try_fold collect_object [] os = Inr r \<longleftrightarrow> distinct (map os_id os) \<and> r = bt_collect (map spec_pair os)"
  using collect_objects_iff [of "[]" os r] by (simp add: bt_collect_def)

lemma manifest_keys: "bt_keys (bt_collect (map (manifest_pair blake3) ms)) = bts_collect (map (id_of_manifest blake3) ms)"
  unfolding bt_keys_collect map_fst_manifest_pair ..

lemma references_eq:
  "bts_collect (map (id_of_manifest blake3) ms) = fold bts_insert (map fr_manifest_id us) [] \<longleftrightarrow>
     id_of_manifest blake3 ` set ms = fr_manifest_id ` set us"
  using bts_collect_eq [of "map (id_of_manifest blake3) ms" "map fr_manifest_id us"]
  by (simp add: bts_collect_def)

text \<open>\<open>add_publication_digest\<close> accepts exactly the closed publications that can be encoded.\<close>

lemma add_publication_digest_iff:
  "add_publication_digest uni blake3 sc base delta ms os = Inr x \<longleftrightarrow>
     publication_closed uni blake3 sc base delta ms os \<and> delta_ok uni delta
     \<and> list_all str_fits (scope_fields sc) \<and> length ms < 2 ^ 64 \<and> length os < 2 ^ 64
     \<and> x = blake3 (publication_encoding (publication_content blake3 sc delta ms os))"
  (is "_ = Inr x \<longleftrightarrow> ?R")
proof -
  let ?cm = "bt_collect (map (manifest_pair blake3) ms)"
  let ?ro = "bt_collect (map chunk_pair (all_chunks ms))"
  let ?co = "bt_collect (map spec_pair os)"
  note cm = collect_manifests_start [of blake3 ms] and co = collect_objects_start [of os]
    and keys = manifest_keys [of blake3 ms] and ref = references_eq [of blake3 ms]
  have bytes: "concat (map (\<lambda>mid. digest_as_bytes (manifest_digest mid)) mids) = concat (map mid_bytes mids)"
    "concat (map (\<lambda>(oid, sz). digest_as_bytes (object_digest oid) @ le64 sz) objs) = concat (map object_bytes objs)"
    for mids objs
    by (simp_all add: mid_bytes_def [abs_def] object_bytes_def [abs_def])
  show ?thesis
  proof (cases "manifests_collect blake3 ms \<and> distinct (map os_id os)")
    case True
    then have len: "length ?cm = length ms" "length ?co = length os"
      "length (bts_collect (map (id_of_manifest blake3) ms)) = length ms"
      using length_bt_collect [of "map (manifest_pair blake3) ms"] length_bt_collect [of "map spec_pair os"]
        length_bts_collect [of "map (id_of_manifest blake3) ms"]
      unfolding map_fst_manifest_pair map_fst_spec_pair by (simp_all add: manifests_collect_def)
    have objs: "?co = ?ro \<longleftrightarrow> spec_pair ` set os = chunk_pair ` set (all_chunks ms)"
      using True by (intro objects_equal_iff) (simp_all add: manifests_collect_def)
    show ?thesis
      unfolding add_publication_digest_def publication_closed_def bytes
      using True len objs
      by (auto simp: cm co check_upserts_iff ref keys scope_fold index_delta_digest_iff u64_try_from_def
          upsert_matches_iff publication_encoding_def publication_content_def delta_ok_def
          simp del: power.simps split: if_splits)
  next
    case False
    then show ?thesis
      unfolding add_publication_digest_def publication_closed_def
      by (auto simp: cm co split: if_splits)
  qed
qed

lemma publication_encodable_content:
  assumes "publication_closed uni blake3 sc base delta ms os" and "list_all str_fits (scope_fields sc)"
    and "length ms < 2 ^ 64" and "length os < 2 ^ 64"
  shows "publication_encodable (publication_content blake3 sc delta ms os)"
proof -
  have "distinct (map (id_of_manifest blake3) ms)" "distinct (map fst (map spec_pair os))"
    using assms(1) unfolding map_fst_spec_pair by (simp_all add: publication_closed_def manifests_collect_def)
  then show ?thesis
    using assms by (simp add: publication_encodable_def publication_content_def length_bts_collect length_bt_collect)
qed

lemma manifests_by_identity:
  assumes "id_of_manifest blake3 ` set ms = id_of_manifest blake3 ` set ms'"
  shows "set ms' = set ms \<or>
    (\<exists>m m'. m \<in> set ms \<and> m' \<in> set ms' \<and> collision blake3 (manifest_encoding m) (manifest_encoding m'))"
proof -
  have "m = m' \<or> collision blake3 (manifest_encoding m) (manifest_encoding m')"
    if "id_of_manifest blake3 m = id_of_manifest blake3 m'" for m m'
    using that by (intro manifest_code.same_identity [OF TrueI TrueI]) (simp add: id_of_manifest_def)
  then show ?thesis using assms by (metis (no_types, lifting) imageE imageI subsetI subset_antisym)
qed

lemma same_objects:
  assumes "distinct (map os_id os)" and "distinct (map os_id os')"
    and "bt_collect (map spec_pair os) = bt_collect (map spec_pair os')"
  shows "set os' = set os"
proof -
  have "set (map spec_pair os) = set (map spec_pair os')"
    using set_bt_collect [of "map spec_pair os"] set_bt_collect [of "map spec_pair os'"] assms
    unfolding map_fst_spec_pair by simp
  moreover have "inj spec_pair" by (rule injI) (simp add: spec_pair_def)
  ultimately show ?thesis by (simp add: inj_image_eq_iff)
qed

section \<open>Properties\<close>

text \<open>
  C25: The digest of an index delta does not depend on how the mutations are cut into pages, and it
  determines base version, mutations and expected result up to a hash collision.
\<close>

theorem delta_identity:
  assumes "index_delta_digest uni blake3 d = Inr x" and "delta_validate uni e = Inr ()"
  shows "(delta_content e = delta_content d \<longrightarrow> index_delta_digest uni blake3 e = Inr x)
    \<and> (index_delta_digest uni blake3 e = Inr x \<longrightarrow> delta_content e = delta_content d
         \<or> collision blake3 (delta_encoding (delta_content e)) (delta_encoding (delta_content d)))"
proof -
  have "delta_content e = delta_content d \<longrightarrow> delta_ok uni d \<longrightarrow> delta_ok uni e"
    using assms(2) by (simp add: delta_ok_def delta_content_def)
  moreover have "delta_ok uni f \<Longrightarrow> (case delta_content f of (_, ms, _) \<Rightarrow> list_all mutation_encodable ms)" for f
    by (simp add: delta_ok_def delta_content_def)
  ultimately show ?thesis
    using assms(1) delta_code.same_identity [of "delta_content e" "delta_content d" blake3]
    by (auto simp: index_delta_digest_iff)
qed

definition sample_delta :: index_delta where
  "sample_delta = \<lparr> dl_base_version = \<lparr> iv_revision = 1, iv_digest = ContentDigest 0 \<rparr>,
     dl_pages = [\<lparr> pg_number = 0, pg_mutations = [Delete sample_path] \<rparr>], dl_result_digest = ContentDigest 1 \<rparr>"

lemma sample_delta_valid: "delta_validate ascii_unicode sample_delta = Inr ()"
  by (simp add: delta_validate_iff sample_delta_def delta_iter_def mutations_ok_def MAX_INDEX_MUTATIONS_PER_PAGE_def)

lemma sample_delta_digest:
  "index_delta_digest ascii_unicode sum_hash sample_delta = Inr (sum_hash (delta_encoding (delta_content sample_delta)))"
  using sample_delta_valid
  by (simp add: index_delta_digest_iff delta_ok_def) (simp add: sample_delta_def delta_iter_def sample_path_def str_fits_def)

theorem delta_identity_witness:
  "\<exists>x. index_delta_digest ascii_unicode sum_hash sample_delta = Inr x"
  using delta_identity [OF sample_delta_digest sample_delta_valid] by simp

text \<open>
  C1: \<open>add_publication_digest\<close> accepts exactly the closed publications: a non-empty scope, the
  declared base, a valid delta, valid manifests without repetition whose chunks agree on object
  sizes, every upsert described by a supplied manifest with the same size and chunk count, no
  unreferenced manifest, and object specifications that are exactly the chunks' objects, once each.
\<close>

theorem publication_accepts_closed:
  "add_publication_digest uni blake3 sc base delta ms os = Inr x \<longleftrightarrow>
     publication_closed uni blake3 sc base delta ms os \<and> delta_ok uni delta
     \<and> list_all str_fits (scope_fields sc) \<and> length ms < 2 ^ 64 \<and> length os < 2 ^ 64
     \<and> x = blake3 (publication_encoding (publication_content blake3 sc delta ms os))"
  by (rule add_publication_digest_iff)

text \<open>
  The publication digest does not depend on the order in which manifests and object
  specifications are listed.
\<close>

theorem publication_order_independent:
  assumes "add_publication_digest uni blake3 sc base delta ms os = Inr x"
    and "mset ms' = mset ms" and "mset os' = mset os"
  shows "add_publication_digest uni blake3 sc base delta ms' os' = Inr x"
proof -
  have sets: "set ms' = set ms" "set os' = set os" "length ms' = length ms" "length os' = length os"
    using assms(2,3) mset_eq_setD mset_eq_length by blast+
  have chunks: "set (all_chunks ms') = set (all_chunks ms)" by (simp add: all_chunks_def sets)
  have agree: "sizes_agree (all_chunks ms') = sizes_agree (all_chunks ms)"
    unfolding sizes_agree_def chunks ..
  have dist: "distinct (map (id_of_manifest blake3) ms') = distinct (map (id_of_manifest blake3) ms)"
    "distinct (map os_id os') = distinct (map os_id os)"
    using assms(2,3) by (metis mset_eq_imp_distinct_iff mset_map)+
  then have closed: "publication_closed uni blake3 sc base delta ms' os' = publication_closed uni blake3 sc base delta ms os"
    unfolding publication_closed_def manifests_collect_def sets chunks agree by blast
  have "bts_collect (map (id_of_manifest blake3) ms') = bts_collect (map (id_of_manifest blake3) ms)"
    unfolding bts_collect_eq by (simp add: sets)
  moreover have "bt_collect (map spec_pair os') = bt_collect (map spec_pair os)"
    unfolding bt_collect_def using assms(1) dist sets
    by (intro bt.collect_permutation)
       (simp_all only: map_fst_spec_pair add_publication_digest_iff publication_closed_def set_map)
  ultimately show ?thesis
    using assms(1) closed sets unfolding add_publication_digest_iff by (simp add: publication_content_def)
qed

definition sample_scope :: publication_scope where
  "sample_scope = \<lparr> ps_tenant_id = ''t'', ps_project_id = ''p'', ps_artifact_id = ''a'',
     ps_workspace_id = ''w'', ps_job_id = ''j'' \<rparr>"

lemma sample_publication:
  "\<exists>x. add_publication_digest ascii_unicode sum_hash sample_scope (dl_base_version sample_delta) sample_delta [] [] = Inr x"
  using sample_delta_valid sample_delta_digest
  by (simp add: add_publication_digest_iff index_delta_digest_iff publication_closed_def manifests_collect_def
      all_chunks_def sizes_agree_def)
     (simp add: sample_delta_def delta_iter_def upserts_def sample_scope_def scope_fields_def str_fits_def)

theorem publication_order_independent_witness:
  "\<exists>x. add_publication_digest ascii_unicode sum_hash sample_scope (dl_base_version sample_delta) sample_delta [] [] = Inr x"
proof -
  obtain x where x: "add_publication_digest ascii_unicode sum_hash sample_scope (dl_base_version sample_delta) sample_delta [] [] = Inr x"
    using sample_publication by blast
  show ?thesis using publication_order_independent [OF x refl refl] by blast
qed

text \<open>
  C2: Two publications with the same digest have the same scope, base version, logical delta,
  manifests and object specifications, unless two of the hashed encodings collide.
\<close>

theorem publication_identity:
  assumes "add_publication_digest uni blake3 sc base delta ms os = Inr x"
    and "add_publication_digest uni blake3 sc' base' delta' ms' os' = Inr x"
  shows "(sc' = sc \<and> base' = base \<and> delta_content delta' = delta_content delta \<and> set ms' = set ms \<and> set os' = set os)
    \<or> collision blake3 (publication_encoding (publication_content blake3 sc delta ms os))
        (publication_encoding (publication_content blake3 sc' delta' ms' os'))
    \<or> collision blake3 (delta_encoding (delta_content delta)) (delta_encoding (delta_content delta'))
    \<or> (\<exists>m m'. m \<in> set ms \<and> m' \<in> set ms' \<and> collision blake3 (manifest_encoding m) (manifest_encoding m'))"
proof -
  note a = assms(1) [unfolded add_publication_digest_iff] and b = assms(2) [unfolded add_publication_digest_iff]
  let ?p = "publication_content blake3 sc delta ms os" and ?q = "publication_content blake3 sc' delta' ms' os'"
  show ?thesis
  proof (rule ccontr)
    assume no: "\<not> ?thesis"
    have "publication_encodable ?p" "publication_encodable ?q"
      using a b publication_encodable_content by blast+
    then have pq: "?p = ?q"
      using publication_code.same_identity [of ?p ?q blake3] a b no by auto
    then have eqs: "sc' = sc" "base' = base"
      and dd: "blake3 (delta_encoding (delta_content delta)) = blake3 (delta_encoding (delta_content delta'))"
      and mids: "id_of_manifest blake3 ` set ms = id_of_manifest blake3 ` set ms'"
      and objs: "bt_collect (map spec_pair os) = bt_collect (map spec_pair os')"
      using a b by (auto simp: publication_content_def publication_closed_def bts_collect_eq)
    have "delta_content delta' = delta_content delta"
      using delta_code.same_identity [of "delta_content delta" "delta_content delta'" blake3] dd a b no
      by (auto simp: delta_ok_def delta_content_def)
    moreover have "set ms' = set ms" using manifests_by_identity [OF mids] no by blast
    moreover have "set os' = set os"
      using objs a b same_objects by (auto simp: publication_closed_def)
    ultimately show False using eqs no by blast
  qed
qed

theorem publication_identity_witness:
  "\<exists>x. add_publication_digest ascii_unicode sum_hash sample_scope (dl_base_version sample_delta) sample_delta [] [] = Inr x"
proof -
  obtain x where x: "add_publication_digest ascii_unicode sum_hash sample_scope (dl_base_version sample_delta) sample_delta [] [] = Inr x"
    using sample_publication by blast
  show ?thesis using publication_identity [OF x x] x by blast
qed

end
