(* ===== verification/EngineCore.thy ===== *)
theory EngineCore
  imports Publication
begin

text \<open>
  The vocabulary of the engine (\<open>crates/neoengram-runtime/src/engine\<close>): error codes and retry
  classes (\<open>error.rs\<close>), the big-endian canonical hasher (\<open>canonical.rs\<close>), the data exchanged with
  ports (\<open>ports.rs\<close>) and progress events (\<open>progress.rs\<close>).  An engine error is represented by its
  code; message, context and source are not modelled, and the retry class is the code's default,
  the only one the engine uses.  An operation that uses stateful ports is a function from a world
  to a result and the next world.
\<close>

section \<open>Errors\<close>

datatype error_code =
    EcInvalidArgument | EcInvalidPath | EcResourceNotFound | EcAlreadyExists | EcConflict
  | EcIndexVersionMismatch | EcWorktreeChangedDuringScan | EcLeaseExpired | EcFenceRejected
  | EcRecoveryRequired | EcIntegrityViolation | EcObjectMissing | EcObjectCorrupt
  | EcStorageUnavailable | EcIo | EcInjectedFailure | EcInternal

datatype retry_class =
  Never | Immediate | Backoff | AfterStateRefresh | AfterLeaseRefresh | AfterRecovery

primrec default_retry_class :: "error_code \<Rightarrow> retry_class" where
  "default_retry_class EcStorageUnavailable = Backoff"
| "default_retry_class EcIo = Backoff"
| "default_retry_class EcIndexVersionMismatch = AfterStateRefresh"
| "default_retry_class EcConflict = AfterStateRefresh"
| "default_retry_class EcLeaseExpired = AfterLeaseRefresh"
| "default_retry_class EcFenceRejected = AfterLeaseRefresh"
| "default_retry_class EcRecoveryRequired = AfterRecovery"
| "default_retry_class EcInvalidArgument = Never"
| "default_retry_class EcInvalidPath = Never"
| "default_retry_class EcResourceNotFound = Never"
| "default_retry_class EcAlreadyExists = Never"
| "default_retry_class EcWorktreeChangedDuringScan = Never"
| "default_retry_class EcIntegrityViolation = Never"
| "default_retry_class EcObjectMissing = Never"
| "default_retry_class EcObjectCorrupt = Never"
| "default_retry_class EcInjectedFailure = Never"
| "default_retry_class EcInternal = Never"

type_synonym 'a engine_result = "error_code + 'a"

primrec validation_code :: "validation_error_kind \<Rightarrow> error_code" where
  "validation_code InvalidPath = EcInvalidPath"
| "validation_code InvalidDigest = EcInvalidArgument"
| "validation_code InvalidObject = EcInvalidArgument"
| "validation_code InvalidManifest = EcInvalidArgument"
| "validation_code InvalidDirectory = EcInvalidArgument"
| "validation_code InvalidCommit = EcInvalidArgument"
| "validation_code InvalidPublication = EcInvalidArgument"
| "validation_code InvalidIndex = EcInvalidArgument"
| "validation_code Overflow = EcInvalidArgument"

text \<open>The \<open>?\<close> operator on a validation result inside an engine function.\<close>

definition from_validation :: "'a validation_result \<Rightarrow> 'a engine_result" where
  "from_validation r = map_err validation_code r"

lemma from_validation_simps [simp]:
  "from_validation (Inl e) = Inl (validation_code e)"
  "from_validation (Inr a) = Inr a"
  "from_validation r = Inr b \<longleftrightarrow> r = Inr b"
  by (simp_all add: from_validation_def)

section \<open>The canonical hasher of the engine\<close>

definition ch_write_u8 :: "byte list \<Rightarrow> byte \<Rightarrow> byte list" where
  "ch_write_u8 h b = h @ [b]"

definition ch_write_u64 :: "byte list \<Rightarrow> u64 \<Rightarrow> byte list" where
  "ch_write_u64 h v = h @ be64 v"

definition ch_write_len :: "byte list \<Rightarrow> nat \<Rightarrow> byte list engine_result" where
  "ch_write_len h n = and_then (ok_or EcInvalidArgument (u64_try_from n)) (\<lambda>len. Inr (ch_write_u64 h len))"

definition ch_write_bytes :: "byte list \<Rightarrow> byte list \<Rightarrow> byte list engine_result" where
  "ch_write_bytes h bs = and_then (ch_write_len h (length bs)) (\<lambda>h. Inr (h @ bs))"

definition ch_write_str :: "byte list \<Rightarrow> string \<Rightarrow> byte list engine_result" where
  "ch_write_str h s = ch_write_bytes h (str_bytes s)"

definition ch_write_digest :: "byte list \<Rightarrow> content_digest \<Rightarrow> byte list engine_result" where
  "ch_write_digest h d = ch_write_bytes h (digest_as_bytes d)"

definition ch_new :: "string \<Rightarrow> byte list engine_result" where
  "ch_new domain = ch_write_bytes [] (str_bytes domain)"

definition ch_finish :: "(byte list \<Rightarrow> content_digest) \<Rightarrow> byte list \<Rightarrow> content_digest" where
  "ch_finish blake3 h = blake3 h"

text \<open>Length-prefixed strings and digests as self-delimiting parts.\<close>

definition be_str :: "string \<Rightarrow> byte list" where
  "be_str s = be_len_prefixed (str_bytes s)"

definition be_digest :: "content_digest \<Rightarrow> byte list" where
  "be_digest d = be_len_prefixed (digest_as_bytes d)"

interpretation be_str: self_delimiting be_str str_fits
proof
  show "a = b \<and> s = t" if "str_fits a" "str_fits b" "be_str a @ s = be_str b @ t" for a b s t
    using be_len.cancel [of "str_bytes a" "str_bytes b" s t] that
    by (simp add: be_str_def str_fits_def fits_u64_def)
  show "be_str a \<noteq> []" for a by (simp add: be_str_def be_len.nonempty)
qed

interpretation be_digest: self_delimiting be_digest "\<lambda>_. True"
proof
  show "a = b \<and> s = t" if "be_digest a @ s = be_digest b @ t" for a b s t
    using be_len.cancel [of "digest_as_bytes a" "digest_as_bytes b" s t] that
    by (simp add: be_digest_def fits_u64_def)
  show "be_digest a \<noteq> []" for a by (simp add: be_digest_def be_len.nonempty)
qed

lemmas [delim] = be_str.cancel_iff be_digest.cancel_iff [OF TrueI TrueI]

lemma be_parts_eq [delim]:
  "str_fits a \<Longrightarrow> str_fits b \<Longrightarrow> be_str a = be_str b \<longleftrightarrow> a = b"
  "be_digest c = be_digest d \<longleftrightarrow> c = d"
  using be_str.injective be_digest.injective by blast+

lemma ch_write_str_eq [simp]:
  "ch_write_str h s = (if str_fits s then Inr (h @ be_str s) else Inl EcInvalidArgument)"
  by (simp add: ch_write_str_def ch_write_bytes_def ch_write_len_def ch_write_u64_def u64_try_from_def
      str_fits_def be_str_def be_len_prefixed_def and_then_def ok_or_def)

lemma ch_write_digest_eq [simp]: "ch_write_digest h d = Inr (h @ be_digest d)"
  by (simp add: ch_write_digest_def ch_write_bytes_def ch_write_len_def ch_write_u64_def u64_try_from_def
      be_digest_def be_len_prefixed_def and_then_def ok_or_def)

lemma ch_write_len_eq [simp]:
  "ch_write_len h n = (if n < 2 ^ 64 then Inr (h @ be64 (of_nat n)) else Inl EcInvalidArgument)"
  by (simp add: ch_write_len_def ch_write_u64_def u64_try_from_def)

lemma manifest_digest_inj [simp]: "manifest_digest a = manifest_digest b \<longleftrightarrow> a = b"
  by (cases a; cases b) simp

lemma ch_write_digest_bytes: "ch_write_bytes h (digest_as_bytes d) = Inr (h @ be_digest d)"
  using ch_write_digest_eq [of h d] by (simp add: ch_write_digest_def del: ch_write_digest_eq)

lemma ch_new_eq: "str_fits d \<Longrightarrow> ch_new d = Inr (be_str d)"
  using ch_write_str_eq [of "[]" d] by (simp add: ch_new_def ch_write_str_def del: ch_write_str_eq)

section \<open>Ports\<close>

definition MAX_PAGE_SIZE :: u32 where
  "MAX_PAGE_SIZE = 4096"

datatype page_cursor = PageCursor string

primrec cursor_str :: "page_cursor \<Rightarrow> string" where
  "cursor_str (PageCursor s) = s"

definition page_cursor_new :: "string \<Rightarrow> page_cursor engine_result" where
  "page_cursor_new s = (if s = [] then Inl EcInvalidArgument else Inr (PageCursor s))"

definition page_cursor_validate :: "page_cursor \<Rightarrow> unit engine_result" where
  "page_cursor_validate c = (if cursor_str c = [] then Inl EcInvalidArgument else Inr ())"

record page_request =
  pr_after :: "page_cursor option"
  pr_limit :: u32

definition page_request_new :: "page_cursor option \<Rightarrow> u32 \<Rightarrow> page_request engine_result" where
  "page_request_new after limit =
     (if \<not> (1 \<le> limit \<and> limit \<le> MAX_PAGE_SIZE) then Inl EcInvalidArgument
      else Inr \<lparr> pr_after = after, pr_limit = limit \<rparr>)"

definition page_request_first :: "u32 \<Rightarrow> page_request engine_result" where
  "page_request_first limit = page_request_new None limit"

definition page_request_validate :: "page_request \<Rightarrow> unit engine_result" where
  "page_request_validate r =
     (if \<not> (1 \<le> pr_limit r \<and> pr_limit r \<le> MAX_PAGE_SIZE) then Inl EcInvalidArgument
      else case pr_after r of None \<Rightarrow> Inr () | Some after \<Rightarrow> page_cursor_validate after)"

record 'a page =
  page_items :: "'a list"
  page_next :: "page_cursor option"

record manifest_metadata =
  mm_id :: manifest_id
  mm_total_size :: u64
  mm_chunk_count :: u64
  mm_chunking :: chunking_strategy

record directory_metadata =
  dm_id :: directory_id
  dm_entry_count :: u64
  dm_file_count :: u64
  dm_total_size :: u64

record object_metadata =
  om_id :: object_id
  om_size :: u64

datatype object_put_outcome = Created | AlreadyPresent

record content_addressed_object =
  cao_spec :: object_spec
  cao_outcome :: object_put_outcome

record object_page =
  op_objects :: "object_metadata list"
  op_next :: "page_cursor option"

datatype worktree_entry_kind = WtFile | WtDirectory

record file_fingerprint =
  fp_size :: u64
  fp_modified_unix_nanos :: "128 word option"
  fp_identity :: "string option"

record worktree_entry =
  we_path :: logical_path
  we_kind :: worktree_entry_kind
  we_fingerprint :: "file_fingerprint option"

datatype path_scope = ScopeRoot | ScopePath logical_path

datatype failure_point =
    BeforeScan | AfterScan | BeforeObjectPublication | AfterObjectPublication | BeforeCandidateSeal
  | FpBeforeJournalPublish | BeforeMutation | FpBeforeReceipt | NamedPoint string

datatype progress_phase =
    PhPreparing | PhScanning | PhSnapshotting | PhChunking | PhPublishingObjects | PhBuildingCandidate
  | PhPrepared | PhJournaling | PhApplyingMutation | PhVerifying | PhRecovering | PhCompleted

datatype progress_unit = UnitItems | UnitFiles | UnitObjects | UnitBytes | UnitActions

record progress_event =
  pe_phase :: progress_phase
  pe_unit :: progress_unit
  pe_completed :: u64
  pe_total :: "u64 option"
  pe_logical_path :: "logical_path option"

definition progress_event_new :: "progress_phase \<Rightarrow> progress_unit \<Rightarrow> u64 \<Rightarrow> progress_event" where
  "progress_event_new phase unt completed =
     \<lparr> pe_phase = phase, pe_unit = unt, pe_completed = completed, pe_total = None, pe_logical_path = None \<rparr>"

section \<open>Operations on a world\<close>

type_synonym ('e, 'w, 'a) io = "'w \<Rightarrow> ('e + 'a) \<times> 'w"

type_synonym ('w, 'a) engine_io = "(error_code, 'w, 'a) io"

definition io_ok :: "'a \<Rightarrow> ('e, 'w, 'a) io" where
  "io_ok a w = (Inr a, w)"

definition io_err :: "'e \<Rightarrow> ('e, 'w, 'a) io" where
  "io_err e w = (Inl e, w)"

definition io_of :: "'e + 'a \<Rightarrow> ('e, 'w, 'a) io" where
  "io_of r w = (r, w)"

definition io_then :: "('e, 'w, 'a) io \<Rightarrow> ('a \<Rightarrow> ('e, 'w, 'b) io) \<Rightarrow> ('e, 'w, 'b) io" where
  "io_then m f w = (case m w of (Inl e, w') \<Rightarrow> (Inl e, w') | (Inr a, w') \<Rightarrow> f a w')"

primrec io_fold :: "('s \<Rightarrow> 'a \<Rightarrow> ('e, 'w, 's) io) \<Rightarrow> 's \<Rightarrow> 'a list \<Rightarrow> ('e, 'w, 's) io" where
  "io_fold f s [] = io_ok s"
| "io_fold f s (x # xs) = io_then (f s x) (\<lambda>s'. io_fold f s' xs)"

lemma io_simps [simp]:
  "io_ok a w = (Inr a, w)" "io_err e w = (Inl e, w)" "io_of r w = (r, w)"
  by (simp_all add: io_ok_def io_err_def io_of_def)

lemma io_then_Inr [simp]: "m w = (Inr a, w') \<Longrightarrow> io_then m f w = f a w'"
  by (simp add: io_then_def)

lemma io_then_Inl [simp]: "m w = (Inl e, w') \<Longrightarrow> io_then m f w = (Inl e, w')"
  by (simp add: io_then_def)

lemma io_then_ok_iff:
  "io_then m f w = (Inr b, w'') \<longleftrightarrow> (\<exists>a w'. m w = (Inr a, w') \<and> f a w' = (Inr b, w''))"
  by (auto simp: io_then_def split: prod.splits sum.splits)

lemma io_then_err_iff:
  "io_then m f w = (Inl e, w'') \<longleftrightarrow>
     m w = (Inl e, w'') \<or> (\<exists>a w'. m w = (Inr a, w') \<and> f a w' = (Inl e, w''))"
  by (auto simp: io_then_def split: prod.splits sum.splits)

lemma io_then_assoc: "io_then (io_then m f) g = io_then m (\<lambda>a. io_then (f a) g)"
  by (auto simp: io_then_def fun_eq_iff split: prod.splits sum.splits)

lemma io_fold_append: "io_fold f s (xs @ ys) = io_then (io_fold f s xs) (\<lambda>s. io_fold f s ys)"
proof (induction xs arbitrary: s)
  case Nil
  then show ?case by (simp add: io_then_def fun_eq_iff)
next
  case (Cons x xs)
  then show ?case by (simp add: io_then_assoc)
qed

lemma io_fold_prefix_induct:
  assumes "io_fold f s xs w = (Inr s', w')" and "I [] s w"
    and "\<And>ys y t t' v v'. I ys t v \<Longrightarrow> prefix (ys @ [y]) xs \<Longrightarrow> f t y v = (Inr t', v') \<Longrightarrow> I (ys @ [y]) t' v'"
  shows "I xs s' w'"
  using assms(1,3)
proof (induction xs arbitrary: s' w' rule: rev_induct)
  case Nil
  then show ?case using assms(2) by simp
next
  case (snoc x xs)
  then obtain t v where t: "io_fold f s xs w = (Inr t, v)" "f t x v = (Inr s', w')"
    by (auto simp: io_fold_append io_then_ok_iff)
  have "I xs t v"
  proof (rule snoc.IH [OF t(1)])
    show "I (ys @ [y]) u' v2" if "I ys u v1" "prefix (ys @ [y]) xs" "f u y v1 = (Inr u', v2)" for ys y u u' v1 v2
      using snoc.prems(2) [OF that(1) _ that(3)] that(2) by simp
  qed
  with t(2) show ?case using snoc.prems(2) [of xs t v x s' w'] by simp
qed

end
