(* ===== verification/Paging.thy ===== *)
theory Paging
  imports EngineCore
begin

text \<open>
  Keyset paging.  \<open>paged_scan\<close> is the loop with which \<open>build_commit_graph\<close> (\<open>engine/commit.rs\<close>) and
  \<open>load_manifest\<close> (\<open>engine/mutation.rs\<close>) read a complete collection through a port; it may run for ever
  on a port whose cursors cycle, so it is a partial function.  The contract of a well-behaved port
  is the locale \<open>paged_reader\<close>; the adapters of \<open>fs/memory.rs\<close> that serve the index and the catalog
  are defined here and shown to satisfy it.
\<close>

section \<open>The reading loop\<close>

text \<open>
  \<open>observe\<close> is what the loop does with the number of items read so far: a progress event, or nothing.
\<close>

partial_function (option) paged_scan ::
  "(nat \<Rightarrow> unit engine_result) \<Rightarrow> (page_request \<Rightarrow> 'a page engine_result) \<Rightarrow> 'a list \<Rightarrow> page_request
   \<Rightarrow> 'a list engine_result option" where
  "paged_scan observe scan acc req =
     (case scan req of
        Inl e \<Rightarrow> Some (Inl e)
      | Inr page \<Rightarrow>
          if length (page_items page) > unat (pr_limit req) then Some (Inl EcIntegrityViolation)
          else
            (case observe (length (acc @ page_items page)) of
               Inl e \<Rightarrow> Some (Inl e)
             | Inr _ \<Rightarrow>
                 (case page_next page of
                    None \<Rightarrow> Some (Inr (acc @ page_items page))
                  | Some nx \<Rightarrow>
                      if pr_after req = Some nx then Some (Inl EcIntegrityViolation)
                      else
                        (case page_request_new (Some nx) MAX_PAGE_SIZE of
                           Inl e \<Rightarrow> Some (Inl e)
                         | Inr req' \<Rightarrow> paged_scan observe scan (acc @ page_items page) req'))))"

lemma max_page: "(1 :: u32) \<le> MAX_PAGE_SIZE" "unat MAX_PAGE_SIZE = 4096"
  by (simp_all add: MAX_PAGE_SIZE_def)

lemma page_request_max:
  "page_request_new after MAX_PAGE_SIZE = Inr \<lparr> pr_after = after, pr_limit = MAX_PAGE_SIZE \<rparr>"
  by (simp add: page_request_new_def max_page)

text \<open>
  A reader over a handle \<open>s\<close>: \<open>cursor s i\<close> is the cursor after the first \<open>i\<close> items of \<open>contents s\<close>,
  cursors of different positions differ, and a page holds the next \<open>limit\<close> items.
\<close>

locale paged_reader =
  fixes scan :: "'s \<Rightarrow> page_request \<Rightarrow> 'a page engine_result"
    and contents :: "'s \<Rightarrow> 'a list"
    and cursor :: "'s \<Rightarrow> nat \<Rightarrow> page_cursor"
    and invar :: "'s \<Rightarrow> bool"
  assumes scan_first: "invar s \<Longrightarrow> 1 \<le> l \<Longrightarrow> l \<le> MAX_PAGE_SIZE \<Longrightarrow>
      scan s \<lparr> pr_after = None, pr_limit = l \<rparr> =
        Inr \<lparr> page_items = take (unat l) (contents s),
              page_next = if unat l < length (contents s) then Some (cursor s (unat l)) else None \<rparr>"
    and scan_after: "invar s \<Longrightarrow> 0 < i \<Longrightarrow> i \<le> length (contents s) \<Longrightarrow> 1 \<le> l \<Longrightarrow> l \<le> MAX_PAGE_SIZE \<Longrightarrow>
      scan s \<lparr> pr_after = Some (cursor s i), pr_limit = l \<rparr> =
        Inr \<lparr> page_items = take (unat l) (drop i (contents s)),
              page_next = if i + unat l < length (contents s) then Some (cursor s (i + unat l)) else None \<rparr>"
    and cursor_inj: "invar s \<Longrightarrow> 0 < i \<Longrightarrow> i < j \<Longrightarrow> j \<le> length (contents s) \<Longrightarrow> cursor s i \<noteq> cursor s j"
begin

lemma scan_from:
  assumes "invar s" and "i \<le> length (contents s)"
    and "\<And>n. n \<le> length (contents s) \<Longrightarrow> observe n = Inr ()"
  shows "paged_scan observe (scan s) (take i (contents s))
     \<lparr> pr_after = if i = 0 then None else Some (cursor s i), pr_limit = MAX_PAGE_SIZE \<rparr> = Some (Inr (contents s))"
  using assms(2)
proof (induction "length (contents s) - i" arbitrary: i rule: less_induct)
  case less
  let ?req = "\<lparr> pr_after = if i = 0 then None else Some (cursor s i), pr_limit = MAX_PAGE_SIZE \<rparr>"
  let ?page = "\<lparr> page_items = take 4096 (drop i (contents s)),
    page_next = if i + 4096 < length (contents s) then Some (cursor s (i + 4096)) else None \<rparr>"
  have page: "scan s ?req = Inr ?page"
    using assms(1) less.prems scan_first [of s MAX_PAGE_SIZE] scan_after [of s i MAX_PAGE_SIZE] max_page by simp
  have acc: "take i (contents s) @ take 4096 (drop i (contents s)) = take (i + 4096) (contents s)"
    by (simp add: take_add)
  have obs: "observe (length (take (i + 4096) (contents s))) = Inr ()"
    by (rule assms(3)) simp
  show ?case
  proof (cases "i + 4096 < length (contents s)")
    case True
    have "pr_after ?req \<noteq> Some (cursor s (i + 4096))"
      using True cursor_inj [OF assms(1), of i "i + 4096"] by simp
    moreover have "paged_scan observe (scan s) (take (i + 4096) (contents s))
        \<lparr> pr_after = if i + 4096 = 0 then None else Some (cursor s (i + 4096)), pr_limit = MAX_PAGE_SIZE \<rparr> = Some (Inr (contents s))"
      using True by (intro less.hyps) simp_all
    ultimately show ?thesis
      using True obs max_page by (subst paged_scan.simps) (simp add: page acc page_request_max)
  next
    case False
    then show ?thesis
      using obs max_page by (subst paged_scan.simps) (simp add: page acc page_request_max)
  qed
qed

text \<open>The loop returns the complete contents.\<close>

lemma scan_complete:
  assumes "invar s" and "\<And>n. n \<le> length (contents s) \<Longrightarrow> observe n = Inr ()"
  shows "paged_scan observe (scan s) [] \<lparr> pr_after = None, pr_limit = MAX_PAGE_SIZE \<rparr> = Some (Inr (contents s))"
  using scan_from [of s 0 observe] assms by simp

end

section \<open>Paging over memory\<close>

text \<open>
  \<open>slice::partition_point\<close> of a predicate that holds on a front part of the slice: the number of
  leading items that satisfy it.
\<close>

definition partition_point :: "('a \<Rightarrow> bool) \<Rightarrow> 'a list \<Rightarrow> nat" where
  "partition_point P xs = length (takeWhile P xs)"

text \<open>\<open>u64::to_string\<close> and \<open>str::parse::<u64>\<close>.\<close>

fun dec_str :: "nat \<Rightarrow> string" where
  "dec_str n = (if n < 10 then [char_of (48 + n)] else dec_str (n div 10) @ [char_of (48 + n mod 10)])"

definition is_dec_digit :: "char \<Rightarrow> bool" where
  "is_dec_digit c \<longleftrightarrow> CHR ''0'' \<le> c \<and> c \<le> CHR ''9''"

definition dec_value :: "string \<Rightarrow> nat" where
  "dec_value s = foldl (\<lambda>a c. a * 10 + (of_char c - 48)) 0 s"

definition parse_u64 :: "string \<Rightarrow> u64 option" where
  "parse_u64 s =
     (let digits = (case s of c # t \<Rightarrow> if c = CHR ''+'' then t else s | [] \<Rightarrow> s) in
      if digits = [] \<or> \<not> list_all is_dec_digit digits then None else u64_try_from (dec_value digits))"

definition page_by_logical_path ::
  "unicode \<Rightarrow> 'a list \<Rightarrow> page_request \<Rightarrow> ('a \<Rightarrow> logical_path) \<Rightarrow> 'a page engine_result" where
  "page_by_logical_path uni items request path =
     and_then (case pr_after request of
                 None \<Rightarrow> Inr 0
               | Some cursor \<Rightarrow> and_then (from_validation (path_parse uni (cursor_str cursor))) (\<lambda>after.
                   Inr (partition_point (\<lambda>item. path item \<le> after) items))) (\<lambda>start.
     let limit = unat (pr_limit request);
         has_more = min (start + limit) (length items) < length items;
         page = take limit (drop start items) in
     and_then (if has_more \<and> page \<noteq> []
               then and_then (page_cursor_new (path_str (path (last page)))) (\<lambda>c. Inr (Some c))
               else Inr None) (\<lambda>nxt.
     Inr \<lparr> page_items = page, page_next = nxt \<rparr>))"

definition page_by_offset :: "'a list \<Rightarrow> page_request \<Rightarrow> ('a \<Rightarrow> u64) \<Rightarrow> 'a page engine_result" where
  "page_by_offset items request offset =
     and_then (case pr_after request of
                 None \<Rightarrow> Inr 0
               | Some cursor \<Rightarrow> and_then (ok_or EcInvalidArgument (parse_u64 (cursor_str cursor))) (\<lambda>after.
                   Inr (partition_point (\<lambda>item. offset item \<le> after) items))) (\<lambda>start.
     let limit = unat (pr_limit request);
         end_at = min (start + limit) (length items);
         page = drop start (take end_at items) in
     and_then (if end_at < length items \<and> page \<noteq> []
               then and_then (page_cursor_new (dec_str (unat (offset (last page))))) (\<lambda>c. Inr (Some c))
               else Inr None) (\<lambda>nxt.
     Inr \<lparr> page_items = page, page_next = nxt \<rparr>))"

text \<open>\<open>MemoryIndexSnapshot\<close>\<close>

record memory_index_snapshot =
  mi_version :: index_version
  mi_files :: "(logical_path, file_record) btree_map"

definition memory_index_new :: "index_version \<Rightarrow> file_record list \<Rightarrow> memory_index_snapshot" where
  "memory_index_new version files =
     \<lparr> mi_version = version, mi_files = bt_collect (map (\<lambda>r. (fr_path r, r)) files) \<rparr>"

definition memory_index_get_file :: "memory_index_snapshot \<Rightarrow> logical_path \<Rightarrow> file_record option engine_result" where
  "memory_index_get_file s p = Inr (bt_get (mi_files s) p)"

definition memory_index_scan_files ::
  "unicode \<Rightarrow> memory_index_snapshot \<Rightarrow> logical_path option \<Rightarrow> page_request \<Rightarrow> file_record page engine_result" where
  "memory_index_scan_files uni s pre request =
     and_then (page_request_validate request) (\<lambda>_.
       page_by_logical_path uni
         (filter (\<lambda>r. case pre of None \<Rightarrow> True | Some p \<Rightarrow> fr_path r = p \<or> is_ancestor_of p (fr_path r))
            (bt_values (mi_files s)))
         request fr_path)"

text \<open>\<open>MemoryCatalog\<close>; a lock is poisoned only after a panic and is not modelled.\<close>

record memory_catalog =
  mc_commits :: "(commit_id, commit) btree_map"
  mc_manifests :: "(manifest_id, manifest_metadata \<times> chunk_ref list) btree_map"
  mc_directories :: "(directory_id, directory_metadata \<times> directory_entry list) btree_map"

definition memory_catalog_insert_commit :: "memory_catalog \<Rightarrow> commit_id \<Rightarrow> commit \<Rightarrow> memory_catalog" where
  "memory_catalog_insert_commit c cid x = c \<lparr> mc_commits := bt_insert cid x (mc_commits c) \<rparr>"

definition memory_catalog_insert_manifest ::
  "memory_catalog \<Rightarrow> manifest_metadata \<Rightarrow> chunk_ref list \<Rightarrow> memory_catalog" where
  "memory_catalog_insert_manifest c meta chunks =
     c \<lparr> mc_manifests := bt_insert (mm_id meta) (meta, chunks) (mc_manifests c) \<rparr>"

definition memory_catalog_insert_directory ::
  "memory_catalog \<Rightarrow> directory_metadata \<Rightarrow> directory_entry list \<Rightarrow> memory_catalog" where
  "memory_catalog_insert_directory c meta entries =
     c \<lparr> mc_directories := bt_insert (dm_id meta) (meta, entries) (mc_directories c) \<rparr>"

definition memory_catalog_get_commit :: "memory_catalog \<Rightarrow> commit_id \<Rightarrow> commit option engine_result" where
  "memory_catalog_get_commit c cid = Inr (bt_get (mc_commits c) cid)"

definition memory_catalog_get_manifest ::
  "memory_catalog \<Rightarrow> manifest_id \<Rightarrow> manifest_metadata option engine_result" where
  "memory_catalog_get_manifest c mid = Inr (map_option fst (bt_get (mc_manifests c) mid))"

definition memory_catalog_scan_manifest_chunks ::
  "memory_catalog \<Rightarrow> manifest_id \<Rightarrow> page_request \<Rightarrow> chunk_ref page engine_result" where
  "memory_catalog_scan_manifest_chunks c mid request =
     and_then (page_request_validate request) (\<lambda>_.
     and_then (ok_or EcResourceNotFound (bt_get (mc_manifests c) mid)) (\<lambda>(_, chunks).
       page_by_offset chunks request cr_offset))"

definition memory_catalog_get_directory ::
  "memory_catalog \<Rightarrow> directory_id \<Rightarrow> directory_metadata option engine_result" where
  "memory_catalog_get_directory c did = Inr (map_option fst (bt_get (mc_directories c) did))"

definition memory_catalog_scan_directory_entries ::
  "memory_catalog \<Rightarrow> directory_id \<Rightarrow> page_request \<Rightarrow> directory_entry page engine_result" where
  "memory_catalog_scan_directory_entries c did request =
     and_then (page_request_validate request) (\<lambda>_.
     and_then (ok_or EcResourceNotFound (bt_get (mc_directories c) did)) (\<lambda>(_, entries).
       page_by_offset entries request de_ordinal))"

declare dec_str.simps [simp del]

section \<open>The memory readers satisfy the contract\<close>

lemma partition_point_sorted:
  fixes k :: "'a \<Rightarrow> 'b::linorder"
  assumes "sorted_wrt (<) (map k xs)" and "0 < i" and "i \<le> length xs"
  shows "partition_point (\<lambda>x. k x \<le> k (xs ! (i - 1))) xs = i"
proof -
  have lt: "k (xs ! a) < k (xs ! b)" if "a < b" "b < length xs" for a b
    using assms(1) that sorted_wrt_nth_less [of "(<)" "map k xs" a b] by simp
  have "takeWhile (\<lambda>x. k x \<le> k (xs ! (i - 1))) xs = take i xs"
  proof (rule takeWhile_eq_take_P_nth)
    show "k (xs ! j) \<le> k (xs ! (i - 1))" if "j < i" "j < length xs" for j
    proof (cases "j = i - 1")
      case False
      then have "j < i - 1" "i - 1 < length xs" using that assms(2,3) by linarith+
      then show ?thesis using lt by (intro less_imp_le)
    qed simp
    show "\<not> k (xs ! i) \<le> k (xs ! (i - 1))" if "i < length xs"
      using lt [of "i - 1" i] that assms(2) by auto
  qed
  then show ?thesis using assms(3) by (simp add: partition_point_def)
qed

lemma dec_str_nonempty [simp]: "dec_str n \<noteq> []"
  by (subst dec_str.simps) simp

lemma dec_str_digits: "list_all is_dec_digit (dec_str n)"
proof (induction n rule: dec_str.induct)
  case (1 n)
  have "is_dec_digit (char_of (48 + d))" if "d < 10" for d :: nat
    using that by (simp add: is_dec_digit_def less_eq_char_def)
  then show ?case using 1 by (subst dec_str.simps) simp
qed

lemma dec_value_str [simp]: "dec_value (dec_str n) = n"
proof (induction n rule: dec_str.induct)
  case (1 n)
  have digit: "of_char (char_of (48 + d) :: char) - 48 = (d :: nat)" if "d < 10" for d
    using that by simp
  show ?case
  proof (cases "n < 10")
    case True
    then show ?thesis using digit [of n] by (subst dec_str.simps) (simp add: dec_value_def)
  next
    case False
    then have "dec_value (dec_str n) = dec_value (dec_str (n div 10)) * 10 + n mod 10"
      using digit [of "n mod 10"] by (subst dec_str.simps) (simp add: dec_value_def)
    then show ?thesis using 1 False by simp
  qed
qed

lemma parse_u64_dec_str [simp]: "parse_u64 (dec_str (unat w)) = Some w"
proof -
  obtain c t where ct: "dec_str (unat w) = c # t" by (meson dec_str_nonempty list.exhaust)
  then have "is_dec_digit c" using dec_str_digits [of "unat w"] by simp
  then have "c \<noteq> CHR ''+''" by (auto simp: is_dec_digit_def less_eq_char_def)
  then have "parse_u64 (dec_str (unat w)) = u64_try_from (unat w)"
    using ct dec_str_digits [of "unat w"] dec_value_str [of "unat w"] by (simp add: parse_u64_def)
  then show ?thesis by (simp add: u64_try_from_eq_Some)
qed

definition path_cursor :: "('a \<Rightarrow> logical_path) \<Rightarrow> 'a list \<Rightarrow> nat \<Rightarrow> page_cursor" where
  "path_cursor path xs i = PageCursor (path_str (path (xs ! (i - 1))))"

definition offset_cursor :: "('a \<Rightarrow> u64) \<Rightarrow> 'a list \<Rightarrow> nat \<Rightarrow> page_cursor" where
  "offset_cursor offset xs i = PageCursor (dec_str (unat (offset (xs ! (i - 1)))))"

lemma last_take_drop:
  "i < length xs \<Longrightarrow> 0 < l \<Longrightarrow> i + l \<le> length xs \<Longrightarrow> last (take l (drop i xs)) = xs ! (i + l - 1)"
proof -
  assume "i < length xs" "0 < l" "i + l \<le> length xs"
  then have "min (length xs - i) l = l" "take l (drop i xs) \<noteq> []" "i + (l - 1) = i + l - 1" by auto
  then show ?thesis by (simp add: last_conv_nth \<open>0 < l\<close> \<open>i + l \<le> length xs\<close>)
qed

lemma path_valid_nonempty: "path_valid uni p \<Longrightarrow> path_str p \<noteq> []"
proof
  assume "path_valid uni p" "path_str p = []"
  then have "validate_component uni [] = Inr ()" by (simp add: path_valid_def path_components_def)
  then show False by (simp add: validate_component_def)
qed

lemma page_by_logical_path_from:
  assumes "sorted_wrt (<) (map path xs)" and "\<forall>x \<in> set xs. path_valid uni (path x)"
    and "i \<le> length xs" and "0 < unat l"
  shows "page_by_logical_path uni xs
       \<lparr> pr_after = if i = 0 then None else Some (path_cursor path xs i), pr_limit = l \<rparr> path
     = Inr \<lparr> page_items = take (unat l) (drop i xs),
             page_next = if i + unat l < length xs then Some (path_cursor path xs (i + unat l)) else None \<rparr>"
proof -
  have parse: "path_parse uni (path_str (path x)) = Inr (path x)" if "x \<in> set xs" for x
    using assms(2) that by (metis path_parse_iff path_str.simps logical_path.exhaust)
  have start: "(case if i = 0 then None else Some (path_cursor path xs i) of
                 None \<Rightarrow> Inr 0
               | Some cursor \<Rightarrow> and_then (from_validation (path_parse uni (cursor_str cursor))) (\<lambda>after.
                   Inr (partition_point (\<lambda>item. path item \<le> after) xs))) = (Inr i :: nat engine_result)"
    using assms(1,3) parse partition_point_sorted [of path xs i] by (simp add: path_cursor_def)
  have "last (take (unat l) (drop i xs)) = xs ! (i + unat l - 1)" "path_str (path (xs ! (i + unat l - 1))) \<noteq> []"
    if "i + unat l < length xs"
    using that assms(2,4) last_take_drop [of i xs "unat l"] path_valid_nonempty [of uni "path (xs ! (i + unat l - 1))"]
    by simp_all
  then show ?thesis
    using assms(4) unfolding page_by_logical_path_def page_request.simps start
    by (auto simp: Let_def min_def page_cursor_new_def path_cursor_def)
qed

lemma page_by_offset_from:
  assumes "sorted_wrt (<) (map offset xs)" and "i \<le> length xs" and "0 < unat l"
  shows "page_by_offset xs
       \<lparr> pr_after = if i = 0 then None else Some (offset_cursor offset xs i), pr_limit = l \<rparr> offset
     = Inr \<lparr> page_items = take (unat l) (drop i xs),
             page_next = if i + unat l < length xs then Some (offset_cursor offset xs (i + unat l)) else None \<rparr>"
proof -
  have start: "(case if i = 0 then None else Some (offset_cursor offset xs i) of
                 None \<Rightarrow> Inr 0
               | Some cursor \<Rightarrow> and_then (ok_or EcInvalidArgument (parse_u64 (cursor_str cursor))) (\<lambda>after.
                   Inr (partition_point (\<lambda>item. offset item \<le> after) xs))) = (Inr i :: nat engine_result)"
    using assms(1,2) partition_point_sorted [of offset xs i] by (simp add: offset_cursor_def)
  have slice: "drop i (take (min (i + unat l) (length xs)) xs) = take (unat l) (drop i xs)"
    by (simp add: drop_take min_def)
  have "last (take (unat l) (drop i xs)) = xs ! (i + unat l - 1)" if "i + unat l < length xs"
    using that assms(3) last_take_drop [of i xs "unat l"] by simp
  then show ?thesis
    using assms(3) unfolding page_by_offset_def page_request.simps start
    by (auto simp: Let_def slice page_cursor_new_def offset_cursor_def)
qed

definition memory_index_ok :: "unicode \<Rightarrow> memory_index_snapshot \<Rightarrow> bool" where
  "memory_index_ok uni s \<longleftrightarrow> bt_ok (mi_files s)
     \<and> (\<forall>(p, r) \<in> set (mi_files s). fr_path r = p \<and> path_valid uni p)"

definition catalog_chunks :: "memory_catalog \<times> manifest_id \<Rightarrow> chunk_ref list" where
  "catalog_chunks h = (case bt_get (mc_manifests (fst h)) (snd h) of None \<Rightarrow> [] | Some (_, chunks) \<Rightarrow> chunks)"

definition catalog_chunks_ok :: "memory_catalog \<times> manifest_id \<Rightarrow> bool" where
  "catalog_chunks_ok h \<longleftrightarrow> bt_get (mc_manifests (fst h)) (snd h) \<noteq> None
     \<and> sorted_wrt (<) (map cr_offset (catalog_chunks h))"

lemma memory_index_paths:
  assumes "memory_index_ok uni s"
  shows "map fr_path (bt_values (mi_files s)) = bt_keys (mi_files s)"
    and "sorted_wrt (<) (map fr_path (bt_values (mi_files s)))"
    and "\<forall>r \<in> set (bt_values (mi_files s)). path_valid uni (fr_path r)"
proof -
  show eq: "map fr_path (bt_values (mi_files s)) = bt_keys (mi_files s)"
    using assms by (auto simp: memory_index_ok_def bt_values_def bt_keys_def)
  then show "sorted_wrt (<) (map fr_path (bt_values (mi_files s)))"
    using assms by (simp add: memory_index_ok_def bt_ok_def bt_keys_def)
  show "\<forall>r \<in> set (bt_values (mi_files s)). path_valid uni (fr_path r)"
    using assms by (auto simp: memory_index_ok_def bt_values_def)
qed

lemma request_valid:
  "1 \<le> l \<Longrightarrow> l \<le> MAX_PAGE_SIZE \<Longrightarrow> (\<And>c. after = Some c \<Longrightarrow> cursor_str c \<noteq> []) \<Longrightarrow>
   page_request_validate \<lparr> pr_after = after, pr_limit = l \<rparr> = Inr ()"
  by (cases after) (simp_all add: page_request_validate_def page_cursor_validate_def)

interpretation memory_index: paged_reader "\<lambda>s. memory_index_scan_files uni s None"
  "\<lambda>s. bt_values (mi_files s)" "\<lambda>s. path_cursor fr_path (bt_values (mi_files s))" "memory_index_ok uni"
proof
  fix s i j and l :: u32
  assume ok: "memory_index_ok uni s"
  note paths = memory_index_paths(2,3) [OF ok]
  have cur: "cursor_str (path_cursor fr_path (bt_values (mi_files s)) n) \<noteq> []"
    if "0 < n" "n \<le> length (bt_values (mi_files s))" for n
    using that paths(2) path_valid_nonempty [of uni] by (simp add: path_cursor_def)
  have pos: "0 < unat l" if "1 \<le> l" using that by (simp add: word_le_nat_alt)
  show "memory_index_scan_files uni s None \<lparr> pr_after = None, pr_limit = l \<rparr> =
        Inr \<lparr> page_items = take (unat l) (bt_values (mi_files s)),
              page_next = if unat l < length (bt_values (mi_files s))
                then Some (path_cursor fr_path (bt_values (mi_files s)) (unat l)) else None \<rparr>"
    if "1 \<le> l" "l \<le> MAX_PAGE_SIZE"
    using that page_by_logical_path_from [OF paths, of 0 l] pos request_valid [of l None]
    by (simp add: memory_index_scan_files_def)
  show "memory_index_scan_files uni s None
          \<lparr> pr_after = Some (path_cursor fr_path (bt_values (mi_files s)) i), pr_limit = l \<rparr> =
        Inr \<lparr> page_items = take (unat l) (drop i (bt_values (mi_files s))),
              page_next = if i + unat l < length (bt_values (mi_files s))
                then Some (path_cursor fr_path (bt_values (mi_files s)) (i + unat l)) else None \<rparr>"
    if "0 < i" "i \<le> length (bt_values (mi_files s))" "1 \<le> l" "l \<le> MAX_PAGE_SIZE"
    using that page_by_logical_path_from [OF paths, of i l] pos cur [of i]
      request_valid [of l "Some (path_cursor fr_path (bt_values (mi_files s)) i)"]
    by (simp add: memory_index_scan_files_def)
  show "path_cursor fr_path (bt_values (mi_files s)) i \<noteq> path_cursor fr_path (bt_values (mi_files s)) j"
    if "0 < i" "i < j" "j \<le> length (bt_values (mi_files s))"
  proof -
    have "i - 1 < j - 1" "j - 1 < length (bt_values (mi_files s))" using that by linarith+
    then show ?thesis
      using sorted_wrt_nth_less [OF paths(1), of "i - 1" "j - 1"] by (auto simp: path_cursor_def)
  qed
qed

interpretation catalog_reader: paged_reader "\<lambda>h. memory_catalog_scan_manifest_chunks (fst h) (snd h)"
  catalog_chunks "\<lambda>h. offset_cursor cr_offset (catalog_chunks h)" catalog_chunks_ok
proof
  fix h i j and l :: u32
  assume ok: "catalog_chunks_ok h"
  then have sorted: "sorted_wrt (<) (map cr_offset (catalog_chunks h))" by (simp add: catalog_chunks_ok_def)
  obtain meta where get: "bt_get (mc_manifests (fst h)) (snd h) = Some (meta, catalog_chunks h)"
    using ok by (auto simp: catalog_chunks_ok_def catalog_chunks_def)
  have pos: "0 < unat l" if "1 \<le> l" using that by (simp add: word_le_nat_alt)
  have cur: "cursor_str (offset_cursor cr_offset (catalog_chunks h) n) \<noteq> []" for n
    by (simp add: offset_cursor_def)
  show "memory_catalog_scan_manifest_chunks (fst h) (snd h) \<lparr> pr_after = None, pr_limit = l \<rparr> =
        Inr \<lparr> page_items = take (unat l) (catalog_chunks h),
              page_next = if unat l < length (catalog_chunks h)
                then Some (offset_cursor cr_offset (catalog_chunks h) (unat l)) else None \<rparr>"
    if "1 \<le> l" "l \<le> MAX_PAGE_SIZE"
    using that page_by_offset_from [OF sorted, of 0 l] pos request_valid [of l None]
    by (simp add: memory_catalog_scan_manifest_chunks_def get)
  show "memory_catalog_scan_manifest_chunks (fst h) (snd h)
          \<lparr> pr_after = Some (offset_cursor cr_offset (catalog_chunks h) i), pr_limit = l \<rparr> =
        Inr \<lparr> page_items = take (unat l) (drop i (catalog_chunks h)),
              page_next = if i + unat l < length (catalog_chunks h)
                then Some (offset_cursor cr_offset (catalog_chunks h) (i + unat l)) else None \<rparr>"
    if "0 < i" "i \<le> length (catalog_chunks h)" "1 \<le> l" "l \<le> MAX_PAGE_SIZE"
    using that page_by_offset_from [OF sorted, of i l] pos cur [of i]
      request_valid [of l "Some (offset_cursor cr_offset (catalog_chunks h) i)"]
    by (simp add: memory_catalog_scan_manifest_chunks_def get)
  show "offset_cursor cr_offset (catalog_chunks h) i \<noteq> offset_cursor cr_offset (catalog_chunks h) j"
    if ij: "0 < i" "i < j" "j \<le> length (catalog_chunks h)"
  proof
    assume "offset_cursor cr_offset (catalog_chunks h) i = offset_cursor cr_offset (catalog_chunks h) j"
    then have "dec_value (dec_str (unat (cr_offset (catalog_chunks h ! (i - 1)))))
             = dec_value (dec_str (unat (cr_offset (catalog_chunks h ! (j - 1)))))"
      by (simp add: offset_cursor_def)
    then have "cr_offset (catalog_chunks h ! (i - 1)) = cr_offset (catalog_chunks h ! (j - 1))"
      by (simp add: word_unat_eq_iff)
    moreover have "i - 1 < j - 1" "j - 1 < length (catalog_chunks h)" using ij by linarith+
    ultimately show False using sorted_wrt_nth_less [OF sorted, of "i - 1" "j - 1"] by simp
  qed
qed

section \<open>Cursors that cycle\<close>

text \<open>A port that alternates between two cursors; the loop compares each cursor with the previous one only.\<close>

definition alternating_scan :: "page_request \<Rightarrow> file_record page engine_result" where
  "alternating_scan req = Inr \<lparr> page_items = [],
     page_next = Some (PageCursor (if pr_after req = Some (PageCursor ''a'') then ''b'' else ''a'')) \<rparr>"

text \<open>
  C35: The reading loop of \<open>build_commit_graph\<close> and \<open>load_manifest\<close> does not return on a port that
  alternates between two cursors, although each cursor differs from the one before.
\<close>

theorem alternating_cursors_diverge:
  "paged_scan (\<lambda>_. Inr ()) alternating_scan [] \<lparr> pr_after = None, pr_limit = MAX_PAGE_SIZE \<rparr> = None"
proof -
  have "scan = alternating_scan \<longrightarrow> observe = (\<lambda>_. Inr ()) \<longrightarrow> False"
    if "paged_scan observe scan acc req = Some r"
    for observe scan acc req and r :: "file_record list engine_result"
    using _ that
    by (rule paged_scan.raw_induct [where P = "\<lambda>observe scan acc req r.
          scan = alternating_scan \<longrightarrow> observe = (\<lambda>_. Inr ()) \<longrightarrow> False"])
       (auto simp: alternating_scan_def page_request_max split: if_splits, blast+)
  from this [OF _] show ?thesis by (cases "paged_scan (\<lambda>_. Inr ()) alternating_scan [] \<lparr> pr_after = None, pr_limit = MAX_PAGE_SIZE \<rparr>") blast+
qed

end
