(* ===== verification/CommitGraph.thy ===== *)
theory CommitGraph
  imports Paging
begin

text \<open>
  Building and publishing commits (\<open>engine/commit.rs\<close>): the files of an index snapshot are inserted
  into a tree of pending directories, the tree is sealed bottom-up into content-addressed
  directories without repetition, and the resulting graph is checked before it is published.
\<close>

section \<open>Requests and results\<close>

record build_commit_graph_request =
  bg_expected_index_version :: index_version
  bg_parent :: "commit_id option"
  bg_message :: string
  bg_created_at_unix_ms :: u64

record directory_object =
  do_id :: directory_id
  do_directory :: directory

record build_commit_graph_result =
  br_source_index_version :: index_version
  br_directories :: "directory_object list"
  br_commit_id :: commit_id
  br_commit :: commit
  br_file_count :: u64

record publish_commit_request =
  pc_graph :: build_commit_graph_result
  pc_expected_parent :: "commit_id option"

section \<open>Pending directories\<close>

datatype pending_entry =
    PendingFile manifest_id u64
  | PendingDir "(path_component \<times> pending_entry) list"

type_synonym pending_directory = "(path_component, pending_entry) btree_map"

fun insert_components ::
  "path_component list \<Rightarrow> file_record \<Rightarrow> pending_directory \<Rightarrow> pending_directory engine_result" where
  "insert_components [] file d = Inl EcInvalidPath"
| "insert_components [c] file d =
     (if bt_contains d c then Inl EcIntegrityViolation
      else Inr (bt_insert c (PendingFile (fr_manifest_id file) (fr_total_size file)) d))"
| "insert_components (c # rest) file d =
     (case bt_get d c of
        None \<Rightarrow> and_then (insert_components rest file []) (\<lambda>sub. Inr (bt_insert c (PendingDir sub) d))
      | Some (PendingDir sub) \<Rightarrow>
          and_then (insert_components rest file sub) (\<lambda>sub. Inr (bt_insert c (PendingDir sub) d))
      | Some (PendingFile _ _) \<Rightarrow> Inl EcIntegrityViolation)"

definition parse_components :: "unicode \<Rightarrow> string list \<Rightarrow> path_component list validation_result" where
  "parse_components uni cs = try_fold (\<lambda>acc c. and_then (component_parse uni c) (\<lambda>p. Inr (acc @ [p]))) [] cs"

definition pending_insert :: "unicode \<Rightarrow> pending_directory \<Rightarrow> file_record \<Rightarrow> pending_directory engine_result" where
  "pending_insert uni d file =
     and_then (from_validation (parse_components uni (path_components (fr_path file)))) (\<lambda>components.
       insert_components components file d)"

type_synonym seal_state = "directory_object list \<times> (directory_id, directory) btree_map"

definition publish_directory ::
  "unicode \<Rightarrow> (byte list \<Rightarrow> content_digest) \<Rightarrow> directory_entry list \<Rightarrow> seal_state
   \<Rightarrow> (directory_id \<times> seal_state) engine_result" where
  "publish_directory uni blake3 entries st =
     (case st of (output, published) \<Rightarrow>
      and_then (from_validation (directory_new uni entries)) (\<lambda>d.
      and_then (from_validation (directory_id uni blake3 d)) (\<lambda>i.
      case bt_get published i of
        Some existing \<Rightarrow> if existing \<noteq> d then Inl EcIntegrityViolation else Inr (i, output, published)
      | None \<Rightarrow> Inr (i, output @ [\<lparr> do_id = i, do_directory = d \<rparr>], bt_insert i d published))))"

function seal_entries ::
    "unicode \<Rightarrow> (byte list \<Rightarrow> content_digest) \<Rightarrow> nat \<Rightarrow> pending_directory \<Rightarrow> seal_state
     \<Rightarrow> (directory_entry list \<times> seal_state) engine_result"
  and seal :: "unicode \<Rightarrow> (byte list \<Rightarrow> content_digest) \<Rightarrow> pending_directory \<Rightarrow> seal_state
     \<Rightarrow> (directory_id \<times> seal_state) engine_result" where
  "seal_entries uni blake3 n [] st = Inr ([], st)"
| "seal_entries uni blake3 n ((name, PendingFile mid sz) # es) st =
     and_then (ok_or EcInternal (u64_try_from n)) (\<lambda>ordinal.
     and_then (seal_entries uni blake3 (Suc n) es st) (\<lambda>(entries, st).
     Inr (entry_file ordinal name mid sz # entries, st)))"
| "seal_entries uni blake3 n ((name, PendingDir d) # es) st =
     and_then (ok_or EcInternal (u64_try_from n)) (\<lambda>ordinal.
     and_then (seal uni blake3 d st) (\<lambda>(i, st).
     and_then (seal_entries uni blake3 (Suc n) es st) (\<lambda>(entries, st).
     Inr (entry_directory ordinal name i # entries, st))))"
| "seal uni blake3 d st =
     and_then (seal_entries uni blake3 0 d st) (\<lambda>(entries, st). publish_directory uni blake3 entries st)"
  by pat_completeness auto
termination
  by (relation "measure (\<lambda>x. case x of Inl (_, _, _, es, _) \<Rightarrow> 2 * size_list (size_prod (\<lambda>_. 0) size) es
                                | Inr (_, _, d, _) \<Rightarrow> 2 * size_list (size_prod (\<lambda>_. 0) size) d + 1)") auto

section \<open>Building\<close>

definition build_from_files ::
  "unicode \<Rightarrow> (byte list \<Rightarrow> content_digest) \<Rightarrow> (progress_event \<Rightarrow> unit engine_result)
   \<Rightarrow> build_commit_graph_request \<Rightarrow> file_record list \<Rightarrow> build_commit_graph_result engine_result" where
  "build_from_files uni blake3 progress request files =
     and_then (from_validation (validate_index_snapshot uni files)) (\<lambda>_.
     and_then (ok_or EcInternal (u64_try_from (length files))) (\<lambda>file_count.
     and_then (try_fold (pending_insert uni) [] files) (\<lambda>root.
     and_then (seal uni blake3 root ([], [])) (\<lambda>(root_directory_id, directories, published).
     and_then (from_validation (commit_new root_directory_id (bg_parent request) (bg_message request)
                 (bg_created_at_unix_ms request))) (\<lambda>commit.
     and_then (from_validation (commit_id blake3 commit)) (\<lambda>cid.
     and_then (progress (progress_event_new PhPrepared UnitFiles file_count)) (\<lambda>_.
     Inr \<lparr> br_source_index_version = bg_expected_index_version request, br_directories = directories,
           br_commit_id = cid, br_commit = commit, br_file_count = file_count \<rparr>)))))))"

text \<open>
  The index reader is its version and its \<open>scan_files\<close> without prefix; the result is \<open>None\<close> when
  the scan never ends.
\<close>

definition build_commit_graph ::
  "unicode \<Rightarrow> (byte list \<Rightarrow> content_digest) \<Rightarrow> (progress_event \<Rightarrow> unit engine_result)
   \<Rightarrow> build_commit_graph_request \<Rightarrow> index_version \<Rightarrow> (page_request \<Rightarrow> file_record page engine_result)
   \<Rightarrow> build_commit_graph_result engine_result option" where
  "build_commit_graph uni blake3 progress request version scan_files =
     (if version \<noteq> bg_expected_index_version request then Some (Inl EcIndexVersionMismatch)
      else case page_request_first MAX_PAGE_SIZE of
        Inl e \<Rightarrow> Some (Inl e)
      | Inr page_request \<Rightarrow>
          map_option (\<lambda>r. and_then r (build_from_files uni blake3 progress request))
            (paged_scan (\<lambda>n. and_then (ok_or EcInternal (u64_try_from n)) (\<lambda>count.
                progress (progress_event_new PhBuildingCandidate UnitFiles count)))
              scan_files [] page_request))"

section \<open>Publishing\<close>

definition check_directory_object ::
  "unicode \<Rightarrow> (byte list \<Rightarrow> content_digest) \<Rightarrow> directory_id btree_set \<Rightarrow> directory_object
   \<Rightarrow> directory_id btree_set engine_result" where
  "check_directory_object uni blake3 ids obj =
     and_then (from_validation (directory_validate uni (do_directory obj))) (\<lambda>_.
     and_then (from_validation (directory_id uni blake3 (do_directory obj))) (\<lambda>i.
     if i \<noteq> do_id obj then Inl EcIntegrityViolation
     else if do_id obj \<in> set ids then Inl EcIntegrityViolation
     else Inr (bts_insert (do_id obj) ids)))"

definition check_children :: "directory_id btree_set \<Rightarrow> directory_object \<Rightarrow> unit engine_result" where
  "check_children ids obj =
     try_fold (\<lambda>_ entry. case de_target_id entry of
         TargetDirectory child \<Rightarrow> if child \<in> set ids then Inr () else Inl EcIntegrityViolation
       | TargetManifest _ \<Rightarrow> Inr ()) () (dir_entries (do_directory obj))"

definition check_graph ::
  "unicode \<Rightarrow> (byte list \<Rightarrow> content_digest) \<Rightarrow> publish_commit_request \<Rightarrow> unit engine_result" where
  "check_graph uni blake3 request =
     (let graph = pc_graph request in
      and_then (from_validation (commit_validate (br_commit graph))) (\<lambda>_.
      and_then (from_validation (commit_id blake3 (br_commit graph))) (\<lambda>cid.
      if cid \<noteq> br_commit_id graph then Inl EcIntegrityViolation
      else if c_parent (br_commit graph) \<noteq> pc_expected_parent request then Inl EcConflict
      else
        and_then (try_fold (check_directory_object uni blake3) [] (br_directories graph)) (\<lambda>directory_ids.
        if c_root_directory_id (br_commit graph) \<notin> set directory_ids then Inl EcIntegrityViolation
        else try_fold (\<lambda>_. check_children directory_ids) () (br_directories graph)))))"

text \<open>The publisher owns the compare-and-swap of the mutable reference; it is a parameter.\<close>

definition publish_commit ::
  "unicode \<Rightarrow> (byte list \<Rightarrow> content_digest) \<Rightarrow> (publish_commit_request \<Rightarrow> ('w, commit_id) engine_io)
   \<Rightarrow> publish_commit_request \<Rightarrow> ('w, commit_id) engine_io" where
  "publish_commit uni blake3 publisher request =
     io_then (io_of (check_graph uni blake3 request)) (\<lambda>_.
     io_then (publisher request) (\<lambda>cid.
     if cid \<noteq> br_commit_id (pc_graph request) then io_err EcIntegrityViolation else io_ok cid))"

declare seal.simps [simp del]

section \<open>The pending tree is a map from paths to files\<close>

fun pending_lookup :: "pending_directory \<Rightarrow> path_component list \<Rightarrow> (manifest_id \<times> u64) option" where
  "pending_lookup d [] = None"
| "pending_lookup d (c # cs) =
     (case bt_get d c of
        None \<Rightarrow> None
      | Some (PendingFile mid sz) \<Rightarrow> if cs = [] then Some (mid, sz) else None
      | Some (PendingDir sub) \<Rightarrow> pending_lookup sub cs)"

inductive pending_ok :: "pending_directory \<Rightarrow> bool" where
  pending_okI: "bt_ok d \<Longrightarrow> (\<And>c sub. (c, PendingDir sub) \<in> set d \<Longrightarrow> pending_ok sub) \<Longrightarrow> pending_ok d"

lemma pending_ok_bt: "pending_ok d \<Longrightarrow> bt_ok d"
  by (auto elim: pending_ok.cases)

lemma pending_ok_sub: "pending_ok d \<Longrightarrow> (c, PendingDir sub) \<in> set d \<Longrightarrow> pending_ok sub"
  by (auto elim: pending_ok.cases)

lemma pending_ok_Nil [simp]: "pending_ok []"
  by (rule pending_okI) simp_all

lemma pending_ok_insert:
  assumes "pending_ok d" and "\<And>sub. x = PendingDir sub \<Longrightarrow> pending_ok sub"
  shows "pending_ok (bt_insert c x d)"
proof (rule pending_okI)
  show "bt_ok (bt_insert c x d)" using assms(1) by (simp add: pending_ok_bt)
  show "pending_ok sub" if "(c', PendingDir sub) \<in> set (bt_insert c x d)" for c' sub
    using that set_bt_insert_subset [of c x d] assms pending_ok_sub by blast
qed

definition file_value :: "file_record \<Rightarrow> manifest_id \<times> u64" where
  "file_value f = (fr_manifest_id f, fr_total_size f)"

lemma pending_lookup_Nil [simp]: "pending_lookup [] cs = None"
  by (cases cs) simp_all

lemma insert_components_lookup:
  assumes "insert_components cs f d = Inr d'" and "pending_ok d"
  shows "pending_ok d' \<and> pending_lookup d cs = None \<and> pending_lookup d' = (pending_lookup d)(cs \<mapsto> file_value f)"
  using assms
proof (induction cs f d arbitrary: d' rule: insert_components.induct)
  case (2 c f d)
  then have d': "d' = bt_insert c (PendingFile (fr_manifest_id f) (fr_total_size f)) d" and "bt_get d c = None"
    by (auto simp: bt_get_None_iff split: if_splits)
  moreover have "pending_lookup d' xs = ((pending_lookup d)([c] \<mapsto> file_value f)) xs" for xs
    using 2 calculation by (cases xs) (auto simp: pending_ok_bt file_value_def)
  ultimately show ?case using 2(2) by (auto intro!: pending_ok_insert)
next
  case (3 c c2 rest f d)
  note ok = pending_ok_bt [OF 3(4)]
  show ?case
  proof (cases "bt_get d c")
    case None
    with 3(3) obtain sub where sub: "insert_components (c2 # rest) f [] = Inr sub" "d' = bt_insert c (PendingDir sub) d"
      by auto
    from 3(1) [OF None sub(1)] have "pending_ok sub" "pending_lookup sub = [c2 # rest \<mapsto> file_value f]" by auto
    moreover have "pending_lookup d' xs = ((pending_lookup d)(c # c2 # rest \<mapsto> file_value f)) xs" for xs
      using calculation None sub(2) ok by (cases xs) auto
    ultimately show ?thesis using sub(2) 3(4) None by (auto intro!: pending_ok_insert)
  next
    case (Some x)
    with 3(3) obtain old sub where x: "x = PendingDir old" and sub: "insert_components (c2 # rest) f old = Inr sub"
      "d' = bt_insert c (PendingDir sub) d"
      by (auto split: pending_entry.splits)
    have "pending_ok old" using Some x ok 3(4) by (auto simp: bt_get_iff intro: pending_ok_sub)
    from 3(2) [OF Some x sub(1) this]
    have "pending_ok sub" "pending_lookup old (c2 # rest) = None"
      "pending_lookup sub = (pending_lookup old)(c2 # rest \<mapsto> file_value f)" by auto
    moreover have "pending_lookup d' xs = ((pending_lookup d)(c # c2 # rest \<mapsto> file_value f)) xs" for xs
      using calculation Some x sub(2) ok by (cases xs) auto
    ultimately show ?thesis using sub(2) 3(4) Some x by (auto intro!: pending_ok_insert)
  qed
qed auto

definition file_key :: "file_record \<Rightarrow> path_component list" where
  "file_key f = map PathComponent (path_components (fr_path f))"

lemma parse_components_iff:
  "parse_components uni cs = Inr ps \<longleftrightarrow> ps = map PathComponent cs \<and> (\<forall>c \<in> set cs. validate_component uni c = Inr ())"
proof -
  have "try_fold (\<lambda>acc c. and_then (component_parse uni c) (\<lambda>p. Inr (acc @ [p]))) acc cs = Inr ps \<longleftrightarrow>
     ps = acc @ map PathComponent cs \<and> (\<forall>c \<in> set cs. validate_component uni c = Inr ())" for acc
    by (induction cs arbitrary: acc) (auto simp: component_parse_def)
  then show ?thesis by (simp add: parse_components_def)
qed

lemma pending_insert_iff:
  "pending_insert uni d f = Inr d' \<longleftrightarrow> path_valid uni (fr_path f) \<and> insert_components (file_key f) f d = Inr d'"
  by (auto simp: pending_insert_def parse_components_iff path_valid_def file_key_def)

lemma pending_fold_lookup:
  assumes "try_fold (pending_insert uni) d fs = Inr root" and "pending_ok d"
  shows "pending_ok root \<and> pending_lookup root = pending_lookup d ++ map_of (map (\<lambda>f. (file_key f, file_value f)) fs)
    \<and> distinct (map file_key fs) \<and> (\<forall>f \<in> set fs. path_valid uni (fr_path f) \<and> pending_lookup d (file_key f) = None)"
  using assms
proof (induction fs arbitrary: d)
  case (Cons f fs)
  then obtain e where e: "pending_insert uni d f = Inr e" "try_fold (pending_insert uni) e fs = Inr root" by auto
  then have ins: "insert_components (file_key f) f d = Inr e" "path_valid uni (fr_path f)"
    by (simp_all add: pending_insert_iff)
  note look = insert_components_lookup [OF ins(1) Cons.prems(2)]
  have ih: "pending_ok root" "pending_lookup root = pending_lookup e ++ map_of (map (\<lambda>f. (file_key f, file_value f)) fs)"
    "distinct (map file_key fs)" "\<forall>g \<in> set fs. path_valid uni (fr_path g) \<and> pending_lookup e (file_key g) = None"
    using Cons.IH [OF e(2) look [THEN conjunct1]] by blast+
  then have fresh: "file_key g \<noteq> file_key f" "pending_lookup d (file_key g) = None" if "g \<in> set fs" for g
    using that look by (metis fun_upd_apply option.distinct(1))+
  have nin: "file_key f \<notin> set (map file_key fs)" using fresh(1) by (metis imageE set_map)
  then have "map_of (map (\<lambda>f. (file_key f, file_value f)) fs) (file_key f) = None"
    by (auto simp: map_of_eq_None_iff image_iff)
  then have eq: "pending_lookup root = pending_lookup d ++ map_of (map (\<lambda>f. (file_key f, file_value f)) (f # fs))"
    using ih(2) look by (auto simp: map_add_def fun_eq_iff split: option.splits)
  have "distinct (map file_key (f # fs))" using ih(3) nin by simp
  moreover have "\<forall>g \<in> set (f # fs). path_valid uni (fr_path g) \<and> pending_lookup d (file_key g) = None"
    using ih(4) ins(2) look fresh(2) by simp
  ultimately show ?case using ih(1) eq by blast
qed simp

section \<open>Sealing\<close>

text \<open>Reading a path through a graph of directories.\<close>

fun resolve :: "(directory_id \<Rightarrow> directory option) \<Rightarrow> path_component list \<Rightarrow> directory_entry list
    \<Rightarrow> (manifest_id \<times> u64) option" where
  "resolve G [] es = None"
| "resolve G (c # cs) es =
     (case find (\<lambda>e. de_name e = c) es of
        None \<Rightarrow> None
      | Some e \<Rightarrow>
          (case de_target_id e of
             TargetManifest mid \<Rightarrow> if cs = [] then Some (mid, de_total_size e) else None
           | TargetDirectory i \<Rightarrow>
               (case G i of None \<Rightarrow> None | Some d \<Rightarrow> resolve G cs (dir_entries d))))"

definition resolve_root :: "(directory_id \<Rightarrow> directory option) \<Rightarrow> directory_id \<Rightarrow> path_component list
    \<Rightarrow> (manifest_id \<times> u64) option" where
  "resolve_root G i cs = (case G i of None \<Rightarrow> None | Some d \<Rightarrow> resolve G cs (dir_entries d))"

definition child_ids :: "directory_entry list \<Rightarrow> directory_id set" where
  "child_ids es = {i. \<exists>e \<in> set es. de_target_id e = TargetDirectory i}"

text \<open>Each directory's children precede it.\<close>

definition child_first :: "directory_object list \<Rightarrow> bool" where
  "child_first out \<longleftrightarrow>
     (\<forall>k < length out. child_ids (dir_entries (do_directory (out ! k))) \<subseteq> do_id ` set (take k out))"

definition seal_inv :: "unicode \<Rightarrow> (byte list \<Rightarrow> content_digest) \<Rightarrow> seal_state \<Rightarrow> bool" where
  "seal_inv uni blake3 st \<longleftrightarrow> (case st of (output, published) \<Rightarrow>
     bt_ok published \<and> distinct (map do_id output) \<and> child_first output
     \<and> bt_get published = map_of (map (\<lambda>x. (do_id x, do_directory x)) output)
     \<and> (\<forall>x \<in> set output. directory_id uni blake3 (do_directory x) = Inr (do_id x)))"

definition seal_extends :: "seal_state \<Rightarrow> seal_state \<Rightarrow> bool" where
  "seal_extends st st' \<longleftrightarrow> prefix (fst st) (fst st') \<and> bt_get (snd st) \<subseteq>\<^sub>m bt_get (snd st')"

lemma seal_extends_refl [simp]: "seal_extends st st"
  by (simp add: seal_extends_def)

lemma seal_extends_trans: "seal_extends a b \<Longrightarrow> seal_extends b c \<Longrightarrow> seal_extends a c"
  by (auto simp: seal_extends_def intro: map_le_trans prefix_order.trans)

lemma child_first_snoc:
  "child_first (out @ [x]) \<longleftrightarrow> child_first out \<and> child_ids (dir_entries (do_directory x)) \<subseteq> do_id ` set out"
  by (auto simp: child_first_def nth_append less_Suc_eq)

lemma published_dom:
  "seal_inv uni blake3 (out, pub) \<Longrightarrow> dom (bt_get pub) = do_id ` set out"
  by (auto simp: seal_inv_def dom_map_of_conv_image_fst image_image)

lemma publish_directory_result:
  assumes "publish_directory uni blake3 es st = Inr (i, st')" and "seal_inv uni blake3 st"
    and "child_ids es \<subseteq> dom (bt_get (snd st))"
  shows "seal_inv uni blake3 st' \<and> seal_extends st st' \<and> bt_get (snd st') i = Some \<lparr> dir_entries = es \<rparr>
    \<and> directory_validate uni \<lparr> dir_entries = es \<rparr> = Inr ()"
proof -
  obtain out pub where st: "st = (out, pub)" by (cases st)
  let ?d = "\<lparr> dir_entries = es \<rparr>"
  have val: "directory_validate uni ?d = Inr ()" and ident: "directory_id uni blake3 ?d = Inr i"
    using assms(1) by (auto simp: publish_directory_def st directory_new_def Let_def split: option.splits if_splits)
  show ?thesis
  proof (cases "bt_get pub i")
    case None
    then have st': "st' = (out @ [\<lparr> do_id = i, do_directory = ?d \<rparr>], bt_insert i ?d pub)"
      using assms(1) val ident by (simp add: publish_directory_def st directory_new_def)
    have inv: "bt_ok pub" "distinct (map do_id out)" "child_first out"
      "bt_get pub = map_of (map (\<lambda>x. (do_id x, do_directory x)) out)"
      "\<forall>x \<in> set out. directory_id uni blake3 (do_directory x) = Inr (do_id x)"
      using assms(2) by (simp_all add: seal_inv_def st)
    have fresh: "i \<notin> do_id ` set out" using None published_dom assms(2) st by blast
    then have "bt_get (bt_insert i ?d pub) = map_of (map (\<lambda>x. (do_id x, do_directory x)) (out @ [\<lparr> do_id = i, do_directory = ?d \<rparr>]))"
      using inv None by (auto simp: map_add_def fun_eq_iff split: option.splits)
    moreover have "child_first (out @ [\<lparr> do_id = i, do_directory = ?d \<rparr>])"
      using inv(3) assms(3) published_dom [of uni blake3 out pub] assms(2) by (simp add: child_first_snoc st)
    ultimately have "seal_inv uni blake3 st'"
      using inv fresh ident by (auto simp: seal_inv_def st')
    moreover have "bt_get pub \<subseteq>\<^sub>m bt_get (bt_insert i ?d pub)"
      using None inv(1) by (auto simp: map_le_def)
    ultimately show ?thesis using inv(1) val by (simp add: st st' seal_extends_def)
  next
    case (Some existing)
    then have "existing = ?d" "st' = st"
      using assms(1) val ident by (auto simp: publish_directory_def st directory_new_def split: if_splits)
    then show ?thesis using Some assms(2) val by (simp add: st)
  qed
qed

lemma resolve_find_file:
  "resolve G (c # cs) (entry_file o1 name mid sz # es) =
     (if name = c then (if cs = [] then Some (mid, sz) else None) else resolve G (c # cs) es)"
  by (simp add: entry_file_def)

lemma resolve_find_dir:
  "resolve G (c # cs) (entry_directory o1 name i # es) =
     (if name = c then resolve_root G i cs else resolve G (c # cs) es)"
  by (simp add: entry_directory_def resolve_root_def)

definition sealed_as :: "seal_state \<Rightarrow> directory_id \<Rightarrow> pending_directory \<Rightarrow> bool" where
  "sealed_as st i d \<longleftrightarrow> (\<forall>G. bt_get (snd st) \<subseteq>\<^sub>m G \<longrightarrow> resolve_root G i = pending_lookup d)"

lemma sealed_as_extends: "sealed_as st i d \<Longrightarrow> seal_extends st st' \<Longrightarrow> sealed_as st' i d"
  by (auto simp: sealed_as_def seal_extends_def dest: map_le_trans)

definition entries_as :: "seal_state \<Rightarrow> directory_entry list \<Rightarrow> pending_directory \<Rightarrow> bool" where
  "entries_as st es d \<longleftrightarrow> child_ids es \<subseteq> dom (bt_get (snd st)) \<and> map de_name es = map fst d
     \<and> (\<forall>G cs. bt_get (snd st) \<subseteq>\<^sub>m G \<longrightarrow> resolve G cs es = pending_lookup d cs)"

lemma pending_lookup_Cons:
  "pending_lookup ((name, x) # d) (c # cs) =
     (if name = c then (case x of PendingFile mid sz \<Rightarrow> if cs = [] then Some (mid, sz) else None
                        | PendingDir sub \<Rightarrow> pending_lookup sub cs)
      else pending_lookup d (c # cs))"
  by (simp add: bt_get_def)

lemma entries_as_file:
  assumes "entries_as st es d"
  shows "entries_as st (entry_file o1 name mid sz # es) ((name, PendingFile mid sz) # d)"
proof -
  have "resolve G cs (entry_file o1 name mid sz # es) = pending_lookup ((name, PendingFile mid sz) # d) cs"
    if "bt_get (snd st) \<subseteq>\<^sub>m G" for G cs
  proof (cases cs)
    case (Cons c cs')
    have "resolve G (c # cs') es = pending_lookup d (c # cs')"
      using assms that unfolding entries_as_def by blast
    then show ?thesis unfolding Cons resolve_find_file pending_lookup_Cons by simp
  qed simp
  moreover have "child_ids (entry_file o1 name mid sz # es) = child_ids es" "de_name (entry_file o1 name mid sz) = name"
    by (auto simp: child_ids_def entry_file_def)
  ultimately show ?thesis using assms by (simp add: entries_as_def)
qed

lemma entries_as_dir:
  assumes "entries_as st es d" and "sealed_as st i sub" and "bt_get (snd st) i \<noteq> None"
  shows "entries_as st (entry_directory o1 name i # es) ((name, PendingDir sub) # d)"
proof -
  have "resolve G cs (entry_directory o1 name i # es) = pending_lookup ((name, PendingDir sub) # d) cs"
    if "bt_get (snd st) \<subseteq>\<^sub>m G" for G cs
  proof (cases cs)
    case (Cons c cs')
    have "resolve G (c # cs') es = pending_lookup d (c # cs')" "resolve_root G i cs' = pending_lookup sub cs'"
      using assms(1,2) that unfolding entries_as_def sealed_as_def by (blast, metis)
    then show ?thesis unfolding Cons resolve_find_dir pending_lookup_Cons by simp
  qed simp
  moreover have "child_ids (entry_directory o1 name i # es) = insert i (child_ids es)" "de_name (entry_directory o1 name i) = name"
    by (auto simp: child_ids_def entry_directory_def)
  ultimately show ?thesis using assms by (auto simp: entries_as_def)
qed

lemma entries_as_extends: "entries_as st es d \<Longrightarrow> seal_extends st st' \<Longrightarrow> entries_as st' es d"
  unfolding entries_as_def seal_extends_def
  by (metis map_le_implies_dom_le map_le_trans subset_trans)

lemma seal_result:
  "seal_entries uni blake3 n d st = Inr (es, st') \<Longrightarrow> seal_inv uni blake3 st \<Longrightarrow>
     seal_inv uni blake3 st' \<and> seal_extends st st' \<and> entries_as st' es d"
  "seal uni blake3 d st = Inr (i, st') \<Longrightarrow> seal_inv uni blake3 st \<Longrightarrow>
     seal_inv uni blake3 st' \<and> seal_extends st st' \<and> sealed_as st' i d \<and> bt_get (snd st') i \<noteq> None"
proof (induction uni blake3 n d st and uni blake3 d st arbitrary: es st' and i st' rule: seal_entries_seal.induct)
  case (1 uni blake3 n st)
  have "resolve G cs [] = None" for G cs by (cases cs) simp_all
  then show ?case using 1 by (auto simp: entries_as_def child_ids_def)
next
  case (2 uni blake3 n name mid sz es st)
  then show ?case by (auto intro!: entries_as_file)
next
  case (3 uni blake3 n name d ps st)
  from 3(3) obtain ord j st1 ents where s: "seal uni blake3 d st = Inr (j, st1)"
    and r: "seal_entries uni blake3 (Suc n) ps st1 = Inr (ents, st')"
    and es: "es = entry_directory ord name j # ents" and ord: "u64_try_from n = Some ord"
    by auto
  have a: "seal_inv uni blake3 st1" "seal_extends st st1" "sealed_as st1 j d" "bt_get (snd st1) j \<noteq> None"
    using 3(1) [OF s 3(4)] by auto
  have b: "seal_inv uni blake3 st'" "seal_extends st1 st'" "entries_as st' ents ps"
    using 3(2) [OF r a(1)] by auto
  have "sealed_as st' j d" using a(3) b(2) by (rule sealed_as_extends)
  moreover have "bt_get (snd st') j \<noteq> None"
    using a(4) b(2) map_le_implies_dom_le unfolding seal_extends_def by blast
  ultimately have "entries_as st' es ((name, PendingDir d) # ps)"
    using b(3) unfolding es by (intro entries_as_dir)
  then show ?case using a(2) b seal_extends_trans by blast
next
  case (4 uni blake3 d st)
  from 4(2) obtain es st1 where e: "seal_entries uni blake3 0 d st = Inr (es, st1)"
    and p: "publish_directory uni blake3 es st1 = Inr (i, st')"
    by (auto simp: seal.simps)
  note a = 4(1) [OF e 4(3)]
  then have b: "seal_inv uni blake3 st'" "seal_extends st1 st'" "bt_get (snd st') i = Some \<lparr> dir_entries = es \<rparr>"
    using publish_directory_result [OF p] by (auto simp: entries_as_def)
  have "entries_as st' es d" using a b(2) entries_as_extends by blast
  then have "sealed_as st' i d"
    using b(3) by (auto simp: sealed_as_def entries_as_def resolve_root_def fun_eq_iff map_le_def dom_def split: option.splits)
  then show ?case using a b seal_extends_trans [of st st1 st'] by simp
qed

section \<open>Graphs that are built and published\<close>

definition graph_lookup :: "directory_object list \<Rightarrow> directory_id \<Rightarrow> directory option" where
  "graph_lookup out = map_of (map (\<lambda>x. (do_id x, do_directory x)) out)"

text \<open>A closed graph: canonical identities, no repetition, and every child present.\<close>

definition graph_closed :: "unicode \<Rightarrow> (byte list \<Rightarrow> content_digest) \<Rightarrow> directory_object list \<Rightarrow> bool" where
  "graph_closed uni blake3 out \<longleftrightarrow>
     (\<forall>x \<in> set out. directory_id uni blake3 (do_directory x) = Inr (do_id x))
     \<and> distinct (map do_id out)
     \<and> (\<forall>x \<in> set out. child_ids (dir_entries (do_directory x)) \<subseteq> do_id ` set out)"

lemma directory_id_validate: "directory_id uni blake3 d = Inr i \<Longrightarrow> directory_validate uni d = Inr ()"
  by (simp add: directory_id_def)

lemma check_directory_object_iff:
  "check_directory_object uni blake3 ids x = Inr ids' \<longleftrightarrow>
     directory_id uni blake3 (do_directory x) = Inr (do_id x) \<and> do_id x \<notin> set ids \<and> ids' = bts_insert (do_id x) ids"
  by (auto simp: check_directory_object_def dest: directory_id_validate)

lemma check_directory_objects_iff:
  "try_fold (check_directory_object uni blake3) ids out = Inr ids' \<longleftrightarrow>
     (\<forall>x \<in> set out. directory_id uni blake3 (do_directory x) = Inr (do_id x))
     \<and> distinct (map do_id out) \<and> (\<forall>x \<in> set out. do_id x \<notin> set ids)
     \<and> ids' = fold bts_insert (map do_id out) ids"
proof (induction out arbitrary: ids)
  case (Cons x out)
  then show ?case by (auto simp: check_directory_object_iff image_iff)
qed auto

lemma check_children_iff: "check_children ids x = Inr u \<longleftrightarrow> child_ids (dir_entries (do_directory x)) \<subseteq> set ids"
proof -
  have "check_children ids x = Inr u \<longleftrightarrow> (\<forall>e \<in> set (dir_entries (do_directory x)).
      (case de_target_id e of TargetDirectory child \<Rightarrow> if child \<in> set ids then Inr () else Inl EcIntegrityViolation
        | TargetManifest _ \<Rightarrow> Inr ()) = Inr ())"
    unfolding check_children_def by (rule try_fold_unit)
  also have "\<dots> \<longleftrightarrow> child_ids (dir_entries (do_directory x)) \<subseteq> set ids"
    unfolding child_ids_def by (auto split: directory_entry_target.splits if_splits)
  finally show ?thesis .
qed

lemma check_graph_iff:
  "check_graph uni blake3 req = Inr u \<longleftrightarrow>
     commit_id blake3 (br_commit (pc_graph req)) = Inr (br_commit_id (pc_graph req))
     \<and> c_parent (br_commit (pc_graph req)) = pc_expected_parent req
     \<and> graph_closed uni blake3 (br_directories (pc_graph req))
     \<and> c_root_directory_id (br_commit (pc_graph req)) \<in> do_id ` set (br_directories (pc_graph req))"
proof -
  have ids: "set (fold bts_insert (map do_id out) []) = do_id ` set out" for out
    using set_bts_collect [of "map do_id out"] by (simp add: bts_collect_def)
  have "commit_id blake3 c = Inr i \<Longrightarrow> commit_validate c = Inr ()" for c i
    by (simp add: commit_id_def)
  then show ?thesis
    unfolding check_graph_def Let_def graph_closed_def
    by (auto simp: check_directory_objects_iff try_fold_unit check_children_iff ids)
qed

lemma child_first_closed: "child_first out \<Longrightarrow> x \<in> set out \<Longrightarrow> child_ids (dir_entries (do_directory x)) \<subseteq> do_id ` set out"
  unfolding child_first_def by (metis image_mono in_set_conv_nth set_take_subset subset_trans)

lemma seal_root:
  assumes "seal uni blake3 root ([], []) = Inr (i, out, pub)"
  shows "graph_closed uni blake3 out" and "child_first out" and "i \<in> do_id ` set out"
    and "resolve_root (graph_lookup out) i = pending_lookup root"
proof -
  have "seal_inv uni blake3 ([], [])" by (simp add: seal_inv_def child_first_def)
  from seal_result(2) [OF assms this]
  have inv: "seal_inv uni blake3 (out, pub)" "sealed_as (out, pub) i root" "bt_get pub i \<noteq> None" by simp_all
  then have get: "bt_get pub = graph_lookup out" by (simp add: seal_inv_def graph_lookup_def)
  show "child_first out" using inv(1) by (simp add: seal_inv_def)
  then show "graph_closed uni blake3 out"
    using inv(1) child_first_closed by (auto simp: seal_inv_def graph_closed_def)
  show "i \<in> do_id ` set out" using inv(1,3) published_dom by blast
  show "resolve_root (graph_lookup out) i = pending_lookup root"
    using inv(2) get by (simp add: sealed_as_def)
qed

lemma build_from_files_result:
  assumes "build_from_files uni blake3 progress req files = Inr res"
  shows "graph_closed uni blake3 (br_directories res)" and "child_first (br_directories res)"
    and "c_root_directory_id (br_commit res) \<in> do_id ` set (br_directories res)"
    and "commit_id blake3 (br_commit res) = Inr (br_commit_id res)"
    and "c_parent (br_commit res) = bg_parent req" and "unat (br_file_count res) = length files"
    and "validate_index_snapshot uni files = Inr ()"
    and "resolve_root (graph_lookup (br_directories res)) (c_root_directory_id (br_commit res)) cs = Some v
         \<longleftrightarrow> (\<exists>f \<in> set files. file_key f = cs \<and> file_value f = v)"
proof -
  from assms obtain root i out pub c cid count where
    val: "validate_index_snapshot uni files = Inr ()" and count: "u64_try_from (length files) = Some count"
    and root: "try_fold (pending_insert uni) [] files = Inr root"
    and sealed: "seal uni blake3 root ([], []) = Inr (i, out, pub)"
    and c: "commit_new i (bg_parent req) (bg_message req) (bg_created_at_unix_ms req) = Inr c"
    and cid: "commit_id blake3 c = Inr cid"
    and res: "br_directories res = out" "br_commit res = c" "br_commit_id res = cid" "br_file_count res = count"
    by (auto simp: build_from_files_def)
  have c': "c_root_directory_id c = i" "c_parent c = bg_parent req"
    using c by (auto simp: commit_new_def Let_def)
  note s = seal_root [OF sealed]
  note p = pending_fold_lookup [OF root pending_ok_Nil]
  show "graph_closed uni blake3 (br_directories res)" "child_first (br_directories res)"
    "c_root_directory_id (br_commit res) \<in> do_id ` set (br_directories res)"
    "commit_id blake3 (br_commit res) = Inr (br_commit_id res)" "c_parent (br_commit res) = bg_parent req"
    "unat (br_file_count res) = length files" "validate_index_snapshot uni files = Inr ()"
    using s c' cid res val count by (simp_all add: u64_try_from_eq_Some)
  have empty: "pending_lookup [] = Map.empty" by (rule ext) simp
  have "distinct (map fst (map (\<lambda>f. (file_key f, file_value f)) files))" using p by (simp add: comp_def)
  then have "pending_lookup root cs = Some v \<longleftrightarrow> (cs, v) \<in> set (map (\<lambda>f. (file_key f, file_value f)) files)"
    using map_of_eq_Some_iff p empty by (simp only: empty_map_add)
  then show "resolve_root (graph_lookup (br_directories res)) (c_root_directory_id (br_commit res)) cs = Some v
         \<longleftrightarrow> (\<exists>f \<in> set files. file_key f = cs \<and> file_value f = v)"
    using s(4) c'(1) res by auto
qed

section \<open>Sibling names\<close>

lemma find_distinct_keys:
  assumes "distinct (map (\<lambda>e. k (de_name e)) es)" and "find (\<lambda>e. de_name e = a) es = Some e" and "find (\<lambda>e. de_name e = b) es = Some e'"
    and "k a = k b"
  shows "a = b"
  using assms by (auto simp: find_Some_iff distinct_conv_nth)

lemma resolve_distinct_keys:
  assumes "\<And>i d. G i = Some d \<Longrightarrow> directory_ok uni (dir_entries d)" and "directory_ok uni es"
    and "resolve G (pre @ a # xs) es \<noteq> None" and "resolve G (pre @ b # ys) es \<noteq> None"
    and "component_portable_key uni a = component_portable_key uni b"
  shows "a = b"
  using assms(2-4)
proof (induction pre arbitrary: es)
  case Nil
  then show ?case
    using find_distinct_keys [of "component_portable_key uni" es a _ b] assms(5)
    by (auto simp: directory_ok_def split: option.splits)
next
  case (Cons c pre)
  then obtain d i where "G i = Some d" "resolve G (pre @ a # xs) (dir_entries d) \<noteq> None" "resolve G (pre @ b # ys) (dir_entries d) \<noteq> None"
    by (auto split: option.splits directory_entry_target.splits if_splits)
  with Cons.IH assms(1) show ?case by blast
qed

lemma graph_directories_ok:
  "graph_closed uni blake3 out \<Longrightarrow> graph_lookup out i = Some d \<Longrightarrow> directory_ok uni (dir_entries d)"
  using directory_validate_iff directory_id_validate
  by (fastforce simp: graph_closed_def graph_lookup_def dest!: map_of_SomeD)

lemma built_siblings_distinct:
  assumes "build_from_files uni blake3 progress req files = Inr res" and "f \<in> set files" and "g \<in> set files"
    and "file_key f = pre @ a # xs" and "file_key g = pre @ b # ys" and "component_portable_key uni a = component_portable_key uni b"
  shows "a = b"
proof -
  note r = build_from_files_result [OF assms(1)]
  let ?G = "graph_lookup (br_directories res)" and ?root = "c_root_directory_id (br_commit res)"
  have "resolve_root ?G ?root (pre @ a # xs) \<noteq> None" "resolve_root ?G ?root (pre @ b # ys) \<noteq> None"
    using r(8) assms(2-5) by (metis option.distinct(1))+
  then obtain d where "?G ?root = Some d" "resolve ?G (pre @ a # xs) (dir_entries d) \<noteq> None" "resolve ?G (pre @ b # ys) (dir_entries d) \<noteq> None"
    by (auto simp: resolve_root_def split: option.splits)
  then show ?thesis
    using resolve_distinct_keys [of ?G uni "dir_entries d" pre a xs b ys] graph_directories_ok [OF r(1)] assms(6) by blast
qed

section \<open>A sample index\<close>

definition sample_record :: "string \<Rightarrow> nat \<Rightarrow> file_record" where
  "sample_record p n = \<lparr> fr_path = LogicalPath p, fr_manifest_id = ManifestId (ContentDigest (of_nat n)),
     fr_total_size = of_nat n, fr_chunk_count = 1 \<rparr>"

definition sample_version :: index_version where
  "sample_version = \<lparr> iv_revision = 1, iv_digest = ContentDigest 9 \<rparr>"

definition sample_index :: memory_index_snapshot where
  "sample_index = memory_index_new sample_version [sample_record ''a'' 1, sample_record ''d/b'' 2]"

definition sample_build :: build_commit_graph_request where
  "sample_build = \<lparr> bg_expected_index_version = sample_version, bg_parent = None, bg_message = ''m'', bg_created_at_unix_ms = 5 \<rparr>"

lemma sample_index_ok: "memory_index_ok ascii_unicode sample_index"
  by code_simp

lemma sample_index_small: "length (mi_files sample_index) < 2 ^ 64"
proof -
  have "length (mi_files sample_index) = 2" by code_simp
  then show ?thesis by simp
qed

lemma sample_build_ok: "is_ok (build_from_files ascii_unicode sum_hash (\<lambda>_. Inr ()) sample_build (bt_values (mi_files sample_index)))"
  by code_simp

definition lower_char :: "char \<Rightarrow> char" where
  "lower_char c = (if CHR ''A'' \<le> c \<and> c \<le> CHR ''Z'' then char_of (of_char c + 32 :: nat) else c)"

definition lower_unicode :: unicode where
  "lower_unicode = \<lparr> nfc = (\<lambda>s. s), case_fold = map lower_char \<rparr>"

definition case_index :: memory_index_snapshot where
  "case_index = memory_index_new sample_version [sample_record ''A/x'' 1, sample_record ''a/y'' 2]"

section \<open>Properties\<close>

lemma build_from_memory:
  assumes "memory_index_ok uni s" and "\<And>e. progress e = Inr ()" and "length (mi_files s) < 2 ^ 64"
  shows "build_commit_graph uni blake3 progress req (mi_version s) (memory_index_scan_files uni s None) =
     (if mi_version s \<noteq> bg_expected_index_version req then Some (Inl EcIndexVersionMismatch)
      else Some (build_from_files uni blake3 progress req (bt_values (mi_files s))))"
proof -
  let ?obs = "\<lambda>n. and_then (ok_or EcInternal (u64_try_from n)) (\<lambda>count.
                progress (progress_event_new PhBuildingCandidate UnitFiles count))"
  have "?obs n = Inr ()" if "n \<le> length (bt_values (mi_files s))" for n
    using that assms(2,3) by (simp add: u64_try_from_def bt_values_def)
  then have "paged_scan ?obs (memory_index_scan_files uni s None) [] \<lparr> pr_after = None, pr_limit = MAX_PAGE_SIZE \<rparr>
      = Some (Inr (bt_values (mi_files s)))"
    by (rule memory_index.scan_complete [OF assms(1)])
  then show ?thesis
    by (simp add: build_commit_graph_def page_request_first_def page_request_max)
qed

text \<open>
  C3: The commit graph built from an index is the index: following a path from the root directory
  of the commit through the returned directories reaches a file with given manifest and size
  exactly when the index records that file at that path, whatever the shape of the tree and
  however directories are shared.  The commit has the requested parent and counts every file.
\<close>

theorem commit_tree_is_index:
  assumes "memory_index_ok uni s" and "\<forall>e. progress e = Inr ()" and "length (mi_files s) < 2 ^ 64"
    and "build_commit_graph uni blake3 progress req (mi_version s) (memory_index_scan_files uni s None) = Some (Inr res)"
  shows "(resolve_root (graph_lookup (br_directories res)) (c_root_directory_id (br_commit res)) cs = Some v
          \<longleftrightarrow> (\<exists>f \<in> set (bt_values (mi_files s)). file_key f = cs \<and> file_value f = v))
     \<and> c_parent (br_commit res) = bg_parent req
     \<and> unat (br_file_count res) = length (mi_files s)
     \<and> mi_version s = bg_expected_index_version req"
proof -
  have "build_from_files uni blake3 progress req (bt_values (mi_files s)) = Inr res"
    and v: "mi_version s = bg_expected_index_version req"
    using assms(4) build_from_memory [OF assms(1) _ assms(3), of progress blake3 req] assms(2)
    by (auto split: if_splits)
  note r = build_from_files_result [OF this(1)]
  show ?thesis using r(5,6) r(8) [of cs v] v by (simp add: bt_values_def)
qed

lemma sample_build_result:
  "\<exists>res. build_commit_graph ascii_unicode sum_hash (\<lambda>_. Inr ()) sample_build (mi_version sample_index)
      (memory_index_scan_files ascii_unicode sample_index None) = Some (Inr res)"
proof -
  have "mi_version sample_index = bg_expected_index_version sample_build" by code_simp
  then show ?thesis
    using build_from_memory [OF sample_index_ok _ sample_index_small, of "\<lambda>_. Inr ()"] sample_build_ok by (simp add: is_ok_iff)
qed

theorem commit_tree_is_index_witness:
  "\<exists>res. build_commit_graph ascii_unicode sum_hash (\<lambda>_. Inr ()) sample_build (mi_version sample_index)
      (memory_index_scan_files ascii_unicode sample_index None) = Some (Inr res)
    \<and> resolve_root (graph_lookup (br_directories res)) (c_root_directory_id (br_commit res))
        [PathComponent ''d'', PathComponent ''b''] = Some (ManifestId (ContentDigest 2), 2)"
proof -
  obtain res where res: "build_commit_graph ascii_unicode sum_hash (\<lambda>_. Inr ()) sample_build (mi_version sample_index)
      (memory_index_scan_files ascii_unicode sample_index None) = Some (Inr res)"
    using sample_build_result by blast
  have "\<exists>f \<in> set (bt_values (mi_files sample_index)). file_key f = [PathComponent ''d'', PathComponent ''b'']
       \<and> file_value f = (ManifestId (ContentDigest 2), 2)"
    by code_simp
  with commit_tree_is_index [OF sample_index_ok _ sample_index_small res] res show ?thesis by blast
qed

text \<open>
  C19: A graph that was built can be published: \<open>publish_commit\<close> with the parent it was built on
  passes every integrity check and hands the graph to the publisher, and the directories come in
  an order in which every child precedes its parents, with no directory twice and the root among
  them.
\<close>

theorem built_graph_publishes:
  assumes "build_commit_graph uni blake3 progress req version scan = Some (Inr res)"
  shows "publish_commit uni blake3 publisher \<lparr> pc_graph = res, pc_expected_parent = bg_parent req \<rparr> w =
     (case publisher \<lparr> pc_graph = res, pc_expected_parent = bg_parent req \<rparr> w of
        (Inl e, w') \<Rightarrow> (Inl e, w')
      | (Inr cid, w') \<Rightarrow> (if cid = br_commit_id res then Inr cid else Inl EcIntegrityViolation, w'))
     \<and> child_first (br_directories res) \<and> distinct (map do_id (br_directories res))
     \<and> c_root_directory_id (br_commit res) \<in> do_id ` set (br_directories res)"
proof -
  obtain files where "build_from_files uni blake3 progress req files = Inr res"
    using assms by (auto simp: build_commit_graph_def split: if_splits sum.splits)
  note r = build_from_files_result [OF this]
  have "check_graph uni blake3 \<lparr> pc_graph = res, pc_expected_parent = bg_parent req \<rparr> = Inr ()"
    using r by (simp add: check_graph_iff)
  then show ?thesis
    using r by (auto simp: publish_commit_def graph_closed_def io_of_def io_then_def io_err_def io_ok_def split: sum.splits prod.splits)
qed

theorem built_graph_publishes_witness:
  "\<exists>res. publish_commit ascii_unicode sum_hash (\<lambda>r n. (Inr (br_commit_id (pc_graph r)), Suc n))
      \<lparr> pc_graph = res, pc_expected_parent = None \<rparr> 0 = (Inr (br_commit_id res), 1)"
proof -
  obtain res where res: "build_commit_graph ascii_unicode sum_hash (\<lambda>_. Inr ()) sample_build (mi_version sample_index)
      (memory_index_scan_files ascii_unicode sample_index None) = Some (Inr res)"
    using sample_build_result by blast
  have "bg_parent sample_build = None" by (simp add: sample_build_def)
  with built_graph_publishes [OF res, of "\<lambda>r n. (Inr (br_commit_id (pc_graph r)), Suc n)" 0] show ?thesis by auto
qed

text \<open>
  C18: \<open>publish_commit\<close> touches the publisher only for a closed graph: if it succeeds, or if it
  changed anything, then the commit and every directory carry their canonical identities, no
  directory is repeated, the root and every child are present, and the commit's parent is the
  expected one; success moreover means that the publisher acknowledged exactly this commit.
\<close>

theorem publish_only_closed_graphs:
  assumes "publish_commit uni blake3 publisher request w = (r, w')" and "is_ok r \<or> w' \<noteq> w"
  shows "graph_closed uni blake3 (br_directories (pc_graph request))
     \<and> commit_id blake3 (br_commit (pc_graph request)) = Inr (br_commit_id (pc_graph request))
     \<and> c_parent (br_commit (pc_graph request)) = pc_expected_parent request
     \<and> c_root_directory_id (br_commit (pc_graph request)) \<in> do_id ` set (br_directories (pc_graph request))
     \<and> (r = Inr cid \<longrightarrow> publisher request w = (Inr cid, w') \<and> cid = br_commit_id (pc_graph request))"
proof (cases "check_graph uni blake3 request")
  case (Inl e)
  then have "r = Inl e" "w' = w" using assms(1) by (auto simp: publish_commit_def io_of_def io_then_def)
  then show ?thesis using assms(2) by simp
next
  case (Inr u)
  then have "publish_commit uni blake3 publisher request w = (case publisher request w of
        (Inl e, w') \<Rightarrow> (Inl e, w')
      | (Inr cid, w') \<Rightarrow> (if cid = br_commit_id (pc_graph request) then Inr cid else Inl EcIntegrityViolation, w'))"
    by (auto simp: publish_commit_def io_of_def io_then_def io_err_def io_ok_def split: sum.splits prod.splits)
  then have "r = Inr cid \<longrightarrow> publisher request w = (Inr cid, w') \<and> cid = br_commit_id (pc_graph request)"
    using assms(1) by (auto split: prod.splits sum.splits if_splits)
  then show ?thesis using Inr check_graph_iff [of uni blake3 request] by simp
qed

theorem publish_only_closed_graphs_witness:
  "\<exists>res. graph_closed ascii_unicode sum_hash (br_directories res)
     \<and> fst (publish_commit ascii_unicode sum_hash (\<lambda>r n. (Inr (br_commit_id (pc_graph r)), Suc n))
          \<lparr> pc_graph = res, pc_expected_parent = None \<rparr> (0 :: nat)) = Inr (br_commit_id res)"
proof -
  let ?pub = "\<lambda>r (n :: nat). (Inr (br_commit_id (pc_graph r)), Suc n)"
  obtain res where res: "build_from_files ascii_unicode sum_hash (\<lambda>_. Inr ()) sample_build (bt_values (mi_files sample_index)) = Inr res"
    using sample_build_ok by (auto simp: is_ok_iff)
  have "bg_parent sample_build = None" by (simp add: sample_build_def)
  then have "check_graph ascii_unicode sum_hash \<lparr> pc_graph = res, pc_expected_parent = None \<rparr> = Inr ()"
    using build_from_files_result [OF res] by (simp add: check_graph_iff)
  then have pub: "publish_commit ascii_unicode sum_hash ?pub \<lparr> pc_graph = res, pc_expected_parent = None \<rparr> 0
      = (Inr (br_commit_id res), 1)"
    by (simp add: publish_commit_def io_of_def io_then_def io_ok_def)
  from publish_only_closed_graphs [OF pub, of "br_commit_id res"] pub show ?thesis by auto
qed

text \<open>
  C34: An index with case-variant sibling names cannot be committed.  If two recorded files lie, below a
  common directory, under names that differ but have the same portable key, \<open>build_commit_graph\<close>
  ends with an error, whatever the hash, the message and the parent.  Nothing before it excludes
  such an index: validation compares whole paths only, and accepts \<open>A/x\<close> beside \<open>a/y\<close>.
\<close>

theorem case_variant_directories:
  assumes "memory_index_ok uni s" and "\<forall>e. progress e = Inr ()" and "length (mi_files s) < 2 ^ 64"
    and "f \<in> set (bt_values (mi_files s))" and "g \<in> set (bt_values (mi_files s))"
    and "file_key f = pre @ a # xs" and "file_key g = pre @ b # ys"
    and "a \<noteq> b" and "component_portable_key uni a = component_portable_key uni b"
  shows "\<exists>e. build_commit_graph uni blake3 progress req (mi_version s) (memory_index_scan_files uni s None) = Some (Inl e)"
proof -
  have "\<exists>e. build_from_files uni blake3 progress req (bt_values (mi_files s)) = Inl e"
    using built_siblings_distinct [OF _ assms(4-7,9)] assms(8)
    by (cases "build_from_files uni blake3 progress req (bt_values (mi_files s))") blast+
  then show ?thesis using build_from_memory [OF assms(1) _ assms(3), of progress blake3 req] assms(2) by auto
qed

theorem case_variant_directories_witness:
  "validate_index_snapshot lower_unicode (bt_values (mi_files case_index)) = Inr ()
   \<and> build_commit_graph lower_unicode sum_hash (\<lambda>_. Inr ()) sample_build (mi_version case_index)
       (memory_index_scan_files lower_unicode case_index None) = Some (Inl EcInvalidArgument)"
proof (intro conjI)
  show "validate_index_snapshot lower_unicode (bt_values (mi_files case_index)) = Inr ()" by code_simp
  have ok: "memory_index_ok lower_unicode case_index" by code_simp
  have "length (mi_files case_index) = 2" by code_simp
  then have len: "length (mi_files case_index) < 2 ^ 64" by simp
  have mem: "sample_record ''A/x'' 1 \<in> set (bt_values (mi_files case_index))" "sample_record ''a/y'' 2 \<in> set (bt_values (mi_files case_index))"
    by code_simp+
  have key: "file_key (sample_record ''A/x'' 1) = [] @ PathComponent ''A'' # [PathComponent ''x'']"
    "file_key (sample_record ''a/y'' 2) = [] @ PathComponent ''a'' # [PathComponent ''y'']"
    by code_simp+
  have "PathComponent ''A'' \<noteq> PathComponent ''a''"
    "component_portable_key lower_unicode (PathComponent ''A'') = component_portable_key lower_unicode (PathComponent ''a'')"
    by code_simp+
  from case_variant_directories [OF ok _ len mem key this, where progress = "\<lambda>_. Inr ()" and req = sample_build]
  obtain e where e: "build_commit_graph lower_unicode sum_hash (\<lambda>_. Inr ()) sample_build (mi_version case_index)
      (memory_index_scan_files lower_unicode case_index None) = Some (Inl e)" by auto
  have "mi_version case_index = bg_expected_index_version sample_build" by code_simp
  moreover have "build_from_files lower_unicode sum_hash (\<lambda>_. Inr ()) sample_build (bt_values (mi_files case_index)) = Inl EcInvalidArgument"
    by code_simp
  ultimately show "build_commit_graph lower_unicode sum_hash (\<lambda>_. Inr ()) sample_build (mi_version case_index)
      (memory_index_scan_files lower_unicode case_index None) = Some (Inl EcInvalidArgument)"
    using e build_from_memory [OF ok _ len, of "\<lambda>_. Inr ()" sum_hash sample_build] by simp
qed

end
