(* ===== verification/PreparedAdd.thy ===== *)
theory PreparedAdd
  imports EngineCore
begin

text \<open>
  The candidate an agent prepares for publication (\<open>engine/add.rs\<close>): the request, the statistics and
  the sealed \<open>PreparedAdd\<close> with its validation and its canonical digest.  The lemmas show that a
  candidate is accepted exactly when it is a closed publication, so the agent's check and the
  digest that the control plane recomputes (\<open>add_publication_digest\<close>) agree, and that the candidate
  digest determines the candidate.
\<close>

section \<open>Requests\<close>

definition PREPARED_ADD_HASH_DOMAIN :: string where
  "PREPARED_ADD_HASH_DOMAIN = ''neoengram-runtime-prepared-add-v1''"

record managed_resource =
  res_tenant_id :: string
  res_project_id :: string
  res_artifact_id :: string
  res_workspace_id :: string
  res_job_id :: string

definition managed_resource_validate :: "managed_resource \<Rightarrow> unit engine_result" where
  "managed_resource_validate r =
     try_fold (\<lambda>_ v. if v = [] then Inl EcInvalidArgument else Inr ()) ()
       [res_tenant_id r, res_project_id r, res_artifact_id r, res_workspace_id r, res_job_id r]"

datatype chunking_selection = ArtifactDefault | Explicit chunking_strategy

record prepare_add_request =
  pa_resource :: managed_resource
  pa_expected_index_version :: index_version
  pa_scopes :: "path_scope list"
  pa_stage_deletions :: bool
  pa_chunking :: chunking_selection
  pa_max_whole_file_bytes :: "u64 option"
  pa_candidate_batch_id :: string

definition prepare_add_request_validate :: "prepare_add_request \<Rightarrow> unit engine_result" where
  "prepare_add_request_validate r =
     and_then (managed_resource_validate (pa_resource r)) (\<lambda>_.
     if pa_scopes r = [] then Inl EcInvalidArgument
     else if pa_candidate_batch_id r = [] then Inl EcInvalidArgument
     else if pa_max_whole_file_bytes r \<noteq> None \<and> pa_chunking r \<noteq> Explicit WholeFile then Inl EcInvalidArgument
     else Inr ())"

record add_statistics =
  st_files_scanned :: u64
  st_files_upserted :: u64
  st_paths_deleted :: u64
  st_bytes_scanned :: u64
  st_chunks_observed :: u64
  st_objects_created :: u64
  st_objects_reused :: u64
  st_bytes_published :: u64

definition add_statistics_default :: add_statistics where
  "add_statistics_default =
     \<lparr> st_files_scanned = 0, st_files_upserted = 0, st_paths_deleted = 0, st_bytes_scanned = 0,
       st_chunks_observed = 0, st_objects_created = 0, st_objects_reused = 0, st_bytes_published = 0 \<rparr>"

section \<open>Candidates\<close>

record prepared_add =
  pd_resource :: managed_resource
  pd_base_index_version :: index_version
  pd_candidate_batch_id :: string
  pd_index_delta :: index_delta
  pd_manifests :: "manifest list"
  pd_object_specs :: "object_spec list"
  pd_statistics :: add_statistics
  pd_candidate_digest :: content_digest
  pd_prepared_at_unix_ms :: u64

text \<open>The loops of \<open>validate_content\<close>: objects, manifests with their chunks, upserts.\<close>

definition prepared_object ::
  "(object_id, u64) btree_map \<Rightarrow> object_spec \<Rightarrow> (object_id, u64) btree_map engine_result" where
  "prepared_object objects spec =
     (if bt_contains objects (os_id spec) then Inl EcIntegrityViolation
      else Inr (bt_insert (os_id spec) (os_size spec) objects))"

definition prepared_chunk ::
  "(object_id, u64) btree_map \<Rightarrow> (object_id, u64) btree_map \<Rightarrow> chunk_ref
   \<Rightarrow> (object_id, u64) btree_map engine_result" where
  "prepared_chunk objects referenced chunk =
     (if (case bt_get referenced (cr_object_id chunk) of None \<Rightarrow> False | Some previous \<Rightarrow> previous \<noteq> cr_size chunk)
      then Inl EcIntegrityViolation
      else if bt_get objects (cr_object_id chunk) \<noteq> Some (cr_size chunk) then Inl EcObjectMissing
      else Inr (bt_insert (cr_object_id chunk) (cr_size chunk) referenced))"

definition prepared_manifest ::
  "(byte list \<Rightarrow> content_digest) \<Rightarrow> (object_id, u64) btree_map
   \<Rightarrow> (manifest_id, manifest) btree_map \<times> (object_id, u64) btree_map \<Rightarrow> manifest
   \<Rightarrow> ((manifest_id, manifest) btree_map \<times> (object_id, u64) btree_map) engine_result" where
  "prepared_manifest blake3 objects st m =
     (case st of (manifests, referenced_objects) \<Rightarrow>
      and_then (from_validation (manifest_validate m)) (\<lambda>_.
      and_then (from_validation (manifest_id blake3 m)) (\<lambda>mid.
      if bt_contains manifests mid then Inl EcIntegrityViolation
      else and_then (try_fold (prepared_chunk objects) referenced_objects (m_chunks m)) (\<lambda>referenced.
        Inr (bt_insert mid m manifests, referenced)))))"

definition prepared_upsert ::
  "(manifest_id, manifest) btree_map \<Rightarrow> manifest_id btree_set \<Rightarrow> index_mutation
   \<Rightarrow> manifest_id btree_set engine_result" where
  "prepared_upsert manifests referenced mut =
     (case mut of
        Upsert r \<Rightarrow>
          let referenced = bts_insert (fr_manifest_id r) referenced in
          and_then (ok_or EcObjectMissing (bt_get manifests (fr_manifest_id r))) (\<lambda>m.
          if m_total_size m \<noteq> fr_total_size r then Inl EcIntegrityViolation
          else and_then (from_validation (manifest_chunk_count m)) (\<lambda>count.
            if count \<noteq> fr_chunk_count r then Inl EcIntegrityViolation else Inr referenced))
      | Delete _ \<Rightarrow> Inr referenced)"

definition prepared_validate_content ::
  "unicode \<Rightarrow> (byte list \<Rightarrow> content_digest) \<Rightarrow> prepared_add \<Rightarrow> unit engine_result" where
  "prepared_validate_content uni blake3 p =
     and_then (managed_resource_validate (pd_resource p)) (\<lambda>_.
     if pd_candidate_batch_id p = [] then Inl EcInvalidArgument
     else if dl_base_version (pd_index_delta p) \<noteq> pd_base_index_version p then Inl EcConflict
     else
       and_then (from_validation (delta_validate uni (pd_index_delta p))) (\<lambda>_.
       and_then (try_fold prepared_object [] (pd_object_specs p)) (\<lambda>objects.
       and_then (try_fold (prepared_manifest blake3 objects) ([], []) (pd_manifests p)) (\<lambda>(manifests, referenced_objects).
       and_then (try_fold (prepared_upsert manifests) [] (delta_iter (pd_index_delta p))) (\<lambda>referenced_manifests.
       if bt_keys manifests \<noteq> referenced_manifests then Inl EcIntegrityViolation
       else if objects \<noteq> referenced_objects then Inl EcIntegrityViolation
       else Inr ())))))"

section \<open>The candidate digest\<close>

definition hash_mutation :: "byte list \<Rightarrow> index_mutation \<Rightarrow> byte list engine_result" where
  "hash_mutation h mut =
     (case mut of
        Upsert r \<Rightarrow>
          and_then (ch_write_str (ch_write_u8 h 1) (path_str (fr_path r))) (\<lambda>h.
          and_then (ch_write_bytes h (digest_as_bytes (manifest_digest (fr_manifest_id r)))) (\<lambda>h.
          Inr (ch_write_u64 (ch_write_u64 h (fr_total_size r)) (fr_chunk_count r))))
      | Delete path \<Rightarrow> ch_write_str (ch_write_u8 h 2) (path_str path))"

primrec candidate_chunking_tag :: "chunking_strategy \<Rightarrow> byte" where
  "candidate_chunking_tag FastCdc = 1"
| "candidate_chunking_tag WholeFile = 2"

definition hash_chunk :: "byte list \<Rightarrow> chunk_ref \<Rightarrow> byte list engine_result" where
  "hash_chunk h c =
     and_then (ch_write_bytes h (digest_as_bytes (object_digest (cr_object_id c)))) (\<lambda>h.
     Inr (ch_write_u64 (ch_write_u64 h (cr_offset c)) (cr_size c)))"

definition hash_manifest :: "byte list \<Rightarrow> manifest_id \<times> manifest \<Rightarrow> byte list engine_result" where
  "hash_manifest h im =
     (case im of (mid, m) \<Rightarrow>
      and_then (ch_write_bytes h (digest_as_bytes (manifest_digest mid))) (\<lambda>h.
      and_then (ch_write_len (ch_write_u8 (ch_write_u64 h (m_total_size m)) (candidate_chunking_tag (m_chunking m)))
                  (length (m_chunks m))) (\<lambda>h.
      try_fold hash_chunk h (m_chunks m))))"

definition hash_object :: "byte list \<Rightarrow> object_spec \<Rightarrow> byte list engine_result" where
  "hash_object h s =
     and_then (ch_write_bytes h (digest_as_bytes (object_digest (os_id s)))) (\<lambda>h. Inr (ch_write_u64 h (os_size s)))"

definition statistics_fields :: "add_statistics \<Rightarrow> u64 list" where
  "statistics_fields s =
     [st_files_scanned s, st_files_upserted s, st_paths_deleted s, st_bytes_scanned s, st_chunks_observed s,
      st_objects_created s, st_objects_reused s, st_bytes_published s]"

definition prepared_compute_digest ::
  "(byte list \<Rightarrow> content_digest) \<Rightarrow> prepared_add \<Rightarrow> content_digest engine_result" where
  "prepared_compute_digest blake3 p =
     (let r = pd_resource p; base = pd_base_index_version p; delta = pd_index_delta p in
      and_then (ch_new PREPARED_ADD_HASH_DOMAIN) (\<lambda>h.
      and_then (ch_write_str h (res_tenant_id r)) (\<lambda>h.
      and_then (ch_write_str h (res_project_id r)) (\<lambda>h.
      and_then (ch_write_str h (res_artifact_id r)) (\<lambda>h.
      and_then (ch_write_str h (res_workspace_id r)) (\<lambda>h.
      and_then (ch_write_str h (res_job_id r)) (\<lambda>h.
      and_then (ch_write_digest (ch_write_u64 h (iv_revision base)) (iv_digest base)) (\<lambda>h.
      and_then (ch_write_str h (pd_candidate_batch_id p)) (\<lambda>h.
      and_then (ch_write_digest (ch_write_u64 h (iv_revision (dl_base_version delta))) (iv_digest (dl_base_version delta))) (\<lambda>h.
      and_then (ch_write_len h (delta_mutation_count delta)) (\<lambda>h.
      and_then (try_fold hash_mutation h (delta_iter delta)) (\<lambda>h.
      and_then (ch_write_digest h (dl_result_digest delta)) (\<lambda>h.
      and_then (try_fold (\<lambda>acc m. and_then (from_validation (manifest_id blake3 m)) (\<lambda>mid. Inr (acc @ [(mid, m)])))
                  [] (pd_manifests p)) (\<lambda>manifests.
      and_then (ch_write_len h (length (sort_key fst manifests))) (\<lambda>h.
      and_then (try_fold hash_manifest h (sort_key fst manifests)) (\<lambda>h.
      and_then (ch_write_len h (length (sort_key os_id (pd_object_specs p)))) (\<lambda>h.
      and_then (try_fold hash_object h (sort_key os_id (pd_object_specs p))) (\<lambda>h.
      Inr (ch_finish blake3
        (ch_write_u64 (fold (\<lambda>v h. ch_write_u64 h v) (statistics_fields (pd_statistics p)) h)
           (pd_prepared_at_unix_ms p)))))))))))))))))))))"

definition prepared_new ::
  "unicode \<Rightarrow> (byte list \<Rightarrow> content_digest) \<Rightarrow> managed_resource \<Rightarrow> index_version \<Rightarrow> string \<Rightarrow> index_delta
   \<Rightarrow> manifest list \<Rightarrow> object_spec list \<Rightarrow> add_statistics \<Rightarrow> u64 \<Rightarrow> prepared_add engine_result" where
  "prepared_new uni blake3 resource base batch_id delta manifests object_specs statistics prepared_at =
     (let p = \<lparr> pd_resource = resource, pd_base_index_version = base, pd_candidate_batch_id = batch_id,
                pd_index_delta = delta, pd_manifests = manifests, pd_object_specs = object_specs,
                pd_statistics = statistics, pd_candidate_digest = ContentDigest 0,
                pd_prepared_at_unix_ms = prepared_at \<rparr> in
      and_then (prepared_validate_content uni blake3 p) (\<lambda>_.
      and_then (prepared_compute_digest blake3 p) (\<lambda>d. Inr (p \<lparr> pd_candidate_digest := d \<rparr>))))"

definition resource_scope :: "managed_resource \<Rightarrow> publication_scope" where
  "resource_scope r =
     \<lparr> ps_tenant_id = res_tenant_id r, ps_project_id = res_project_id r, ps_artifact_id = res_artifact_id r,
       ps_workspace_id = res_workspace_id r, ps_job_id = res_job_id r \<rparr>"

definition prepared_publication_digest ::
  "unicode \<Rightarrow> (byte list \<Rightarrow> content_digest) \<Rightarrow> prepared_add \<Rightarrow> content_digest engine_result" where
  "prepared_publication_digest uni blake3 p =
     and_then (prepared_validate_content uni blake3 p) (\<lambda>_.
     from_validation (add_publication_digest uni blake3 (resource_scope (pd_resource p))
       (pd_base_index_version p) (pd_index_delta p) (pd_manifests p) (pd_object_specs p)))"

definition prepared_canonical_digest ::
  "unicode \<Rightarrow> (byte list \<Rightarrow> content_digest) \<Rightarrow> prepared_add \<Rightarrow> content_digest engine_result" where
  "prepared_canonical_digest uni blake3 p =
     and_then (prepared_validate_content uni blake3 p) (\<lambda>_. prepared_compute_digest blake3 p)"

definition prepared_validate ::
  "unicode \<Rightarrow> (byte list \<Rightarrow> content_digest) \<Rightarrow> prepared_add \<Rightarrow> unit engine_result" where
  "prepared_validate uni blake3 p =
     and_then (prepared_validate_content uni blake3 p) (\<lambda>_.
     and_then (prepared_compute_digest blake3 p) (\<lambda>d.
     if pd_candidate_digest p \<noteq> d then Inl EcIntegrityViolation else Inr ()))"

definition prepared_validate_for ::
  "unicode \<Rightarrow> (byte list \<Rightarrow> content_digest) \<Rightarrow> prepared_add \<Rightarrow> prepare_add_request \<Rightarrow> unit engine_result" where
  "prepared_validate_for uni blake3 p request =
     and_then (prepare_add_request_validate request) (\<lambda>_.
     and_then (prepared_validate uni blake3 p) (\<lambda>_.
     if pd_resource p \<noteq> pa_resource request \<or> pd_base_index_version p \<noteq> pa_expected_index_version request
        \<or> pd_candidate_batch_id p \<noteq> pa_candidate_batch_id request
     then Inl EcConflict else Inr ()))"

section \<open>Which candidates are accepted\<close>

lemma prepared_objects_iff:
  "try_fold prepared_object s os = Inr r \<longleftrightarrow> try_fold collect_object s os = Inr r"
  by (subst try_fold_map_err [where h = collect_object and g = "\<lambda>_. EcIntegrityViolation"])
     (simp_all add: prepared_object_def collect_object_def)

lemma prepared_chunks_iff:
  "try_fold (prepared_chunk objects) s cs = Inr r \<longleftrightarrow>
     try_fold collect_chunk s cs = Inr r \<and> (\<forall>c \<in> set cs. bt_get objects (cr_object_id c) = Some (cr_size c))"
proof (induction cs arbitrary: s)
  case (Cons c cs)
  have "prepared_chunk objects s c = Inr t \<longleftrightarrow>
      collect_chunk s c = Inr t \<and> bt_get objects (cr_object_id c) = Some (cr_size c)" for t
    by (auto simp: prepared_chunk_def collect_chunk_def)
  then show ?case using Cons by auto
qed simp

lemma all_chunks_Cons [simp]: "all_chunks [] = []" "all_chunks (m # ms) = m_chunks m @ all_chunks ms"
  by (simp_all add: all_chunks_def)

lemma prepared_manifests_iff:
  "try_fold (prepared_manifest blake3 objects) s ms = Inr r \<longleftrightarrow>
     try_fold (collect_manifest blake3) s ms = Inr r
     \<and> (\<forall>c \<in> set (all_chunks ms). bt_get objects (cr_object_id c) = Some (cr_size c))"
proof (induction ms arbitrary: s)
  case (Cons m ms)
  have "prepared_manifest blake3 objects s m = Inr t \<longleftrightarrow>
      collect_manifest blake3 s m = Inr t \<and> (\<forall>c \<in> set (m_chunks m). bt_get objects (cr_object_id c) = Some (cr_size c))" for t
    by (cases s) (auto simp: prepared_manifest_def collect_manifest_def prepared_chunks_iff)
  then show ?case using Cons.IH by (auto simp: all_chunks_Cons ball_Un)
qed simp

lemma prepared_upserts_iff:
  "try_fold (prepared_upsert manifests) s ms = Inr r \<longleftrightarrow> try_fold (check_upsert manifests) s ms = Inr r"
proof (induction ms arbitrary: s)
  case (Cons m ms)
  have "prepared_upsert manifests s m = Inr t \<longleftrightarrow> check_upsert manifests s m = Inr t" for t
    by (cases m) (auto simp: prepared_upsert_def check_upsert_def Let_def)
  then show ?case using Cons by auto
qed simp

lemma managed_resource_validate_iff:
  "managed_resource_validate r = Inr u \<longleftrightarrow> [] \<notin> set (scope_fields (resource_scope r))"
  by (auto simp: managed_resource_validate_def scope_fields_def resource_scope_def split: if_splits)

lemma agreeing_get:
  assumes "sizes_agree cs" and "c \<in> set cs"
  shows "bt_get (bt_collect (map chunk_pair cs)) (cr_object_id c) = Some (cr_size c)"
  unfolding bt_get_collect functional_map_of [OF assms(1) [unfolded sizes_agree_pairs]]
  using assms(2) by (auto simp: chunk_pair_def)

lemma prepared_content_iff:
  "prepared_validate_content uni blake3 p = Inr u \<longleftrightarrow>
     pd_candidate_batch_id p \<noteq> []
     \<and> publication_closed uni blake3 (resource_scope (pd_resource p)) (pd_base_index_version p) (pd_index_delta p)
         (pd_manifests p) (pd_object_specs p)"
proof -
  let ?os = "pd_object_specs p" and ?ms = "pd_manifests p" and ?d = "pd_index_delta p"
  let ?objects = "bt_collect (map spec_pair ?os)" and ?refs = "bt_collect (map chunk_pair (all_chunks ?ms))"
  have "prepared_validate_content uni blake3 p = Inr u \<longleftrightarrow>
      [] \<notin> set (scope_fields (resource_scope (pd_resource p))) \<and> pd_candidate_batch_id p \<noteq> []
      \<and> dl_base_version ?d = pd_base_index_version p \<and> delta_validate uni ?d = Inr ()
      \<and> distinct (map os_id ?os) \<and> manifests_collect blake3 ?ms
      \<and> (\<forall>r \<in> set (upserts (delta_iter ?d)). upsert_matches (bt_collect (map (manifest_pair blake3) ?ms)) r)
      \<and> id_of_manifest blake3 ` set ?ms = fr_manifest_id ` set (upserts (delta_iter ?d))
      \<and> (?objects = ?refs \<and> (\<forall>c \<in> set (all_chunks ?ms). bt_get ?objects (cr_object_id c) = Some (cr_size c)))"
    unfolding prepared_validate_content_def
    by (auto simp: managed_resource_validate_iff err_if_Inr prepared_objects_iff collect_objects_start
        prepared_manifests_iff collect_manifests_start prepared_upserts_iff check_upserts_iff manifest_keys references_eq)
  also have "\<dots> \<longleftrightarrow> pd_candidate_batch_id p \<noteq> []
     \<and> publication_closed uni blake3 (resource_scope (pd_resource p)) (pd_base_index_version p) ?d ?ms ?os"
  proof (cases "manifests_collect blake3 ?ms \<and> distinct (map os_id ?os)")
    case True
    then have eq: "?objects = ?refs \<longleftrightarrow> spec_pair ` set ?os = chunk_pair ` set (all_chunks ?ms)"
      and "\<forall>c \<in> set (all_chunks ?ms). bt_get ?refs (cr_object_id c) = Some (cr_size c)"
      using objects_equal_iff [of ?os "all_chunks ?ms"] agreeing_get [of "all_chunks ?ms"]
      by (simp_all add: manifests_collect_def)
    then have "?objects = ?refs \<and> (\<forall>c \<in> set (all_chunks ?ms). bt_get ?objects (cr_object_id c) = Some (cr_size c))
        \<longleftrightarrow> spec_pair ` set ?os = chunk_pair ` set (all_chunks ?ms)"
      by metis
    with True show ?thesis unfolding publication_closed_def upsert_matches_iff [OF conjunct1 [OF True]] by argo
  next
    case False
    then show ?thesis unfolding publication_closed_def by argo
  qed
  finally show ?thesis .
qed

section \<open>What the candidate digest covers\<close>

primrec candidate_mutation :: "index_mutation \<Rightarrow> byte list" where
  "candidate_mutation (Upsert r) =
     1 # be_str (path_str (fr_path r)) @ be_digest (manifest_digest (fr_manifest_id r))
       @ be64 (fr_total_size r) @ be64 (fr_chunk_count r)"
| "candidate_mutation (Delete p) = 2 # be_str (path_str p)"

definition candidate_chunk :: "chunk_ref \<Rightarrow> byte list" where
  "candidate_chunk c = be_digest (object_digest (cr_object_id c)) @ be64 (cr_offset c) @ be64 (cr_size c)"

definition candidate_manifest :: "manifest_id \<times> manifest \<Rightarrow> byte list" where
  "candidate_manifest im = (case im of (mid, m) \<Rightarrow>
     be_digest (manifest_digest mid) @ be64 (m_total_size m) @ [candidate_chunking_tag (m_chunking m)]
     @ be_seq candidate_chunk (m_chunks m))"

definition candidate_object :: "object_spec \<Rightarrow> byte list" where
  "candidate_object s = be_digest (object_digest (os_id s)) @ be64 (os_size s)"

definition candidate_manifests :: "(byte list \<Rightarrow> content_digest) \<Rightarrow> manifest list \<Rightarrow> (manifest_id \<times> manifest) list" where
  "candidate_manifests blake3 ms = sort_key fst (map (manifest_pair blake3) ms)"

definition candidate_encoding :: "(byte list \<Rightarrow> content_digest) \<Rightarrow> prepared_add \<Rightarrow> byte list" where
  "candidate_encoding blake3 p =
     be_str PREPARED_ADD_HASH_DOMAIN
     @ be_str (res_tenant_id (pd_resource p)) @ be_str (res_project_id (pd_resource p))
     @ be_str (res_artifact_id (pd_resource p)) @ be_str (res_workspace_id (pd_resource p))
     @ be_str (res_job_id (pd_resource p))
     @ be64 (iv_revision (pd_base_index_version p)) @ be_digest (iv_digest (pd_base_index_version p))
     @ be_str (pd_candidate_batch_id p)
     @ be64 (iv_revision (dl_base_version (pd_index_delta p))) @ be_digest (iv_digest (dl_base_version (pd_index_delta p)))
     @ be_seq candidate_mutation (delta_iter (pd_index_delta p))
     @ be_digest (dl_result_digest (pd_index_delta p))
     @ be_seq candidate_manifest (candidate_manifests blake3 (pd_manifests p))
     @ be_seq candidate_object (sort_key os_id (pd_object_specs p))
     @ concat (map be64 (statistics_fields (pd_statistics p))) @ be64 (pd_prepared_at_unix_ms p)"

definition mutation_fits :: "index_mutation \<Rightarrow> bool" where
  "mutation_fits mut \<longleftrightarrow> str_fits (path_str (mutation_path mut))"

definition manifest_fits :: "manifest_id \<times> manifest \<Rightarrow> bool" where
  "manifest_fits im \<longleftrightarrow> length (m_chunks (snd im)) < 2 ^ 64"

definition candidate_fits :: "prepared_add \<Rightarrow> bool" where
  "candidate_fits p \<longleftrightarrow>
     list_all str_fits (pd_candidate_batch_id p # scope_fields (resource_scope (pd_resource p)))
     \<and> list_all mutation_fits (delta_iter (pd_index_delta p)) \<and> length (delta_iter (pd_index_delta p)) < 2 ^ 64
     \<and> (\<forall>m \<in> set (pd_manifests p). length (m_chunks m) < 2 ^ 64) \<and> length (pd_manifests p) < 2 ^ 64
     \<and> length (pd_object_specs p) < 2 ^ 64"

interpretation candidate_mutation: self_delimiting candidate_mutation mutation_fits
proof
  show "a = b \<and> s = t" if "mutation_fits a" "mutation_fits b" "candidate_mutation a @ s = candidate_mutation b @ t" for a b s t
    using that by (cases a; cases b) (auto simp: mutation_fits_def delim intro: file_record.equality)
  show "candidate_mutation a \<noteq> []" for a by (cases a) simp_all
qed

interpretation candidate_chunk: self_delimiting candidate_chunk "\<lambda>_. True"
proof
  show "a = b \<and> s = t" if "candidate_chunk a @ s = candidate_chunk b @ t" for a b s t
    using that by (auto simp: candidate_chunk_def delim intro: chunk_ref.equality)
  show "candidate_chunk a \<noteq> []" for a by (simp add: candidate_chunk_def be_digest.nonempty)
qed

interpretation candidate_object: self_delimiting candidate_object "\<lambda>_. True"
proof
  show "a = b \<and> s = t" if "candidate_object a @ s = candidate_object b @ t" for a b s t
    using that by (auto simp: candidate_object_def delim intro: object_spec.equality)
  show "candidate_object a \<noteq> []" for a by (simp add: candidate_object_def be_digest.nonempty)
qed

lemma candidate_chunking_tag_inj [simp]: "candidate_chunking_tag a = candidate_chunking_tag b \<longleftrightarrow> a = b"
  by (cases a; cases b) simp_all

interpretation candidate_manifest: self_delimiting candidate_manifest manifest_fits
proof
  show "a = b \<and> s = t" if "manifest_fits a" "manifest_fits b" "candidate_manifest a @ s = candidate_manifest b @ t" for a b s t
    using that
    by (cases a; cases b) (auto simp: candidate_manifest_def manifest_fits_def delim candidate_chunk.seq_cancel list_all_iff
        simp del: power.simps intro: manifest.equality)
  show "candidate_manifest a \<noteq> []" for a by (simp add: candidate_manifest_def be_digest.nonempty split: prod.splits)
qed

lemma hash_mutations_eq:
  "try_fold hash_mutation h ms =
     (if list_all mutation_fits ms then Inr (h @ concat (map candidate_mutation ms)) else Inl EcInvalidArgument)"
proof (induction ms arbitrary: h)
  case (Cons m ms)
  have "hash_mutation h m = (if mutation_fits m then Inr (h @ candidate_mutation m) else Inl EcInvalidArgument)"
    by (cases m) (simp_all add: hash_mutation_def mutation_fits_def ch_write_u8_def ch_write_u64_def ch_write_digest_bytes)
  then show ?case using Cons by simp
qed simp

lemma hash_chunks_eq: "try_fold hash_chunk h cs = Inr (h @ concat (map candidate_chunk cs))"
  by (induction cs arbitrary: h) (simp_all add: hash_chunk_def candidate_chunk_def ch_write_u64_def ch_write_digest_bytes)

lemma hash_manifests_eq:
  "list_all manifest_fits ms \<Longrightarrow> try_fold hash_manifest h ms = Inr (h @ concat (map candidate_manifest ms))"
proof (induction ms arbitrary: h)
  case (Cons im ms)
  then have "hash_manifest h im = Inr (h @ candidate_manifest im)"
    by (cases im) (simp add: hash_manifest_def candidate_manifest_def manifest_fits_def be_seq_def hash_chunks_eq
        ch_write_u8_def ch_write_u64_def ch_write_digest_bytes)
  then show ?case using Cons by simp
qed simp

lemma hash_objects_eq: "try_fold hash_object h os = Inr (h @ concat (map candidate_object os))"
  by (induction os arbitrary: h) (simp_all add: hash_object_def candidate_object_def ch_write_u64_def ch_write_digest_bytes)

lemma pair_manifests_eq:
  assumes "\<forall>m \<in> set ms. manifest_validate m = Inr ()"
  shows "try_fold (\<lambda>acc m. and_then (from_validation (manifest_id blake3 m)) (\<lambda>mid. Inr (acc @ [(mid, m)]))) acc ms
    = Inr (acc @ map (manifest_pair blake3) ms)"
  using assms
  by (induction ms arbitrary: acc) (simp_all add: manifest_id_eq manifest_pair_def id_of_manifest_def)

lemma prepared_domain_fits: "str_fits PREPARED_ADD_HASH_DOMAIN"
  by (simp add: str_fits_def PREPARED_ADD_HASH_DOMAIN_def)

lemma prepared_compute_digest_eq:
  assumes "\<forall>m \<in> set (pd_manifests p). manifest_validate m = Inr ()"
  shows "prepared_compute_digest blake3 p =
     (if candidate_fits p then Inr (blake3 (candidate_encoding blake3 p)) else Inl EcInvalidArgument)"
proof -
  have chunks: "\<forall>m \<in> set (pd_manifests p). length (m_chunks m) < 2 ^ 64"
    using assms manifest_chunk_count_ok(2) by blast
  then have fits: "list_all manifest_fits (candidate_manifests blake3 (pd_manifests p))"
    by (auto simp: list_all_iff candidate_manifests_def manifest_fits_def manifest_pair_def)
  have len: "length (candidate_manifests blake3 (pd_manifests p)) = length (pd_manifests p)"
    by (simp add: candidate_manifests_def)
  have stats: "fold (\<lambda>v h. ch_write_u64 h v) vs h = h @ concat (map be64 vs)" for vs h
    by (induction vs arbitrary: h) (simp_all add: ch_write_u64_def)
  show ?thesis
    using chunks fits len
    unfolding prepared_compute_digest_def Let_def pair_manifests_eq [OF assms] append_Nil and_then_Inr
      candidate_manifests_def [symmetric] stats
    by (simp add: candidate_fits_def candidate_encoding_def ch_new_eq prepared_domain_fits delta_mutation_count_iter
        hash_mutations_eq hash_manifests_eq hash_objects_eq be_seq_def ch_write_u64_def ch_finish_def scope_fields_def
        resource_scope_def del: power.simps)
qed

text \<open>
  What two candidates with one digest share: everything but the page boundaries of the delta, the
  order in which manifests and object specifications are listed, and the stored digest.
\<close>

definition same_candidate :: "prepared_add \<Rightarrow> prepared_add \<Rightarrow> bool" where
  "same_candidate p q \<longleftrightarrow>
     pd_resource p = pd_resource q \<and> pd_base_index_version p = pd_base_index_version q
     \<and> pd_candidate_batch_id p = pd_candidate_batch_id q
     \<and> delta_content (pd_index_delta p) = delta_content (pd_index_delta q)
     \<and> mset (pd_manifests p) = mset (pd_manifests q) \<and> mset (pd_object_specs p) = mset (pd_object_specs q)
     \<and> pd_statistics p = pd_statistics q \<and> pd_prepared_at_unix_ms p = pd_prepared_at_unix_ms q"

lemma candidate_manifests_mset:
  assumes "candidate_manifests blake3 ms = candidate_manifests blake3 ns"
  shows "mset ms = mset ns"
proof -
  have snd: "mset ms = image_mset snd (mset (candidate_manifests blake3 ms))" for ms
    by (simp add: candidate_manifests_def manifest_pair_def multiset.map_comp comp_def)
  show ?thesis unfolding snd [of ms] snd [of ns] assms ..
qed

lemma candidate_encoding_inj:
  assumes "candidate_fits p" and "candidate_fits q" and "candidate_encoding blake3 p = candidate_encoding blake3 q"
  shows "same_candidate p q"
proof -
  have fits: "list_all manifest_fits (candidate_manifests blake3 (pd_manifests r))"
    "length (candidate_manifests blake3 (pd_manifests r)) < 2 ^ 64"
    "length (sort_key os_id (pd_object_specs r)) < 2 ^ 64"
    "list_all (\<lambda>_. True) (sort_key os_id (pd_object_specs r))"
    if "candidate_fits r" for r
    using that by (auto simp: candidate_fits_def list_all_iff candidate_manifests_def manifest_fits_def manifest_pair_def)
  note cancels = candidate_mutation.seq_cancel candidate_manifest.seq_cancel candidate_object.seq_cancel candidate_object.seq_inj
  have eqs: "res_tenant_id (pd_resource p) = res_tenant_id (pd_resource q)"
    "res_project_id (pd_resource p) = res_project_id (pd_resource q)"
    "res_artifact_id (pd_resource p) = res_artifact_id (pd_resource q)"
    "res_workspace_id (pd_resource p) = res_workspace_id (pd_resource q)"
    "res_job_id (pd_resource p) = res_job_id (pd_resource q)"
    "iv_revision (pd_base_index_version p) = iv_revision (pd_base_index_version q)"
    "iv_digest (pd_base_index_version p) = iv_digest (pd_base_index_version q)"
    "pd_candidate_batch_id p = pd_candidate_batch_id q"
    "iv_revision (dl_base_version (pd_index_delta p)) = iv_revision (dl_base_version (pd_index_delta q))"
    "iv_digest (dl_base_version (pd_index_delta p)) = iv_digest (dl_base_version (pd_index_delta q))"
    "delta_iter (pd_index_delta p) = delta_iter (pd_index_delta q)"
    "dl_result_digest (pd_index_delta p) = dl_result_digest (pd_index_delta q)"
    "candidate_manifests blake3 (pd_manifests p) = candidate_manifests blake3 (pd_manifests q)"
    "sort_key os_id (pd_object_specs p) = sort_key os_id (pd_object_specs q)"
    "statistics_fields (pd_statistics p) = statistics_fields (pd_statistics q)"
    "pd_prepared_at_unix_ms p = pd_prepared_at_unix_ms q"
    using assms fits [OF assms(1)] fits [OF assms(2)] unfolding candidate_encoding_def candidate_fits_def
    by (simp_all add: delim prepared_domain_fits cancels scope_fields_def resource_scope_def statistics_fields_def
        del: power.simps)
  have "mset (pd_object_specs p) = mset (pd_object_specs q)"
    using arg_cong [OF eqs(14), of mset] by simp
  moreover have "pd_statistics p = pd_statistics q"
    using eqs(15) by (intro add_statistics.equality) (simp_all add: statistics_fields_def)
  ultimately show ?thesis
    using eqs candidate_manifests_mset [OF eqs(13)]
    by (simp add: same_candidate_def delta_content_def index_version.equality managed_resource.equality)
qed

lemma prepared_validate_iff:
  "prepared_validate uni blake3 p = Inr u \<longleftrightarrow>
     prepared_validate_content uni blake3 p = Inr () \<and> candidate_fits p
     \<and> pd_candidate_digest p = blake3 (candidate_encoding blake3 p)"
proof (cases "prepared_validate_content uni blake3 p")
  case (Inr v)
  then have "\<forall>m \<in> set (pd_manifests p). manifest_validate m = Inr ()"
    by (simp add: prepared_content_iff publication_closed_def manifests_collect_def)
  from prepared_compute_digest_eq [OF this] Inr show ?thesis by (auto simp: prepared_validate_def)
qed (simp add: prepared_validate_def)

lemma prepared_digest_irrelevant [simp]:
  "prepared_validate_content uni blake3 (p \<lparr> pd_candidate_digest := d \<rparr>) = prepared_validate_content uni blake3 p"
  "prepared_compute_digest blake3 (p \<lparr> pd_candidate_digest := d \<rparr>) = prepared_compute_digest blake3 p"
  by (simp_all add: prepared_validate_content_def prepared_compute_digest_def)

lemma prepared_new_valid:
  assumes "prepared_new uni blake3 resource base batch_id delta ms os statistics prepared_at = Inr p"
  shows "prepared_validate uni blake3 p = Inr ()"
proof -
  let ?p = "\<lparr> pd_resource = resource, pd_base_index_version = base, pd_candidate_batch_id = batch_id,
    pd_index_delta = delta, pd_manifests = ms, pd_object_specs = os, pd_statistics = statistics,
    pd_candidate_digest = ContentDigest 0, pd_prepared_at_unix_ms = prepared_at \<rparr>"
  from assms obtain d where v: "prepared_validate_content uni blake3 ?p = Inr ()"
    "prepared_compute_digest blake3 ?p = Inr d" and p: "p = ?p \<lparr> pd_candidate_digest := d \<rparr>"
    by (auto simp: prepared_new_def Let_def)
  show ?thesis
    unfolding p prepared_validate_def prepared_digest_irrelevant v and_then_Inr by simp
qed

section \<open>Properties\<close>

text \<open>
  C32: The agent and the control plane accept the same candidates.  \<open>publication_digest\<close> succeeds exactly
  when the batch is named and \<open>add_publication_digest\<close>, which the control plane recomputes from the
  staged pages, accepts the same material, and then returns the same digest; and every candidate
  that passes \<open>validate\<close> has such a digest.
\<close>

theorem candidate_publishable:
  "(prepared_publication_digest uni blake3 p = Inr x \<longleftrightarrow>
      pd_candidate_batch_id p \<noteq> []
      \<and> add_publication_digest uni blake3 (resource_scope (pd_resource p)) (pd_base_index_version p)
          (pd_index_delta p) (pd_manifests p) (pd_object_specs p) = Inr x)
   \<and> (prepared_validate uni blake3 p = Inr () \<longrightarrow> is_ok (prepared_publication_digest uni blake3 p))"
proof -
  have iff: "prepared_publication_digest uni blake3 p = Inr x \<longleftrightarrow>
      pd_candidate_batch_id p \<noteq> []
      \<and> add_publication_digest uni blake3 (resource_scope (pd_resource p)) (pd_base_index_version p)
          (pd_index_delta p) (pd_manifests p) (pd_object_specs p) = Inr x" for x
    by (auto simp: prepared_publication_digest_def prepared_content_iff add_publication_digest_iff)
  have "is_ok (prepared_publication_digest uni blake3 p)" if v: "prepared_validate uni blake3 p = Inr ()"
  proof -
    have c: "prepared_validate_content uni blake3 p = Inr ()" "candidate_fits p"
      using v by (simp_all add: prepared_validate_iff)
    have enc: "mutation_encodable m = mutation_fits m" for m
      by (cases m) (simp_all add: mutation_fits_def record_encodable_def)
    have "delta_ok uni (pd_index_delta p)"
      using c by (simp add: prepared_content_iff publication_closed_def delta_ok_def candidate_fits_def enc cong: list.pred_cong)
    with c show ?thesis
      by (simp add: is_ok_iff iff prepared_content_iff add_publication_digest_iff candidate_fits_def)
  qed
  with iff show ?thesis by blast
qed

text \<open>
  C33: A candidate sealed by \<open>PreparedAdd::new\<close> is valid, and the candidate digest binds it: two valid
  candidates with one digest agree on resource, base version, batch, mutations, expected result,
  statistics and time, and on manifests and object specifications up to their order, unless the
  hash function collides on their encodings.
\<close>

theorem candidate_digest_binds:
  "(prepared_new uni blake3 resource base batch_id delta ms os statistics prepared_at = Inr p \<longrightarrow>
      prepared_validate uni blake3 p = Inr ())
   \<and> (prepared_validate uni blake3 p = Inr () \<and> prepared_validate uni blake3 q = Inr ()
      \<and> pd_candidate_digest p = pd_candidate_digest q \<longrightarrow>
        same_candidate p q \<or> collision blake3 (candidate_encoding blake3 p) (candidate_encoding blake3 q))"
proof (intro conjI impI)
  show "prepared_validate uni blake3 p = Inr ()"
    if "prepared_new uni blake3 resource base batch_id delta ms os statistics prepared_at = Inr p"
    using that by (rule prepared_new_valid)
  show "same_candidate p q \<or> collision blake3 (candidate_encoding blake3 p) (candidate_encoding blake3 q)"
    if "prepared_validate uni blake3 p = Inr () \<and> prepared_validate uni blake3 q = Inr ()
      \<and> pd_candidate_digest p = pd_candidate_digest q"
    using that candidate_encoding_inj [of p q blake3] by (auto simp: prepared_validate_iff collision_def)
qed

definition sample_candidate :: prepared_add where
  "sample_candidate =
     (let p = \<lparr> pd_resource = \<lparr> res_tenant_id = ''t'', res_project_id = ''p'', res_artifact_id = ''a'',
                 res_workspace_id = ''w'', res_job_id = ''j'' \<rparr>,
               pd_base_index_version = dl_base_version sample_delta, pd_candidate_batch_id = ''b'',
               pd_index_delta = sample_delta, pd_manifests = [], pd_object_specs = [],
               pd_statistics = add_statistics_default, pd_candidate_digest = ContentDigest 0,
               pd_prepared_at_unix_ms = 5 \<rparr>
      in p \<lparr> pd_candidate_digest := sum_hash (candidate_encoding sum_hash p) \<rparr>)"

lemma sample_candidate_valid: "prepared_validate ascii_unicode sum_hash sample_candidate = Inr ()"
proof -
  have enc: "candidate_encoding sum_hash (p \<lparr> pd_candidate_digest := d \<rparr>) = candidate_encoding sum_hash p" for p d
    by (simp add: candidate_encoding_def)
  have "pd_candidate_digest sample_candidate = sum_hash (candidate_encoding sum_hash sample_candidate)"
    unfolding sample_candidate_def Let_def enc by simp
  moreover have "candidate_fits sample_candidate"
    by (simp add: candidate_fits_def sample_candidate_def Let_def scope_fields_def resource_scope_def sample_delta_def
        delta_iter_def mutation_fits_def str_fits_def sample_path_def)
  moreover have "publication_closed ascii_unicode sum_hash (resource_scope (pd_resource sample_candidate))
      (pd_base_index_version sample_candidate) (pd_index_delta sample_candidate) (pd_manifests sample_candidate)
      (pd_object_specs sample_candidate)" "pd_candidate_batch_id sample_candidate \<noteq> []"
    using sample_delta_valid
    by (simp_all add: publication_closed_def sample_candidate_def Let_def scope_fields_def resource_scope_def
        manifests_collect_def sizes_agree_def)
       (simp_all add: sample_delta_def delta_iter_def)
  ultimately show ?thesis by (simp add: prepared_validate_iff prepared_content_iff)
qed

theorem candidate_publishable_witness:
  "\<exists>x. add_publication_digest ascii_unicode sum_hash (resource_scope (pd_resource sample_candidate))
     (dl_base_version sample_delta) sample_delta [] [] = Inr x"
proof -
  obtain x where "prepared_publication_digest ascii_unicode sum_hash sample_candidate = Inr x"
    using candidate_publishable [of ascii_unicode sum_hash sample_candidate] sample_candidate_valid
    by (auto simp: is_ok_iff)
  then have "add_publication_digest ascii_unicode sum_hash (resource_scope (pd_resource sample_candidate))
      (pd_base_index_version sample_candidate) (pd_index_delta sample_candidate) (pd_manifests sample_candidate)
      (pd_object_specs sample_candidate) = Inr x"
    using candidate_publishable [of ascii_unicode sum_hash sample_candidate x] by blast
  then show ?thesis by (auto simp: sample_candidate_def Let_def)
qed

lemma prepared_digest_update [simp]:
  "prepared_validate_content uni blake3 (p \<lparr> pd_candidate_digest := d \<rparr>) = prepared_validate_content uni blake3 p"
  "prepared_compute_digest blake3 (p \<lparr> pd_candidate_digest := d \<rparr>) = prepared_compute_digest blake3 p"
  by (simp_all add: prepared_validate_content_def prepared_compute_digest_def)

lemma prepared_new_fixed:
  assumes "prepared_validate uni blake3 p = Inr ()"
  shows "prepared_new uni blake3 (pd_resource p) (pd_base_index_version p) (pd_candidate_batch_id p) (pd_index_delta p)
     (pd_manifests p) (pd_object_specs p) (pd_statistics p) (pd_prepared_at_unix_ms p) = Inr p"
proof -
  let ?q = "p \<lparr> pd_candidate_digest := ContentDigest 0 \<rparr>"
  have "prepared_validate_content uni blake3 p = Inr ()" "prepared_compute_digest blake3 p = Inr (pd_candidate_digest p)"
    using assms by (auto simp: prepared_validate_def split: if_splits)
  moreover have "\<lparr> pd_resource = pd_resource p, pd_base_index_version = pd_base_index_version p,
    pd_candidate_batch_id = pd_candidate_batch_id p, pd_index_delta = pd_index_delta p, pd_manifests = pd_manifests p,
    pd_object_specs = pd_object_specs p, pd_statistics = pd_statistics p, pd_candidate_digest = ContentDigest 0,
    pd_prepared_at_unix_ms = pd_prepared_at_unix_ms p \<rparr> = ?q" by simp
  ultimately show ?thesis by (simp only: prepared_new_def Let_def prepared_digest_update and_then_Inr) simp
qed

theorem candidate_digest_binds_witness:
  "prepared_new ascii_unicode sum_hash (pd_resource sample_candidate) (pd_base_index_version sample_candidate)
       (pd_candidate_batch_id sample_candidate) (pd_index_delta sample_candidate) (pd_manifests sample_candidate)
       (pd_object_specs sample_candidate) (pd_statistics sample_candidate) (pd_prepared_at_unix_ms sample_candidate)
     = Inr sample_candidate
   \<and> prepared_validate ascii_unicode sum_hash sample_candidate = Inr () \<and> same_candidate sample_candidate sample_candidate"
  using candidate_digest_binds [of ascii_unicode sum_hash "pd_resource sample_candidate" "pd_base_index_version sample_candidate"
      "pd_candidate_batch_id sample_candidate" "pd_index_delta sample_candidate" "pd_manifests sample_candidate"
      "pd_object_specs sample_candidate" "pd_statistics sample_candidate" "pd_prepared_at_unix_ms sample_candidate"
      sample_candidate sample_candidate]
    prepared_new_fixed [OF sample_candidate_valid]
  by (simp add: collision_def)

end
