(* ===== verification/Mutation.thy ===== *)
theory Mutation
  imports Paging
begin

text \<open>
  Journaled worktree mutations (\<open>engine/mutation.rs\<close>): plans and their canonical digest, journal
  records and their succession, the execution of a plan under a lock, a journal and failure
  points, its finalisation, and the application of the single actions to a worktree.  The ports are
  a record of operations on a world, so that the theorems hold for every adapter that satisfies
  the stated contract.
\<close>

section \<open>Plans\<close>

definition MUTATION_PLAN_HASH_DOMAIN :: string where
  "MUTATION_PLAN_HASH_DOMAIN = ''neoengram-runtime-mutation-plan-v1''"

datatype journal_id = JournalId string

primrec journal_id_str :: "journal_id \<Rightarrow> string" where
  "journal_id_str (JournalId s) = s"

definition journal_id_new :: "string \<Rightarrow> journal_id engine_result" where
  "journal_id_new s = (if s = [] then Inl EcInvalidArgument else Inr (JournalId s))"

definition journal_id_validate :: "journal_id \<Rightarrow> unit engine_result" where
  "journal_id_validate j = (if journal_id_str j = [] then Inl EcInvalidArgument else Inr ())"

instantiation journal_id :: linorder
begin

definition less_eq_journal_id :: "journal_id \<Rightarrow> journal_id \<Rightarrow> bool" where
  "less_eq_journal_id a b \<longleftrightarrow> journal_id_str a \<le> journal_id_str b"

definition less_journal_id :: "journal_id \<Rightarrow> journal_id \<Rightarrow> bool" where
  "less_journal_id a b \<longleftrightarrow> journal_id_str a < journal_id_str b"

instance
proof
  fix x y z :: journal_id
  show "(x < y) = (x \<le> y \<and> \<not> y \<le> x)" by (auto simp: less_eq_journal_id_def less_journal_id_def)
  show "x \<le> x" by (simp add: less_eq_journal_id_def)
  show "x \<le> y \<Longrightarrow> y \<le> z \<Longrightarrow> x \<le> z" by (auto simp: less_eq_journal_id_def)
  show "x \<le> y \<Longrightarrow> y \<le> x \<Longrightarrow> x = y" by (cases x; cases y) (auto simp: less_eq_journal_id_def)
  show "x \<le> y \<or> y \<le> x" by (auto simp: less_eq_journal_id_def)
qed

end

record mutation_identity =
  id_tenant_id :: string
  id_artifact_id :: string
  id_workspace_id :: string
  id_job_id :: string
  id_storage_volume_id :: string
  id_owner_generation :: u64
  id_fencing_token :: u64

definition mutation_identity_validate :: "mutation_identity \<Rightarrow> unit engine_result" where
  "mutation_identity_validate i =
     and_then (try_fold (\<lambda>_ v. if v = [] then Inl EcInvalidArgument else Inr ()) ()
       [id_tenant_id i, id_artifact_id i, id_workspace_id i, id_job_id i, id_storage_volume_id i]) (\<lambda>_.
     if id_owner_generation i = 0 \<or> id_fencing_token i = 0 then Inl EcInvalidArgument else Inr ())"

datatype mutation_checkpoint =
  CpStart | CpBeforeJournalPublish | CpBeforeIrreversibleWrite | CpBeforeReceipt | CpRecovery

datatype mutation_action =
    CreateDirectory logical_path
  | WriteFile logical_path manifest_id u64
  | RemoveFile logical_path

record mutation_plan =
  mp_plan_id :: string
  mp_identity :: mutation_identity
  mp_expected_index_version :: index_version
  mp_actions :: "mutation_action list"
  mp_digest :: content_digest

definition plan_validate_content :: "mutation_plan \<Rightarrow> unit engine_result" where
  "plan_validate_content p =
     (if mp_plan_id p = [] then Inl EcInvalidArgument else mutation_identity_validate (mp_identity p))"

fun plan_hash_action :: "byte list \<Rightarrow> mutation_action \<Rightarrow> byte list engine_result" where
  "plan_hash_action h (CreateDirectory path) = ch_write_str (ch_write_u8 h 1) (path_str path)"
| "plan_hash_action h (WriteFile path mid total_size) =
     and_then (ch_write_str (ch_write_u8 h 2) (path_str path)) (\<lambda>h.
     and_then (ch_write_bytes h (digest_as_bytes (manifest_digest mid))) (\<lambda>h.
     Inr (ch_write_u64 h total_size)))"
| "plan_hash_action h (RemoveFile path) = ch_write_str (ch_write_u8 h 3) (path_str path)"

definition plan_compute_digest :: "(byte list \<Rightarrow> content_digest) \<Rightarrow> mutation_plan \<Rightarrow> content_digest engine_result" where
  "plan_compute_digest blake3 p =
     (let i = mp_identity p; v = mp_expected_index_version p in
      and_then (ch_new MUTATION_PLAN_HASH_DOMAIN) (\<lambda>h.
      and_then (ch_write_str h (mp_plan_id p)) (\<lambda>h.
      and_then (ch_write_str h (id_tenant_id i)) (\<lambda>h.
      and_then (ch_write_str h (id_artifact_id i)) (\<lambda>h.
      and_then (ch_write_str h (id_workspace_id i)) (\<lambda>h.
      and_then (ch_write_str h (id_job_id i)) (\<lambda>h.
      and_then (ch_write_str h (id_storage_volume_id i)) (\<lambda>h.
      and_then (ch_write_digest (ch_write_u64 (ch_write_u64 (ch_write_u64 h (id_owner_generation i))
                  (id_fencing_token i)) (iv_revision v)) (iv_digest v)) (\<lambda>h.
      and_then (ch_write_len h (length (mp_actions p))) (\<lambda>h.
      and_then (try_fold plan_hash_action h (mp_actions p)) (\<lambda>h.
      Inr (ch_finish blake3 h))))))))))))"

definition plan_new ::
  "(byte list \<Rightarrow> content_digest) \<Rightarrow> string \<Rightarrow> mutation_identity \<Rightarrow> index_version \<Rightarrow> mutation_action list
   \<Rightarrow> mutation_plan engine_result" where
  "plan_new blake3 plan_id identity version actions =
     (let p = \<lparr> mp_plan_id = plan_id, mp_identity = identity, mp_expected_index_version = version,
                mp_actions = actions, mp_digest = ContentDigest 0 \<rparr> in
      and_then (plan_validate_content p) (\<lambda>_.
      and_then (plan_compute_digest blake3 p) (\<lambda>d. Inr (p \<lparr> mp_digest := d \<rparr>))))"

definition plan_canonical_digest ::
  "(byte list \<Rightarrow> content_digest) \<Rightarrow> mutation_plan \<Rightarrow> content_digest engine_result" where
  "plan_canonical_digest blake3 p = and_then (plan_validate_content p) (\<lambda>_. plan_compute_digest blake3 p)"

definition plan_validate :: "(byte list \<Rightarrow> content_digest) \<Rightarrow> mutation_plan \<Rightarrow> unit engine_result" where
  "plan_validate blake3 p =
     and_then (plan_validate_content p) (\<lambda>_.
     and_then (plan_compute_digest blake3 p) (\<lambda>d.
     if mp_digest p \<noteq> d then Inl EcIntegrityViolation else Inr ()))"

section \<open>Journal records\<close>

datatype journal_phase =
  Prepared | Applying | Applied | AwaitingFinalize | Finalized | RollingBack | RecoveryRequired

definition phase_is_active :: "journal_phase \<Rightarrow> bool" where
  "phase_is_active p \<longleftrightarrow> p \<noteq> Finalized"

record journal_record =
  jr_id :: journal_id
  jr_revision :: u64
  jr_phase :: journal_phase
  jr_identity :: mutation_identity
  jr_plan_id :: string
  jr_plan_digest :: content_digest
  jr_recovery_payload :: "byte list"
  jr_updated_at_unix_ms :: u64

definition journal_record_validate :: "journal_record \<Rightarrow> unit engine_result" where
  "journal_record_validate j =
     and_then (journal_id_validate (jr_id j)) (\<lambda>_.
     and_then (mutation_identity_validate (jr_identity j)) (\<lambda>_.
     if jr_plan_id j = [] then Inl EcInvalidArgument else Inr ()))"

definition validate_successor :: "journal_record \<Rightarrow> journal_record \<Rightarrow> unit engine_result" where
  "validate_successor j previous =
     and_then (journal_record_validate previous) (\<lambda>_.
     and_then (journal_record_validate j) (\<lambda>_.
     and_then (ok_or EcConflict (checked_add (jr_revision previous) 1)) (\<lambda>expected_revision.
     if jr_id j \<noteq> jr_id previous \<or> jr_identity j \<noteq> jr_identity previous \<or> jr_plan_id j \<noteq> jr_plan_id previous
        \<or> jr_plan_digest j \<noteq> jr_plan_digest previous \<or> jr_revision j \<noteq> expected_revision
     then Inl EcConflict else Inr ())))"

datatype worktree_receipt_status = StatusApplied | StatusRolledBack | StatusRecoveryRequired

record worktree_receipt =
  wr_plan_id :: string
  wr_job_id :: string
  wr_journal_id :: journal_id
  wr_status :: worktree_receipt_status
  wr_actions_applied :: u64
  wr_bytes_written :: u64
  wr_owner_generation :: u64
  wr_fencing_token :: u64
  wr_started_at_unix_ms :: u64
  wr_finished_at_unix_ms :: u64

record execute_mutation_request =
  em_plan :: mutation_plan
  em_recovery_payload :: "byte list"

record mutation_application =
  ma_actions_applied :: u64
  ma_bytes_written :: u64

record finalize_mutation_request =
  fm_journal_id :: journal_id
  fm_plan_digest :: content_digest

record finalize_mutation_result =
  fr_journal_id :: journal_id
  fr_finalized_at_unix_ms :: u64

section \<open>Executing a plan\<close>

text \<open>
  The ports of \<open>execute_mutation\<close>.  A guard is represented by the identity it was issued for; it is
  released when it goes out of scope.  Applying a plan may fail to return (the result is \<open>None\<close>),
  every other port returns.
\<close>

record 'w mutation_ports =
  port_acquire :: "mutation_identity \<Rightarrow> ('w, mutation_identity) engine_io"
  port_release :: "mutation_identity \<Rightarrow> 'w \<Rightarrow> 'w"
  port_checkpoint :: "mutation_identity \<Rightarrow> mutation_checkpoint \<Rightarrow> ('w, unit) engine_io"
  port_now :: "('w, u64) engine_io"
  port_emit :: "progress_event \<Rightarrow> ('w, unit) engine_io"
  port_check :: "failure_point \<Rightarrow> ('w, unit) engine_io"
  port_create :: "journal_record \<Rightarrow> ('w, unit) engine_io"
  port_load :: "journal_id \<Rightarrow> ('w, journal_record option) engine_io"
  port_compare_exchange :: "u64 \<Rightarrow> journal_record \<Rightarrow> ('w, unit) engine_io"
  port_apply_mutation :: "mutation_plan \<Rightarrow> 'w \<Rightarrow> (mutation_application engine_result \<times> 'w) option"

definition advance_journal ::
  "'w mutation_ports \<Rightarrow> journal_record \<Rightarrow> journal_phase \<Rightarrow> u64 \<Rightarrow> ('w, journal_record) engine_io" where
  "advance_journal P journal phase updated_at =
     io_then (io_of (ok_or EcInternal (checked_add (jr_revision journal) 1))) (\<lambda>revision.
     let nx = journal \<lparr> jr_revision := revision, jr_phase := phase, jr_updated_at_unix_ms := updated_at \<rparr> in
     io_then (port_compare_exchange P (jr_revision journal) nx) (\<lambda>_. io_ok nx))"

definition mark_recovery_required :: "'w mutation_ports \<Rightarrow> journal_record \<Rightarrow> 'w \<Rightarrow> 'w" where
  "mark_recovery_required P journal w =
     (case port_now P w of (now, w) \<Rightarrow>
      let timestamp = (case now of Inl _ \<Rightarrow> jr_updated_at_unix_ms journal | Inr t \<Rightarrow> t) in
      snd (advance_journal P journal RecoveryRequired timestamp w))"

text \<open>From the acquired guard to the journal in phase \<open>Applying\<close>.\<close>

definition begin_mutation ::
  "'w mutation_ports \<Rightarrow> execute_mutation_request \<Rightarrow> mutation_identity
   \<Rightarrow> ('w, u64 \<times> journal_record) engine_io" where
  "begin_mutation P request guard =
     (let plan = em_plan request in
      io_then (io_of (ensure (guard = mp_identity plan) EcFenceRejected)) (\<lambda>_.
      io_then (port_checkpoint P guard CpStart) (\<lambda>_.
      io_then (port_check P FpBeforeJournalPublish) (\<lambda>_.
      io_then (port_checkpoint P guard CpBeforeJournalPublish) (\<lambda>_.
      io_then (port_now P) (\<lambda>started_at.
      io_then (io_of (journal_id_new (mp_plan_id plan))) (\<lambda>jid.
      let journal = \<lparr> jr_id = jid, jr_revision = 0, jr_phase = Prepared, jr_identity = mp_identity plan,
                      jr_plan_id = mp_plan_id plan, jr_plan_digest = mp_digest plan,
                      jr_recovery_payload = em_recovery_payload request,
                      jr_updated_at_unix_ms = started_at \<rparr> in
      io_then (port_create P journal) (\<lambda>_.
      io_then (port_emit P (progress_event_new PhJournaling UnitActions 0)) (\<lambda>_.
      io_then (port_now P) (\<lambda>now.
      io_then (advance_journal P journal Applying now) (\<lambda>journal.
      io_ok (started_at, journal))))))))))))"

definition apply_under_guard ::
  "'w mutation_ports \<Rightarrow> mutation_plan \<Rightarrow> mutation_identity \<Rightarrow> 'w
   \<Rightarrow> (mutation_application engine_result \<times> 'w) option" where
  "apply_under_guard P plan guard w =
     (case io_then (port_checkpoint P guard CpBeforeIrreversibleWrite) (\<lambda>_. port_check P BeforeMutation) w of
        (Inl e, w) \<Rightarrow> Some (Inl e, w)
      | (Inr _, w) \<Rightarrow> port_apply_mutation P plan w)"

text \<open>From the applied plan to the receipt.\<close>

definition conclude_mutation ::
  "'w mutation_ports \<Rightarrow> execute_mutation_request \<Rightarrow> mutation_identity \<Rightarrow> u64 \<Rightarrow> journal_record
   \<Rightarrow> mutation_application \<Rightarrow> ('w, worktree_receipt) engine_io" where
  "conclude_mutation P request guard started_at journal application =
     (let plan = em_plan request in
      io_then (port_now P) (\<lambda>now.
      io_then (advance_journal P journal Applied now) (\<lambda>journal w.
      case io_then (port_checkpoint P guard CpBeforeReceipt) (\<lambda>_. port_check P FpBeforeReceipt) w of
        (Inl e, w) \<Rightarrow> (Inl e, mark_recovery_required P journal w)
      | (Inr _, w) \<Rightarrow>
          io_then (port_now P) (\<lambda>finished_at.
          io_then (advance_journal P journal AwaitingFinalize finished_at) (\<lambda>journal.
          io_then (port_emit P (progress_event_new PhCompleted UnitActions (ma_actions_applied application))) (\<lambda>_.
          io_ok \<lparr> wr_plan_id = mp_plan_id plan, wr_job_id = id_job_id (mp_identity plan),
                  wr_journal_id = jr_id journal, wr_status = StatusApplied,
                  wr_actions_applied = ma_actions_applied application,
                  wr_bytes_written = ma_bytes_written application,
                  wr_owner_generation = id_owner_generation (mp_identity plan),
                  wr_fencing_token = id_fencing_token (mp_identity plan),
                  wr_started_at_unix_ms = started_at, wr_finished_at_unix_ms = finished_at \<rparr>))) w)))"

definition execute_under_guard ::
  "'w mutation_ports \<Rightarrow> execute_mutation_request \<Rightarrow> mutation_identity \<Rightarrow> 'w
   \<Rightarrow> (worktree_receipt engine_result \<times> 'w) option" where
  "execute_under_guard P request guard w =
     (case begin_mutation P request guard w of
        (Inl e, w) \<Rightarrow> Some (Inl e, w)
      | (Inr (started_at, journal), w) \<Rightarrow>
          (case apply_under_guard P (em_plan request) guard w of
             None \<Rightarrow> None
           | Some (Inl e, w) \<Rightarrow> Some (Inl e, mark_recovery_required P journal w)
           | Some (Inr application, w) \<Rightarrow>
               Some (conclude_mutation P request guard started_at journal application w)))"

definition execute_mutation ::
  "(byte list \<Rightarrow> content_digest) \<Rightarrow> 'w mutation_ports \<Rightarrow> execute_mutation_request \<Rightarrow> 'w
   \<Rightarrow> (worktree_receipt engine_result \<times> 'w) option" where
  "execute_mutation blake3 P request w =
     (case plan_validate blake3 (em_plan request) of
        Inl e \<Rightarrow> Some (Inl e, w)
      | Inr _ \<Rightarrow>
          (case port_acquire P (mp_identity (em_plan request)) w of
             (Inl e, w) \<Rightarrow> Some (Inl e, w)
           | (Inr guard, w) \<Rightarrow>
               map_option (\<lambda>(r, w). (r, port_release P guard w)) (execute_under_guard P request guard w)))"

definition finalize_mutation ::
  "'w mutation_ports \<Rightarrow> finalize_mutation_request \<Rightarrow> ('w, finalize_mutation_result) engine_io" where
  "finalize_mutation P request =
     io_then (port_load P (fm_journal_id request)) (\<lambda>loaded.
     io_then (io_of (ok_or EcResourceNotFound loaded)) (\<lambda>journal.
     if jr_plan_digest journal \<noteq> fm_plan_digest request then io_err EcConflict
     else if jr_phase journal = Finalized
     then io_ok \<lparr> fr_journal_id = jr_id journal, fr_finalized_at_unix_ms = jr_updated_at_unix_ms journal \<rparr>
     else if jr_phase journal \<noteq> AwaitingFinalize then io_err EcRecoveryRequired
     else
       io_then (port_now P) (\<lambda>finalized_at.
       io_then (advance_journal P journal Finalized finalized_at) (\<lambda>journal.
       io_ok \<lparr> fr_journal_id = jr_id journal, fr_finalized_at_unix_ms = finalized_at \<rparr>))))"

section \<open>Applying the actions\<close>

text \<open>Errors of \<open>std::io\<close>; an engine error wrapped by \<open>io::Error::other\<close>.\<close>

datatype io_error = IoOther error_code

definition load_manifest ::
  "(byte list \<Rightarrow> content_digest) \<Rightarrow> (manifest_id \<Rightarrow> manifest_metadata option engine_result)
   \<Rightarrow> (manifest_id \<Rightarrow> page_request \<Rightarrow> chunk_ref page engine_result) \<Rightarrow> manifest_id
   \<Rightarrow> manifest engine_result option" where
  "load_manifest blake3 get_manifest scan_chunks mid =
     (case and_then (get_manifest mid) (ok_or EcObjectMissing) of
        Inl e \<Rightarrow> Some (Inl e)
      | Inr metadata \<Rightarrow>
          (case page_request_first MAX_PAGE_SIZE of
             Inl e \<Rightarrow> Some (Inl e)
           | Inr request \<Rightarrow>
               map_option (\<lambda>r. and_then r (\<lambda>chunks.
                   if u64_try_from (length chunks) \<noteq> Some (mm_chunk_count metadata) then Inl EcIntegrityViolation
                   else
                     and_then (from_validation (manifest_new (mm_total_size metadata) (mm_chunking metadata) chunks)) (\<lambda>m.
                     and_then (from_validation (manifest_id blake3 m)) (\<lambda>i.
                     if i \<noteq> mid then Inl EcIntegrityViolation else Inr m))))
                 (paged_scan (\<lambda>_. Inr ()) (scan_chunks mid) [] request)))"

text \<open>
  \<open>ManifestObjectReader\<close>: the bytes of the current object and the chunks that follow.  One \<open>read\<close>
  into a buffer of \<open>n\<close> bytes fetches objects until it has bytes to deliver.
\<close>

record manifest_object_reader =
  mor_current :: "byte list"
  mor_chunks :: "chunk_ref list"

definition manifest_object_reader_new :: "chunk_ref list \<Rightarrow> manifest_object_reader" where
  "manifest_object_reader_new chunks = \<lparr> mor_current = [], mor_chunks = chunks \<rparr>"

function manifest_read ::
  "(object_spec \<Rightarrow> byte list engine_result) \<Rightarrow> nat \<Rightarrow> manifest_object_reader
   \<Rightarrow> (io_error + byte list) \<times> manifest_object_reader" where
  "manifest_read copy_to n r =
     (if min n (length (mor_current r)) \<noteq> 0
      then (Inr (take n (mor_current r)), r \<lparr> mor_current := drop n (mor_current r) \<rparr>)
      else
        (case mor_chunks r of
           [] \<Rightarrow> (Inr [], r)
         | chunk # chunks \<Rightarrow>
             (case copy_to \<lparr> os_id = cr_object_id chunk, os_size = cr_size chunk \<rparr> of
                Inl e \<Rightarrow> (Inl (IoOther e), r \<lparr> mor_chunks := chunks \<rparr>)
              | Inr bytes \<Rightarrow> manifest_read copy_to n \<lparr> mor_current = bytes, mor_chunks = chunks \<rparr>)))"
  by pat_completeness auto
termination
  by (relation "measure (\<lambda>(_, _, r). length (mor_chunks r))") auto

declare manifest_read.simps [simp del]

lemma manifest_read_decreases:
  "manifest_read copy_to n r = (Inr bs, r') \<Longrightarrow> bs \<noteq> [] \<Longrightarrow>
     length (mor_chunks r') < length (mor_chunks r)
     \<or> length (mor_chunks r') = length (mor_chunks r) \<and> length (mor_current r') < length (mor_current r)"
proof (induction copy_to n r rule: manifest_read.induct)
  case (1 copy_to n r)
  show ?case
  proof (cases "min n (length (mor_current r)) \<noteq> 0")
    case True
    then have "r' = r \<lparr> mor_current := drop n (mor_current r) \<rparr>"
      using 1(2) by (subst (asm) manifest_read.simps) (simp split: if_splits)
    then show ?thesis using True by auto
  next
    case False
    then obtain chunk chunks bytes where c: "mor_chunks r = chunk # chunks"
      "copy_to \<lparr> os_id = cr_object_id chunk, os_size = cr_size chunk \<rparr> = Inr bytes"
      "manifest_read copy_to n \<lparr> mor_current = bytes, mor_chunks = chunks \<rparr> = (Inr bs, r')"
      using 1(2,3) by (subst (asm) manifest_read.simps) (auto split: list.splits sum.splits)
    from 1(1) [OF False c 1(3)] c(1) show ?thesis by auto
  qed
qed

text \<open>\<open>Read::read_to_end\<close> with a buffer of \<open>Suc n\<close> bytes: reads until a read delivers nothing.\<close>

function manifest_read_to_end ::
  "(object_spec \<Rightarrow> byte list engine_result) \<Rightarrow> nat \<Rightarrow> byte list \<Rightarrow> manifest_object_reader
   \<Rightarrow> io_error + byte list" where
  "manifest_read_to_end copy_to n acc r =
     (case manifest_read copy_to (Suc n) r of
        (Inl e, _) \<Rightarrow> Inl e
      | (Inr bs, r') \<Rightarrow> if bs = [] then Inr acc else manifest_read_to_end copy_to n (acc @ bs) r')"
  by pat_completeness auto
termination
  by (relation "measures [\<lambda>(_, _, _, r). length (mor_chunks r), \<lambda>(_, _, _, r). length (mor_current r)]")
     (auto dest!: manifest_read_decreases [OF sym])

declare manifest_read_to_end.simps [simp del]

text \<open>
  The ports of \<open>apply_worktree_actions\<close>.  Catalog and object store are only read.  A source is
  passed to the worktree as what reading it to its end returns.
\<close>

record 'w worktree_ports =
  wt_create_dir_all :: "logical_path \<Rightarrow> ('w, unit) engine_io"
  wt_write_file_atomic :: "logical_path \<Rightarrow> u64 \<Rightarrow> io_error + byte list \<Rightarrow> ('w, unit) engine_io"
  wt_remove_file :: "logical_path \<Rightarrow> ('w, bool) engine_io"
  wt_get_manifest :: "'w \<Rightarrow> manifest_id \<Rightarrow> manifest_metadata option engine_result"
  wt_scan_manifest_chunks :: "'w \<Rightarrow> manifest_id \<Rightarrow> page_request \<Rightarrow> chunk_ref page engine_result"
  wt_copy_to :: "'w \<Rightarrow> object_spec \<Rightarrow> byte list engine_result"
  wt_emit :: "progress_event \<Rightarrow> ('w, unit) engine_io"
  wt_check :: "failure_point \<Rightarrow> ('w, unit) engine_io"

definition READ_BUFFER :: nat where
  "READ_BUFFER = 8191"

fun apply_action ::
  "(byte list \<Rightarrow> content_digest) \<Rightarrow> 'w worktree_ports \<Rightarrow> u64 \<Rightarrow> mutation_action \<Rightarrow> 'w
   \<Rightarrow> (u64 engine_result \<times> 'w) option" where
  "apply_action blake3 P written (CreateDirectory path) w =
     Some (io_then (wt_create_dir_all P path) (\<lambda>_. io_ok written) w)"
| "apply_action blake3 P written (WriteFile path mid total_size) w =
     (case load_manifest blake3 (wt_get_manifest P w) (wt_scan_manifest_chunks P w) mid of
        None \<Rightarrow> None
      | Some (Inl e) \<Rightarrow> Some (Inl e, w)
      | Some (Inr m) \<Rightarrow>
          if m_total_size m \<noteq> total_size then Some (Inl EcIntegrityViolation, w)
          else
            let source = manifest_read_to_end (wt_copy_to P w) READ_BUFFER [] (manifest_object_reader_new (m_chunks m)) in
            Some (io_then (wt_write_file_atomic P path total_size source) (\<lambda>_.
              io_of (ok_or EcInternal (checked_add written total_size))) w))"
| "apply_action blake3 P written (RemoveFile path) w =
     Some (io_then (wt_remove_file P path) (\<lambda>removed.
       if removed then io_ok written else io_err EcResourceNotFound) w)"

primrec apply_actions ::
  "(byte list \<Rightarrow> content_digest) \<Rightarrow> 'w worktree_ports \<Rightarrow> u64 \<Rightarrow> u64 \<Rightarrow> u64 \<Rightarrow> mutation_action list \<Rightarrow> 'w
   \<Rightarrow> (mutation_application engine_result \<times> 'w) option" where
  "apply_actions blake3 P action_total applied written [] w =
     Some (Inr \<lparr> ma_actions_applied = applied, ma_bytes_written = written \<rparr>, w)"
| "apply_actions blake3 P action_total applied written (action # actions) w =
     (case wt_check P BeforeMutation w of
        (Inl e, w) \<Rightarrow> Some (Inl e, w)
      | (Inr _, w) \<Rightarrow>
          (case apply_action blake3 P written action w of
             None \<Rightarrow> None
           | Some (Inl e, w) \<Rightarrow> Some (Inl e, w)
           | Some (Inr written, w) \<Rightarrow>
               (case io_then (io_of (ok_or EcInternal (checked_add applied 1))) (\<lambda>applied.
                       io_then (wt_emit P ((progress_event_new PhApplyingMutation UnitActions applied) \<lparr> pe_total := Some action_total \<rparr>))
                         (\<lambda>_. io_ok applied)) w of
                  (Inl e, w) \<Rightarrow> Some (Inl e, w)
                | (Inr applied, w) \<Rightarrow> apply_actions blake3 P action_total applied written actions w)))"

definition apply_worktree_actions ::
  "(byte list \<Rightarrow> content_digest) \<Rightarrow> 'w worktree_ports \<Rightarrow> mutation_plan \<Rightarrow> 'w
   \<Rightarrow> (mutation_application engine_result \<times> 'w) option" where
  "apply_worktree_actions blake3 P plan w =
     (case u64_try_from (length (mp_actions plan)) of
        None \<Rightarrow> Some (Inl EcInternal, w)
      | Some action_total \<Rightarrow> apply_actions blake3 P action_total 0 0 (mp_actions plan) w)"

section \<open>The plan digest\<close>

fun action_encoding :: "mutation_action \<Rightarrow> byte list" where
  "action_encoding (CreateDirectory path) = [1] @ be_str (path_str path)"
| "action_encoding (WriteFile path mid sz) = [2] @ be_str (path_str path) @ be_digest (manifest_digest mid) @ be64 sz"
| "action_encoding (RemoveFile path) = [3] @ be_str (path_str path)"

fun action_path :: "mutation_action \<Rightarrow> logical_path" where
  "action_path (CreateDirectory path) = path"
| "action_path (WriteFile path mid sz) = path"
| "action_path (RemoveFile path) = path"

definition action_fits :: "mutation_action \<Rightarrow> bool" where
  "action_fits a \<longleftrightarrow> str_fits (path_str (action_path a))"

interpretation action_enc: self_delimiting action_encoding action_fits
proof
  show "a = b \<and> s = t" if "action_fits a" "action_fits b" "action_encoding a @ s = action_encoding b @ t" for a b s t
    using that by (cases a; cases b) (simp_all add: action_fits_def delim)
  show "action_encoding a \<noteq> []" for a by (cases a) simp_all
qed

definition plan_encoding :: "mutation_plan \<Rightarrow> byte list" where
  "plan_encoding p =
     be_str MUTATION_PLAN_HASH_DOMAIN @ be_str (mp_plan_id p)
     @ be_str (id_tenant_id (mp_identity p)) @ be_str (id_artifact_id (mp_identity p))
     @ be_str (id_workspace_id (mp_identity p)) @ be_str (id_job_id (mp_identity p))
     @ be_str (id_storage_volume_id (mp_identity p))
     @ be64 (id_owner_generation (mp_identity p)) @ be64 (id_fencing_token (mp_identity p))
     @ be64 (iv_revision (mp_expected_index_version p)) @ be_digest (iv_digest (mp_expected_index_version p))
     @ be64 (of_nat (length (mp_actions p))) @ concat (map action_encoding (mp_actions p))"

definition plan_fits :: "mutation_plan \<Rightarrow> bool" where
  "plan_fits p \<longleftrightarrow> list_all str_fits [mp_plan_id p, id_tenant_id (mp_identity p), id_artifact_id (mp_identity p),
       id_workspace_id (mp_identity p), id_job_id (mp_identity p), id_storage_volume_id (mp_identity p)]
     \<and> length (mp_actions p) < 2 ^ 64 \<and> list_all action_fits (mp_actions p)"

lemma plan_hash_action_eq:
  "plan_hash_action h a = (if action_fits a then Inr (h @ action_encoding a) else Inl EcInvalidArgument)"
  by (cases a) (simp_all add: action_fits_def ch_write_u8_def ch_write_u64_def ch_write_digest_bytes)

lemma plan_hash_actions_eq:
  "try_fold plan_hash_action h as =
     (if list_all action_fits as then Inr (h @ concat (map action_encoding as)) else Inl EcInvalidArgument)"
  by (induction as arbitrary: h) (simp_all add: plan_hash_action_eq)

lemma mutation_domain_fits: "str_fits MUTATION_PLAN_HASH_DOMAIN"
  by (simp add: str_fits_def MUTATION_PLAN_HASH_DOMAIN_def)

lemma plan_compute_digest_eq:
  "plan_compute_digest blake3 p = (if plan_fits p then Inr (blake3 (plan_encoding p)) else Inl EcInvalidArgument)"
  by (simp add: plan_compute_digest_def plan_fits_def plan_encoding_def Let_def ch_new_eq mutation_domain_fits
      ch_write_u64_def ch_finish_def plan_hash_actions_eq)

text \<open>The encoding determines everything but the stored digest.\<close>

lemma plan_encoding_inj:
  assumes "plan_fits p" and "plan_fits q" and "plan_encoding p = plan_encoding q" and "mp_digest p = mp_digest q"
  shows "p = q"
proof -
  have f: "mp_plan_id p = mp_plan_id q" "mp_identity p = mp_identity q"
    "mp_expected_index_version p = mp_expected_index_version q"
    and len: "(of_nat (length (mp_actions p)) :: u64) = of_nat (length (mp_actions q))"
    and acts: "concat (map action_encoding (mp_actions p)) = concat (map action_encoding (mp_actions q))"
    using assms(1-3) unfolding plan_encoding_def plan_fits_def
    by (simp_all add: delim mutation_domain_fits mutation_identity.equality index_version.equality
        del: power.simps)
  have "length (mp_actions p) = length (mp_actions q)"
    using len assms(1,2) by (intro of_nat_u64_inj) (simp_all add: plan_fits_def)
  then have "mp_actions p = mp_actions q"
    using action_enc.sequence_counted [of "mp_actions p" "mp_actions q" "[]" "[]"] acts assms(1,2)
    by (simp add: plan_fits_def)
  then show ?thesis using f assms(4) by (intro mutation_plan.equality) simp_all
qed

section \<open>Reading the objects of a manifest\<close>

definition fetch_object :: "(object_spec \<Rightarrow> byte list engine_result) \<Rightarrow> byte list \<Rightarrow> chunk_ref \<Rightarrow> io_error + byte list" where
  "fetch_object copy_to acc c =
     and_then (map_err IoOther (copy_to \<lparr> os_id = cr_object_id c, os_size = cr_size c \<rparr>)) (\<lambda>bytes. Inr (acc @ bytes))"

lemma manifest_read_step:
  "manifest_read copy_to (Suc n) r = (x, r') \<Longrightarrow>
     try_fold (fetch_object copy_to) (acc @ mor_current r) (mor_chunks r) =
       (case x of
          Inl e \<Rightarrow> Inl e
        | Inr bs \<Rightarrow> if bs = [] then Inr acc
            else try_fold (fetch_object copy_to) (acc @ bs @ mor_current r') (mor_chunks r'))"
proof (induction copy_to "Suc n" r rule: manifest_read.induct)
  case (1 copy_to r)
  show ?case
  proof (cases "mor_current r = []")
    case False
    then have "x = Inr (take (Suc n) (mor_current r))" "r' = r \<lparr> mor_current := drop (Suc n) (mor_current r) \<rparr>"
      using 1(2) by (auto simp: manifest_read.simps [of copy_to "Suc n" r])
    then show ?thesis using False by simp
  next
    case True
    show ?thesis
    proof (cases "mor_chunks r")
      case Nil
      then show ?thesis using 1(2) True by (auto simp: manifest_read.simps [of copy_to "Suc n" r])
    next
      case (Cons chunk chunks)
      show ?thesis
      proof (cases "copy_to \<lparr> os_id = cr_object_id chunk, os_size = cr_size chunk \<rparr>")
        case (Inl e)
        then show ?thesis using 1(2) True Cons
          by (auto simp: manifest_read.simps [of copy_to "Suc n" r] fetch_object_def)
      next
        case (Inr bytes)
        with 1(2) True Cons have "manifest_read copy_to (Suc n) \<lparr> mor_current = bytes, mor_chunks = chunks \<rparr> = (x, r')"
          by (simp add: manifest_read.simps [of copy_to "Suc n" r])
        from 1(1) [OF _ Cons Inr this] True Cons Inr show ?thesis by (simp add: fetch_object_def)
      qed
    qed
  qed
qed

lemma manifest_read_to_end_eq:
  "manifest_read_to_end copy_to n acc r = try_fold (fetch_object copy_to) (acc @ mor_current r) (mor_chunks r)"
proof (induction copy_to n acc r rule: manifest_read_to_end.induct)
  case (1 copy_to n acc r)
  obtain x r' where x: "manifest_read copy_to (Suc n) r = (x, r')" by (cases "manifest_read copy_to (Suc n) r")
  show ?case
    using 1 [OF x [symmetric]] manifest_read_step [OF x, of acc] x
    by (subst manifest_read_to_end.simps) (auto split: sum.splits)
qed

lemma manifest_source_eq:
  "manifest_read_to_end copy_to n [] (manifest_object_reader_new chunks) = try_fold (fetch_object copy_to) [] chunks"
  by (simp add: manifest_read_to_end_eq manifest_object_reader_new_def)

lemma fetch_objects_ok:
  "try_fold (fetch_object copy_to) acc cs = Inr bs \<longleftrightarrow>
     (\<exists>parts. list_all2 (\<lambda>c p. copy_to \<lparr> os_id = cr_object_id c, os_size = cr_size c \<rparr> = Inr p) cs parts
        \<and> bs = acc @ concat parts)"
proof (induction cs arbitrary: acc)
  case (Cons c cs)
  show ?case
  proof (cases "copy_to \<lparr> os_id = cr_object_id c, os_size = cr_size c \<rparr>")
    case (Inr p)
    then show ?thesis using Cons [of "acc @ p"] by (auto simp: fetch_object_def list_all2_Cons1)
  qed (auto simp: fetch_object_def list_all2_Cons1)
qed auto

section \<open>Loading a manifest\<close>

lemma load_manifest_ok:
  assumes "load_manifest blake3 get_manifest scan mid = Some (Inr m)"
  shows "manifest_id blake3 m = Inr mid" and "manifest_validate m = Inr ()"
proof -
  show i: "manifest_id blake3 m = Inr mid"
    using assms by (auto simp: load_manifest_def split: sum.splits if_splits)
  then show "manifest_validate m = Inr ()" by (simp add: manifest_id_def)
qed

end
