(* ===== verification/JournalRuns.thy ===== *)
theory JournalRuns
  imports Mutation
begin

text \<open>
  What a journaled execution guarantees for every adapter: the locale \<open>mutation_env\<close> states the
  contract of the ports, and its lemmas describe the journals and the worktree after success,
  failure and finalisation.  The contract allows a journal operation to report an error after its
  record became durable.
\<close>

section \<open>Postconditions\<close>

definition io_post :: "('w, 'a) engine_io \<Rightarrow> 'w \<Rightarrow> ('a engine_result \<Rightarrow> 'w \<Rightarrow> bool) \<Rightarrow> bool" where
  "io_post m w Q \<longleftrightarrow> (case m w of (r, w') \<Rightarrow> Q r w')"

lemma io_post_then:
  "io_post (io_then m f) w Q \<longleftrightarrow>
     io_post m w (\<lambda>r w'. case r of Inl e \<Rightarrow> Q (Inl e) w' | Inr a \<Rightarrow> io_post (f a) w' Q)"
  by (auto simp: io_post_def io_then_def split: prod.splits sum.splits)

lemma io_post_simps [simp]:
  "io_post (io_ok a) w Q \<longleftrightarrow> Q (Inr a) w"
  "io_post (io_err e) w Q \<longleftrightarrow> Q (Inl e) w"
  "io_post (io_of r) w Q \<longleftrightarrow> Q r w"
  by (simp_all add: io_post_def)

lemma io_post_mono: "io_post m w Q \<Longrightarrow> (\<And>r w'. Q r w' \<Longrightarrow> Q' r w') \<Longrightarrow> io_post m w Q'"
  by (auto simp: io_post_def split: prod.splits)

lemma io_postD: "io_post m w Q \<Longrightarrow> m w = (r, w') \<Longrightarrow> Q r w'"
  by (simp add: io_post_def)

section \<open>The contract of the ports\<close>

text \<open>
  The durable state of a world: its journals, the state of its worktree, and whether it is well
  formed.  A port is quiet when it touches neither journals nor worktree.
\<close>

record ('w, 't) durable_view =
  dv_journals :: "'w \<Rightarrow> journal_id \<Rightarrow> journal_record option"
  dv_tree :: "'w \<Rightarrow> 't"
  dv_ok :: "'w \<Rightarrow> bool"

definition unchanged :: "('w, 't) durable_view \<Rightarrow> 'w \<Rightarrow> 'w \<Rightarrow> bool" where
  "unchanged V w w' \<longleftrightarrow> dv_journals V w' = dv_journals V w \<and> dv_tree V w' = dv_tree V w \<and> dv_ok V w'"

definition quiet :: "('w, 't) durable_view \<Rightarrow> ('w, 'a) engine_io \<Rightarrow> bool" where
  "quiet V m \<longleftrightarrow> (\<forall>w. dv_ok V w \<longrightarrow> io_post m w (\<lambda>_. unchanged V w))"

text \<open>The journal of one world was set to a record, and nothing else happened.\<close>

definition journalled :: "('w, 't) durable_view \<Rightarrow> journal_record \<Rightarrow> 'w \<Rightarrow> 'w \<Rightarrow> bool" where
  "journalled V j w w' \<longleftrightarrow> dv_journals V w' = (dv_journals V w)(jr_id j \<mapsto> j)
     \<and> dv_tree V w' = dv_tree V w \<and> dv_ok V w'"

text \<open>
  A journal store may report an error although the record became durable (a failing
  synchronisation of the directory after the rename); it may never lose or alter other records.
\<close>

locale mutation_env =
  fixes P :: "'w mutation_ports" and V :: "('w, 't) durable_view"
  assumes quiet_acquire: "quiet V (port_acquire P i)"
    and quiet_checkpoint: "quiet V (port_checkpoint P i c)"
    and quiet_now: "quiet V (port_now P)"
    and quiet_emit: "quiet V (port_emit P event)"
    and quiet_check: "quiet V (port_check P point)"
    and quiet_load: "quiet V (port_load P jid)"
    and quiet_release: "dv_ok V w \<Longrightarrow> unchanged V w (port_release P i w)"
    and load: "dv_ok V w \<Longrightarrow> port_load P jid w = (Inr found, w') \<Longrightarrow> found = dv_journals V w jid"
    and journal_ids: "dv_ok V w \<Longrightarrow> dv_journals V w jid = Some j \<Longrightarrow> jr_id j = jid"
    and create_ok: "dv_ok V w \<Longrightarrow> port_create P j w = (Inr (), w') \<Longrightarrow>
        dv_journals V w (jr_id j) = None \<and> journalled V j w w'"
    and create_err: "dv_ok V w \<Longrightarrow> port_create P j w = (Inl e, w') \<Longrightarrow>
        unchanged V w w' \<or> dv_journals V w (jr_id j) = None \<and> journalled V j w w'"
    and cas_ok: "dv_ok V w \<Longrightarrow> port_compare_exchange P revision j w = (Inr (), w') \<Longrightarrow>
        \<exists>old. dv_journals V w (jr_id j) = Some old \<and> jr_revision old = revision
          \<and> validate_successor j old = Inr () \<and> journalled V j w w'"
    and cas_err: "dv_ok V w \<Longrightarrow> port_compare_exchange P revision j w = (Inl e, w') \<Longrightarrow>
        unchanged V w w' \<or> (\<exists>old. dv_journals V w (jr_id j) = Some old \<and> jr_revision old = revision
          \<and> validate_successor j old = Inr () \<and> journalled V j w w')"
    and apply_journals: "dv_ok V w \<Longrightarrow> port_apply_mutation P plan w = Some (r, w') \<Longrightarrow>
        dv_journals V w' = dv_journals V w \<and> dv_ok V w'"

text \<open>The records a run writes for its plan: revision and phase move together.\<close>

definition run_journal :: "execute_mutation_request \<Rightarrow> (u64 \<times> journal_phase) set \<Rightarrow> journal_record \<Rightarrow> bool" where
  "run_journal request states j \<longleftrightarrow>
     jr_id j = JournalId (mp_plan_id (em_plan request)) \<and> jr_identity j = mp_identity (em_plan request)
     \<and> jr_plan_id j = mp_plan_id (em_plan request) \<and> jr_plan_digest j = mp_digest (em_plan request)
     \<and> jr_recovery_payload j = em_recovery_payload request \<and> (jr_revision j, jr_phase j) \<in> states"

definition run_states :: "(u64 \<times> journal_phase) set" where
  "run_states = {(0, Prepared), (1, Applying), (2, Applied), (2, RecoveryRequired),
                 (3, AwaitingFinalize), (3, RecoveryRequired)}"

definition journal_key :: "execute_mutation_request \<Rightarrow> journal_id" where
  "journal_key request = JournalId (mp_plan_id (em_plan request))"

text \<open>The world \<open>w\<close> differs from \<open>w0\<close> in its journals by the new journal \<open>j\<close>.\<close>

definition journal_at :: "('w, 't) durable_view \<Rightarrow> 'w \<Rightarrow> journal_record \<Rightarrow> 'w \<Rightarrow> bool" where
  "journal_at V w0 j w \<longleftrightarrow> dv_journals V w0 (jr_id j) = None
     \<and> dv_journals V w = (dv_journals V w0)(jr_id j \<mapsto> j) \<and> dv_ok V w"

definition advanced :: "journal_record \<Rightarrow> journal_phase \<Rightarrow> u64 \<Rightarrow> journal_record" where
  "advanced j phase t = j \<lparr> jr_revision := jr_revision j + 1, jr_phase := phase, jr_updated_at_unix_ms := t \<rparr>"

lemma advanced_simps [simp]:
  "jr_id (advanced j phase t) = jr_id j" "jr_revision (advanced j phase t) = jr_revision j + 1"
  "jr_phase (advanced j phase t) = phase" "jr_updated_at_unix_ms (advanced j phase t) = t"
  by (simp_all add: advanced_def)

lemma run_journal_advanced:
  "run_journal request {(n, p)} j \<Longrightarrow> run_journal request {(n + 1, phase)} (advanced j phase t)"
  by (simp add: run_journal_def advanced_def)

lemma run_journal_mono: "run_journal request A j \<Longrightarrow> A \<subseteq> B \<Longrightarrow> run_journal request B j"
  by (auto simp: run_journal_def)

lemma journal_at_unchanged: "journal_at V w0 j w \<Longrightarrow> unchanged V w w' \<Longrightarrow> journal_at V w0 j w'"
  by (simp add: journal_at_def unchanged_def)

lemma journal_at_journalled:
  "journal_at V w0 j w \<Longrightarrow> journalled V j' w w' \<Longrightarrow> jr_id j' = jr_id j \<Longrightarrow> journal_at V w0 j' w'"
  by (simp add: journal_at_def journalled_def)

lemma quiet_post:
  "quiet V m \<Longrightarrow> dv_ok V w \<Longrightarrow> (\<And>r w'. unchanged V w w' \<Longrightarrow> Q r w') \<Longrightarrow> io_post m w Q"
  by (auto simp: quiet_def io_post_def split: prod.splits)

lemma quiet_at:
  assumes "quiet V m" and "journal_at V w0 j w"
    and "\<And>r w'. journal_at V w0 j w' \<Longrightarrow> dv_tree V w' = dv_tree V w \<Longrightarrow> Q r w'"
  shows "io_post m w Q"
  using assms(1)
proof (rule quiet_post)
  show "dv_ok V w" using assms(2) by (simp add: journal_at_def)
  show "Q r w'" if "unchanged V w w'" for r w'
    using journal_at_unchanged [OF assms(2) that] that assms(3) by (simp add: unchanged_def)
qed

text \<open>Rules for sequences of ports, one per kind of step.\<close>

lemma post_thenI:
  "io_post m w (\<lambda>r w'. case r of Inl e \<Rightarrow> Q (Inl e) w' | Inr a \<Rightarrow> io_post (f a) w' Q) \<Longrightarrow> io_post (io_then m f) w Q"
  by (simp add: io_post_then)

lemma post_pure:
  "(\<And>e. r = Inl e \<Longrightarrow> Q (Inl e) w) \<Longrightarrow> (\<And>a. r = Inr a \<Longrightarrow> io_post (f a) w Q) \<Longrightarrow> io_post (io_then (io_of r) f) w Q"
  by (cases r) (simp_all add: io_post_then)

lemma post_quiet:
  assumes "quiet V m" and "dv_ok V w"
    and "\<And>e w'. unchanged V w w' \<Longrightarrow> Q (Inl e) w'"
    and "\<And>a w'. unchanged V w w' \<Longrightarrow> io_post (f a) w' Q"
  shows "io_post (io_then m f) w Q"
  using assms(1,2) by (intro post_thenI quiet_post) (auto intro: assms(3,4) split: sum.splits)

lemma post_quiet_at:
  assumes "quiet V m" and "journal_at V w0 j w"
    and "\<And>e w'. journal_at V w0 j w' \<Longrightarrow> dv_tree V w' = dv_tree V w \<Longrightarrow> Q (Inl e) w'"
    and "\<And>a w'. journal_at V w0 j w' \<Longrightarrow> dv_tree V w' = dv_tree V w \<Longrightarrow> io_post (f a) w' Q"
  shows "io_post (io_then m f) w Q"
  using assms(1,2) by (intro post_thenI quiet_at) (auto intro: assms(3,4) split: sum.splits)

context mutation_env
begin

lemma advance_post:
  assumes "dv_ok V w"
    and "\<And>w'. journalled V (advanced j phase t) w w' \<Longrightarrow> Q (Inr (advanced j phase t)) w'"
    and "\<And>e w'. unchanged V w w' \<or> journalled V (advanced j phase t) w w' \<Longrightarrow> Q (Inl e) w'"
  shows "io_post (advance_journal P j phase t) w Q"
proof (cases "checked_add (jr_revision j) 1")
  case None
  have "unchanged V w w" using assms(1) by (simp add: unchanged_def)
  then show ?thesis using None assms(3) by (simp add: advance_journal_def io_post_then)
next
  case (Some n)
  then have n: "n = jr_revision j + 1" by (auto simp: checked_add_def split: if_splits)
  obtain r w' where c: "port_compare_exchange P (jr_revision j) (advanced j phase t) w = (r, w')" by fastforce
  have "io_post (port_compare_exchange P (jr_revision j) (advanced j phase t)) w
      (\<lambda>r w'. case r of Inl e \<Rightarrow> Q (Inl e) w' | Inr a \<Rightarrow> Q (Inr (advanced j phase t)) w')"
    using c assms(2,3) cas_ok [OF assms(1)] cas_err [OF assms(1)]
    by (cases r) (fastforce simp: io_post_def)+
  then show ?thesis
    using Some n by (simp add: advance_journal_def io_post_then Let_def flip: advanced_def cong: sum.case_cong)
qed

lemma advance_at:
  assumes "journal_at V w0 j w"
    and "\<And>w'. journal_at V w0 (advanced j phase t) w' \<Longrightarrow> dv_tree V w' = dv_tree V w \<Longrightarrow> Q (Inr (advanced j phase t)) w'"
    and "\<And>e w'. journal_at V w0 j w' \<or> journal_at V w0 (advanced j phase t) w' \<Longrightarrow> dv_tree V w' = dv_tree V w \<Longrightarrow> Q (Inl e) w'"
  shows "io_post (advance_journal P j phase t) w Q"
proof (rule advance_post)
  show "dv_ok V w" using assms(1) by (simp add: journal_at_def)
  have a: "journal_at V w0 (advanced j phase t) w'" "dv_tree V w' = dv_tree V w"
    if "journalled V (advanced j phase t) w w'" for w'
    using journal_at_journalled [OF assms(1) that] that by (simp_all add: journalled_def)
  then show "Q (Inr (advanced j phase t)) w'" if "journalled V (advanced j phase t) w w'" for w'
    using that assms(2) by blast
  show "Q (Inl e) w'" if "unchanged V w w' \<or> journalled V (advanced j phase t) w w'" for e w'
    using that a assms(3) journal_at_unchanged [OF assms(1)] by (auto simp: unchanged_def)
qed

lemma mark_recovery_at:
  assumes "journal_at V w0 j w"
  shows "dv_tree V (mark_recovery_required P j w) = dv_tree V w"
    and "\<exists>t. journal_at V w0 j (mark_recovery_required P j w)
           \<or> journal_at V w0 (advanced j RecoveryRequired t) (mark_recovery_required P j w)"
proof -
  obtain now w1 where now: "port_now P w = (now, w1)" by fastforce
  have "io_post (port_now P) w (\<lambda>_ w1. journal_at V w0 j w1 \<and> dv_tree V w1 = dv_tree V w)"
    using quiet_now assms by (rule quiet_at) simp
  then have w1: "journal_at V w0 j w1" "dv_tree V w1 = dv_tree V w" using now by (auto dest: io_postD)
  let ?t = "case now of Inl _ \<Rightarrow> jr_updated_at_unix_ms j | Inr t \<Rightarrow> t"
  have "io_post (advance_journal P j RecoveryRequired ?t) w1 (\<lambda>_ w'. dv_tree V w' = dv_tree V w1 \<and>
      (journal_at V w0 j w' \<or> journal_at V w0 (advanced j RecoveryRequired ?t) w'))"
    using w1(1) by (rule advance_at) auto
  then have "dv_tree V (snd (advance_journal P j RecoveryRequired ?t w1)) = dv_tree V w1 \<and>
      (journal_at V w0 j (snd (advance_journal P j RecoveryRequired ?t w1))
       \<or> journal_at V w0 (advanced j RecoveryRequired ?t) (snd (advance_journal P j RecoveryRequired ?t w1)))"
    by (simp add: io_post_def case_prod_beta)
  then show "dv_tree V (mark_recovery_required P j w) = dv_tree V w"
    and "\<exists>t. journal_at V w0 j (mark_recovery_required P j w)
           \<or> journal_at V w0 (advanced j RecoveryRequired t) (mark_recovery_required P j w)"
    using now w1(2) by (auto simp: mark_recovery_required_def Let_def)
qed

end

definition prepared_journal :: "execute_mutation_request \<Rightarrow> u64 \<Rightarrow> journal_record" where
  "prepared_journal request t =
     \<lparr> jr_id = journal_key request, jr_revision = 0, jr_phase = Prepared,
       jr_identity = mp_identity (em_plan request), jr_plan_id = mp_plan_id (em_plan request),
       jr_plan_digest = mp_digest (em_plan request), jr_recovery_payload = em_recovery_payload request,
       jr_updated_at_unix_ms = t \<rparr>"

lemma run_journal_prepared: "run_journal request {(0, Prepared)} (prepared_journal request t)"
  by (simp add: run_journal_def prepared_journal_def journal_key_def)

text \<open>What a failing run leaves behind: nothing, or a journal of the run.\<close>

definition left_behind :: "('w, 't) durable_view \<Rightarrow> execute_mutation_request \<Rightarrow> 'w \<Rightarrow> 'w \<Rightarrow> bool" where
  "left_behind V request w w' \<longleftrightarrow>
     unchanged V w w'
     \<or> (\<exists>j. run_journal request run_states j \<and> journal_at V w j w'
          \<and> (dv_tree V w' \<noteq> dv_tree V w \<longrightarrow> jr_phase j \<noteq> Prepared))"

lemma left_behindI:
  "journal_at V w j w' \<Longrightarrow> run_journal request {s} j \<Longrightarrow> s \<in> run_states \<Longrightarrow>
   dv_tree V w' = dv_tree V w \<or> jr_phase j \<noteq> Prepared \<Longrightarrow> left_behind V request w w'"
  unfolding left_behind_def by (blast intro: run_journal_mono)

lemma unchanged_trans: "unchanged V a b \<Longrightarrow> unchanged V b c \<Longrightarrow> unchanged V a c"
  by (simp add: unchanged_def)

lemma unchanged_ok: "unchanged V a b \<Longrightarrow> dv_ok V b"
  by (simp add: unchanged_def)

lemma journalled_at:
  "dv_journals V w0 (jr_id j) = None \<Longrightarrow> unchanged V w0 w \<Longrightarrow> journalled V j w w' \<Longrightarrow>
   journal_at V w0 j w' \<and> dv_tree V w' = dv_tree V w0"
  by (simp add: journal_at_def journalled_def unchanged_def)

lemma run_states_simps [simp]:
  "(0, Prepared) \<in> run_states" "(1, Applying) \<in> run_states" "(2, Applied) \<in> run_states"
  "(2, RecoveryRequired) \<in> run_states" "(3, AwaitingFinalize) \<in> run_states" "(3, RecoveryRequired) \<in> run_states"
  by (simp_all add: run_states_def)

lemma run_journal_phase: "run_journal request {(n, p)} j \<Longrightarrow> jr_phase j = p"
  by (simp add: run_journal_def)

text \<open>A receipt reports the plan's identity and fence, and the journal that awaits finalisation.\<close>

definition receipt_matches :: "execute_mutation_request \<Rightarrow> journal_record \<Rightarrow> worktree_receipt \<Rightarrow> bool" where
  "receipt_matches request j receipt \<longleftrightarrow>
     wr_plan_id receipt = mp_plan_id (em_plan request) \<and> wr_job_id receipt = id_job_id (mp_identity (em_plan request))
     \<and> wr_journal_id receipt = jr_id j \<and> wr_status receipt = StatusApplied
     \<and> wr_owner_generation receipt = id_owner_generation (mp_identity (em_plan request))
     \<and> wr_fencing_token receipt = id_fencing_token (mp_identity (em_plan request))
     \<and> wr_finished_at_unix_ms receipt = jr_updated_at_unix_ms j"

text \<open>Ports that refuse to touch the worktree unless the run's journal is durable and \<open>Applying\<close>.\<close>

definition write_ahead :: "('w, 't) durable_view \<Rightarrow> execute_mutation_request \<Rightarrow> 'w mutation_ports \<Rightarrow> 'w mutation_ports" where
  "write_ahead V request P = P \<lparr> port_apply_mutation := (\<lambda>plan w.
     case dv_journals V w (journal_key request) of
       None \<Rightarrow> Some (Inl EcInternal, w)
     | Some j \<Rightarrow> if run_journal request {(1, Applying)} j then port_apply_mutation P plan w else Some (Inl EcInternal, w)) \<rparr>"

lemma write_ahead_ports [simp]:
  "port_acquire (write_ahead V request P) = port_acquire P"
  "port_release (write_ahead V request P) = port_release P"
  "port_checkpoint (write_ahead V request P) = port_checkpoint P"
  "port_now (write_ahead V request P) = port_now P"
  "port_emit (write_ahead V request P) = port_emit P"
  "port_check (write_ahead V request P) = port_check P"
  "port_create (write_ahead V request P) = port_create P"
  "port_compare_exchange (write_ahead V request P) = port_compare_exchange P"
  by (simp_all add: write_ahead_def)

lemma write_ahead_advance [simp]: "advance_journal (write_ahead V request P) j phase t = advance_journal P j phase t"
  unfolding advance_journal_def write_ahead_ports ..

lemma write_ahead_mark [simp]: "mark_recovery_required (write_ahead V request P) j w = mark_recovery_required P j w"
  unfolding mark_recovery_required_def write_ahead_ports write_ahead_advance ..

lemma write_ahead_begin [simp]: "begin_mutation (write_ahead V request P) r g = begin_mutation P r g"
  unfolding begin_mutation_def write_ahead_ports write_ahead_advance ..

lemma write_ahead_conclude [simp]: "conclude_mutation (write_ahead V request P) r g t j a = conclude_mutation P r g t j a"
  unfolding conclude_mutation_def write_ahead_ports write_ahead_advance write_ahead_mark ..

definition finalized_by :: "('w, 't) durable_view \<Rightarrow> finalize_mutation_request \<Rightarrow> 'w \<Rightarrow> finalize_mutation_result \<Rightarrow> 'w \<Rightarrow> bool" where
  "finalized_by V request w res w' \<longleftrightarrow>
     (\<exists>j. dv_journals V w (fm_journal_id request) = Some j \<and> jr_plan_digest j = fm_plan_digest request
        \<and> fr_journal_id res = fm_journal_id request
        \<and> (jr_phase j = Finalized \<and> unchanged V w w' \<and> fr_finalized_at_unix_ms res = jr_updated_at_unix_ms j
           \<or> jr_phase j = AwaitingFinalize \<and> journalled V (advanced j Finalized (fr_finalized_at_unix_ms res)) w w'))"

lemma post_quiet_from:
  assumes "quiet V m" and "dv_ok V w0" and "unchanged V w0 w"
    and "\<And>e w'. unchanged V w0 w' \<Longrightarrow> Q (Inl e) w'"
    and "\<And>a w'. unchanged V w0 w' \<Longrightarrow> io_post (f a) w' Q"
  shows "io_post (io_then m f) w Q"
  by (rule post_quiet [OF assms(1) unchanged_ok [OF assms(3)]])
     (auto intro: assms(4,5) unchanged_trans [OF assms(3)])

lemma post_match:
  "io_post m w (\<lambda>r w'. case r of Inl e \<Rightarrow> Q (Inl e) (g w') | Inr a \<Rightarrow> io_post (k a) w' Q) \<Longrightarrow>
   io_post (\<lambda>w. case m w of (Inl e, w') \<Rightarrow> (Inl e, g w') | (Inr a, w') \<Rightarrow> k a w') w Q"
  by (auto simp: io_post_def split: prod.splits sum.splits)

context mutation_env
begin

lemma create_then:
  assumes "unchanged V w0 w" and "dv_ok V w0"
    and "\<And>e w'. unchanged V w0 w' \<Longrightarrow> Q (Inl e) w'"
    and "\<And>e w'. journal_at V w0 j w' \<Longrightarrow> dv_tree V w' = dv_tree V w0 \<Longrightarrow> Q (Inl e) w'"
    and "\<And>w'. journal_at V w0 j w' \<Longrightarrow> dv_tree V w' = dv_tree V w0 \<Longrightarrow> io_post (f ()) w' Q"
  shows "io_post (io_then (port_create P j) f) w Q"
proof (rule post_thenI)
  obtain r w' where c: "port_create P j w = (r, w')" by fastforce
  note ok = unchanged_ok [OF assms(1)]
  have at: "journal_at V w0 j w' \<and> dv_tree V w' = dv_tree V w0"
    if "dv_journals V w (jr_id j) = None \<and> journalled V j w w'"
    using that assms(1) journalled_at [of V w0 j w w'] by (simp add: unchanged_def)
  show "io_post (port_create P j) w (\<lambda>r w'. case r of Inl e \<Rightarrow> Q (Inl e) w' | Inr a \<Rightarrow> io_post (f a) w' Q)"
  proof (cases r)
    case (Inl e)
    have "Q (Inl e) w'"
      using create_err [OF ok c [unfolded Inl]] at assms(3,4) unchanged_trans [OF assms(1)] by blast
    then show ?thesis using c Inl by (simp add: io_post_def)
  next
    case (Inr u)
    have "io_post (f ()) w' Q"
      using create_ok [OF ok] c Inr at assms(5) by (cases u) blast
    then show ?thesis using c Inr by (simp add: io_post_def)
  qed
qed

lemma advance_then:
  assumes "journal_at V w0 j w"
    and "\<And>e w'. journal_at V w0 j w' \<or> journal_at V w0 (advanced j phase t) w' \<Longrightarrow> dv_tree V w' = dv_tree V w \<Longrightarrow> Q (Inl e) w'"
    and "\<And>w'. journal_at V w0 (advanced j phase t) w' \<Longrightarrow> dv_tree V w' = dv_tree V w \<Longrightarrow> io_post (f (advanced j phase t)) w' Q"
  shows "io_post (io_then (advance_journal P j phase t) f) w Q"
  by (rule post_thenI, rule advance_at [OF assms(1)]) (simp_all add: assms(2,3))

lemma begin_post:
  assumes "dv_ok V w"
  shows "io_post (begin_mutation P request guard) w (\<lambda>r w'. dv_tree V w' = dv_tree V w
    \<and> (case r of Inl e \<Rightarrow> left_behind V request w w'
       | Inr (t, j) \<Rightarrow> run_journal request {(1, Applying)} j \<and> journal_at V w j w'))"
    (is "io_post _ _ ?Q")
proof -
  define Q where "Q = ?Q"
  have quit: "Q (Inl e) w'" if "unchanged V w w'" for e w'
    using that by (simp add: Q_def left_behind_def unchanged_def)
  have late: "Q (Inl e) w'" if "journal_at V w j w'" "dv_tree V w' = dv_tree V w"
    "run_journal request {s} j" "s \<in> run_states" for e w' j s
    using that left_behindI [of V w j w' request s] by (simp add: Q_def)
  note go = unchanged_trans
  have u: "unchanged V w w" using assms by (simp add: unchanged_def)
  have tail: "io_post (io_then (port_create P (prepared_journal request t)) (\<lambda>_.
      io_then (port_emit P (progress_event_new PhJournaling UnitActions 0)) (\<lambda>_.
      io_then (port_now P) (\<lambda>now.
      io_then (advance_journal P (prepared_journal request t) Applying now) (\<lambda>journal.
      io_ok (t, journal)))))) w' Q" if w': "unchanged V w w'" for t w'
    using w' assms quit
  proof (rule create_then)
    let ?j = "prepared_journal request t"
    have adv: "run_journal request {(1, Applying)} (advanced ?j Applying now)" for now
      using run_journal_advanced [OF run_journal_prepared [of request t], where phase = Applying and t = now] by simp
    show "Q (Inl e) w'" if "journal_at V w ?j w'" "dv_tree V w' = dv_tree V w" for e w'
      using that run_journal_prepared by (rule late) simp
    fix w1
    assume w1: "journal_at V w ?j w1" "dv_tree V w1 = dv_tree V w"
    show "io_post (io_then (port_emit P (progress_event_new PhJournaling UnitActions 0)) (\<lambda>_.
      io_then (port_now P) (\<lambda>now. io_then (advance_journal P ?j Applying now) (\<lambda>journal.
      io_ok (t, journal))))) w1 Q"
    proof (rule post_quiet_at [OF quiet_emit w1(1)], goal_cases)
      case (1 e w')
      then show ?case using w1 late [OF _ _ run_journal_prepared] by simp
    next
      case (2 a w2)
      show ?case
      proof (rule post_quiet_at [OF quiet_now 2(1)], goal_cases)
        case (1 e w')
        then show ?case using 2 w1 late [OF _ _ run_journal_prepared] by simp
      next
        case (2 now w3)
        then show ?case
          using \<open>dv_tree V w2 = dv_tree V w1\<close> w1(2) adv [of now]
            late [OF _ _ run_journal_prepared] late [OF _ _ adv [of now]]
          by (intro advance_then [OF 2(1)]) (auto simp: Q_def)
      qed
    qed
  qed
  have key: "journal_id_new (mp_plan_id (em_plan request)) = Inr jid \<Longrightarrow> jid = journal_key request" for jid
    by (simp add: journal_id_new_def journal_key_def split: if_splits)
  have prep: "\<lparr> jr_id = journal_key request, jr_revision = 0, jr_phase = Prepared,
       jr_identity = mp_identity (em_plan request), jr_plan_id = mp_plan_id (em_plan request),
       jr_plan_digest = mp_digest (em_plan request), jr_recovery_payload = em_recovery_payload request,
       jr_updated_at_unix_ms = t \<rparr> = prepared_journal request t" for t
    by (simp add: prepared_journal_def)
  have "io_post (begin_mutation P request guard) w Q"
    unfolding begin_mutation_def Let_def
    apply (rule post_pure)
     apply (rule quit [OF u])
    apply (rule post_quiet_from [OF quiet_checkpoint assms u])
     apply (erule quit)
    apply (rule post_quiet_from [OF quiet_check assms], assumption)
     apply (erule quit)
    apply (rule post_quiet_from [OF quiet_checkpoint assms], assumption)
     apply (erule quit)
    apply (rule post_quiet_from [OF quiet_now assms], assumption)
     apply (erule quit)
    apply (rule post_pure)
     apply (erule quit)
    apply (drule key)
    apply (simp only: prep)
    apply (erule tail)
    done
  then show ?thesis by (simp only: Q_def)
qed

lemma mark_left_behind:
  assumes "journal_at V w0 j w" and "run_journal request {(n, p)} j" and "p \<noteq> Prepared"
    and "(n, p) \<in> run_states" and "(n + 1, RecoveryRequired) \<in> run_states"
  shows "left_behind V request w0 (mark_recovery_required P j w)"
proof -
  obtain t where "journal_at V w0 j (mark_recovery_required P j w)
      \<or> journal_at V w0 (advanced j RecoveryRequired t) (mark_recovery_required P j w)"
    using mark_recovery_at(2) [OF assms(1)] by blast
  then show ?thesis
    using left_behindI [OF _ assms(2,4)] left_behindI [OF _ run_journal_advanced [OF assms(2)] assms(5)]
      run_journal_phase [OF assms(2)] assms(3) by auto
qed

lemma conclude_post:
  assumes "journal_at V w0 j w" and "run_journal request {(1, Applying)} j"
  shows "io_post (conclude_mutation P request guard t j app) w (\<lambda>r w'.
    case r of Inl e \<Rightarrow> left_behind V request w0 w'
    | Inr receipt \<Rightarrow> dv_tree V w' = dv_tree V w \<and> (\<exists>j'. run_journal request {(3, AwaitingFinalize)} j'
        \<and> journal_at V w0 j' w' \<and> receipt_matches request j' receipt))"
    (is "io_post _ _ ?Q")
proof -
  define Q where "Q = ?Q"
  have fail: "Q (Inl e) w'" if "journal_at V w0 k w'" "run_journal request {(n, p)} k" "(n, p) \<in> run_states" "p \<noteq> Prepared"
    for e w' k n p
    using left_behindI [OF that(1-3)] run_journal_phase [OF that(2)] that(4) by (simp add: Q_def)
  have fail1: "Q (Inl e) w'" if "journal_at V w0 j w'" for e w' using fail [OF that assms(2)] by simp
  have run2: "run_journal request {(2, Applied)} (advanced j Applied now)" for now
    using run_journal_advanced [OF assms(2)] by simp
  have run3: "run_journal request {(3, AwaitingFinalize)} (advanced (advanced j Applied now) AwaitingFinalize fin)" for now fin
    using run_journal_advanced [OF run2] by simp
  have step3: "io_post (io_then (port_now P) (\<lambda>finished_at.
          io_then (advance_journal P (advanced j Applied now) AwaitingFinalize finished_at) (\<lambda>journal.
          io_then (port_emit P (progress_event_new PhCompleted UnitActions (ma_actions_applied app))) (\<lambda>_.
          io_ok \<lparr> wr_plan_id = mp_plan_id (em_plan request), wr_job_id = id_job_id (mp_identity (em_plan request)),
                  wr_journal_id = jr_id journal, wr_status = StatusApplied,
                  wr_actions_applied = ma_actions_applied app, wr_bytes_written = ma_bytes_written app,
                  wr_owner_generation = id_owner_generation (mp_identity (em_plan request)),
                  wr_fencing_token = id_fencing_token (mp_identity (em_plan request)),
                  wr_started_at_unix_ms = t, wr_finished_at_unix_ms = finished_at \<rparr>)))) w2 Q"
    if w2: "journal_at V w0 (advanced j Applied now) w2" "dv_tree V w2 = dv_tree V w" for now w2
  proof (rule post_quiet_at [OF quiet_now w2(1)], goal_cases)
    case (1 e w')
    then show ?case using fail [OF _ run2 [of now]] by simp
  next
    case (2 fin w3)
    show ?case
    proof (rule advance_then [OF 2(1)], goal_cases)
      case (1 e w')
      then show ?case using fail [OF _ run2 [of now]] fail [OF _ run3 [of now fin]] by auto
    next
      case (2 w4)
      show ?case
      proof (rule post_quiet_at [OF quiet_emit 2(1)], goal_cases)
        case (1 e w')
        then show ?case using fail [OF _ run3 [of now fin]] by simp
      next
        case (2 a w5)
        then show ?case
          using run3 [of now fin] \<open>dv_tree V w4 = dv_tree V w3\<close> \<open>dv_tree V w3 = dv_tree V w2\<close> w2(2)
          by (auto simp: Q_def receipt_matches_def)
      qed
    qed
  qed
  have "io_post (conclude_mutation P request guard t j app) w Q"
    unfolding conclude_mutation_def Let_def
  proof (rule post_quiet_at [OF quiet_now assms(1)], goal_cases)
    case (1 e w')
    then show ?case using fail1 by simp
  next
    case (2 now w1)
    show ?case
    proof (rule advance_then [OF 2(1)], goal_cases)
      case (1 e w')
      then show ?case using fail1 fail [OF _ run2 [of now]] by auto
    next
      case (2 w2)
      have tree: "dv_tree V w2 = dv_tree V w" using 2 \<open>dv_tree V w1 = dv_tree V w\<close> by simp
      have "io_post (io_then (port_checkpoint P guard CpBeforeReceipt) (\<lambda>_. port_check P FpBeforeReceipt)) w2
          (\<lambda>_ w3. journal_at V w0 (advanced j Applied now) w3 \<and> dv_tree V w3 = dv_tree V w2)"
        by (rule post_quiet_at [OF quiet_checkpoint 2(1)], simp, rule quiet_at [OF quiet_check], assumption, simp)
      then show ?case
      proof (rule post_match [OF io_post_mono], goal_cases)
        case (1 r w3)
        moreover have "Q (Inl e) (mark_recovery_required P (advanced j Applied now) w3)" for e
          using mark_left_behind [OF _ run2 [of now], of w0 w3] 1 by (simp add: Q_def)
        ultimately show ?case using step3 [of now w3] tree by (simp split: sum.splits)
      qed
    qed
  qed
  then show ?thesis by (simp only: Q_def)
qed

lemma left_behind_unchanged:
  assumes "left_behind V request w0 w" and "unchanged V w w'"
  shows "left_behind V request w0 w'"
proof -
  have "dv_tree V w' = dv_tree V w" using assms(2) by (simp add: unchanged_def)
  then show ?thesis
    using assms unchanged_trans journal_at_unchanged unfolding left_behind_def by metis
qed

lemma apply_under_guard_at:
  assumes "apply_under_guard P plan guard w = Some (r, w')" and "journal_at V w0 j w"
  shows "journal_at V w0 j w'"
proof -
  obtain r1 w1 where c: "io_then (port_checkpoint P guard CpBeforeIrreversibleWrite) (\<lambda>_. port_check P BeforeMutation) w = (r1, w1)"
    by fastforce
  have "io_post (io_then (port_checkpoint P guard CpBeforeIrreversibleWrite) (\<lambda>_. port_check P BeforeMutation)) w
      (\<lambda>_ w1. journal_at V w0 j w1)"
    by (rule post_quiet_at [OF quiet_checkpoint assms(2)], simp, rule quiet_at [OF quiet_check], assumption, simp)
  then have at: "journal_at V w0 j w1" using c by (auto dest: io_postD)
  show ?thesis
  proof (cases r1)
    case (Inl e)
    then show ?thesis using assms(1) c at by (simp add: apply_under_guard_def)
  next
    case (Inr u)
    then have "port_apply_mutation P plan w1 = Some (r, w')" using assms(1) c by (simp add: apply_under_guard_def)
    then show ?thesis using apply_journals [of w1 plan r w'] at by (simp add: journal_at_def)
  qed
qed

lemma execute_under_guard_post:
  assumes "dv_ok V w" and "execute_under_guard P request guard w = Some (r, w')"
  shows "case r of Inl e \<Rightarrow> left_behind V request w w'
    | Inr receipt \<Rightarrow> \<exists>j. run_journal request {(3, AwaitingFinalize)} j \<and> journal_at V w j w' \<and> receipt_matches request j receipt"
proof -
  obtain r1 w1 where b: "begin_mutation P request guard w = (r1, w1)" by fastforce
  note post = io_postD [OF begin_post [OF assms(1)] b]
  show ?thesis
  proof (cases r1)
    case (Inl e)
    then show ?thesis using assms(2) b post by (auto simp: execute_under_guard_def)
  next
    case (Inr tj)
    obtain t j where tj: "tj = (t, j)" by fastforce
    have j: "run_journal request {(1, Applying)} j" "journal_at V w j w1" using post Inr tj by simp_all
    obtain r2 w2 where a: "apply_under_guard P (em_plan request) guard w1 = Some (r2, w2)"
      using assms(2) b Inr tj by (auto simp: execute_under_guard_def split: option.splits)
    have at: "journal_at V w j w2" by (rule apply_under_guard_at [OF a j(2)])
    show ?thesis
    proof (cases r2)
      case (Inl e)
      have "left_behind V request w (mark_recovery_required P j w2)"
        by (rule mark_left_behind [OF at j(1)]) simp_all
      then show ?thesis using assms(2) b Inr tj a Inl by (auto simp: execute_under_guard_def)
    next
      case r2: (Inr app)
      then have "conclude_mutation P request guard t j app w2 = (r, w')"
        using assms(2) b Inr tj a by (simp add: execute_under_guard_def)
      from io_postD [OF conclude_post [OF at j(1)] this] show ?thesis by (auto split: sum.splits)
    qed
  qed
qed

text \<open>The outcome of an execution.\<close>

lemma execute_outcome:
  assumes "dv_ok V w" and "execute_mutation blake3 P request w = Some (r, w')"
  shows "case r of Inl e \<Rightarrow> left_behind V request w w'
    | Inr receipt \<Rightarrow> \<exists>j. run_journal request {(3, AwaitingFinalize)} j \<and> journal_at V w j w' \<and> receipt_matches request j receipt"
proof (cases "plan_validate blake3 (em_plan request)")
  case (Inl e)
  then show ?thesis using assms by (auto simp: execute_mutation_def left_behind_def unchanged_def)
next
  case (Inr u)
  obtain g w1 where g: "port_acquire P (mp_identity (em_plan request)) w = (g, w1)" by fastforce
  have w1: "unchanged V w w1" by (rule io_postD [OF quiet_post [OF quiet_acquire assms(1)] g])
  show ?thesis
  proof (cases g)
    case (Inl e)
    then show ?thesis using assms(2) Inr g w1 by (auto simp: execute_mutation_def left_behind_def)
  next
    case g': (Inr guard)
    then obtain w2 where e: "execute_under_guard P request guard w1 = Some (r, w2)" and w': "w' = port_release P guard w2"
      using assms(2) Inr g by (auto simp: execute_mutation_def)
    note post = execute_under_guard_post [OF unchanged_ok [OF w1] e]
    have ok: "dv_ok V w2"
      using post by (auto simp: left_behind_def journal_at_def unchanged_def split: sum.splits)
    have w'': "unchanged V w2 w'" using quiet_release [OF ok] w' by simp
    have start: "dv_journals V w1 = dv_journals V w" "dv_tree V w1 = dv_tree V w" using w1 by (simp_all add: unchanged_def)
    then have at: "journal_at V w1 j x = journal_at V w j x" "left_behind V request w1 x = left_behind V request w x" for j x
      by (simp_all add: journal_at_def left_behind_def unchanged_def)
    show ?thesis
      using post left_behind_unchanged [OF _ w''] journal_at_unchanged [OF _ w''] at
      by (auto split: sum.splits)
  qed
qed

lemma execute_keeps_ok:
  assumes "dv_ok V w" and "execute_mutation blake3 P request w = Some (r, w')"
  shows "dv_ok V w'"
  using execute_outcome [OF assms]
  by (auto simp: left_behind_def journal_at_def unchanged_def split: sum.splits)

lemma apply_write_ahead:
  assumes "journal_at V w0 j w" and "run_journal request {(1, Applying)} j"
  shows "apply_under_guard (write_ahead V request P) plan guard w = apply_under_guard P plan guard w"
proof -
  obtain r1 w1 where c: "io_then (port_checkpoint P guard CpBeforeIrreversibleWrite) (\<lambda>_. port_check P BeforeMutation) w = (r1, w1)"
    by fastforce
  have "io_post (io_then (port_checkpoint P guard CpBeforeIrreversibleWrite) (\<lambda>_. port_check P BeforeMutation)) w
      (\<lambda>_ w1. journal_at V w0 j w1)"
    by (rule post_quiet_at [OF quiet_checkpoint assms(1)], simp, rule quiet_at [OF quiet_check], assumption, simp)
  then have "journal_at V w0 j w1" using c by (auto dest: io_postD)
  then have "dv_journals V w1 (journal_key request) = Some j"
    using assms(2) by (simp add: journal_at_def run_journal_def journal_key_def)
  then show ?thesis
    using c assms(2) by (simp add: apply_under_guard_def write_ahead_def split: sum.splits)
qed

lemma execute_write_ahead:
  assumes "dv_ok V w"
  shows "execute_mutation blake3 (write_ahead V request P) request w = execute_mutation blake3 P request w"
proof -
  have "execute_under_guard (write_ahead V request P) request guard w1 = execute_under_guard P request guard w1"
    if "dv_ok V w1" for guard w1
  proof -
    obtain r w2 where b: "begin_mutation P request guard w1 = (r, w2)" by fastforce
    note post = io_postD [OF begin_post [OF that] b]
    show ?thesis
      using b post apply_write_ahead [of w1 _ w2 request]
      by (cases r) (auto simp: execute_under_guard_def cong: option.case_cong sum.case_cong prod.case_cong)
  qed
  moreover have "dv_ok V w1" if "port_acquire P i w = (g, w1)" for i g w1
    using io_postD [OF quiet_post [OF quiet_acquire assms, of "\<lambda>_. dv_ok V"] that] by (simp add: unchanged_def)
  ultimately show ?thesis
    by (simp add: execute_mutation_def split: sum.splits prod.splits)
qed

lemma finalize_outcome:
  assumes "dv_ok V w" and "finalize_mutation P request w = (r, w')"
  shows "case r of
      Inr res \<Rightarrow> finalized_by V request w res w'
    | Inl e \<Rightarrow> unchanged V w w' \<or> (\<exists>j t. dv_journals V w (fm_journal_id request) = Some j
        \<and> jr_phase j = AwaitingFinalize \<and> jr_plan_digest j = fm_plan_digest request
        \<and> journalled V (advanced j Finalized t) w w')"
  (is "?Q r w'")
proof -
  obtain x w1 where l: "port_load P (fm_journal_id request) w = (x, w1)" by fastforce
  have w1: "unchanged V w w1" by (rule io_postD [OF quiet_post [OF quiet_load assms(1)] l])
  show ?thesis
  proof (cases "\<exists>j. x = Inr (Some j) \<and> jr_plan_digest j = fm_plan_digest request \<and> jr_phase j = AwaitingFinalize")
    case True
    then obtain j where j: "x = Inr (Some j)" "jr_plan_digest j = fm_plan_digest request" "jr_phase j = AwaitingFinalize" by blast
    have look: "dv_journals V w (fm_journal_id request) = Some j" using load [OF assms(1)] l j(1) by simp
    note jid = journal_ids [OF assms(1) look]
    define Q where "Q = ?Q"
    have post: "io_post (io_then (port_now P) (\<lambda>finalized_at.
       io_then (advance_journal P j Finalized finalized_at) (\<lambda>journal.
       io_ok \<lparr> fr_journal_id = jr_id journal, fr_finalized_at_unix_ms = finalized_at \<rparr>))) w1 Q"
    proof (rule post_quiet_from [OF quiet_now assms(1) w1], goal_cases)
      case (1 e w')
      then show ?case by (simp add: Q_def)
    next
      case (2 t w2)
      have lift: "journalled V k w w'" if "journalled V k w2 w'" for k w'
        using that 2 by (simp add: journalled_def unchanged_def)
      show ?case
      proof (rule post_thenI, rule advance_post [OF unchanged_ok [OF 2]], goal_cases)
        case (1 w')
        then show ?case using look j jid lift by (auto simp: Q_def finalized_by_def)
      next
        case (2 e w')
        then show ?case using look j lift unchanged_trans [OF \<open>unchanged V w w2\<close>] by (auto simp: Q_def)
      qed
    qed
    have "finalize_mutation P request w = io_then (port_now P) (\<lambda>finalized_at.
       io_then (advance_journal P j Finalized finalized_at) (\<lambda>journal.
       io_ok \<lparr> fr_journal_id = jr_id journal, fr_finalized_at_unix_ms = finalized_at \<rparr>)) w1"
      using l j by (simp add: finalize_mutation_def)
    then have "Q r w'" using io_postD [OF post] assms(2) by simp
    then show ?thesis by (simp add: Q_def)
  next
    case False
    show ?thesis
    proof (cases "\<exists>j. x = Inr (Some j) \<and> jr_plan_digest j = fm_plan_digest request \<and> jr_phase j = Finalized")
      case True
      then obtain j where j: "x = Inr (Some j)" "jr_plan_digest j = fm_plan_digest request" "jr_phase j = Finalized" by blast
      have look: "dv_journals V w (fm_journal_id request) = Some j" using load [OF assms(1)] l j(1) by simp
      then show ?thesis
        using l j assms(2) w1 journal_ids [OF assms(1) look] by (auto simp: finalize_mutation_def finalized_by_def)
    next
      case nf: False
      have "\<exists>e. r = Inl e \<and> w' = w1"
      proof (cases x)
        case (Inl e)
        then show ?thesis using assms(2) l by (auto simp: finalize_mutation_def)
      next
        case (Inr found)
        then show ?thesis
          using assms(2) l False nf by (cases found) (auto simp: finalize_mutation_def split: if_splits)
      qed
      then show ?thesis using w1 by auto
    qed
  qed
qed

end

end
