(* ===== verification/Adapters.thy ===== *)
theory Adapters
  imports JournalRuns
begin

text \<open>
  Adapters of the engine's ports: the in-memory stores of \<open>fs/memory.rs\<close> (objects, worktree,
  journals, clock, failure injection), the stream copy of \<open>fs/objects.rs\<close>, and the local lock manager
  of \<open>fs/local.rs\<close>.  The locks that guard the maps are never poisoned in the model.  Together they
  make up one world in which plans are executed.
\<close>

section \<open>Copying a stream\<close>

text \<open>
  A source is the list of its successive non-empty reads; a failing read is an error and ends
  the stream.
\<close>

type_synonym read_source = "(io_error + byte list) list"

definition io_to_engine :: "io_error \<Rightarrow> error_code" where
  "io_to_engine e = EcIo"

definition copy_step ::
  "object_spec \<Rightarrow> error_code \<Rightarrow> u64 \<times> byte list \<Rightarrow> io_error + byte list \<Rightarrow> (u64 \<times> byte list) engine_result" where
  "copy_step expected mismatch_code st r =
     (case st of (sofar, target) \<Rightarrow>
      and_then (map_err io_to_engine r) (\<lambda>bytes.
      and_then (ok_or EcInternal (u64_try_from (length bytes))) (\<lambda>n.
      and_then (ok_or EcInvalidArgument (checked_add sofar n)) (\<lambda>sofar.
      if sofar > os_size expected then Inl mismatch_code
      else Inr (sofar, target @ bytes)))))"

definition copy_and_hash_exact ::
  "(byte list \<Rightarrow> content_digest) \<Rightarrow> read_source \<Rightarrow> object_spec \<Rightarrow> error_code \<Rightarrow> byte list engine_result" where
  "copy_and_hash_exact blake3 source expected mismatch_code =
     and_then (try_fold (copy_step expected mismatch_code) (0, []) source) (\<lambda>(sofar, target).
     if sofar \<noteq> os_size expected \<or> ObjectId (blake3 target) \<noteq> os_id expected
     then Inl mismatch_code else Inr target)"

text \<open>Reads of a \<open>Cursor\<close> into the copy buffer.\<close>

function cursor_reads :: "byte list \<Rightarrow> read_source" where
  "cursor_reads bs = (if bs = [] then [] else Inr (take 65536 bs) # cursor_reads (drop 65536 bs))"
  by pat_completeness auto
termination
  by (relation "measure length") auto

declare cursor_reads.simps [simp del]

section \<open>Objects\<close>

type_synonym memory_object_store = "(object_id, byte list) btree_map"

definition verify_bytes :: "(byte list \<Rightarrow> content_digest) \<Rightarrow> byte list \<Rightarrow> object_spec \<Rightarrow> unit engine_result" where
  "verify_bytes blake3 bytes expected =
     (if length bytes \<noteq> unat (os_size expected) \<or> object_id_for_bytes blake3 bytes \<noteq> os_id expected
      then Inl EcObjectCorrupt else Inr ())"

text \<open>
  The store is not locked while the stream is copied; \<open>others\<close> is what other threads do to it
  in the meantime.
\<close>

definition memory_put_from ::
  "(byte list \<Rightarrow> content_digest) \<Rightarrow> (memory_object_store \<Rightarrow> memory_object_store) \<Rightarrow> object_spec \<Rightarrow> read_source
   \<Rightarrow> (memory_object_store, object_put_outcome) engine_io" where
  "memory_put_from blake3 others expected source objects =
     (case bt_get objects (os_id expected) of
        Some existing \<Rightarrow> (and_then (verify_bytes blake3 existing expected) (\<lambda>_. Inr AlreadyPresent), objects)
      | None \<Rightarrow>
          (case copy_and_hash_exact blake3 source expected EcInvalidArgument of
             Inl e \<Rightarrow> (Inl e, others objects)
           | Inr bytes \<Rightarrow>
               let objects = others objects in
               (case bt_get objects (os_id expected) of
                  None \<Rightarrow> (Inr Created, bt_insert (os_id expected) bytes objects)
                | Some existing \<Rightarrow> (and_then (verify_bytes blake3 existing expected) (\<lambda>_. Inr AlreadyPresent), objects))))"

definition read_to_end :: "read_source \<Rightarrow> io_error + byte list" where
  "read_to_end source = try_fold (\<lambda>acc r. and_then r (\<lambda>bytes. Inr (acc @ bytes))) [] source"

definition memory_put_content_addressed ::
  "(byte list \<Rightarrow> content_digest) \<Rightarrow> (memory_object_store \<Rightarrow> memory_object_store) \<Rightarrow> read_source
   \<Rightarrow> (memory_object_store, content_addressed_object) engine_io" where
  "memory_put_content_addressed blake3 others source =
     io_then (io_of (map_err io_to_engine (read_to_end source))) (\<lambda>bytes.
     io_then (io_of (ok_or EcInvalidArgument (u64_try_from (length bytes)))) (\<lambda>size.
     let spec = \<lparr> os_id = object_id_for_bytes blake3 bytes, os_size = size \<rparr> in
     io_then (memory_put_from blake3 others spec (cursor_reads bytes)) (\<lambda>outcome.
     io_ok \<lparr> cao_spec = spec, cao_outcome = outcome \<rparr>)))"

definition memory_copy_to ::
  "(byte list \<Rightarrow> content_digest) \<Rightarrow> memory_object_store \<Rightarrow> object_spec \<Rightarrow> byte list engine_result" where
  "memory_copy_to blake3 objects expected =
     and_then (ok_or EcObjectMissing (bt_get objects (os_id expected))) (\<lambda>bytes.
     and_then (verify_bytes blake3 bytes expected) (\<lambda>_. Inr bytes))"

definition memory_object_metadata :: "object_id \<Rightarrow> byte list \<Rightarrow> object_metadata engine_result" where
  "memory_object_metadata i bytes =
     and_then (ok_or EcInternal (u64_try_from (length bytes))) (\<lambda>size. Inr \<lparr> om_id = i, om_size = size \<rparr>)"

definition memory_stat :: "memory_object_store \<Rightarrow> object_id \<Rightarrow> object_metadata option engine_result" where
  "memory_stat objects i =
     (case bt_get objects i of
        None \<Rightarrow> Inr None
      | Some bytes \<Rightarrow> and_then (memory_object_metadata i bytes) (\<lambda>m. Inr (Some m)))"

definition memory_list_page ::
  "(string \<Rightarrow> content_digest option) \<Rightarrow> memory_object_store \<Rightarrow> page_request \<Rightarrow> object_page engine_result" where
  "memory_list_page from_hex objects request =
     and_then (page_request_validate request) (\<lambda>_.
     and_then (case pr_after request of
                 None \<Rightarrow> Inr None
               | Some cursor \<Rightarrow> and_then (from_validation (digest_from_str from_hex (cursor_str cursor))) (\<lambda>d. Inr (Some (ObjectId d)))) (\<lambda>after.
     let selected = filter (\<lambda>(i, _). case after of None \<Rightarrow> True | Some a \<Rightarrow> i > a) objects;
         limit = unat (pr_limit request) in
     and_then (try_fold (\<lambda>acc (i, bytes). and_then (memory_object_metadata i bytes) (\<lambda>m. Inr (acc @ [m]))) [] (take limit selected)) (\<lambda>page.
     and_then (if drop limit selected = [] \<or> page = [] then Inr None
               else and_then (page_cursor_new (digest_to_hex (object_digest (om_id (last page))))) (\<lambda>c. Inr (Some c))) (\<lambda>nx.
     Inr \<lparr> op_objects = page, op_next = nx \<rparr>))))"

definition memory_remove_object :: "object_id \<Rightarrow> (memory_object_store, bool) engine_io" where
  "memory_remove_object i objects = (Inr (bt_contains objects i), bt_remove i objects)"

section \<open>Worktree\<close>

record memory_worktree =
  mw_files :: "(logical_path, byte list) btree_map"
  mw_directories :: "logical_path btree_set"

lemma path_parent_shorter: "path_parent p = Some q \<Longrightarrow> length (path_components q) < length (path_components p)"
  by (simp add: path_components_parent)

function add_parent_directories :: "logical_path btree_set \<Rightarrow> logical_path \<Rightarrow> logical_path btree_set" where
  "add_parent_directories directories path =
     (case path_parent path of
        None \<Rightarrow> directories
      | Some parent \<Rightarrow> add_parent_directories (bts_insert parent directories) parent)"
  by pat_completeness auto
termination
  by (relation "measure (\<lambda>(_, p). length (path_components p))") (auto dest: path_parent_shorter)

declare add_parent_directories.simps [simp del]

definition memory_insert_file :: "memory_worktree \<Rightarrow> logical_path \<Rightarrow> byte list \<Rightarrow> memory_worktree" where
  "memory_insert_file t path bytes =
     \<lparr> mw_files = bt_insert path bytes (mw_files t),
       mw_directories = add_parent_directories (mw_directories t) path \<rparr>"

definition memory_file_entry ::
  "(byte list \<Rightarrow> content_digest) \<Rightarrow> logical_path \<Rightarrow> byte list \<Rightarrow> worktree_entry engine_result" where
  "memory_file_entry blake3 path bytes =
     and_then (ok_or EcInternal (u64_try_from (length bytes))) (\<lambda>size.
     Inr \<lparr> we_path = path, we_kind = WtFile,
           we_fingerprint = Some \<lparr> fp_size = size, fp_modified_unix_nanos = None,
             fp_identity = Some (digest_to_hex (object_digest (object_id_for_bytes blake3 bytes))) \<rparr> \<rparr>)"

definition memory_inspect ::
  "(byte list \<Rightarrow> content_digest) \<Rightarrow> memory_worktree \<Rightarrow> logical_path \<Rightarrow> worktree_entry option engine_result" where
  "memory_inspect blake3 t path =
     (case bt_get (mw_files t) path of
        Some bytes \<Rightarrow> and_then (memory_file_entry blake3 path bytes) (\<lambda>e. Inr (Some e))
      | None \<Rightarrow> Inr (if path \<in> set (mw_directories t)
                     then Some \<lparr> we_path = path, we_kind = WtDirectory, we_fingerprint = None \<rparr> else None))"

fun scope_contains :: "path_scope \<Rightarrow> logical_path \<Rightarrow> bool" where
  "scope_contains ScopeRoot path = True"
| "scope_contains (ScopePath scope) path = (scope = path \<or> is_ancestor_of scope path)"

text \<open>
  A scan hands its entries to a visitor in order and ends with the first error, its own or the
  visitor's.  It is represented by the sequence of entries, possibly with an error among them, and
  the visitor's calls are \<open>visit_entries\<close>.
\<close>

definition visit_entries ::
  "('s \<Rightarrow> worktree_entry \<Rightarrow> ('w, 's) engine_io) \<Rightarrow> 's \<Rightarrow> worktree_entry engine_result list \<Rightarrow> ('w, 's) engine_io" where
  "visit_entries visitor = io_fold (\<lambda>s r. io_then (io_of r) (visitor s))"

definition memory_scan_worktree ::
  "(byte list \<Rightarrow> content_digest) \<Rightarrow> memory_worktree \<Rightarrow> path_scope list \<Rightarrow> worktree_entry engine_result list" where
  "memory_scan_worktree blake3 t scopes =
     map (\<lambda>(path, bytes). memory_file_entry blake3 path bytes)
       (filter (\<lambda>(path, _). list_ex (\<lambda>scope. scope_contains scope path) scopes) (mw_files t))"

definition memory_open_file :: "memory_worktree \<Rightarrow> logical_path \<Rightarrow> byte list engine_result" where
  "memory_open_file t path = ok_or EcResourceNotFound (bt_get (mw_files t) path)"

definition memory_create_dir_all :: "logical_path \<Rightarrow> (memory_worktree, unit) engine_io" where
  "memory_create_dir_all path t =
     (if bt_contains (mw_files t) path then (Inl EcAlreadyExists, t)
      else (Inr (), t \<lparr> mw_directories := bts_insert path (add_parent_directories (mw_directories t) path) \<rparr>))"

text \<open>A \<open>usize\<close> has 64 bits, so every size fits.\<close>

definition read_exact_size :: "io_error + byte list \<Rightarrow> u64 \<Rightarrow> byte list engine_result" where
  "read_exact_size source expected_size =
     and_then (map_err io_to_engine source) (\<lambda>bytes.
     if length bytes \<noteq> unat expected_size then Inl EcWorktreeChangedDuringScan else Inr bytes)"

definition memory_write_file_atomic ::
  "logical_path \<Rightarrow> u64 \<Rightarrow> io_error + byte list \<Rightarrow> (memory_worktree, unit) engine_io" where
  "memory_write_file_atomic path expected_size source t =
     (case read_exact_size source expected_size of
        Inl e \<Rightarrow> (Inl e, t)
      | Inr bytes \<Rightarrow>
          if bt_contains (mw_files t) path \<or> path \<in> set (mw_directories t) then (Inl EcAlreadyExists, t)
          else (Inr (), memory_insert_file t path bytes))"

definition memory_remove_file :: "logical_path \<Rightarrow> (memory_worktree, bool) engine_io" where
  "memory_remove_file path t =
     (Inr (bt_contains (mw_files t) path), t \<lparr> mw_files := bt_remove path (mw_files t) \<rparr>)"

definition memory_rename_no_replace :: "logical_path \<Rightarrow> logical_path \<Rightarrow> (memory_worktree, unit) engine_io" where
  "memory_rename_no_replace source destination t =
     (if bt_contains (mw_files t) destination \<or> destination \<in> set (mw_directories t) then (Inl EcAlreadyExists, t)
      else
        (case bt_get (mw_files t) source of
           None \<Rightarrow> (Inl EcResourceNotFound, t)
         | Some bytes \<Rightarrow>
             (Inr (), memory_insert_file (t \<lparr> mw_files := bt_remove source (mw_files t) \<rparr>) destination bytes)))"

section \<open>Journals\<close>

type_synonym memory_journal_store = "(journal_id, journal_record) btree_map"

definition memory_journal_create :: "journal_record \<Rightarrow> (memory_journal_store, unit) engine_io" where
  "memory_journal_create journal journals =
     (case journal_record_validate journal of
        Inl e \<Rightarrow> (Inl e, journals)
      | Inr _ \<Rightarrow>
          if jr_revision journal \<noteq> 0 then (Inl EcInvalidArgument, journals)
          else if bt_contains journals (jr_id journal) then (Inl EcAlreadyExists, journals)
          else (Inr (), bt_insert (jr_id journal) journal journals))"

definition memory_journal_load :: "memory_journal_store \<Rightarrow> journal_id \<Rightarrow> journal_record option engine_result" where
  "memory_journal_load journals jid = and_then (journal_id_validate jid) (\<lambda>_. Inr (bt_get journals jid))"

definition memory_journal_compare_exchange :: "u64 \<Rightarrow> journal_record \<Rightarrow> (memory_journal_store, unit) engine_io" where
  "memory_journal_compare_exchange expected_revision journal journals =
     (case bt_get journals (jr_id journal) of
        None \<Rightarrow> (Inl EcResourceNotFound, journals)
      | Some existing \<Rightarrow>
          if jr_revision existing \<noteq> expected_revision then (Inl EcConflict, journals)
          else
            (case validate_successor journal existing of
               Inl e \<Rightarrow> (Inl e, journals)
             | Inr _ \<Rightarrow> (Inr (), bt_insert (jr_id journal) journal journals)))"

definition memory_journal_list_active :: "memory_journal_store \<Rightarrow> journal_record list" where
  "memory_journal_list_active journals = filter (\<lambda>j. phase_is_active (jr_phase j)) (bt_values journals)"

definition memory_journal_remove :: "journal_id \<Rightarrow> (memory_journal_store, bool) engine_io" where
  "memory_journal_remove jid journals =
     (case journal_id_validate jid of
        Inl e \<Rightarrow> (Inl e, journals)
      | Inr _ \<Rightarrow> (Inr (bt_contains journals jid), bt_remove jid journals))"

section \<open>Clock, failure injection and locks\<close>

type_synonym fixed_clock = u64

definition fixed_clock_now :: "fixed_clock \<Rightarrow> u64 engine_result" where
  "fixed_clock_now clock = Inr clock"

definition fixed_clock_set :: "fixed_clock \<Rightarrow> u64 \<Rightarrow> fixed_clock" where
  "fixed_clock_set clock now_unix_ms = now_unix_ms"

type_synonym armed_points = "failure_point set"

definition injector_arm :: "armed_points \<Rightarrow> failure_point \<Rightarrow> armed_points" where
  "injector_arm armed point = insert point armed"

definition injector_check :: "failure_point \<Rightarrow> (armed_points, unit) engine_io" where
  "injector_check point armed =
     (if point \<in> armed then (Inl EcInjectedFailure, armed - {point}) else (Inr (), armed))"

text \<open>
  The directory of lock files: what \<open>symlink_metadata\<close> reports for it, the identity recorded when it
  was opened, and the files that are locked.
\<close>

datatype root_status = RootUnreadable | RootNotDirectory | RootDirectory u64 u64

record local_lock_manager =
  lm_device :: u64
  lm_inode :: u64
  lm_status :: root_status
  lm_locked :: "content_digest list"

definition verify_identity :: "local_lock_manager \<Rightarrow> unit engine_result" where
  "verify_identity m =
     (case lm_status m of
        RootUnreadable \<Rightarrow> Inl EcIo
      | RootNotDirectory \<Rightarrow> Inl EcFenceRejected
      | RootDirectory device inode \<Rightarrow>
          if device \<noteq> lm_device m \<or> inode \<noteq> lm_inode m then Inl EcFenceRejected else Inr ())"

definition lock_path :: "(byte list \<Rightarrow> content_digest) \<Rightarrow> mutation_identity \<Rightarrow> content_digest" where
  "lock_path blake3 identity =
     blake3 (str_bytes (id_tenant_id identity @ [CHR 0x00] @ id_artifact_id identity @ [CHR 0x00] @ id_workspace_id identity))"

definition lock_acquire ::
  "(byte list \<Rightarrow> content_digest) \<Rightarrow> mutation_identity \<Rightarrow> (local_lock_manager, mutation_identity) engine_io" where
  "lock_acquire blake3 identity m =
     (case and_then (mutation_identity_validate identity) (\<lambda>_. verify_identity m) of
        Inl e \<Rightarrow> (Inl e, m)
      | Inr _ \<Rightarrow>
          if lock_path blake3 identity \<in> set (lm_locked m) then (Inl EcConflict, m)
          else (Inr identity, m \<lparr> lm_locked := lock_path blake3 identity # lm_locked m \<rparr>))"

text \<open>Dropping the guard closes the file and gives the lock up.\<close>

definition lock_release ::
  "(byte list \<Rightarrow> content_digest) \<Rightarrow> mutation_identity \<Rightarrow> local_lock_manager \<Rightarrow> local_lock_manager" where
  "lock_release blake3 identity m = m \<lparr> lm_locked := removeAll (lock_path blake3 identity) (lm_locked m) \<rparr>"

definition guard_checkpoint :: "local_lock_manager \<Rightarrow> mutation_checkpoint \<Rightarrow> unit engine_result" where
  "guard_checkpoint m checkpoint = verify_identity m"

section \<open>A world of memory adapters\<close>

record memory_world =
  w_journals :: memory_journal_store
  w_tree :: memory_worktree
  w_objects :: memory_object_store
  w_catalog :: memory_catalog
  w_clock :: fixed_clock
  w_armed :: armed_points
  w_locks :: local_lock_manager

definition on_journals :: "(memory_journal_store, 'a) engine_io \<Rightarrow> (memory_world, 'a) engine_io" where
  "on_journals m w = (case m (w_journals w) of (r, s) \<Rightarrow> (r, w \<lparr> w_journals := s \<rparr>))"

definition on_tree :: "(memory_worktree, 'a) engine_io \<Rightarrow> (memory_world, 'a) engine_io" where
  "on_tree m w = (case m (w_tree w) of (r, s) \<Rightarrow> (r, w \<lparr> w_tree := s \<rparr>))"

definition on_armed :: "(armed_points, 'a) engine_io \<Rightarrow> (memory_world, 'a) engine_io" where
  "on_armed m w = (case m (w_armed w) of (r, s) \<Rightarrow> (r, w \<lparr> w_armed := s \<rparr>))"

definition on_locks :: "(local_lock_manager, 'a) engine_io \<Rightarrow> (memory_world, 'a) engine_io" where
  "on_locks m w = (case m (w_locks w) of (r, s) \<Rightarrow> (r, w \<lparr> w_locks := s \<rparr>))"

definition noop_emit :: "progress_event \<Rightarrow> ('w, unit) engine_io" where
  "noop_emit event w = (Inr (), w)"

definition memory_worktree_ports :: "(byte list \<Rightarrow> content_digest) \<Rightarrow> memory_world worktree_ports" where
  "memory_worktree_ports blake3 =
     \<lparr> wt_create_dir_all = (\<lambda>path. on_tree (memory_create_dir_all path)),
       wt_write_file_atomic = (\<lambda>path size source. on_tree (memory_write_file_atomic path size source)),
       wt_remove_file = (\<lambda>path. on_tree (memory_remove_file path)),
       wt_get_manifest = (\<lambda>w. memory_catalog_get_manifest (w_catalog w)),
       wt_scan_manifest_chunks = (\<lambda>w. memory_catalog_scan_manifest_chunks (w_catalog w)),
       wt_copy_to = (\<lambda>w. memory_copy_to blake3 (w_objects w)),
       wt_emit = noop_emit,
       wt_check = (\<lambda>point. on_armed (injector_check point)) \<rparr>"

definition memory_ports :: "(byte list \<Rightarrow> content_digest) \<Rightarrow> memory_world mutation_ports" where
  "memory_ports blake3 =
     \<lparr> port_acquire = (\<lambda>i. on_locks (lock_acquire blake3 i)),
       port_release = (\<lambda>i w. w \<lparr> w_locks := lock_release blake3 i (w_locks w) \<rparr>),
       port_checkpoint = (\<lambda>i c w. (guard_checkpoint (w_locks w) c, w)),
       port_now = (\<lambda>w. (fixed_clock_now (w_clock w), w)),
       port_emit = noop_emit,
       port_check = (\<lambda>point. on_armed (injector_check point)),
       port_create = (\<lambda>j. on_journals (memory_journal_create j)),
       port_load = (\<lambda>jid w. (memory_journal_load (w_journals w) jid, w)),
       port_compare_exchange = (\<lambda>revision j. on_journals (memory_journal_compare_exchange revision j)),
       port_apply_mutation = apply_worktree_actions blake3 (memory_worktree_ports blake3) \<rparr>"

section \<open>The world satisfies the contract of the ports\<close>

definition journals_ok :: "memory_journal_store \<Rightarrow> bool" where
  "journals_ok s \<longleftrightarrow> bt_ok s \<and> (\<forall>(k, j) \<in> set s. jr_id j = k)"

definition memory_view :: "(memory_world, memory_worktree \<times> memory_object_store \<times> memory_catalog) durable_view" where
  "memory_view = \<lparr> dv_journals = (\<lambda>w. bt_get (w_journals w)), dv_tree = (\<lambda>w. (w_tree w, w_objects w, w_catalog w)), dv_ok = (\<lambda>w. journals_ok (w_journals w)) \<rparr>"

lemma memory_view_simps [simp]:
  "dv_journals memory_view w = bt_get (w_journals w)" "dv_tree memory_view w = (w_tree w, w_objects w, w_catalog w)"
  "dv_ok memory_view w = journals_ok (w_journals w)"
  by (simp_all add: memory_view_def)

lemma journals_ok_id: "journals_ok s \<Longrightarrow> bt_get s k = Some j \<Longrightarrow> jr_id j = k"
  by (auto simp: journals_ok_def bt_get_iff)

lemma journals_ok_insert: "journals_ok s \<Longrightarrow> journals_ok (bt_insert (jr_id j) j s)"
  using set_bt_insert_subset [of "jr_id j" j s] by (auto simp: journals_ok_def)

lemma journals_ok_bt: "journals_ok s \<Longrightarrow> bt_ok s"
  by (simp add: journals_ok_def)

lemma memory_quiet:
  "quiet memory_view (on_locks m)" "quiet memory_view (on_armed n)" "quiet memory_view (\<lambda>w. (f w, w))"
  "quiet memory_view (noop_emit e)"
  by (simp_all add: quiet_def io_post_def unchanged_def on_locks_def on_armed_def noop_emit_def split: prod.splits)

lemma memory_create_ok:
  assumes "journals_ok s" and "memory_journal_create j s = (Inr u, s')"
  shows "bt_get s (jr_id j) = None \<and> bt_get s' = (bt_get s)(jr_id j \<mapsto> j) \<and> journals_ok s'"
  using assms journals_ok_insert [OF assms(1), of j] journals_ok_bt [OF assms(1)]
  by (cases "journal_record_validate j")
     (auto simp: memory_journal_create_def bt_get_None_iff split: if_splits)

lemma memory_create_err: "memory_journal_create j s = (Inl e, s') \<Longrightarrow> s' = s"
  by (cases "journal_record_validate j") (auto simp: memory_journal_create_def split: if_splits)

lemma memory_cas_ok:
  assumes "journals_ok s" and "memory_journal_compare_exchange revision j s = (Inr u, s')"
  shows "(\<exists>old. bt_get s (jr_id j) = Some old \<and> jr_revision old = revision \<and> validate_successor j old = Inr ())
      \<and> bt_get s' = (bt_get s)(jr_id j \<mapsto> j) \<and> journals_ok s'"
proof -
  obtain old where "bt_get s (jr_id j) = Some old"
    using assms(2) by (cases "bt_get s (jr_id j)") (auto simp: memory_journal_compare_exchange_def)
  then show ?thesis
    using assms journals_ok_insert [OF assms(1), of j] journals_ok_bt [OF assms(1)]
    by (cases "validate_successor j old") (auto simp: memory_journal_compare_exchange_def split: if_splits)
qed

lemma memory_cas_err: "memory_journal_compare_exchange revision j s = (Inl e, s') \<Longrightarrow> s' = s"
  by (auto simp: memory_journal_compare_exchange_def split: option.splits sum.splits if_splits)

text \<open>Applying actions leaves everything but the worktree and the armed failure points alone.\<close>

definition same_stores :: "memory_world \<Rightarrow> memory_world \<Rightarrow> bool" where
  "same_stores w w' \<longleftrightarrow> w_journals w' = w_journals w \<and> w_objects w' = w_objects w \<and> w_catalog w' = w_catalog w
     \<and> w_clock w' = w_clock w \<and> w_locks w' = w_locks w"

lemma same_stores_refl [simp]: "same_stores w w"
  by (simp add: same_stores_def)

lemma same_stores_trans: "same_stores a b \<Longrightarrow> same_stores b c \<Longrightarrow> same_stores a c"
  by (simp add: same_stores_def)

lemma same_stores_ports:
  "on_tree m w = (r, w') \<Longrightarrow> same_stores w w'"
  "on_armed n w = (s, w') \<Longrightarrow> same_stores w w'"
  "noop_emit e w = (t, w') \<Longrightarrow> same_stores w w'"
  by (auto simp: same_stores_def on_tree_def on_armed_def noop_emit_def split: prod.splits)

lemma memory_wt_simps [simp]:
  "wt_create_dir_all (memory_worktree_ports blake3) path = on_tree (memory_create_dir_all path)"
  "wt_write_file_atomic (memory_worktree_ports blake3) path sz source = on_tree (memory_write_file_atomic path sz source)"
  "wt_remove_file (memory_worktree_ports blake3) path = on_tree (memory_remove_file path)"
  "wt_get_manifest (memory_worktree_ports blake3) w = memory_catalog_get_manifest (w_catalog w)"
  "wt_scan_manifest_chunks (memory_worktree_ports blake3) w = memory_catalog_scan_manifest_chunks (w_catalog w)"
  "wt_copy_to (memory_worktree_ports blake3) w = memory_copy_to blake3 (w_objects w)"
  "wt_emit (memory_worktree_ports blake3) = noop_emit"
  "wt_check (memory_worktree_ports blake3) point = on_armed (injector_check point)"
  by (simp_all add: memory_worktree_ports_def)

lemma io_then_same_stores:
  assumes "io_then m f w = (r, w')" and "\<And>r w'. m w = (r, w') \<Longrightarrow> same_stores w w'"
    and "\<And>a v r v'. f a v = (r, v') \<Longrightarrow> same_stores v v'"
  shows "same_stores w w'"
proof (cases "m w")
  case (Pair r1 w1)
  then show ?thesis using assms same_stores_trans by (cases r1) (force simp: io_then_def)+
qed

lemma apply_action_stores:
  "apply_action blake3 (memory_worktree_ports blake3) written a w = Some (r, w') \<Longrightarrow> same_stores w w'"
proof (cases a)
  case (CreateDirectory path)
  assume "apply_action blake3 (memory_worktree_ports blake3) written a w = Some (r, w')"
  then show ?thesis using CreateDirectory
    by (auto elim!: io_then_same_stores intro: same_stores_ports)
next
  case (WriteFile path mid sz)
  assume "apply_action blake3 (memory_worktree_ports blake3) written a w = Some (r, w')"
  then show ?thesis using WriteFile
    by (auto simp: Let_def split: option.splits sum.splits if_splits elim!: io_then_same_stores intro: same_stores_ports)
next
  case (RemoveFile path)
  assume "apply_action blake3 (memory_worktree_ports blake3) written a w = Some (r, w')"
  then show ?thesis using RemoveFile
    by (auto elim!: io_then_same_stores intro: same_stores_ports split: if_splits)
qed

lemma apply_actions_stores:
  "apply_actions blake3 (memory_worktree_ports blake3) total_actions applied written as w = Some (r, w') \<Longrightarrow> same_stores w w'"
proof (induction as arbitrary: applied written w)
  case (Cons a as)
  obtain r1 w1 where c: "on_armed (injector_check BeforeMutation) w = (r1, w1)" by fastforce
  note w1 = same_stores_ports(2) [OF c]
  show ?case
  proof (cases r1)
    case (Inl e)
    then show ?thesis using Cons.prems c w1 by auto
  next
    case (Inr u)
    then obtain r2 w2 where a: "apply_action blake3 (memory_worktree_ports blake3) written a w1 = Some (r2, w2)"
      using Cons.prems c by (auto split: option.splits)
    note w2 = same_stores_trans [OF w1 apply_action_stores [OF a]]
    show ?thesis
      using Cons.prems c Inr a w2 Cons.IH same_stores_trans [OF w2]
      by (cases r2; cases "checked_add applied 1") (auto simp: noop_emit_def io_then_def)
  qed
qed auto

interpretation memory: mutation_env "memory_ports blake3" memory_view
proof
  fix w w' :: memory_world and r plan
  assume ok: "dv_ok memory_view w"
    and ap: "port_apply_mutation (memory_ports blake3) plan w = Some (r, w')"
  have "same_stores w w'"
    using ap apply_actions_stores by (auto simp: memory_ports_def apply_worktree_actions_def split: option.splits)
  then show "dv_journals memory_view w' = dv_journals memory_view w \<and> dv_ok memory_view w'"
    using ok by (simp add: same_stores_def)
next
  fix w w' :: memory_world and j e revision
  assume ok: "dv_ok memory_view w"
  then have ok': "journals_ok (w_journals w)" by simp
  show "dv_journals memory_view w (jr_id j) = None \<and> journalled memory_view j w w'"
    if "port_create (memory_ports blake3) j w = (Inr (), w')"
    using that memory_create_ok [OF ok', of j "()"]
    by (auto simp: memory_ports_def on_journals_def journalled_def split: prod.splits)
  show "unchanged memory_view w w' \<or> dv_journals memory_view w (jr_id j) = None \<and> journalled memory_view j w w'"
    if "port_create (memory_ports blake3) j w = (Inl e, w')"
    using that memory_create_err [of j "w_journals w" e] ok'
    by (auto simp: memory_ports_def on_journals_def unchanged_def split: prod.splits)
  show "\<exists>old. dv_journals memory_view w (jr_id j) = Some old \<and> jr_revision old = revision
        \<and> validate_successor j old = Inr () \<and> journalled memory_view j w w'"
    if "port_compare_exchange (memory_ports blake3) revision j w = (Inr (), w')"
    using that memory_cas_ok [OF ok', of revision j "()"]
    by (auto simp: memory_ports_def on_journals_def journalled_def split: prod.splits)
  show "unchanged memory_view w w' \<or> (\<exists>old. dv_journals memory_view w (jr_id j) = Some old
        \<and> jr_revision old = revision \<and> validate_successor j old = Inr () \<and> journalled memory_view j w w')"
    if "port_compare_exchange (memory_ports blake3) revision j w = (Inl e, w')"
    using that memory_cas_err [of revision j "w_journals w" e] ok'
    by (auto simp: memory_ports_def on_journals_def unchanged_def split: prod.splits)
qed (auto simp: memory_ports_def memory_quiet unchanged_def memory_journal_load_def journals_ok_id)

section \<open>Objects\<close>

lemma read_fold:
  "try_fold (\<lambda>acc r. and_then r (\<lambda>bytes. Inr (acc @ bytes))) acc rs = Inr bs \<longleftrightarrow>
     (\<exists>cs. read_to_end rs = Inr cs \<and> bs = acc @ cs)"
proof -
  have "try_fold (\<lambda>acc r. and_then r (\<lambda>bytes. Inr (acc @ bytes))) acc rs =
      and_then (read_to_end rs) (\<lambda>cs. Inr (acc @ cs))" for acc
    unfolding read_to_end_def
  proof (induction rs arbitrary: acc)
    case (Cons r rs)
    show ?case
    proof (cases r)
      case (Inr b)
      show ?thesis using Cons [of "acc @ b"] Cons [of b] Inr
        by (simp add: and_then_assoc)
    qed simp
  qed simp
  then show ?thesis by auto
qed

lemma read_to_end_simps [simp]:
  "read_to_end [] = Inr []"
  "read_to_end (Inr b # rs) = Inr bs \<longleftrightarrow> (\<exists>cs. read_to_end rs = Inr cs \<and> bs = b @ cs)"
  "read_to_end (Inl e # rs) = Inl e"
  using read_fold [of b rs bs] by (simp_all add: read_to_end_def)

lemma copy_step_iff:
  "copy_step expected code (s, t) (Inr b) = Inr (s', t') \<longleftrightarrow>
     unat s' = unat s + length b \<and> s' \<le> os_size expected \<and> t' = t @ b"
proof -
  have "(\<exists>n. u64_try_from (length b) = Some n \<and> checked_add s n = Some s') \<longleftrightarrow> unat s' = unat s + length b"
  proof
    assume eq: "unat s' = unat s + length b"
    then have "length b < 2 ^ 64" using unat_u64_bound [of s'] by linarith
    then have "u64_try_from (length b) = Some (of_nat (length b))" by (simp add: u64_try_from_def)
    then show "\<exists>n. u64_try_from (length b) = Some n \<and> checked_add s n = Some s'"
      using eq by (auto simp: u64_try_from_eq_Some checked_add_eq_Some)
  qed (auto simp: u64_try_from_eq_Some checked_add_eq_Some)
  then show ?thesis by (auto simp: copy_step_def not_less split: if_splits)
qed

lemma copy_fold:
  "try_fold (copy_step expected code) (s, t) source = Inr (s', t') \<longleftrightarrow>
     (\<exists>bs. read_to_end source = Inr bs \<and> t' = t @ bs \<and> unat s' = unat s + length bs
        \<and> (source \<noteq> [] \<longrightarrow> s' \<le> os_size expected))"
proof (induction source arbitrary: s t)
  case Nil
  then show ?case by (auto simp: word_unat_eq_iff)
next
  case (Cons r source)
  show ?case
  proof (cases r)
    case (Inl e)
    then show ?thesis by (simp add: copy_step_def)
  next
    case (Inr b)
    let ?L = "\<lambda>cs. \<exists>s1. unat s1 = unat s + length b \<and> s1 \<le> os_size expected \<and> unat s' = unat s1 + length cs
          \<and> (source \<noteq> [] \<longrightarrow> s' \<le> os_size expected)"
    have L: "?L cs \<longleftrightarrow> unat s' = unat s + length b + length cs \<and> s' \<le> os_size expected" (is "_ \<longleftrightarrow> ?R")
      if "source = [] \<longrightarrow> cs = []" for cs
    proof
      assume "?L cs"
      then show ?R using that by (cases "source = []") (auto simp: word_unat_eq_iff word_le_nat_alt)
    next
      assume R: ?R
      then have lt: "unat s + length b < 2 ^ 64" using unat_u64_bound [of s'] by linarith
      let ?s1 = "of_nat (unat s + length b) :: u64"
      have "unat ?s1 = unat s + length b" using lt by (rule u64_of_nat_bound)
      then show "?L cs" using R by (intro exI [of _ ?s1]) (auto simp: word_le_nat_alt)
    qed
    have "try_fold (copy_step expected code) (s, t) (r # source) = Inr (s', t') \<longleftrightarrow>
        (\<exists>cs. read_to_end source = Inr cs \<and> t' = t @ b @ cs \<and> ?L cs)"
      using Cons.IH by (auto simp: Inr copy_step_iff)
    also have "\<dots> \<longleftrightarrow> (\<exists>cs. read_to_end source = Inr cs \<and> t' = t @ b @ cs
        \<and> unat s' = unat s + length b + length cs \<and> s' \<le> os_size expected)"
    proof -
      have "?L cs \<longleftrightarrow> unat s' = unat s + length b + length cs \<and> s' \<le> os_size expected"
        if "read_to_end source = Inr cs" for cs
        by (rule L) (use that in auto)
      then show ?thesis by blast
    qed
    also have "\<dots> \<longleftrightarrow> (\<exists>bs. read_to_end (r # source) = Inr bs \<and> t' = t @ bs \<and> unat s' = unat s + length bs
        \<and> s' \<le> os_size expected)"
      unfolding Inr read_to_end_simps by fastforce
    finally show ?thesis by simp
  qed
qed

lemma copy_and_hash_exact_iff:
  "copy_and_hash_exact blake3 source expected code = Inr bytes \<longleftrightarrow>
     read_to_end source = Inr bytes \<and> length bytes = unat (os_size expected)
     \<and> object_id_for_bytes blake3 bytes = os_id expected"
proof -
  have "copy_and_hash_exact blake3 source expected code = Inr bytes \<longleftrightarrow>
      try_fold (copy_step expected code) (0, []) source = Inr (os_size expected, bytes)
      \<and> object_id_for_bytes blake3 bytes = os_id expected"
    by (auto simp: copy_and_hash_exact_def object_id_for_bytes_def split: if_splits)
  then show ?thesis by (auto simp: copy_fold)
qed

lemma read_cursor: "read_to_end (cursor_reads bs) = Inr bs"
proof (induction bs rule: cursor_reads.induct)
  case (1 bs)
  then show ?case by (cases "bs = []") (simp_all add: cursor_reads.simps [of bs] cursor_reads.simps [of "[]"])
qed

text \<open>Every stored object is stored under its digest.\<close>

definition objects_ok :: "(byte list \<Rightarrow> content_digest) \<Rightarrow> memory_object_store \<Rightarrow> bool" where
  "objects_ok blake3 s \<longleftrightarrow> bt_ok s \<and> (\<forall>(i, bytes) \<in> set s. object_id_for_bytes blake3 bytes = i)"

lemma verify_bytes_iff:
  "verify_bytes blake3 bytes expected = Inr u \<longleftrightarrow>
     length bytes = unat (os_size expected) \<and> object_id_for_bytes blake3 bytes = os_id expected"
  by (auto simp: verify_bytes_def)

lemma memory_copy_to_iff:
  "memory_copy_to blake3 s expected = Inr bytes \<longleftrightarrow>
     bt_get s (os_id expected) = Some bytes \<and> length bytes = unat (os_size expected)
     \<and> object_id_for_bytes blake3 bytes = os_id expected"
  by (auto simp: memory_copy_to_def verify_bytes_iff)

lemma memory_put_from_ok:
  assumes "memory_put_from blake3 others expected source s = (Inr outcome, s')" and "objects_ok blake3 s"
    and "objects_ok blake3 (others s)"
  shows "objects_ok blake3 s' \<and> (\<exists>bytes. memory_copy_to blake3 s' expected = Inr bytes
    \<and> (outcome = Created \<longrightarrow> read_to_end source = Inr bytes \<and> s' = bt_insert (os_id expected) bytes (others s)))"
proof (cases "bt_get s (os_id expected)")
  case (Some existing)
  then have "verify_bytes blake3 existing expected = Inr ()" "s' = s" "outcome = AlreadyPresent"
    using assms(1) by (auto simp: memory_put_from_def)
  then show ?thesis using assms(2) Some by (auto simp: memory_copy_to_iff verify_bytes_iff)
next
  case None
  then obtain bytes where b: "copy_and_hash_exact blake3 source expected EcInvalidArgument = Inr bytes"
    using assms(1) by (auto simp: memory_put_from_def split: sum.splits)
  note iff = copy_and_hash_exact_iff [THEN iffD1, OF b]
  show ?thesis
  proof (cases "bt_get (others s) (os_id expected)")
    case None
    then have eq: "outcome = Created" "s' = bt_insert (os_id expected) bytes (others s)"
      using assms(1) \<open>bt_get s _ = None\<close> b by (simp_all add: memory_put_from_def)
    moreover have "objects_ok blake3 s'"
      using eq assms(3) iff set_bt_insert_subset [of "os_id expected" bytes "others s"]
      by (auto simp: objects_ok_def)
    ultimately show ?thesis using iff assms(3) by (auto simp: memory_copy_to_iff objects_ok_def)
  next
    case (Some existing)
    then have "verify_bytes blake3 existing expected = Inr ()" "s' = others s" "outcome = AlreadyPresent"
      using assms(1) \<open>bt_get s _ = None\<close> b by (auto simp: memory_put_from_def)
    then show ?thesis using assms(3) Some by (auto simp: memory_copy_to_iff verify_bytes_iff)
  qed
qed

end
