(* ===== verification/PrepareAdd.thy ===== *)
theory PrepareAdd
  imports PreparedAdd Adapters
begin

text \<open>
  The agent side of a managed add (\<open>engine/prepare_add.rs\<close>): the index snapshot is read, the scopes of
  the worktree are scanned, every file is cut into chunks that are published to the object store,
  and the differences are sealed as a \<open>PreparedAdd\<close>.  The ports are a record of operations on a world;
  the content-defined chunker of the \<open>fastcdc\<close> crate is a parameter.
\<close>

section \<open>Ports\<close>

text \<open>A chunk delivered by \<open>StreamCDC\<close>, and the chunker: sizes and source to the chunks or errors it yields.\<close>

record cdc_chunk =
  cd_offset :: u64
  cd_length :: nat
  cd_data :: "byte list"

type_synonym stream_cdc = "u32 \<Rightarrow> u32 \<Rightarrow> u32 \<Rightarrow> read_source \<Rightarrow> (io_error + cdc_chunk) list"

type_synonym observed_files = "(logical_path, worktree_entry) btree_map"

record 'w add_ports =
  ap_version :: index_version
  ap_scan_index :: "page_request \<Rightarrow> file_record page engine_result"
  ap_inspect :: "logical_path \<Rightarrow> ('w, worktree_entry option) engine_io"
  ap_scan_files :: "path_scope list \<Rightarrow> 'w \<Rightarrow> worktree_entry engine_result list \<times> 'w"
  ap_open_file :: "logical_path \<Rightarrow> ('w, read_source) engine_io"
  ap_initialize :: "('w, unit) engine_io"
  ap_validate_layout :: "('w, unit) engine_io"
  ap_put_from :: "object_spec \<Rightarrow> read_source \<Rightarrow> ('w, object_put_outcome) engine_io"
  ap_put_content_addressed :: "read_source \<Rightarrow> ('w, content_addressed_object) engine_io"
  ap_durability_barrier :: "('w, unit) engine_io"
  ap_now :: "('w, u64) engine_io"
  ap_emit :: "progress_event \<Rightarrow> ('w, unit) engine_io"
  ap_check :: "failure_point \<Rightarrow> ('w, unit) engine_io"

definition MIN_CHUNK_SIZE :: u32 where
  "MIN_CHUNK_SIZE = 256 * 1024"

definition AVG_CHUNK_SIZE :: u32 where
  "AVG_CHUNK_SIZE = 1024 * 1024"

definition MAX_CHUNK_SIZE :: u32 where
  "MAX_CHUNK_SIZE = 4 * 1024 * 1024"

definition with_total :: "u64 \<Rightarrow> progress_event \<Rightarrow> progress_event" where
  "with_total n event = event \<lparr> pe_total := Some n \<rparr>"

definition at_path :: "logical_path \<Rightarrow> progress_event \<Rightarrow> progress_event" where
  "at_path path event = event \<lparr> pe_logical_path := Some path \<rparr>"

section \<open>Reading the index\<close>

definition snapshot_record ::
  "(logical_path, file_record) btree_map \<Rightarrow> file_record \<Rightarrow> (logical_path, file_record) btree_map engine_result" where
  "snapshot_record records r =
     and_then (from_validation (file_record_validate r)) (\<lambda>_.
     if bt_contains records (fr_path r) then Inl EcIntegrityViolation else Inr (bt_insert (fr_path r) r records))"

text \<open>The loop keeps every cursor it has seen.\<close>

partial_function (option) read_index_pages ::
  "(page_request \<Rightarrow> file_record page engine_result) \<Rightarrow> (logical_path, file_record) btree_map \<Rightarrow> string btree_set
   \<Rightarrow> page_request \<Rightarrow> (logical_path, file_record) btree_map engine_result option" where
  "read_index_pages scan records cursors req =
     (case scan req of
        Inl e \<Rightarrow> Some (Inl e)
      | Inr page \<Rightarrow>
          if length (page_items page) > unat (pr_limit req) then Some (Inl EcIntegrityViolation)
          else
            (case try_fold snapshot_record records (page_items page) of
               Inl e \<Rightarrow> Some (Inl e)
             | Inr records \<Rightarrow>
                 (case page_next page of
                    None \<Rightarrow> Some (Inr records)
                  | Some nx \<Rightarrow>
                      if cursor_str nx \<in> set cursors then Some (Inl EcIntegrityViolation)
                      else
                        (case page_request_new (Some nx) MAX_PAGE_SIZE of
                           Inl e \<Rightarrow> Some (Inl e)
                         | Inr req' \<Rightarrow> read_index_pages scan records (bts_insert (cursor_str nx) cursors) req'))))"

definition read_index_snapshot ::
  "unicode \<Rightarrow> (byte list \<Rightarrow> content_digest) \<Rightarrow> index_version \<Rightarrow> (page_request \<Rightarrow> file_record page engine_result)
   \<Rightarrow> (logical_path, file_record) btree_map engine_result option" where
  "read_index_snapshot uni blake3 version scan =
     (case page_request_first MAX_PAGE_SIZE of
        Inl e \<Rightarrow> Some (Inl e)
      | Inr req \<Rightarrow>
          (case read_index_pages scan [] [] req of
             None \<Rightarrow> None
           | Some r \<Rightarrow> Some (and_then r (\<lambda>records.
               and_then (from_validation (index_snapshot_digest uni blake3 (bt_values records))) (\<lambda>observed_digest.
               if observed_digest \<noteq> iv_digest version then Inl EcIntegrityViolation else Inr records)))))"

section \<open>Scanning the worktree\<close>

definition visit_file ::
  "'w add_ports \<Rightarrow> path_scope \<Rightarrow> observed_files \<Rightarrow> worktree_entry \<Rightarrow> ('w, observed_files) engine_io" where
  "visit_file P scope files entry =
     (if we_kind entry \<noteq> WtFile \<or> we_fingerprint entry = None then io_err EcIntegrityViolation
      else if \<not> scope_contains scope (we_path entry) then io_err EcIntegrityViolation
      else
        (case bt_get files (we_path entry) of
           Some previous \<Rightarrow> if previous \<noteq> entry then io_err EcWorktreeChangedDuringScan else io_ok files
         | None \<Rightarrow>
             let files = bt_insert (we_path entry) entry files in
             io_then (io_of (ok_or EcInternal (u64_try_from (length files)))) (\<lambda>n.
             io_then (ap_emit P (at_path (we_path entry) (progress_event_new PhScanning UnitFiles n))) (\<lambda>_.
             io_ok files))))"

definition scan_scope ::
  "'w add_ports \<Rightarrow> prepare_add_request \<Rightarrow> observed_files \<Rightarrow> path_scope \<Rightarrow> ('w, observed_files) engine_io" where
  "scan_scope P request files scope =
     io_then (case scope of
                ScopePath path \<Rightarrow> io_then (ap_inspect P path) (\<lambda>entry.
                  case entry of
                    None \<Rightarrow> if pa_stage_deletions request then io_ok False else io_err EcResourceNotFound
                  | Some _ \<Rightarrow> io_ok True)
              | ScopeRoot \<Rightarrow> io_ok True) (\<lambda>present.
     if \<not> present then io_ok files
     else (\<lambda>w. case ap_scan_files P [scope] w of (entries, w) \<Rightarrow> visit_entries (visit_file P scope) files entries w))"

definition scan_worktree :: "'w add_ports \<Rightarrow> prepare_add_request \<Rightarrow> ('w, observed_files) engine_io" where
  "scan_worktree P request = io_fold (scan_scope P request) [] (pa_scopes request)"

definition entry_size :: "worktree_entry \<Rightarrow> u64 engine_result" where
  "entry_size entry =
     and_then (ok_or EcIntegrityViolation (we_fingerprint entry)) (\<lambda>fp. Inr (fp_size fp))"

definition validate_whole_file_size_limit :: "prepare_add_request \<Rightarrow> observed_files \<Rightarrow> unit engine_result" where
  "validate_whole_file_size_limit request observed =
     (case pa_max_whole_file_bytes request of
        None \<Rightarrow> Inr ()
      | Some limit \<Rightarrow> try_fold (\<lambda>_ (path, entry).
          and_then (entry_size entry) (\<lambda>sz. if sz > limit then Inl EcInvalidArgument else Inr ())) () observed)"

section \<open>Chunking\<close>

definition record_object_outcome ::
  "object_put_outcome \<Rightarrow> u64 \<Rightarrow> add_statistics \<Rightarrow> add_statistics engine_result" where
  "record_object_outcome outcome sz statistics =
     (case outcome of
        Created \<Rightarrow>
          and_then (ok_or EcInternal (checked_add (st_objects_created statistics) 1)) (\<lambda>created.
          and_then (ok_or EcInternal (checked_add (st_bytes_published statistics) sz)) (\<lambda>published.
          Inr (statistics \<lparr> st_objects_created := created, st_bytes_published := published \<rparr>)))
      | AlreadyPresent \<Rightarrow>
          and_then (ok_or EcInternal (checked_add (st_objects_reused statistics) 1)) (\<lambda>reused.
          Inr (statistics \<lparr> st_objects_reused := reused \<rparr>)))"

definition cdc_step ::
  "(byte list \<Rightarrow> content_digest) \<Rightarrow> 'w add_ports \<Rightarrow> chunk_ref list \<times> u64 \<times> add_statistics \<Rightarrow> io_error + cdc_chunk
   \<Rightarrow> ('w, chunk_ref list \<times> u64 \<times> add_statistics) engine_io" where
  "cdc_step blake3 P st r =
     (case st of (chunks, observed_size, statistics) \<Rightarrow>
      io_then (io_of (map_err (\<lambda>_. EcIo) r)) (\<lambda>chunk.
      io_then (io_of (ok_or EcInternal (u64_try_from (cd_length chunk)))) (\<lambda>sz.
      let object_id = object_id_for_bytes blake3 (cd_data chunk) in
      io_then (ap_put_from P \<lparr> os_id = object_id, os_size = sz \<rparr> (cursor_reads (cd_data chunk))) (\<lambda>outcome.
      io_then (io_of (record_object_outcome outcome sz statistics)) (\<lambda>statistics.
      io_then (io_of (from_validation (chunk_new object_id (cd_offset chunk) sz))) (\<lambda>c.
      io_then (io_of (ok_or EcInternal (checked_add observed_size sz))) (\<lambda>observed_size.
      io_ok (chunks @ [c], observed_size, statistics))))))))"

definition chunk_fast_cdc ::
  "(byte list \<Rightarrow> content_digest) \<Rightarrow> stream_cdc \<Rightarrow> 'w add_ports \<Rightarrow> logical_path \<Rightarrow> u64 \<Rightarrow> add_statistics
   \<Rightarrow> ('w, chunk_ref list \<times> add_statistics) engine_io" where
  "chunk_fast_cdc blake3 cdc P path expected_size statistics =
     io_then (ap_open_file P path) (\<lambda>source.
     io_then (io_fold (cdc_step blake3 P) ([], 0, statistics)
                (cdc MIN_CHUNK_SIZE AVG_CHUNK_SIZE MAX_CHUNK_SIZE source)) (\<lambda>(chunks, observed_size, statistics).
     if observed_size \<noteq> expected_size then io_err EcWorktreeChangedDuringScan
     else io_ok (chunks, statistics)))"

definition chunk_whole_file ::
  "'w add_ports \<Rightarrow> logical_path \<Rightarrow> u64 \<Rightarrow> add_statistics \<Rightarrow> ('w, chunk_ref list \<times> add_statistics) engine_io" where
  "chunk_whole_file P path expected_size statistics =
     (if expected_size = 0 then io_ok ([], statistics)
      else
        io_then (ap_open_file P path) (\<lambda>source.
        io_then (ap_put_content_addressed P source) (\<lambda>published.
        if os_size (cao_spec published) \<noteq> expected_size then io_err EcWorktreeChangedDuringScan
        else
          io_then (io_of (record_object_outcome (cao_outcome published) expected_size statistics)) (\<lambda>statistics.
          io_then (io_of (from_validation (chunk_new (os_id (cao_spec published)) 0 expected_size))) (\<lambda>c.
          io_ok ([c], statistics))))))"

record scanned_file =
  sf_record :: file_record
  sf_manifest :: manifest

definition chunk_file ::
  "(byte list \<Rightarrow> content_digest) \<Rightarrow> stream_cdc \<Rightarrow> 'w add_ports \<Rightarrow> logical_path \<Rightarrow> worktree_entry \<Rightarrow> chunking_strategy
   \<Rightarrow> add_statistics \<Rightarrow> ('w, scanned_file \<times> add_statistics) engine_io" where
  "chunk_file blake3 cdc P path initial_entry chunking statistics =
     io_then (io_of (entry_size initial_entry)) (\<lambda>expected_size.
     io_then (case chunking of
                FastCdc \<Rightarrow> chunk_fast_cdc blake3 cdc P path expected_size statistics
              | WholeFile \<Rightarrow> chunk_whole_file P path expected_size statistics) (\<lambda>(chunks, statistics).
     io_then (ap_inspect P path) (\<lambda>entry.
     io_then (io_of (ok_or EcWorktreeChangedDuringScan entry)) (\<lambda>final_entry.
     if final_entry \<noteq> initial_entry then io_err EcWorktreeChangedDuringScan
     else
       io_of
         (and_then (from_validation (manifest_new expected_size chunking chunks)) (\<lambda>m.
          and_then (from_validation (file_record_from_manifest blake3 path m)) (\<lambda>r.
          and_then (ok_or EcInternal (checked_add (st_bytes_scanned statistics) expected_size)) (\<lambda>bytes_scanned.
          and_then (from_validation (manifest_chunk_count m)) (\<lambda>count.
          and_then (ok_or EcInternal (checked_add (st_chunks_observed statistics) count)) (\<lambda>chunks_observed.
          Inr (\<lparr> sf_record = r, sf_manifest = m \<rparr>,
               statistics \<lparr> st_bytes_scanned := bytes_scanned, st_chunks_observed := chunks_observed \<rparr>)))))))))))"

section \<open>The candidate\<close>

record candidate_parts =
  cp_mutations :: "index_mutation list"
  cp_result_digest :: content_digest
  cp_manifests :: "manifest list"
  cp_object_specs :: "object_spec list"

record candidate_state =
  cs_result :: "(logical_path, file_record) btree_map"
  cs_mutations :: "(logical_path, index_mutation) btree_map"
  cs_referenced :: "manifest_id btree_set"
  cs_manifests :: "(manifest_id, manifest) btree_map"

definition stage_file ::
  "(byte list \<Rightarrow> content_digest) \<Rightarrow> (logical_path, file_record) btree_map \<Rightarrow> candidate_state
   \<Rightarrow> logical_path \<times> scanned_file \<Rightarrow> candidate_state engine_result" where
  "stage_file blake3 snapshot st pf =
     (case pf of (path, file) \<Rightarrow>
      let st = st \<lparr> cs_result := bt_insert path (sf_record file) (cs_result st) \<rparr> in
      if bt_get snapshot path \<noteq> Some (sf_record file)
      then
        and_then (from_validation (manifest_id blake3 (sf_manifest file))) (\<lambda>mid.
        Inr (st \<lparr> cs_referenced := bts_insert mid (cs_referenced st),
                  cs_manifests := (if bt_contains (cs_manifests st) mid then cs_manifests st
                                   else bt_insert mid (sf_manifest file) (cs_manifests st)),
                  cs_mutations := bt_insert path (Upsert (sf_record file)) (cs_mutations st) \<rparr>))
      else Inr st)"

definition stage_deletion ::
  "path_scope list \<Rightarrow> (logical_path, scanned_file) btree_map \<Rightarrow> logical_path \<Rightarrow> candidate_state \<Rightarrow> candidate_state" where
  "stage_deletion scopes scanned path st =
     (if list_ex (\<lambda>scope. scope_contains scope path) scopes \<and> \<not> bt_contains scanned path
      then st \<lparr> cs_result := bt_remove path (cs_result st),
                cs_mutations := bt_insert path (Delete path) (cs_mutations st) \<rparr>
      else st)"

definition is_upsert :: "index_mutation \<Rightarrow> bool" where
  "is_upsert mut = (case mut of Upsert _ \<Rightarrow> True | Delete _ \<Rightarrow> False)"

definition take_manifest ::
  "manifest list \<times> (manifest_id, manifest) btree_map \<Rightarrow> manifest_id
   \<Rightarrow> (manifest list \<times> (manifest_id, manifest) btree_map) engine_result" where
  "take_manifest st mid =
     (case st of (taken, by_id) \<Rightarrow>
      and_then (ok_or EcInternal (bt_get by_id mid)) (\<lambda>m. Inr (taken @ [m], bt_remove mid by_id)))"

definition candidate_chunk_spec ::
  "(object_id, u64) btree_map \<Rightarrow> chunk_ref \<Rightarrow> (object_id, u64) btree_map engine_result" where
  "candidate_chunk_spec specs chunk =
     (if (case bt_get specs (cr_object_id chunk) of None \<Rightarrow> False | Some previous \<Rightarrow> previous \<noteq> cr_size chunk)
      then Inl EcIntegrityViolation
      else Inr (bt_insert (cr_object_id chunk) (cr_size chunk) specs))"

definition build_candidate ::
  "unicode \<Rightarrow> (byte list \<Rightarrow> content_digest) \<Rightarrow> prepare_add_request \<Rightarrow> (logical_path, file_record) btree_map
   \<Rightarrow> (logical_path, scanned_file) btree_map \<Rightarrow> add_statistics \<Rightarrow> (candidate_parts \<times> add_statistics) engine_result" where
  "build_candidate uni blake3 request snapshot scanned statistics =
     and_then (try_fold (stage_file blake3 snapshot)
        \<lparr> cs_result = snapshot, cs_mutations = [], cs_referenced = [], cs_manifests = [] \<rparr> scanned) (\<lambda>st.
     let st = (if pa_stage_deletions request
               then fold (stage_deletion (pa_scopes request) scanned) (bt_keys snapshot) st else st);
         mutations = bt_values (cs_mutations st) in
     and_then (from_validation (index_snapshot_digest uni blake3 (bt_values (cs_result st)))) (\<lambda>result_digest.
     and_then (ok_or EcInternal (u64_try_from (length (filter is_upsert mutations)))) (\<lambda>upserted.
     and_then (ok_or EcInternal (u64_try_from (length (filter (\<lambda>m. \<not> is_upsert m) mutations)))) (\<lambda>deleted.
     and_then (try_fold take_manifest ([], cs_manifests st) (cs_referenced st)) (\<lambda>(manifests, _).
     and_then (try_fold (\<lambda>specs m. try_fold candidate_chunk_spec specs (m_chunks m)) [] manifests) (\<lambda>object_specs.
     Inr (\<lparr> cp_mutations = mutations, cp_result_digest = result_digest, cp_manifests = manifests,
            cp_object_specs = map (\<lambda>(i, sz). \<lparr> os_id = i, os_size = sz \<rparr>) object_specs \<rparr>,
          statistics \<lparr> st_files_upserted := upserted, st_paths_deleted := deleted \<rparr>)))))))"

section \<open>The use case\<close>

primrec selected_chunking :: "chunking_selection \<Rightarrow> chunking_strategy" where
  "selected_chunking ArtifactDefault = FastCdc"
| "selected_chunking (Explicit strategy) = strategy"

definition chunk_observed ::
  "(byte list \<Rightarrow> content_digest) \<Rightarrow> stream_cdc \<Rightarrow> 'w add_ports \<Rightarrow> chunking_strategy \<Rightarrow> u64
   \<Rightarrow> (logical_path, scanned_file) btree_map \<times> add_statistics \<Rightarrow> logical_path \<times> worktree_entry
   \<Rightarrow> ('w, (logical_path, scanned_file) btree_map \<times> add_statistics) engine_io" where
  "chunk_observed blake3 cdc P chunking total_files st pe =
     (case st of (scanned, statistics) \<Rightarrow> case pe of (path, entry) \<Rightarrow>
      io_then (chunk_file blake3 cdc P path entry chunking statistics) (\<lambda>(file, statistics).
      let scanned = bt_insert path file scanned in
      io_then (io_of (ok_or EcInternal (u64_try_from (length scanned)))) (\<lambda>n.
      io_then (ap_emit P (at_path path (with_total total_files (progress_event_new PhChunking UnitFiles n)))) (\<lambda>_.
      io_ok (scanned, statistics)))))"

text \<open>\<open>prepare_add\<close> in three parts: up to the index, the worktree and its objects, the seal.\<close>

definition publish_worktree ::
  "(byte list \<Rightarrow> content_digest) \<Rightarrow> stream_cdc \<Rightarrow> 'w add_ports \<Rightarrow> prepare_add_request
   \<Rightarrow> ('w, (logical_path, scanned_file) btree_map \<times> add_statistics) engine_io" where
  "publish_worktree blake3 cdc P request =
     io_then (scan_worktree P request) (\<lambda>observed.
     io_then (ap_check P AfterScan) (\<lambda>_.
     io_then (io_of (validate_whole_file_size_limit request observed)) (\<lambda>_.
     io_then (ap_initialize P) (\<lambda>_.
     io_then (ap_validate_layout P) (\<lambda>_.
     io_then (ap_check P BeforeObjectPublication) (\<lambda>_.
     io_then (io_of (ok_or EcInternal (u64_try_from (length observed)))) (\<lambda>files_scanned.
     io_then (io_fold (chunk_observed blake3 cdc P (selected_chunking (pa_chunking request)) files_scanned)
                ([], add_statistics_default \<lparr> st_files_scanned := files_scanned \<rparr>) observed) (\<lambda>published.
     io_then (ap_durability_barrier P) (\<lambda>_.
     io_then (ap_check P AfterObjectPublication) (\<lambda>_.
     io_ok published))))))))))"

definition seal_candidate ::
  "unicode \<Rightarrow> (byte list \<Rightarrow> content_digest) \<Rightarrow> 'w add_ports \<Rightarrow> prepare_add_request
   \<Rightarrow> (logical_path, file_record) btree_map \<Rightarrow> (logical_path, scanned_file) btree_map \<Rightarrow> add_statistics
   \<Rightarrow> ('w, prepared_add) engine_io" where
  "seal_candidate uni blake3 P request snapshot scanned statistics =
     io_then (io_of (build_candidate uni blake3 request snapshot scanned statistics)) (\<lambda>(candidate, statistics).
     io_then (ap_check P BeforeCandidateSeal) (\<lambda>_.
     io_then (io_of (ok_or EcInternal (u64_try_from (length (cp_mutations candidate))))) (\<lambda>mutation_count.
     io_then (io_of (from_validation (delta_new uni (pa_expected_index_version request) (cp_mutations candidate)
                (cp_result_digest candidate)))) (\<lambda>index_delta.
     io_then (ap_now P) (\<lambda>now.
     io_then (io_of (prepared_new uni blake3 (pa_resource request) (pa_expected_index_version request)
                (pa_candidate_batch_id request) index_delta (cp_manifests candidate) (cp_object_specs candidate)
                statistics now)) (\<lambda>prepared.
     io_then (io_of (prepared_validate_for uni blake3 prepared request)) (\<lambda>_.
     io_then (ap_emit P (progress_event_new PhPrepared UnitActions mutation_count)) (\<lambda>_.
     io_ok prepared))))))))"

definition prepare_add ::
  "unicode \<Rightarrow> (byte list \<Rightarrow> content_digest) \<Rightarrow> stream_cdc \<Rightarrow> 'w add_ports \<Rightarrow> prepare_add_request \<Rightarrow> 'w
   \<Rightarrow> (prepared_add engine_result \<times> 'w) option" where
  "prepare_add uni blake3 cdc P request w =
     (case io_then (io_of (prepare_add_request_validate request)) (\<lambda>_.
           io_then (io_of (ensure (ap_version P = pa_expected_index_version request) EcIndexVersionMismatch)) (\<lambda>_.
           io_then (ap_check P BeforeScan) (\<lambda>_.
           ap_emit P (progress_event_new PhScanning UnitFiles 0)))) w of
        (Inl e, w) \<Rightarrow> Some (Inl e, w)
      | (Inr _, w) \<Rightarrow>
          (case read_index_snapshot uni blake3 (ap_version P) (ap_scan_index P) of
             None \<Rightarrow> None
           | Some (Inl e) \<Rightarrow> Some (Inl e, w)
           | Some (Inr snapshot) \<Rightarrow>
               Some (io_then (publish_worktree blake3 cdc P request) (\<lambda>(scanned, statistics).
                 seal_candidate uni blake3 P request snapshot scanned statistics) w)))"

end
