(* ===== verification/AddRuns.thy ===== *)
theory AddRuns
  imports PrepareAdd
begin

text \<open>
  What \<open>prepare_add\<close> guarantees for every choice of ports: the index snapshot it works on has the
  declared digest, the scanned files lie in the requested scopes and are described by their
  records, the mutations of the candidate turn the snapshot into the target index and nothing else,
  and the statistics are exact.
\<close>

section \<open>What a candidate does to an index\<close>

type_synonym index_map = "logical_path \<Rightarrow> file_record option"

primrec apply_mutation :: "index_mutation \<Rightarrow> index_map \<Rightarrow> index_map" where
  "apply_mutation (Upsert r) idx = idx(fr_path r \<mapsto> r)"
| "apply_mutation (Delete p) idx = idx(p := None)"

definition apply_mutations :: "index_mutation list \<Rightarrow> index_map \<Rightarrow> index_map" where
  "apply_mutations ms idx = fold apply_mutation ms idx"

definition in_scopes :: "prepare_add_request \<Rightarrow> logical_path \<Rightarrow> bool" where
  "in_scopes request p \<longleftrightarrow> list_ex (\<lambda>scope. scope_contains scope p) (pa_scopes request)"

text \<open>
  The index an add aims at: scanned files get their records, other files of the scopes go away if
  deletions are staged, and everything else stays.
\<close>

definition target_index ::
  "prepare_add_request \<Rightarrow> index_map \<Rightarrow> (logical_path, scanned_file) btree_map \<Rightarrow> index_map" where
  "target_index request idx scanned p =
     (case bt_get scanned p of
        Some file \<Rightarrow> Some (sf_record file)
      | None \<Rightarrow> if pa_stage_deletions request \<and> in_scopes request p then None else idx p)"

definition changed_files :: "index_map \<Rightarrow> (logical_path \<times> scanned_file) list \<Rightarrow> (logical_path \<times> scanned_file) list" where
  "changed_files idx fs = filter (\<lambda>(p, f). idx p \<noteq> Some (sf_record f)) fs"

definition scanned_ok :: "(logical_path, scanned_file) btree_map \<Rightarrow> bool" where
  "scanned_ok scanned \<longleftrightarrow> bt_ok scanned \<and> (\<forall>(p, f) \<in> set scanned. fr_path (sf_record f) = p)"

definition staged ::
  "(byte list \<Rightarrow> content_digest) \<Rightarrow> (logical_path, file_record) btree_map \<Rightarrow> (logical_path \<times> scanned_file) list \<Rightarrow> candidate_state \<Rightarrow> bool" where
  "staged blake3 snapshot fs st \<longleftrightarrow>
     bt_ok (cs_result st) \<and> bt_ok (cs_mutations st) \<and> bt_ok (cs_manifests st)
     \<and> bt_get (cs_result st) = (\<lambda>p. case map_of fs p of Some f \<Rightarrow> Some (sf_record f) | None \<Rightarrow> bt_get snapshot p)
     \<and> bt_get (cs_mutations st) = (\<lambda>p. case map_of (changed_files (bt_get snapshot) fs) p of
          Some f \<Rightarrow> Some (Upsert (sf_record f)) | None \<Rightarrow> None)
     \<and> cs_referenced st = bt_keys (cs_manifests st)
     \<and> set (bt_keys (cs_manifests st)) = {i. \<exists>(p, f) \<in> set (changed_files (bt_get snapshot) fs). manifest_id blake3 (sf_manifest f) = Inr i}
     \<and> (\<forall>(i, m) \<in> set (cs_manifests st). manifest_id blake3 m = Inr i
          \<and> (\<exists>(p, f) \<in> set (changed_files (bt_get snapshot) fs). m = sf_manifest f))
     \<and> (\<forall>(p, f) \<in> set (changed_files (bt_get snapshot) fs). is_ok (manifest_id blake3 (sf_manifest f)))"

lemma stage_file_staged:
  assumes st: "staged blake3 snapshot fs st" and new: "p \<notin> fst ` set fs"
    and run: "stage_file blake3 snapshot st (p, f) = Inr st'"
  shows "staged blake3 snapshot (fs @ [(p, f)]) st'"
proof (cases "bt_get snapshot p = Some (sf_record f)")
  case True
  then have "changed_files (bt_get snapshot) (fs @ [(p, f)]) = changed_files (bt_get snapshot) fs"
    by (simp add: changed_files_def)
  moreover have "st' = st \<lparr> cs_result := bt_insert p (sf_record f) (cs_result st) \<rparr>"
    using run True by (simp add: stage_file_def Let_def)
  ultimately show ?thesis
    using st unfolding staged_def map_of_snoc_new [OF new] by (simp add: fun_eq_iff)
next
  case False
  let ?cf = "changed_files (bt_get snapshot) fs"
  have ch: "changed_files (bt_get snapshot) (fs @ [(p, f)]) = ?cf @ [(p, f)]"
    using False by (simp add: changed_files_def)
  have new': "p \<notin> fst ` set ?cf" using new by (auto simp: changed_files_def)
  from run False obtain i where i: "manifest_id blake3 (sf_manifest f) = Inr i"
    and st': "st' = st \<lparr> cs_result := bt_insert p (sf_record f) (cs_result st),
        cs_referenced := bts_insert i (cs_referenced st),
        cs_manifests := (if bt_contains (cs_manifests st) i then cs_manifests st else bt_insert i (sf_manifest f) (cs_manifests st)),
        cs_mutations := bt_insert p (Upsert (sf_record f)) (cs_mutations st) \<rparr>"
    by (auto simp: stage_file_def Let_def)
  have s: "bt_ok (cs_result st)" "bt_ok (cs_mutations st)" "bt_ok (cs_manifests st)"
    "cs_referenced st = bt_keys (cs_manifests st)"
    using st by (simp_all add: staged_def)
  have srt: "sorted_wrt (<) (bt_keys (cs_manifests st))" using s(3) by (simp add: bt_ok_def bt_keys_def)
  have keys: "cs_referenced st' = bt_keys (cs_manifests st')"
  proof (cases "bt_contains (cs_manifests st) i")
    case True
    then have "i \<in> set (bt_keys (cs_manifests st))" by (simp add: bt_keys_def)
    with True bts_insert_present [OF srt] show ?thesis by (simp add: st' s(4))
  next
    case False
    then show ?thesis by (simp add: st' s(4) bt_keys_insert)
  qed
  have set_keys: "set (bt_keys (cs_manifests st')) = insert i (set (bt_keys (cs_manifests st)))"
    unfolding keys [symmetric] by (simp add: st' s(4))
  have mans: "set (cs_manifests st') \<subseteq> insert (i, sf_manifest f) (set (cs_manifests st))"
    using set_bt_insert_subset [of i "sf_manifest f" "cs_manifests st"] by (auto simp: st')
  have "\<forall>(j, m) \<in> set (cs_manifests st'). manifest_id blake3 m = Inr j
      \<and> (\<exists>(q, g) \<in> set (?cf @ [(p, f)]). m = sf_manifest g)"
    using st i mans by (fastforce simp: staged_def)
  moreover have "set (bt_keys (cs_manifests st')) =
      {j. \<exists>(q, g) \<in> set (?cf @ [(p, f)]). manifest_id blake3 (sf_manifest g) = Inr j}"
    using st i unfolding set_keys by (auto simp: staged_def)
  moreover have "bt_ok (cs_manifests st')" using s(3) by (simp add: st')
  ultimately show ?thesis
    using st i keys s
    unfolding staged_def ch map_of_snoc_new [OF new] map_of_snoc_new [OF new']
    by (simp add: st' fun_eq_iff ball_Un)
qed

lemma stage_files_staged:
  assumes "bt_ok snapshot" and "bt_ok scanned"
    and "try_fold (stage_file blake3 snapshot) \<lparr> cs_result = snapshot, cs_mutations = [], cs_referenced = [], cs_manifests = [] \<rparr> scanned = Inr st"
  shows "staged blake3 snapshot scanned st"
  using assms(3)
proof (rule try_fold_prefix_induct)
  show "staged blake3 snapshot [] \<lparr> cs_result = snapshot, cs_mutations = [], cs_referenced = [], cs_manifests = [] \<rparr>"
    using assms(1) by (simp add: staged_def changed_files_def bt_keys_def)
  fix ys y t t'
  assume st: "staged blake3 snapshot ys t" and pre: "prefix (ys @ [y]) scanned" and run: "stage_file blake3 snapshot t y = Inr t'"
  have "distinct (map fst (ys @ [y]))"
    using pre bt_ok_distinct [OF assms(2)] by (metis distinct_append map_append prefixE)
  then have "fst y \<notin> fst ` set ys" by simp
  with stage_file_staged [OF st, of "fst y" "snd y" t'] run show "staged blake3 snapshot (ys @ [y]) t'" by simp
qed

lemma stage_deletions:
  assumes "bt_ok (cs_result st)" and "bt_ok (cs_mutations st)"
  shows "bt_ok (cs_result (fold (stage_deletion scopes scanned) ks st)) \<and> bt_ok (cs_mutations (fold (stage_deletion scopes scanned) ks st))
    \<and> bt_get (cs_result (fold (stage_deletion scopes scanned) ks st)) =
        (\<lambda>p. if p \<in> set ks \<and> list_ex (\<lambda>scope. scope_contains scope p) scopes \<and> bt_get scanned p = None then None
              else bt_get (cs_result st) p)
    \<and> bt_get (cs_mutations (fold (stage_deletion scopes scanned) ks st)) =
        (\<lambda>p. if p \<in> set ks \<and> list_ex (\<lambda>scope. scope_contains scope p) scopes \<and> bt_get scanned p = None then Some (Delete p)
              else bt_get (cs_mutations st) p)
    \<and> cs_referenced (fold (stage_deletion scopes scanned) ks st) = cs_referenced st
    \<and> cs_manifests (fold (stage_deletion scopes scanned) ks st) = cs_manifests st"
  using assms
proof (induction ks arbitrary: st)
  case (Cons k ks)
  let ?st = "stage_deletion scopes scanned k st"
  have "bt_contains scanned k \<longleftrightarrow> bt_get scanned k \<noteq> None" by (simp add: bt_get_None_iff)
  then have one: "bt_ok (cs_result ?st)" "bt_ok (cs_mutations ?st)" "cs_referenced ?st = cs_referenced st" "cs_manifests ?st = cs_manifests st"
    "bt_get (cs_result ?st) = (\<lambda>p. if p = k \<and> list_ex (\<lambda>scope. scope_contains scope p) scopes \<and> bt_get scanned p = None then None
       else bt_get (cs_result st) p)"
    "bt_get (cs_mutations ?st) = (\<lambda>p. if p = k \<and> list_ex (\<lambda>scope. scope_contains scope p) scopes \<and> bt_get scanned p = None then Some (Delete p)
       else bt_get (cs_mutations st) p)"
    using Cons.prems by (auto simp: stage_deletion_def fun_eq_iff simp del: bt_contains_iff)
  from Cons.IH [OF one(1,2)] show ?case unfolding fold_simps comp_def one by (auto simp: fun_eq_iff)
qed auto

lemma apply_mutations_values:
  assumes "distinct (map fst M)" and "\<forall>(k, m) \<in> set M. mutation_path m = k"
  shows "apply_mutations (bt_values M) idx = (\<lambda>p. case map_of M p of
     None \<Rightarrow> idx p | Some m \<Rightarrow> (case m of Upsert r \<Rightarrow> Some r | Delete _ \<Rightarrow> None))"
  using assms
proof (induction M arbitrary: idx)
  case (Cons km M)
  obtain k m where km: "km = (k, m)" by (cases km)
  then have path: "mutation_path m = k" and new: "map_of M k = None" using Cons.prems by (auto simp: map_of_eq_None_iff)
  have "apply_mutations (bt_values (km # M)) idx = apply_mutations (bt_values M) (apply_mutation m idx)"
    by (simp add: apply_mutations_def bt_values_def km)
  also have "\<dots> = (\<lambda>p. case map_of M p of None \<Rightarrow> apply_mutation m idx p
     | Some m \<Rightarrow> (case m of Upsert r \<Rightarrow> Some r | Delete _ \<Rightarrow> None))"
    using Cons.prems by (intro Cons.IH) auto
  also have "\<dots> = (\<lambda>p. case map_of (km # M) p of None \<Rightarrow> idx p
     | Some m \<Rightarrow> (case m of Upsert r \<Rightarrow> Some r | Delete _ \<Rightarrow> None))"
    using path new by (cases m) (auto simp: km fun_eq_iff split: option.splits)
  finally show ?case .
qed (simp add: apply_mutations_def bt_values_def)

lemma take_all_manifests: "bt_ok M \<Longrightarrow> try_fold take_manifest (acc, M) (bt_keys M) = Inr (acc @ bt_values M, [])"
proof (induction M arbitrary: acc)
  case (Cons im M)
  obtain i m where im: "im = (i, m)" by (cases im)
  have ok: "bt_ok M" and new: "i \<notin> fst ` set M" using Cons.prems by (auto simp: im bt_ok_def)
  have "bt_remove i (im # M) = M"
    using new by (auto simp: bt_remove_def im filter_id_conv intro: rev_image_eqI)
  then have "take_manifest (acc, im # M) i = Inr (acc @ [m], M)"
    by (simp add: take_manifest_def bt_get_def im)
  then show ?case using Cons.IH [OF ok] by (simp add: bt_keys_def bt_values_def im)
qed (simp add: bt_keys_def bt_values_def)

lemma candidate_specs_iff:
  "try_fold (\<lambda>specs m. try_fold candidate_chunk_spec specs (m_chunks m)) [] ms = Inr specs \<longleftrightarrow>
     sizes_agree (all_chunks ms) \<and> specs = bt_collect (map chunk_pair (all_chunks ms))"
proof -
  have step: "try_fold candidate_chunk_spec s cs = Inr r \<longleftrightarrow> try_fold collect_chunk s cs = Inr r" for s cs r
    by (subst try_fold_map_err [where h = collect_chunk and g = "\<lambda>_. EcIntegrityViolation"])
       (simp_all add: candidate_chunk_spec_def collect_chunk_def)
  have "try_fold (\<lambda>specs m. try_fold candidate_chunk_spec specs (m_chunks m)) s ms = Inr specs
     \<longleftrightarrow> try_fold collect_chunk s (all_chunks ms) = Inr specs" for s
    by (induction ms arbitrary: s) (auto simp: step try_fold_append)
  then show ?thesis using collect_chunks_iff [of "[]" "all_chunks ms" specs]
    by (simp add: bt_collect_def sizes_agree_def)
qed

text \<open>What \<open>build_candidate\<close> proposes, and that it never loses a manifest on the way.\<close>

definition proposed_mutation ::
  "prepare_add_request \<Rightarrow> index_map \<Rightarrow> (logical_path, scanned_file) btree_map \<Rightarrow> logical_path \<Rightarrow> index_mutation option" where
  "proposed_mutation request idx scanned p =
     (if target_index request idx scanned p = idx p then None
      else Some (case target_index request idx scanned p of Some r \<Rightarrow> Upsert r | None \<Rightarrow> Delete p))"

lemma build_candidate_result:
  assumes snap: "bt_ok snapshot" "\<forall>(p, r) \<in> set snapshot. fr_path r = p" and sc: "scanned_ok scanned"
    and run: "build_candidate uni blake3 request snapshot scanned statistics = Inr (parts, statistics')"
  obtains result mutations manifests where
    "bt_ok result" "bt_get result = target_index request (bt_get snapshot) scanned"
    "index_snapshot_digest uni blake3 (bt_values result) = Inr (cp_result_digest parts)"
    "bt_ok mutations" "cp_mutations parts = bt_values mutations"
    "bt_get mutations = proposed_mutation request (bt_get snapshot) scanned"
    "bt_ok manifests" "cp_manifests parts = bt_values manifests"
    "set (bt_keys manifests) = {i. \<exists>(p, f) \<in> set (changed_files (bt_get snapshot) scanned). manifest_id blake3 (sf_manifest f) = Inr i}"
    "\<forall>(i, m) \<in> set manifests. manifest_id blake3 m = Inr i
       \<and> (\<exists>(p, f) \<in> set (changed_files (bt_get snapshot) scanned). m = sf_manifest f)"
    "sizes_agree (all_chunks (cp_manifests parts))"
    "map spec_pair (cp_object_specs parts) = bt_collect (map chunk_pair (all_chunks (cp_manifests parts)))"
    "unat (st_files_upserted statistics') = length (upserts (cp_mutations parts))"
    "unat (st_files_upserted statistics') + unat (st_paths_deleted statistics') = length (cp_mutations parts)"
    "statistics' = statistics \<lparr> st_files_upserted := st_files_upserted statistics', st_paths_deleted := st_paths_deleted statistics' \<rparr>"
proof -
  from run obtain st where stg: "try_fold (stage_file blake3 snapshot)
      \<lparr> cs_result = snapshot, cs_mutations = [], cs_referenced = [], cs_manifests = [] \<rparr> scanned = Inr st"
    by (auto simp: build_candidate_def)
  have bts: "bt_ok scanned" using sc by (simp add: scanned_ok_def)
  have s: "staged blake3 snapshot scanned st" by (rule stage_files_staged [OF snap(1) bts stg])
  define st' where "st' = (if pa_stage_deletions request
    then fold (stage_deletion (pa_scopes request) scanned) (bt_keys snapshot) st else st)"
  define ms where "ms = bt_values (cs_manifests st)"
  have d: "bt_ok (cs_result st')" "bt_ok (cs_mutations st')" "cs_referenced st' = bt_keys (cs_manifests st)" "cs_manifests st' = cs_manifests st"
    "bt_get (cs_result st') = (\<lambda>p. if pa_stage_deletions request \<and> p \<in> set (bt_keys snapshot) \<and> in_scopes request p \<and> bt_get scanned p = None
       then None else bt_get (cs_result st) p)"
    "bt_get (cs_mutations st') = (\<lambda>p. if pa_stage_deletions request \<and> p \<in> set (bt_keys snapshot) \<and> in_scopes request p \<and> bt_get scanned p = None
       then Some (Delete p) else bt_get (cs_mutations st) p)"
    using s stage_deletions [of st "pa_scopes request" scanned "bt_keys snapshot"]
    by (simp_all add: st'_def staged_def in_scopes_def [abs_def])
  have key: "p \<in> set (bt_keys snapshot) \<longleftrightarrow> bt_get snapshot p \<noteq> None" for p
    by (simp add: bt_keys_def bt_get_None_iff)
  have changed: "map_of (changed_files (bt_get snapshot) scanned) p =
      (case bt_get scanned p of None \<Rightarrow> None | Some f \<Rightarrow> if bt_get snapshot p = Some (sf_record f) then None else Some f)" for p
    using bt_ok_distinct [OF bts] unfolding changed_files_def bt_get_def
    by (induction scanned) (auto simp: map_of_eq_None_iff split: option.splits)
  have res: "bt_get (cs_result st') = target_index request (bt_get snapshot) scanned"
    using s unfolding d(5) staged_def key by (auto simp: target_index_def fun_eq_iff bt_get_def split: option.splits)
  have muts: "bt_get (cs_mutations st') = proposed_mutation request (bt_get snapshot) scanned"
    using s unfolding d(6) staged_def key changed
    by (auto simp: proposed_mutation_def target_index_def fun_eq_iff split: option.splits)
  from run stg obtain rd up del specs where r:
    "index_snapshot_digest uni blake3 (bt_values (cs_result st')) = Inr rd"
    "u64_try_from (length (filter is_upsert (bt_values (cs_mutations st')))) = Some up"
    "u64_try_from (length (filter (\<lambda>m. \<not> is_upsert m) (bt_values (cs_mutations st')))) = Some del"
    "try_fold (\<lambda>specs m. try_fold candidate_chunk_spec specs (m_chunks m)) [] ms = Inr specs"
    "parts = \<lparr> cp_mutations = bt_values (cs_mutations st'), cp_result_digest = rd, cp_manifests = ms,
       cp_object_specs = map (\<lambda>(i, sz). \<lparr> os_id = i, os_size = sz \<rparr>) specs \<rparr>"
    "statistics' = statistics \<lparr> st_files_upserted := up, st_paths_deleted := del \<rparr>"
    using s take_all_manifests [of "cs_manifests st" "[]"]
    unfolding build_candidate_def stg and_then_Inr Let_def st'_def [symmetric] d(3,4) ms_def staged_def by auto
  have specs: "sizes_agree (all_chunks ms)" "specs = bt_collect (map chunk_pair (all_chunks ms))"
    using r(4) by (simp_all add: candidate_specs_iff)
  have ups: "length (filter is_upsert l) = length (upserts l)" for l
    by (induction l) (auto simp: is_upsert_def upserts_def split: index_mutation.splits)
  have cnt: "length (filter is_upsert l) + length (filter (\<lambda>m. \<not> is_upsert m) l) = length l" for l
    by (rule sum_length_filter_compl)
  show ?thesis
  proof (rule that)
    show "bt_ok (cs_result st')" "bt_ok (cs_mutations st')" by (fact d)+
    show "bt_get (cs_result st') = target_index request (bt_get snapshot) scanned" by (fact res)
    show "bt_get (cs_mutations st') = proposed_mutation request (bt_get snapshot) scanned" by (fact muts)
    show "bt_ok (cs_manifests st)" "set (bt_keys (cs_manifests st)) =
        {i. \<exists>(p, f) \<in> set (changed_files (bt_get snapshot) scanned). manifest_id blake3 (sf_manifest f) = Inr i}"
      "\<forall>(i, m) \<in> set (cs_manifests st). manifest_id blake3 m = Inr i
       \<and> (\<exists>(p, f) \<in> set (changed_files (bt_get snapshot) scanned). m = sf_manifest f)"
      using s unfolding staged_def by simp_all
    show "map spec_pair (cp_object_specs parts) = bt_collect (map chunk_pair (all_chunks (cp_manifests parts)))"
      by (simp add: r(5) specs(2) spec_pair_def comp_def case_prod_beta)
    show "unat (st_files_upserted statistics') + unat (st_paths_deleted statistics') = length (cp_mutations parts)"
      "unat (st_files_upserted statistics') = length (upserts (cp_mutations parts))"
      using r(2,3) cnt [of "bt_values (cs_mutations st')"] by (simp_all add: r(5,6) u64_try_from_eq_Some ups)
  qed (use r specs in \<open>simp_all add: ms_def\<close>)
qed

section \<open>Reading the index\<close>

definition records_ok :: "(logical_path, file_record) btree_map \<Rightarrow> bool" where
  "records_ok records \<longleftrightarrow> bt_ok records \<and> (\<forall>(p, r) \<in> set records. fr_path r = p \<and> file_record_validate r = Inr ())"

lemma snapshot_record_ok:
  assumes "records_ok records" and "snapshot_record records r = Inr records'"
  shows "records_ok records'"
  using assms set_bt_insert_subset [of "fr_path r" r records]
  by (auto simp: records_ok_def snapshot_record_def split: if_splits)

lemma snapshot_records_ok:
  "records_ok records \<Longrightarrow> try_fold snapshot_record records rs = Inr records' \<Longrightarrow> records_ok records'"
  by (erule try_fold_invariant) (auto intro: snapshot_record_ok)

lemma read_index_pages_ok:
  assumes "read_index_pages scan records cursors req = Some (Inr records')" and "records_ok records"
  shows "records_ok records'"
proof -
  have "records_ok records \<longrightarrow> (\<forall>rs. r = Inr rs \<longrightarrow> records_ok rs)"
    if "read_index_pages scan records cursors req = Some r" for r
    using _ that
    by (rule read_index_pages.raw_induct [where P = "\<lambda>scan records cursors req r.
          records_ok records \<longrightarrow> (\<forall>rs. r = Inr rs \<longrightarrow> records_ok rs)"])
       (auto simp: page_request_max split: sum.splits if_splits option.splits dest: snapshot_records_ok)
  from this [OF assms(1)] assms(2) show ?thesis by blast
qed

lemma read_index_snapshot_ok:
  assumes "read_index_snapshot uni blake3 version scan = Some (Inr snapshot)"
  shows "records_ok snapshot" and "index_snapshot_digest uni blake3 (bt_values snapshot) = Inr (iv_digest version)"
proof -
  have ok: "records_ok []" by (simp add: records_ok_def)
  from assms show "records_ok snapshot" "index_snapshot_digest uni blake3 (bt_values snapshot) = Inr (iv_digest version)"
    using read_index_pages_ok [OF _ ok]
    by (auto simp: read_index_snapshot_def page_request_first_def page_request_max split: option.splits if_splits)
qed

text \<open>Every turn of the loop spends a cursor that has not been seen.\<close>

lemma read_index_pages_returns:
  assumes "finite C" and "\<And>req page nx. scan req = Inr page \<Longrightarrow> page_next page = Some nx \<Longrightarrow> cursor_str nx \<in> C"
  shows "\<exists>r. read_index_pages scan records cursors req = Some r"
proof (induction "card (C - set cursors)" arbitrary: records cursors req rule: less_induct)
  case less
  show ?case
  proof (cases "\<exists>page records' nx. scan req = Inr page \<and> \<not> length (page_items page) > unat (pr_limit req)
      \<and> try_fold snapshot_record records (page_items page) = Inr records'
      \<and> page_next page = Some nx \<and> cursor_str nx \<notin> set cursors")
    case True
    then obtain page records' nx where p: "scan req = Inr page" "\<not> length (page_items page) > unat (pr_limit req)"
      "try_fold snapshot_record records (page_items page) = Inr records'"
      "page_next page = Some nx" "cursor_str nx \<notin> set cursors" by blast
    have "cursor_str nx \<in> C" using assms(2) p(1,4) by blast
    then have "card (C - set (bts_insert (cursor_str nx) cursors)) < card (C - set cursors)"
      using assms(1) p(5) by (intro psubset_card_mono) auto
    from less [OF this] show ?thesis
      using p by (subst read_index_pages.simps) (simp add: page_request_max)
  next
    case False
    then show ?thesis
      by (subst read_index_pages.simps) (auto split: sum.splits option.splits)
  qed
qed

lemma read_index_snapshot_returns:
  assumes "finite C" and "\<And>req page nx. scan req = Inr page \<Longrightarrow> page_next page = Some nx \<Longrightarrow> cursor_str nx \<in> C"
  shows "\<exists>r. read_index_snapshot uni blake3 version scan = Some r"
proof -
  have "\<exists>r. read_index_pages scan [] [] req = Some r" for req
    using assms by (rule read_index_pages_returns)
  then obtain r where "read_index_pages scan [] [] \<lparr> pr_after = None, pr_limit = MAX_PAGE_SIZE \<rparr> = Some r" by blast
  then show ?thesis by (simp add: read_index_snapshot_def page_request_first_def page_request_max)
qed

text \<open>A well-behaved reader is read completely.\<close>

lemma snapshot_records_insert:
  assumes "sorted_wrt (<) (map fr_path rs)" and "\<forall>r \<in> set rs. file_record_validate r = Inr ()"
    and "\<forall>r \<in> set rs. \<forall>p \<in> fst ` set records. p < fr_path r"
  shows "try_fold snapshot_record records rs = Inr (records @ map (\<lambda>r. (fr_path r, r)) rs)"
  using assms
proof (induction rs arbitrary: records)
  case (Cons r rs)
  have "snapshot_record records r = Inr (records @ [(fr_path r, r)])"
    using Cons.prems bt_insert_last [of records "fr_path r" r] by (auto simp: snapshot_record_def)
  then show ?case using Cons by auto
qed simp

section \<open>Scanning and chunking with arbitrary ports\<close>

definition observed_ok :: "prepare_add_request \<Rightarrow> observed_files \<Rightarrow> bool" where
  "observed_ok request files \<longleftrightarrow> bt_ok files \<and> (\<forall>(p, e) \<in> set files. we_path e = p \<and> in_scopes request p
     \<and> we_kind e = WtFile \<and> we_fingerprint e \<noteq> None)"

lemma visit_file_result:
  assumes "visit_file P scope files e w = (Inr files', w')"
  shows "we_kind e = WtFile \<and> we_fingerprint e \<noteq> None \<and> scope_contains scope (we_path e)
    \<and> (files' = files \<and> bt_get files (we_path e) = Some e
       \<or> bt_get files (we_path e) = None \<and> files' = bt_insert (we_path e) e files)"
  using assms by (auto simp: visit_file_def Let_def io_then_ok_iff split: if_splits option.splits)

lemma visit_file_ok:
  assumes "visit_file P scope files e w = (Inr files', w')" and "observed_ok request files" and "scope \<in> set (pa_scopes request)"
  shows "observed_ok request files'"
  using visit_file_result [OF assms(1)] assms(2,3) set_bt_insert_subset [of "we_path e" e files]
  by (auto simp: observed_ok_def in_scopes_def list_ex_iff)

lemma visit_entries_ok:
  assumes "visit_entries (visit_file P scope) files entries w = (Inr files', w')" and "observed_ok request files"
    and "scope \<in> set (pa_scopes request)"
  shows "observed_ok request files'"
  using assms(1) unfolding visit_entries_def
  by (rule io_fold_prefix_induct [where I = "\<lambda>_ files _. observed_ok request files"])
     (use assms(2,3) in \<open>auto simp: io_then_ok_iff intro: visit_file_ok\<close>)

lemma scan_scope_cases:
  assumes "scan_scope P request files scope w = (Inr files', w')"
  obtains (skipped) p where "scope = ScopePath p" "ap_inspect P p w = (Inr None, w')" "pa_stage_deletions request" "files' = files"
  | (scanned) w1 entries w2 where
      "scope = ScopeRoot \<and> w1 = w \<or> (\<exists>p e. scope = ScopePath p \<and> ap_inspect P p w = (Inr (Some e), w1))"
      "ap_scan_files P [scope] w1 = (entries, w2)" "visit_entries (visit_file P scope) files entries w2 = (Inr files', w')"
  using assms
  by (cases scope) (auto simp: scan_scope_def io_then_ok_iff split: option.splits if_splits prod.splits)

lemma scan_worktree_ok:
  assumes "scan_worktree P request w = (Inr files, w')"
  shows "observed_ok request files"
proof -
  have step: "observed_ok request files'" if "observed_ok request files" "scope \<in> set (pa_scopes request)"
    "scan_scope P request files scope v = (Inr files', v')" for files files' scope v v'
    using that(3)
  proof (cases rule: scan_scope_cases)
    case skipped
    then show ?thesis using that(1) by simp
  next
    case scanned
    from visit_entries_ok [OF scanned(3) that(1,2)] show ?thesis .
  qed
  show ?thesis
    using assms unfolding scan_worktree_def
  proof (rule io_fold_prefix_induct [where I = "\<lambda>_ files _. observed_ok request files"])
    show "observed_ok request []" by (simp add: observed_ok_def)
    fix ys y t t' v v'
    assume ok: "observed_ok request t" and "prefix (ys @ [y]) (pa_scopes request)" and run: "scan_scope P request t y v = (Inr t', v')"
    then have "y \<in> set (pa_scopes request)" using set_mono_prefix by fastforce
    from step [OF ok this run] show "observed_ok request t'" .
  qed
qed

text \<open>A scanned file: its record describes its manifest, which is valid.\<close>

definition file_described :: "(byte list \<Rightarrow> content_digest) \<Rightarrow> logical_path \<Rightarrow> scanned_file \<Rightarrow> bool" where
  "file_described blake3 p f \<longleftrightarrow> fr_path (sf_record f) = p \<and> manifest_validate (sf_manifest f) = Inr ()
     \<and> fr_manifest_id (sf_record f) = id_of_manifest blake3 (sf_manifest f)
     \<and> fr_total_size (sf_record f) = m_total_size (sf_manifest f)
     \<and> unat (fr_chunk_count (sf_record f)) = length (m_chunks (sf_manifest f))"

text \<open>How publishing objects is counted: one outcome per chunk, and at most the bytes offered.\<close>

definition outcome_counted :: "add_statistics \<Rightarrow> add_statistics \<Rightarrow> nat \<Rightarrow> nat \<Rightarrow> bool" where
  "outcome_counted st st' n b \<longleftrightarrow>
     unat (st_objects_created st') + unat (st_objects_reused st') = unat (st_objects_created st) + unat (st_objects_reused st) + n
     \<and> unat (st_bytes_published st') \<le> unat (st_bytes_published st) + b
     \<and> st_files_scanned st' = st_files_scanned st \<and> st_bytes_scanned st' = st_bytes_scanned st
     \<and> st_chunks_observed st' = st_chunks_observed st"

lemma outcome_counted_refl [simp]: "outcome_counted st st 0 0"
  by (simp add: outcome_counted_def)

lemma outcome_counted_trans:
  "outcome_counted st st1 n b \<Longrightarrow> outcome_counted st1 st2 m c \<Longrightarrow> outcome_counted st st2 (n + m) (b + c)"
  by (simp add: outcome_counted_def)

lemma record_object_outcome_counted:
  "record_object_outcome outcome sz st = Inr st' \<Longrightarrow> outcome_counted st st' 1 (unat sz)"
  by (cases outcome) (auto simp: record_object_outcome_def outcome_counted_def checked_add_eq_Some)

lemma chunk_new_iff: "chunk_new i off sz = Inr c \<longleftrightarrow> c = \<lparr> cr_object_id = i, cr_offset = off, cr_size = sz \<rparr> \<and> chunk_validate c = Inr ()"
  by (auto simp: chunk_new_def Let_def)

lemma cdc_step_counted:
  assumes "cdc_step blake3 P (chunks, observed, st) r w = (Inr (chunks', observed', st'), w')"
  shows "\<exists>c. chunks' = chunks @ [c] \<and> unat observed' = unat observed + unat (cr_size c) \<and> outcome_counted st st' 1 (unat (cr_size c))"
  using assms record_object_outcome_counted
  by (fastforce simp: cdc_step_def Let_def io_then_ok_iff chunk_new_iff checked_add_eq_Some)

lemma cdc_fold_counted:
  assumes "io_fold (cdc_step blake3 P) ([], 0, st) rs w = (Inr (chunks, observed, st'), w')"
  shows "unat observed = sum_list (map (\<lambda>c. unat (cr_size c)) chunks) \<and> outcome_counted st st' (length chunks) (unat observed)"
proof -
  have "case s of (chunks, observed, st') \<Rightarrow>
      unat observed = sum_list (map (\<lambda>c. unat (cr_size c)) chunks) \<and> outcome_counted st st' (length chunks) (unat observed)"
    if "io_fold (cdc_step blake3 P) ([], 0, st) rs w = (Inr s, w')" for s
    using that
  proof (rule io_fold_prefix_induct [where I = "\<lambda>_ s _. case s of (chunks, observed, st') \<Rightarrow>
      unat observed = sum_list (map (\<lambda>c. unat (cr_size c)) chunks) \<and> outcome_counted st st' (length chunks) (unat observed)"])
    fix ys y t t' v v'
    assume I: "case t of (chunks, observed, st') \<Rightarrow>
        unat observed = sum_list (map (\<lambda>c. unat (cr_size c)) chunks) \<and> outcome_counted st st' (length chunks) (unat observed)"
      and run: "cdc_step blake3 P t y v = (Inr t', v')"
    obtain cs ob s1 cs' ob' s2 where t: "t = (cs, ob, s1)" "t' = (cs', ob', s2)" by (cases t; cases t') auto
    from cdc_step_counted [OF run [unfolded t]] I t outcome_counted_trans
    show "case t' of (chunks, observed, st') \<Rightarrow>
        unat observed = sum_list (map (\<lambda>c. unat (cr_size c)) chunks) \<and> outcome_counted st st' (length chunks) (unat observed)"
      by fastforce
  qed simp
  from this [OF assms] show ?thesis unfolding prod.case .
qed

lemma chunk_fast_cdc_counted:
  assumes "chunk_fast_cdc blake3 cdc P path expected st w = (Inr (chunks, st'), w')"
  shows "outcome_counted st st' (length chunks) (unat expected)"
  using assms cdc_fold_counted [of blake3 P st _ _ chunks]
  by (fastforce simp: chunk_fast_cdc_def io_then_ok_iff split: if_splits)

lemma chunk_whole_file_counted:
  assumes "chunk_whole_file P path expected st w = (Inr (chunks, st'), w')"
  shows "outcome_counted st st' (length chunks) (unat expected)"
  using assms record_object_outcome_counted [of _ expected st st']
  by (auto simp: chunk_whole_file_def io_then_ok_iff split: if_splits)

lemma file_record_from_manifest_ok:
  assumes "file_record_from_manifest blake3 path m = Inr r"
  shows "file_described blake3 path \<lparr> sf_record = r, sf_manifest = m \<rparr>"
  using assms
  by (auto simp: file_record_from_manifest_def file_record_new_def file_described_def manifest_id_eq id_of_manifest_def
      manifest_chunk_count_def u64_try_from_eq_Some Let_def)

text \<open>A file in whose chunking nothing went wrong.\<close>

definition file_counted :: "add_statistics \<Rightarrow> add_statistics \<Rightarrow> manifest \<Rightarrow> bool" where
  "file_counted st st' m \<longleftrightarrow>
     unat (st_objects_created st') + unat (st_objects_reused st') = unat (st_objects_created st) + unat (st_objects_reused st) + length (m_chunks m)
     \<and> unat (st_bytes_published st') \<le> unat (st_bytes_published st) + unat (m_total_size m)
     \<and> unat (st_bytes_scanned st') = unat (st_bytes_scanned st) + unat (m_total_size m)
     \<and> unat (st_chunks_observed st') = unat (st_chunks_observed st) + length (m_chunks m)
     \<and> st_files_scanned st' = st_files_scanned st"

lemma chunk_file_cases:
  assumes "chunk_file blake3 cdc P path e chunking st w = (Inr (f, st'), w')"
  obtains expected chunks st1 w1 where
    "entry_size e = Inr expected" "sf_manifest f = \<lparr> m_total_size = expected, m_chunking = chunking, m_chunks = chunks \<rparr>"
    "file_described blake3 path f"
    "(case chunking of FastCdc \<Rightarrow> chunk_fast_cdc blake3 cdc P path expected st
        | WholeFile \<Rightarrow> chunk_whole_file P path expected st) w = (Inr (chunks, st1), w1)"
    "ap_inspect P path w1 = (Inr (Some e), w')"
    "file_counted st st' (sf_manifest f)"
proof -
  from assms obtain expected chunks st1 w1 m r bs cnt co where c:
    "entry_size e = Inr expected"
    "(case chunking of FastCdc \<Rightarrow> chunk_fast_cdc blake3 cdc P path expected st
        | WholeFile \<Rightarrow> chunk_whole_file P path expected st) w = (Inr (chunks, st1), w1)"
    "ap_inspect P path w1 = (Inr (Some e), w')" "manifest_new expected chunking chunks = Inr m"
    "file_record_from_manifest blake3 path m = Inr r" "checked_add (st_bytes_scanned st1) expected = Some bs"
    "manifest_chunk_count m = Inr cnt" "checked_add (st_chunks_observed st1) cnt = Some co"
    "f = \<lparr> sf_record = r, sf_manifest = m \<rparr>" "st' = st1 \<lparr> st_bytes_scanned := bs, st_chunks_observed := co \<rparr>"
    by (auto simp: chunk_file_def io_then_ok_iff split: if_splits)
  have m: "m = \<lparr> m_total_size = expected, m_chunking = chunking, m_chunks = chunks \<rparr>"
    using c(4) by (auto simp: manifest_new_def Let_def)
  have "outcome_counted st st1 (length chunks) (unat expected)"
    using c(2) chunk_fast_cdc_counted chunk_whole_file_counted by (cases chunking) auto
  then have "file_counted st st' m"
    using c(6-8) by (auto simp: c(10) m outcome_counted_def file_counted_def checked_add_eq_Some manifest_chunk_count_def u64_try_from_eq_Some)
  then show ?thesis using that [OF c(1) _ _ c(2,3)] c(9) m file_record_from_manifest_ok [OF c(5)] by simp
qed

text \<open>The statistics after a number of files.\<close>

definition manifests_of :: "(logical_path \<times> scanned_file) list \<Rightarrow> manifest list" where
  "manifests_of fs = map (\<lambda>(p, f). sf_manifest f) fs"

definition statistics_exact :: "manifest list \<Rightarrow> add_statistics \<Rightarrow> bool" where
  "statistics_exact ms st \<longleftrightarrow>
     unat (st_bytes_scanned st) = sum_list (map (\<lambda>m. unat (m_total_size m)) ms)
     \<and> unat (st_chunks_observed st) = length (all_chunks ms)
     \<and> unat (st_objects_created st) + unat (st_objects_reused st) = length (all_chunks ms)
     \<and> unat (st_bytes_published st) \<le> unat (st_bytes_scanned st)"

lemma statistics_exact_snoc:
  "statistics_exact ms st \<Longrightarrow> file_counted st st' m \<Longrightarrow> statistics_exact (ms @ [m]) st'"
  by (auto simp: statistics_exact_def file_counted_def all_chunks_def)

definition publishing :: "(byte list \<Rightarrow> content_digest) \<Rightarrow> u64 \<Rightarrow> (logical_path \<times> worktree_entry) list
    \<Rightarrow> (logical_path, scanned_file) btree_map \<times> add_statistics \<Rightarrow> bool" where
  "publishing blake3 n es s \<longleftrightarrow> (case s of (scanned, st) \<Rightarrow>
     map fst scanned = map fst es \<and> (\<forall>(p, f) \<in> set scanned. file_described blake3 p f)
     \<and> statistics_exact (manifests_of scanned) st \<and> st_files_scanned st = n)"

lemma chunk_observed_publishing:
  assumes "publishing blake3 n ys (scanned, st)" and "\<forall>k \<in> fst ` set ys. k < fst y"
    and run: "chunk_observed blake3 cdc P chunking total_files (scanned, st) y w = (Inr (scanned', st'), w')"
  obtains f w1 where "chunk_file blake3 cdc P (fst y) (snd y) chunking st w = (Inr (f, st'), w1)" "scanned' = scanned @ [(fst y, f)]"
    "publishing blake3 n (ys @ [y]) (scanned', st')"
    "\<exists>event. ap_emit P event w1 = (Inr (), w')"
proof -
  from run obtain f w1 event where f: "chunk_file blake3 cdc P (fst y) (snd y) chunking st w = (Inr (f, st'), w1)"
    "scanned' = bt_insert (fst y) f scanned" "ap_emit P event w1 = (Inr (), w')"
    by (cases y) (auto simp: chunk_observed_def Let_def io_then_ok_iff)
  have "map fst scanned = map fst ys" using assms(1) by (simp add: publishing_def)
  from arg_cong [OF this, of set] have "fst ` set scanned = fst ` set ys" by simp
  then have s: "scanned' = scanned @ [(fst y, f)]" using f(2) assms(2) by (simp add: bt_insert_last)
  from f(1) have d: "file_described blake3 (fst y) f" "file_counted st st' (sf_manifest f)"
    by (auto elim: chunk_file_cases)
  then have "publishing blake3 n (ys @ [y]) (scanned', st')"
    using assms(1) statistics_exact_snoc [of "manifests_of scanned" st st' "sf_manifest f"]
    by (auto simp: publishing_def s manifests_of_def file_counted_def)
  with f(1,3) s that show ?thesis by blast
qed

lemma publish_worktree_cases:
  assumes "publish_worktree blake3 cdc P request w = (Inr (scanned, st), w')"
  obtains observed w1 w2 w3 w4 n where "scan_worktree P request w = (Inr observed, w1)"
    "u64_try_from (length observed) = Some n" "validate_whole_file_size_limit request observed = Inr ()"
    "\<exists>v v' v''. ap_check P AfterScan w1 = (Inr (), v) \<and> ap_initialize P v = (Inr (), v')
       \<and> ap_validate_layout P v' = (Inr (), v'') \<and> ap_check P BeforeObjectPublication v'' = (Inr (), w2)"
    "io_fold (chunk_observed blake3 cdc P (selected_chunking (pa_chunking request)) n)
       ([], add_statistics_default \<lparr> st_files_scanned := n \<rparr>) observed w2 = (Inr (scanned, st), w3)"
    "ap_durability_barrier P w3 = (Inr (), w4)" "ap_check P AfterObjectPublication w4 = (Inr (), w')"
  using assms by (auto simp: publish_worktree_def io_then_ok_iff)

lemma publishing_start: "publishing blake3 n [] ([], add_statistics_default \<lparr> st_files_scanned := n \<rparr>)"
  by (simp add: publishing_def statistics_exact_def manifests_of_def add_statistics_default_def)

lemma publish_worktree_ok:
  assumes "publish_worktree blake3 cdc P request w = (Inr (scanned, st), w')"
  shows "scanned_ok scanned \<and> (\<forall>(p, f) \<in> set scanned. file_described blake3 p f \<and> in_scopes request p)
    \<and> statistics_exact (manifests_of scanned) st \<and> unat (st_files_scanned st) = length scanned"
  using assms
proof (cases rule: publish_worktree_cases)
  case (1 observed w1 w2 w3 w4 n)
  have ok: "observed_ok request observed" by (rule scan_worktree_ok [OF 1(1)])
  then have bt: "bt_ok observed" by (simp add: observed_ok_def)
  from 1(5) have pub: "publishing blake3 n observed (scanned, st)"
  proof (rule io_fold_prefix_induct [where I = "\<lambda>ys s _. publishing blake3 n ys s"])
    fix ys y t t' v v'
    assume I: "publishing blake3 n ys t" and pre: "prefix (ys @ [y]) observed"
      and run: "chunk_observed blake3 cdc P (selected_chunking (pa_chunking request)) n t y v = (Inr t', v')"
    obtain sc s1 sc' s2 where t: "t = (sc, s1)" "t' = (sc', s2)" by (cases t; cases t')
    from chunk_observed_publishing [OF I [unfolded t] sorted_prefix_last [OF bt pre] run [unfolded t]]
    show "publishing blake3 n (ys @ [y]) t'" by (auto simp: t)
  qed (rule publishing_start)
  then have keys: "map fst scanned = map fst observed" by (simp add: publishing_def)
  have len: "length scanned = length observed" using arg_cong [OF keys, of length] by simp
  have scopes: "in_scopes request p" if "(p, f) \<in> set scanned" for p f
  proof -
    have "p \<in> set (map fst observed)" unfolding keys [symmetric] using that by force
    then show ?thesis using ok by (auto simp: observed_ok_def)
  qed
  have "scanned_ok scanned"
    using pub bt keys by (auto simp: publishing_def scanned_ok_def bt_ok_def file_described_def)
  then show ?thesis
    using pub scopes 1(2) len by (auto simp: publishing_def u64_try_from_eq_Some)
qed

section \<open>The sealed candidate\<close>

lemma prepared_new_fields:
  assumes "prepared_new uni blake3 resource base batch_id delta ms os statistics prepared_at = Inr p"
  shows "pd_resource p = resource" "pd_base_index_version p = base" "pd_candidate_batch_id p = batch_id"
    "pd_index_delta p = delta" "pd_manifests p = ms" "pd_object_specs p = os" "pd_statistics p = statistics"
  using assms by (auto simp: prepared_new_def Let_def)

lemma seal_candidate_cases:
  assumes "seal_candidate uni blake3 P request snapshot scanned st w = (Inr p, w')"
  obtains parts st' where "build_candidate uni blake3 request snapshot scanned st = Inr (parts, st')"
    "delta_iter (pd_index_delta p) = cp_mutations parts" "dl_result_digest (pd_index_delta p) = cp_result_digest parts"
    "dl_base_version (pd_index_delta p) = pa_expected_index_version request"
    "pd_manifests p = cp_manifests parts" "pd_object_specs p = cp_object_specs parts" "pd_statistics p = st'"
    "prepared_validate_for uni blake3 p request = Inr ()"
    "\<exists>v v' event. ap_check P BeforeCandidateSeal w = (Inr (), v) \<and> (\<exists>now. ap_now P v = (Inr now, v'))
       \<and> ap_emit P event v' = (Inr (), w')"
proof -
  from assms obtain parts st' v v' n d now where s: "build_candidate uni blake3 request snapshot scanned st = Inr (parts, st')"
    "ap_check P BeforeCandidateSeal w = (Inr (), v)"
    "delta_new uni (pa_expected_index_version request) (cp_mutations parts) (cp_result_digest parts) = Inr d"
    "ap_now P v = (Inr now, v')"
    "prepared_new uni blake3 (pa_resource request) (pa_expected_index_version request) (pa_candidate_batch_id request) d
       (cp_manifests parts) (cp_object_specs parts) st' now = Inr p"
    "prepared_validate_for uni blake3 p request = Inr ()"
    "ap_emit P (progress_event_new PhPrepared UnitActions n) v' = (Inr (), w')"
    by (auto simp: seal_candidate_def io_then_ok_iff)
  note f = prepared_new_fields [OF s(5)] and d = delta_new_result [OF s(3)]
  show ?thesis
    by (rule that [OF s(1)]) (use f d s in \<open>auto\<close>)
qed

lemma prepare_add_cases:
  assumes "prepare_add uni blake3 cdc P request w = Some (Inr p, w')"
  obtains snapshot scanned st v w1 w2 where
    "prepare_add_request_validate request = Inr ()" "ap_version P = pa_expected_index_version request"
    "ap_check P BeforeScan w = (Inr (), v)" "ap_emit P (progress_event_new PhScanning UnitFiles 0) v = (Inr (), w1)"
    "read_index_snapshot uni blake3 (pa_expected_index_version request) (ap_scan_index P) = Some (Inr snapshot)"
    "publish_worktree blake3 cdc P request w1 = (Inr (scanned, st), w2)"
    "seal_candidate uni blake3 P request snapshot scanned st w2 = (Inr p, w')"
proof -
  let ?start = "io_then (io_of (prepare_add_request_validate request)) (\<lambda>_.
      io_then (io_of (ensure (ap_version P = pa_expected_index_version request) EcIndexVersionMismatch)) (\<lambda>_.
      io_then (ap_check P BeforeScan) (\<lambda>_. ap_emit P (progress_event_new PhScanning UnitFiles 0))))"
  obtain r w1 where st: "?start w = (r, w1)" by (cases "?start w")
  from assms obtain u where "r = Inr u" unfolding prepare_add_def st by (cases r) auto
  with st assms that show ?thesis
    by (auto simp: prepare_add_def io_then_ok_iff split: option.splits sum.splits)
qed

lemma proposed_mutations_exact:
  assumes "bt_ok mutations" and "bt_get mutations = proposed_mutation request idx scanned"
    and "\<And>p f. bt_get scanned p = Some f \<Longrightarrow> fr_path (sf_record f) = p" and "\<And>p r. idx p = Some r \<Longrightarrow> fr_path r = p"
  shows "apply_mutations (bt_values mutations) idx = target_index request idx scanned"
    and "\<forall>m \<in> set (bt_values mutations). apply_mutation m idx \<noteq> idx"
proof -
  have path: "fr_path r = p" if "target_index request idx scanned p = Some r" for p r
    using that assms(3,4) by (auto simp: target_index_def split: option.splits if_splits)
  have each: "mutation_path m = k \<and> apply_mutation m idx \<noteq> idx" if "(k, m) \<in> set mutations" for k m
  proof -
    have "proposed_mutation request idx scanned k = Some m"
      using that bt_get_iff [OF assms(1)] unfolding assms(2) [symmetric] by blast
    then show ?thesis
      using path by (auto simp: proposed_mutation_def fun_eq_iff split: if_splits option.splits)
  qed
  have "apply_mutations (bt_values mutations) idx = (\<lambda>p. case map_of mutations p of
     None \<Rightarrow> idx p | Some m \<Rightarrow> (case m of Upsert r \<Rightarrow> Some r | Delete _ \<Rightarrow> None))"
    using each bt_ok_distinct [OF assms(1)] by (intro apply_mutations_values) auto
  also have "\<dots> = target_index request idx scanned"
    using assms(2) by (auto simp: bt_get_def fun_eq_iff proposed_mutation_def split: option.splits)
  finally show "apply_mutations (bt_values mutations) idx = target_index request idx scanned" .
  show "\<forall>m \<in> set (bt_values mutations). apply_mutation m idx \<noteq> idx"
    using each by (fastforce simp: bt_values_def)
qed

lemma records_ok_path: "records_ok records \<Longrightarrow> bt_get records p = Some r \<Longrightarrow> fr_path r = p"
  by (auto simp: records_ok_def bt_get_iff)

lemma scanned_ok_path: "scanned_ok scanned \<Longrightarrow> bt_get scanned p = Some f \<Longrightarrow> fr_path (sf_record f) = p"
  by (auto simp: scanned_ok_def bt_get_iff)

lemma sealed_delta_exact:
  assumes snap: "records_ok snapshot" and sc: "scanned_ok scanned"
    and run: "seal_candidate uni blake3 P request snapshot scanned st w = (Inr p, w')"
  shows "apply_mutations (delta_iter (pd_index_delta p)) (bt_get snapshot) = target_index request (bt_get snapshot) scanned"
    and "\<forall>m \<in> set (delta_iter (pd_index_delta p)). apply_mutation m (bt_get snapshot) \<noteq> bt_get snapshot"
    and "\<exists>result. bt_ok result \<and> bt_get result = target_index request (bt_get snapshot) scanned
       \<and> index_snapshot_digest uni blake3 (bt_values result) = Inr (dl_result_digest (pd_index_delta p))"
proof -
  from run obtain parts st' where b: "build_candidate uni blake3 request snapshot scanned st = Inr (parts, st')"
    "delta_iter (pd_index_delta p) = cp_mutations parts" "dl_result_digest (pd_index_delta p) = cp_result_digest parts"
    by (rule seal_candidate_cases)
  have ok: "bt_ok snapshot" "\<forall>(p, r) \<in> set snapshot. fr_path r = p" using snap by (auto simp: records_ok_def)
  obtain result mutations where r: "bt_ok result" "bt_get result = target_index request (bt_get snapshot) scanned"
    "index_snapshot_digest uni blake3 (bt_values result) = Inr (cp_result_digest parts)"
    "bt_ok mutations" "cp_mutations parts = bt_values mutations" "bt_get mutations = proposed_mutation request (bt_get snapshot) scanned"
    by (rule build_candidate_result [OF ok sc b(1)]) blast
  note ex = proposed_mutations_exact [OF r(4,6) scanned_ok_path [OF sc] records_ok_path [OF snap]]
  show "apply_mutations (delta_iter (pd_index_delta p)) (bt_get snapshot) = target_index request (bt_get snapshot) scanned"
    "\<forall>m \<in> set (delta_iter (pd_index_delta p)). apply_mutation m (bt_get snapshot) \<noteq> bt_get snapshot"
    using ex by (simp_all add: b(2) r(5))
  show "\<exists>result. bt_ok result \<and> bt_get result = target_index request (bt_get snapshot) scanned
       \<and> index_snapshot_digest uni blake3 (bt_values result) = Inr (dl_result_digest (pd_index_delta p))"
    using r(1-3) b(3) by auto
qed

end
