(* ===== verification/Execution.thy ===== *)
theory Execution
  imports Adapters
begin

text \<open>
  Executing plans in the world of memory adapters: the files after a plan are those an abstract
  step relation allows, executions return, the lock table is restored, and the journal tells what
  may have happened to the worktree.
\<close>

section \<open>The effect of a plan on the files\<close>

type_synonym file_tree = "logical_path \<Rightarrow> byte list option"

text \<open>
  \<open>bytes\<close> is content of the manifest \<open>mid\<close>: the concatenation of byte strings that hash to the
  objects of a manifest with this identity and have the sizes of its chunks.
\<close>

definition content_of :: "(byte list \<Rightarrow> content_digest) \<Rightarrow> manifest_id \<Rightarrow> byte list \<Rightarrow> bool" where
  "content_of blake3 mid bytes \<longleftrightarrow> (\<exists>m parts. manifest_id blake3 m = Inr mid
     \<and> list_all2 (\<lambda>c p. object_id_for_bytes blake3 p = cr_object_id c \<and> length p = unat (cr_size c)) (m_chunks m) parts
     \<and> bytes = concat parts \<and> length bytes = unat (m_total_size m))"

inductive file_step :: "(byte list \<Rightarrow> content_digest) \<Rightarrow> file_tree \<Rightarrow> mutation_action \<Rightarrow> file_tree \<Rightarrow> bool"
  for blake3 where
    create: "f path = None \<Longrightarrow> file_step blake3 f (CreateDirectory path) f"
  | write_file: "f path = None \<Longrightarrow> content_of blake3 mid bytes \<Longrightarrow> length bytes = unat sz \<Longrightarrow>
      file_step blake3 f (WriteFile path mid sz) (f(path \<mapsto> bytes))"
  | remove: "f path = Some bytes \<Longrightarrow> file_step blake3 f (RemoveFile path) (f(path := None))"

inductive file_steps :: "(byte list \<Rightarrow> content_digest) \<Rightarrow> file_tree \<Rightarrow> mutation_action list \<Rightarrow> file_tree \<Rightarrow> bool"
  for blake3 where
    nil: "file_steps blake3 f [] f"
  | cons: "file_step blake3 f a g \<Longrightarrow> file_steps blake3 g as h \<Longrightarrow> file_steps blake3 f (a # as) h"

fun action_size :: "mutation_action \<Rightarrow> nat" where
  "action_size (WriteFile path mid sz) = unat sz"
| "action_size a = 0"

definition tree_files :: "memory_world \<Rightarrow> file_tree" where
  "tree_files w = bt_get (mw_files (w_tree w))"

definition tree_ok :: "memory_world \<Rightarrow> bool" where
  "tree_ok w \<longleftrightarrow> bt_ok (mw_files (w_tree w))"

lemma on_tree_eq: "on_tree m w = (r, w') \<longleftrightarrow> (\<exists>t. m (w_tree w) = (r, t) \<and> w' = w \<lparr> w_tree := t \<rparr>)"
  by (auto simp: on_tree_def split: prod.splits)

lemma bt_remove_absent: "bt_get m k = None \<Longrightarrow> bt_remove k m = m"
  unfolding bt_get_None_iff bt_remove_def by (rule filter_True) (force simp: image_iff)

lemma create_dir_effect:
  assumes "memory_create_dir_all path t = (r, t')"
  shows "mw_files t' = mw_files t" and "r = Inr u \<Longrightarrow> bt_get (mw_files t) path = None"
  using assms by (auto simp: memory_create_dir_all_def bt_get_None_iff split: if_splits)

lemma write_file_effect:
  assumes "memory_write_file_atomic path sz source t = (r, t')" and "bt_ok (mw_files t)"
  shows "(\<exists>e. r = Inl e) \<and> t' = t
    \<or> r = Inr () \<and> bt_get (mw_files t) path = None \<and> bt_ok (mw_files t')
      \<and> (\<exists>bytes. source = Inr bytes \<and> length bytes = unat sz \<and> bt_get (mw_files t') = (bt_get (mw_files t))(path \<mapsto> bytes))"
proof (cases "read_exact_size source sz")
  case (Inl e)
  then show ?thesis using assms by (auto simp: memory_write_file_atomic_def)
next
  case (Inr bytes)
  then have "source = Inr bytes" "length bytes = unat sz" by (auto simp: read_exact_size_def split: if_splits)
  then show ?thesis using assms Inr
    by (auto simp: memory_write_file_atomic_def memory_insert_file_def bt_get_None_iff split: if_splits)
qed

lemma remove_file_effect:
  "memory_remove_file path t = (r, t') \<Longrightarrow> bt_ok (mw_files t) \<Longrightarrow>
     bt_ok (mw_files t') \<and> bt_get (mw_files t') = (bt_get (mw_files t))(path := None)
     \<and> r = Inr (bt_get (mw_files t) path \<noteq> None)"
  by (auto simp: memory_remove_file_def bt_get_None_iff)

lemma loaded_content:
  assumes "load_manifest blake3 get_manifest scan mid = Some (Inr m)"
    and "manifest_read_to_end (memory_copy_to blake3 objects) n [] (manifest_object_reader_new (m_chunks m)) = Inr bytes"
    and "length bytes = unat (m_total_size m)"
  shows "content_of blake3 mid bytes"
proof -
  obtain parts where parts: "list_all2 (\<lambda>c p. memory_copy_to blake3 objects \<lparr> os_id = cr_object_id c, os_size = cr_size c \<rparr> = Inr p)
      (m_chunks m) parts" and b: "bytes = concat parts"
    using assms(2) by (auto simp: manifest_source_eq fetch_objects_ok)
  have "list_all2 (\<lambda>c p. object_id_for_bytes blake3 p = cr_object_id c \<and> length p = unat (cr_size c)) (m_chunks m) parts"
    using parts by (rule list_all2_mono) (simp add: memory_copy_to_iff)
  then show ?thesis using b assms(3) load_manifest_ok(1) [OF assms(1)] unfolding content_of_def by blast
qed

text \<open>One action: it fails without an effect on the files, or makes the specified step.\<close>

lemma apply_action_effect:
  assumes "apply_action blake3 (memory_worktree_ports blake3) written a w = Some (r, w')" and "tree_ok w"
  shows "tree_ok w' \<and> (tree_files w' = tree_files w \<and> (\<exists>e. r = Inl e)
    \<or> file_step blake3 (tree_files w) a (tree_files w') \<and>
       (\<forall>n. r = Inr n \<longrightarrow> unat n = unat written + action_size a))"
proof (cases a)
  case (CreateDirectory path)
  then obtain r1 t where m: "memory_create_dir_all path (w_tree w) = (r1, t)" "w' = w \<lparr> w_tree := t \<rparr>"
      "r = map_sum id (\<lambda>_. written) r1"
    using assms(1) by (cases "memory_create_dir_all path (w_tree w)")
       (auto simp: io_then_def on_tree_def split: sum.splits)
  show ?thesis
    using m create_dir_effect [OF m(1)] CreateDirectory assms(2)
    by (cases r1) (auto simp: tree_ok_def tree_files_def intro: file_step.create)
next
  case (RemoveFile path)
  obtain r1 t where m: "memory_remove_file path (w_tree w) = (r1, t)" by fastforce
  note eff = remove_file_effect [OF m] 
  have ok: "bt_ok (mw_files (w_tree w))" using assms(2) by (simp add: tree_ok_def)
  show ?thesis
  proof (cases "bt_get (mw_files (w_tree w)) path")
    case None
    then have "w' = w \<lparr> w_tree := t \<rparr>" "r = Inl EcResourceNotFound"
      using assms(1) RemoveFile m eff [OF ok] by (auto simp: io_then_def on_tree_def)
    then show ?thesis using eff [OF ok] None by (auto simp: tree_ok_def tree_files_def)
  next
    case (Some bytes)
    then have "w' = w \<lparr> w_tree := t \<rparr>" "r = Inr written"
      using assms(1) RemoveFile m eff [OF ok] by (auto simp: io_then_def on_tree_def)
    then show ?thesis
      using eff [OF ok] Some RemoveFile file_step.remove [of "tree_files w" path bytes blake3]
      by (auto simp: tree_ok_def tree_files_def)
  qed
next
  case (WriteFile path mid sz)
  have ok: "bt_ok (mw_files (w_tree w))" using assms(2) by (simp add: tree_ok_def)
  let ?load = "load_manifest blake3 (memory_catalog_get_manifest (w_catalog w)) (memory_catalog_scan_manifest_chunks (w_catalog w)) mid"
  show ?thesis
  proof (cases "\<exists>m. ?load = Some (Inr m) \<and> m_total_size m = sz")
    case False
    then have "w' = w" "\<exists>e. r = Inl e"
      using assms(1) WriteFile by (auto split: option.splits sum.splits if_splits)
    then show ?thesis using assms(2) by auto
  next
    case True
    then obtain m where l: "?load = Some (Inr m)" "m_total_size m = sz" by blast
    let ?src = "manifest_read_to_end (memory_copy_to blake3 (w_objects w)) READ_BUFFER [] (manifest_object_reader_new (m_chunks m))"
    obtain r1 t where m: "memory_write_file_atomic path sz ?src (w_tree w) = (r1, t)" by fastforce
    have r: "w' = w \<lparr> w_tree := t \<rparr>" "r = and_then r1 (\<lambda>_. ok_or EcInternal (checked_add written sz))"
      using assms(1) WriteFile l m by (auto simp: io_then_def on_tree_def split: sum.splits)
    from write_file_effect [OF m ok] show ?thesis
    proof (elim disjE conjE exE)
      fix e
      assume "r1 = Inl e" "t = w_tree w"
      then show ?thesis using r assms(2) by simp
    next
      fix bytes
      assume a: "r1 = Inr ()" "bt_get (mw_files (w_tree w)) path = None" "bt_ok (mw_files t)"
        "?src = Inr bytes" "length bytes = unat sz" "bt_get (mw_files t) = (bt_get (mw_files (w_tree w)))(path \<mapsto> bytes)"
      have "content_of blake3 mid bytes" using loaded_content [OF l(1) a(4)] a(5) l(2) by simp
      then have "file_step blake3 (tree_files w) (WriteFile path mid sz) (tree_files w')"
        using a r(1) file_step.write_file [of "tree_files w" path blake3 mid bytes sz] by (simp add: tree_files_def)
      then show ?thesis using r a WriteFile by (simp add: tree_ok_def checked_add_eq_Some)
    qed
  qed
qed

lemma apply_actions_effect:
  assumes "apply_actions blake3 (memory_worktree_ports blake3) n applied written as w = Some (r, w')" and "tree_ok w"
  shows "tree_ok w' \<and> (\<exists>k \<le> length as. file_steps blake3 (tree_files w) (take k as) (tree_files w')
    \<and> (\<forall>app. r = Inr app \<longrightarrow> k = length as \<and> unat (ma_actions_applied app) = unat applied + length as
         \<and> unat (ma_bytes_written app) = unat written + sum_list (map action_size as)))"
  using assms
proof (induction as arbitrary: applied written w)
  case Nil
  then show ?case by (auto intro: file_steps.nil)
next
  case (Cons a as)
  obtain r1 w1 where c: "on_armed (injector_check BeforeMutation) w = (r1, w1)" by fastforce
  then have t1: "w_tree w1 = w_tree w" by (auto simp: on_armed_def split: prod.splits)
  then have w1: "tree_ok w1" "tree_files w1 = tree_files w" using Cons.prems(2) by (simp_all add: tree_ok_def tree_files_def)
  have none: "\<exists>k \<le> length (a # as). file_steps blake3 (tree_files w) (take k (a # as)) (tree_files w)
      \<and> (\<forall>app. Inl e = Inr app \<longrightarrow> P app)" for e :: error_code and P :: "mutation_application \<Rightarrow> bool"
    by (rule exI [of _ 0]) (simp add: file_steps.nil)
  show ?case
  proof (cases r1)
    case (Inl e)
    then show ?thesis using Cons.prems c w1 none [of e] by auto
  next
    case (Inr u)
    then obtain r2 w2 where a: "apply_action blake3 (memory_worktree_ports blake3) written a w1 = Some (r2, w2)"
      using Cons.prems c by (auto split: option.splits)
    from apply_action_effect [OF a w1(1)] consider
        (quiet) e where "tree_ok w2" "tree_files w2 = tree_files w" "r2 = Inl e"
      | (step) "tree_ok w2" "file_step blake3 (tree_files w) a (tree_files w2)"
          "\<forall>n. r2 = Inr n \<longrightarrow> unat n = unat written + action_size a"
      using w1(2) by auto
    then show ?thesis
    proof cases
      case quiet
      then show ?thesis using Cons.prems c Inr a none [of e] by auto
    next
      case step
      have one: "file_steps blake3 (tree_files w) (take 1 (a # as)) (tree_files w2)"
        using step(2) by (auto intro: file_steps.intros)
      show ?thesis
      proof (cases "\<exists>n m. r2 = Inr n \<and> checked_add applied 1 = Some m")
        case False
        then have "w' = w2" "\<exists>e. r = Inl e"
          using Cons.prems(1) c Inr a by (cases r2; cases "checked_add applied 1"; auto simp: io_then_def)+
        then show ?thesis using step(1) one by (auto intro!: exI [of _ 1])
      next
        case True
        then obtain nw m where nm: "r2 = Inr nw" "checked_add applied 1 = Some m" by blast
        then have "apply_actions blake3 (memory_worktree_ports blake3) n m nw as w2 = Some (r, w')"
          using Cons.prems(1) c Inr a by (simp add: io_then_def noop_emit_def)
        from Cons.IH [OF this step(1)] obtain k where k: "tree_ok w'" "k \<le> length as"
          "file_steps blake3 (tree_files w2) (take k as) (tree_files w')"
          "\<forall>app. r = Inr app \<longrightarrow> k = length as \<and> unat (ma_actions_applied app) = unat m + length as
             \<and> unat (ma_bytes_written app) = unat nw + sum_list (map action_size as)" by blast
        have "unat m = unat applied + 1" using nm(2) by (simp add: checked_add_eq_Some)
        moreover have "unat nw = unat written + action_size a" using step(3) nm(1) by blast
        moreover have "file_steps blake3 (tree_files w) (take (Suc k) (a # as)) (tree_files w')"
          using step(2) k(3) by (auto intro: file_steps.cons)
        ultimately show ?thesis using k by (intro conjI exI [of _ "Suc k"]) auto
      qed
    qed
  qed
qed

section \<open>Executions return\<close>

definition catalog_ok :: "memory_catalog \<Rightarrow> bool" where
  "catalog_ok c \<longleftrightarrow> (\<forall>mid chunks md. bt_get (mc_manifests c) mid = Some (md, chunks) \<longrightarrow> sorted_wrt (<) (map cr_offset chunks))"

lemma memory_load_manifest_returns:
  assumes "catalog_ok c"
  shows "load_manifest blake3 (memory_catalog_get_manifest c) (memory_catalog_scan_manifest_chunks c) mid \<noteq> None"
proof (cases "bt_get (mc_manifests c) mid")
  case None
  then show ?thesis by (simp add: load_manifest_def memory_catalog_get_manifest_def)
next
  case (Some mc)
  obtain md chunks where mc: "mc = (md, chunks)" by fastforce
  have "catalog_chunks_ok (c, mid)"
    using assms Some mc by (auto simp: catalog_chunks_ok_def catalog_chunks_def catalog_ok_def)
  then have "paged_scan (\<lambda>_. Inr ()) (memory_catalog_scan_manifest_chunks c mid) []
      \<lparr> pr_after = None, pr_limit = MAX_PAGE_SIZE \<rparr> = Some (Inr (catalog_chunks (c, mid)))"
    using catalog_reader.scan_complete [of "(c, mid)" "\<lambda>_. Inr ()"] by simp
  then show ?thesis
    using Some mc by (simp add: load_manifest_def memory_catalog_get_manifest_def page_request_first_def page_request_max)
qed

lemma apply_actions_returns:
  "catalog_ok (w_catalog w) \<Longrightarrow> apply_actions blake3 (memory_worktree_ports blake3) n applied written as w \<noteq> None"
proof (induction as arbitrary: applied written w)
  case (Cons a as)
  have "apply_action blake3 (memory_worktree_ports blake3) written a v \<noteq> None" if "catalog_ok (w_catalog v)" for v
    using memory_load_manifest_returns [OF that] by (cases a) (auto split: option.splits sum.splits simp: Let_def)
  note act = this
  obtain r1 w1 where c: "on_armed (injector_check BeforeMutation) w = (r1, w1)" by fastforce
  then have w1: "catalog_ok (w_catalog w1)" using Cons.prems same_stores_ports(2) [OF c] by (simp add: same_stores_def)
  show ?case
  proof (cases r1)
    case (Inr u)
    obtain r2 w2 where a: "apply_action blake3 (memory_worktree_ports blake3) written a w1 = Some (r2, w2)"
      using act [OF w1] by fastforce
    have "catalog_ok (w_catalog w2)" using apply_action_stores [OF a] w1 by (simp add: same_stores_def)
    then show ?thesis
      using c Inr a Cons.IH [of w2] by (cases r2; cases "checked_add applied 1") (auto simp: io_then_def noop_emit_def)
  qed (use c in simp)
qed simp

lemma memory_execute_returns:
  assumes "journals_ok (w_journals w)" and "catalog_ok (w_catalog w)"
  shows "execute_mutation blake3 (memory_ports blake3) request w \<noteq> None"
proof -
  have under: "execute_under_guard (memory_ports blake3) request guard v \<noteq> None"
    if ok: "journals_ok (w_journals v)" "catalog_ok (w_catalog v)" for guard v
  proof -
    obtain r v1 where b: "begin_mutation (memory_ports blake3) request guard v = (r, v1)" by fastforce
    have ok1: "catalog_ok (w_catalog v1)"
      using io_postD [OF memory.begin_post b] ok by simp
    obtain r2 v2 where c: "io_then (port_checkpoint (memory_ports blake3) guard CpBeforeIrreversibleWrite)
        (\<lambda>_. port_check (memory_ports blake3) BeforeMutation) v1 = (r2, v2)" by fastforce
    then have "w_catalog v2 = w_catalog v1"
      by (auto simp: io_then_def memory_ports_def on_armed_def split: prod.splits sum.splits)
    then have "apply_under_guard (memory_ports blake3) (em_plan request) guard v1 \<noteq> None"
      using c ok1 apply_actions_returns [of v2 blake3]
      by (cases r2) (auto simp: apply_under_guard_def memory_ports_def apply_worktree_actions_def split: option.splits)
    then show ?thesis
      using b by (cases r) (auto simp: execute_under_guard_def split: option.splits sum.splits)
  qed
  obtain g w1 where g: "port_acquire (memory_ports blake3) (mp_identity (em_plan request)) w = (g, w1)" by fastforce
  then have "w_journals w1 = w_journals w" "w_catalog w1 = w_catalog w"
    by (auto simp: memory_ports_def on_locks_def split: prod.splits)
  then show ?thesis
    using under [of w1] assms g
    by (cases g; cases "plan_validate blake3 (em_plan request)") (simp_all add: execute_mutation_def)
qed

section \<open>Locks\<close>

definition keeps :: "('w \<Rightarrow> 'b) \<Rightarrow> ('w, 'a) engine_io \<Rightarrow> bool" where
  "keeps g m \<longleftrightarrow> (\<forall>w. g (snd (m w)) = g w)"

lemma keepsD: "keeps g m \<Longrightarrow> m w = (r, w') \<Longrightarrow> g w' = g w"
  unfolding keeps_def by (metis snd_conv)

lemma keeps_match:
  assumes "keeps g m" and "\<And>a. keeps g (n a)" and "\<And>w. g (h w) = g w"
  shows "keeps g (\<lambda>w. case m w of (Inl e, w) \<Rightarrow> (Inl e, h w) | (Inr a, w) \<Rightarrow> n a w)"
  unfolding keeps_def
proof
  fix w
  obtain r w1 where m: "m w = (r, w1)" by fastforce
  show "g (snd (case m w of (Inl e, w) \<Rightarrow> (Inl e, h w) | (Inr a, w) \<Rightarrow> n a w)) = g w"
  proof (cases r)
    case (Inl e)
    then show ?thesis using m assms(3) keepsD [OF assms(1) m] by simp
  next
    case (Inr a)
    then show ?thesis using m assms(2) [of a] keepsD [OF assms(1) m] by (simp add: keeps_def)
  qed
qed

lemma keeps_then: "keeps g m \<Longrightarrow> (\<And>a. keeps g (f a)) \<Longrightarrow> keeps g (io_then m f)"
  using keeps_match [of g m f "\<lambda>w. w"] by (simp add: io_then_def [abs_def])

lemma keeps_pure [simp]: "keeps g (io_of r)" "keeps g (io_ok a)" "keeps g (\<lambda>w. (h w, w))"
  by (simp_all add: keeps_def)

lemma memory_keeps_locks [simp]:
  "keeps w_locks (port_checkpoint (memory_ports blake3) i c)" "keeps w_locks (port_now (memory_ports blake3))"
  "keeps w_locks (port_emit (memory_ports blake3) e)" "keeps w_locks (port_check (memory_ports blake3) p)"
  "keeps w_locks (port_create (memory_ports blake3) j)"
  "keeps w_locks (port_compare_exchange (memory_ports blake3) n j)"
  by (simp_all add: memory_ports_def keeps_def noop_emit_def on_armed_def on_journals_def split: prod.splits)

lemma advance_keeps_locks [simp]: "keeps w_locks (advance_journal (memory_ports blake3) j p t)"
  unfolding advance_journal_def Let_def by (intro keeps_then) simp_all

lemma mark_keeps_locks [simp]: "w_locks (mark_recovery_required (memory_ports blake3) j w) = w_locks w"
  using advance_keeps_locks memory_keeps_locks(2)
  by (simp add: mark_recovery_required_def keeps_def Let_def case_prod_beta)

lemma begin_keeps_locks: "keeps w_locks (begin_mutation (memory_ports blake3) request guard)"
  unfolding begin_mutation_def Let_def by (intro keeps_then) simp_all

lemma conclude_keeps_locks: "keeps w_locks (conclude_mutation (memory_ports blake3) request guard t j app)"
  unfolding conclude_mutation_def Let_def
  by (intro keeps_then keeps_match) simp_all

lemma apply_keeps_locks:
  assumes "apply_under_guard (memory_ports blake3) plan guard w = Some (r, w')"
  shows "w_locks w' = w_locks w"
proof -
  obtain r2 v where c: "io_then (port_checkpoint (memory_ports blake3) guard CpBeforeIrreversibleWrite)
      (\<lambda>_. port_check (memory_ports blake3) BeforeMutation) w = (r2, v)" by fastforce
  have v: "w_locks v = w_locks w" by (rule keepsD [OF keeps_then c]) simp_all
  show ?thesis
  proof (cases r2)
    case (Inl e)
    then show ?thesis using assms c v by (simp add: apply_under_guard_def)
  next
    case (Inr u)
    then have "apply_worktree_actions blake3 (memory_worktree_ports blake3) plan v = Some (r, w')"
      using assms c by (simp add: apply_under_guard_def memory_ports_def)
    then have "same_stores v w'"
      using apply_actions_stores by (auto simp: apply_worktree_actions_def split: option.splits)
    then show ?thesis using v by (simp add: same_stores_def)
  qed
qed

lemma under_guard_keeps_locks:
  assumes "execute_under_guard (memory_ports blake3) request guard w = Some (r, w')"
  shows "w_locks w' = w_locks w"
proof -
  obtain r1 w1 where b: "begin_mutation (memory_ports blake3) request guard w = (r1, w1)" by fastforce
  note w1 = keepsD [OF begin_keeps_locks b]
  show ?thesis
  proof (cases r1)
    case (Inl e)
    then show ?thesis using assms b w1 by (simp add: execute_under_guard_def)
  next
    case (Inr tj)
    obtain t j where tj: "tj = (t, j)" by fastforce
    obtain r2 w2 where a: "apply_under_guard (memory_ports blake3) (em_plan request) guard w1 = Some (r2, w2)"
      using assms b Inr tj by (auto simp: execute_under_guard_def split: option.splits)
    note w2 = apply_keeps_locks [OF a]
    show ?thesis
    proof (cases r2)
      case (Inl e)
      then show ?thesis using assms b Inr tj a w1 w2 by (auto simp: execute_under_guard_def)
    next
      case r2: (Inr app)
      then have "conclude_mutation (memory_ports blake3) request guard t j app w2 = (r, w')"
        using assms b Inr tj a by (simp add: execute_under_guard_def)
      from keepsD [OF conclude_keeps_locks this] show ?thesis using w1 w2 by simp
    qed
  qed
qed

lemma memory_execute_locks:
  assumes "execute_mutation blake3 (memory_ports blake3) request w = Some (r, w')"
  shows "w_locks w' = w_locks w"
proof (cases "plan_validate blake3 (em_plan request)")
  case (Inl e)
  then show ?thesis using assms by (simp add: execute_mutation_def)
next
  case (Inr u)
  let ?i = "mp_identity (em_plan request)"
  obtain g w1 where g: "port_acquire (memory_ports blake3) ?i w = (g, w1)" by fastforce
  show ?thesis
  proof (cases g)
    case (Inl e)
    then have "w_locks w1 = w_locks w"
      using g by (auto simp: memory_ports_def on_locks_def lock_acquire_def split: prod.splits sum.splits if_splits)
    then show ?thesis using assms Inr g Inl by (simp add: execute_mutation_def)
  next
    case g': (Inr guard)
    then have l1: "guard = ?i" "w_locks w1 = w_locks w \<lparr> lm_locked := lock_path blake3 ?i # lm_locked (w_locks w) \<rparr>"
      "lock_path blake3 ?i \<notin> set (lm_locked (w_locks w))"
      using g by (auto simp: memory_ports_def on_locks_def lock_acquire_def split: prod.splits sum.splits if_splits)
    obtain w2 where e: "execute_under_guard (memory_ports blake3) request guard w1 = Some (r, w2)"
      and w': "w' = w2 \<lparr> w_locks := lock_release blake3 guard (w_locks w2) \<rparr>"
      using assms Inr g g' by (auto simp: execute_mutation_def memory_ports_def)
    have "w_locks w2 = w_locks w1" by (rule under_guard_keeps_locks [OF e])
    then show ?thesis using w' l1 by (simp add: lock_release_def)
  qed
qed

section \<open>A sample world\<close>

definition sample_bytes :: "byte list" where
  "sample_bytes = [7, 9]"

definition sample_object :: object_id where
  "sample_object = object_id_for_bytes sum_hash sample_bytes"

definition sample_file :: manifest where
  "sample_file = \<lparr> m_total_size = 2, m_chunking = WholeFile,
     m_chunks = [\<lparr> cr_object_id = sample_object, cr_offset = 0, cr_size = 2 \<rparr>] \<rparr>"

definition sample_file_id :: manifest_id where
  "sample_file_id = ManifestId (sum_hash (manifest_encoding sample_file))"

definition sample_identity :: mutation_identity where
  "sample_identity = \<lparr> id_tenant_id = ''t'', id_artifact_id = ''a'', id_workspace_id = ''w'', id_job_id = ''j'',
     id_storage_volume_id = ''v'', id_owner_generation = 1, id_fencing_token = 1 \<rparr>"

definition sample_plan :: mutation_plan where
  "sample_plan = (let p = \<lparr> mp_plan_id = ''p'', mp_identity = sample_identity,
     mp_expected_index_version = \<lparr> iv_revision = 1, iv_digest = ContentDigest 0 \<rparr>,
     mp_actions = [WriteFile sample_path sample_file_id 2], mp_digest = ContentDigest 0 \<rparr>
     in p \<lparr> mp_digest := sum_hash (plan_encoding p) \<rparr>)"

definition sample_request :: execute_mutation_request where
  "sample_request = \<lparr> em_plan = sample_plan, em_recovery_payload = [] \<rparr>"

definition sample_world :: memory_world where
  "sample_world = \<lparr> w_journals = [], w_tree = \<lparr> mw_files = [], mw_directories = [] \<rparr>,
     w_objects = [(sample_object, sample_bytes)],
     w_catalog = \<lparr> mc_commits = [], mc_manifests = [(sample_file_id,
        (\<lparr> mm_id = sample_file_id, mm_total_size = 2, mm_chunk_count = 1, mm_chunking = WholeFile \<rparr>, m_chunks sample_file))],
        mc_directories = [] \<rparr>,
     w_clock = 5, w_armed = {},
     w_locks = \<lparr> lm_device = 1, lm_inode = 1, lm_status = RootDirectory 1 1, lm_locked = [] \<rparr> \<rparr>"


lemma plan_encoding_digest [simp]: "plan_encoding (p \<lparr> mp_digest := d \<rparr>) = plan_encoding p"
  by (simp add: plan_encoding_def)

lemma plan_fits_digest [simp]: "plan_fits (p \<lparr> mp_digest := d \<rparr>) = plan_fits p"
  by (simp add: plan_fits_def)

lemma plan_validate_content_digest [simp]: "plan_validate_content (p \<lparr> mp_digest := d \<rparr>) = plan_validate_content p"
  by (simp add: plan_validate_content_def)

lemma sample_plan_valid: "plan_validate sum_hash sample_plan = Inr ()"
  unfolding sample_plan_def Let_def plan_validate_def plan_compute_digest_eq plan_encoding_digest plan_fits_digest
    plan_validate_content_digest
  by (simp add: plan_validate_content_def plan_fits_def mutation_identity_validate_def sample_identity_def
      str_fits_def action_fits_def sample_path_def)

lemma sample_plan_simps [simp]:
  "mp_plan_id sample_plan = ''p''" "mp_identity sample_plan = sample_identity"
  "mp_actions sample_plan = [WriteFile sample_path sample_file_id 2]"
  by (simp_all add: sample_plan_def Let_def)

lemma sample_file_valid: "manifest_validate sample_file = Inr ()"
  by (simp add: sample_file_def manifest_validate_def manifest_step_def chunk_validate_def whole_file_ok_def checked_add_def)

lemma sample_file_load:
  "load_manifest sum_hash (memory_catalog_get_manifest (w_catalog sample_world))
     (memory_catalog_scan_manifest_chunks (w_catalog sample_world)) sample_file_id = Some (Inr sample_file)"
proof -
  let ?c = "w_catalog sample_world"
  have get: "bt_get (mc_manifests ?c) sample_file_id =
      Some (\<lparr> mm_id = sample_file_id, mm_total_size = 2, mm_chunk_count = 1, mm_chunking = WholeFile \<rparr>, m_chunks sample_file)"
    by (simp add: sample_world_def bt_get_def)
  then have "catalog_chunks_ok (?c, sample_file_id)" "catalog_chunks (?c, sample_file_id) = m_chunks sample_file"
    by (simp_all add: catalog_chunks_ok_def catalog_chunks_def sample_file_def)
  then have "paged_scan (\<lambda>_. Inr ()) (memory_catalog_scan_manifest_chunks ?c sample_file_id) []
      \<lparr> pr_after = None, pr_limit = MAX_PAGE_SIZE \<rparr> = Some (Inr (m_chunks sample_file))"
    using catalog_reader.scan_complete [of "(?c, sample_file_id)" "\<lambda>_. Inr ()"] by simp
  moreover have "manifest_new 2 WholeFile (m_chunks sample_file) = Inr sample_file"
    using sample_file_valid by (simp add: manifest_new_def sample_file_def)
  moreover have "manifest_id sum_hash sample_file = Inr sample_file_id"
    by (simp add: manifest_id_eq sample_file_valid sample_file_id_def)
  moreover have "u64_try_from (length (m_chunks sample_file)) = Some 1"
    by (simp add: sample_file_def u64_try_from_def)
  ultimately show ?thesis
    using get by (simp add: load_manifest_def memory_catalog_get_manifest_def page_request_first_def page_request_max)
qed

lemma sample_source:
  "manifest_read_to_end (memory_copy_to sum_hash (w_objects sample_world)) n []
     (manifest_object_reader_new (m_chunks sample_file)) = Inr sample_bytes"
  by (simp add: manifest_source_eq sample_file_def fetch_object_def sample_world_def memory_copy_to_def bt_get_def
      verify_bytes_def sample_object_def sample_bytes_def)

lemma sample_apply:
  assumes "w_catalog w = w_catalog sample_world" and "w_objects w = w_objects sample_world"
    and "w_tree w = w_tree sample_world" and "w_armed w = {}"
  shows "apply_worktree_actions sum_hash (memory_worktree_ports sum_hash) sample_plan w =
    Some (Inr \<lparr> ma_actions_applied = 1, ma_bytes_written = 2 \<rparr>,
      w \<lparr> w_tree := \<lparr> mw_files = [(sample_path, sample_bytes)], mw_directories = [] \<rparr> \<rparr>)"
proof -
  have parents: "add_parent_directories [] sample_path = []"
    by (subst add_parent_directories.simps) (simp add: path_parent_def sample_path_def)
  have armed: "w \<lparr> w_armed := {} \<rparr> = w" using assms(4) by (cases w) simp
  show ?thesis
    using assms sample_file_load sample_source
    by (simp add: apply_worktree_actions_def u64_try_from_def on_armed_def injector_check_def armed Let_def
        io_then_def on_tree_def memory_write_file_atomic_def read_exact_size_def sample_bytes_def
        memory_insert_file_def parents noop_emit_def checked_add_def sample_file_def
        sample_world_def)
qed

definition sample_journal :: journal_record where
  "sample_journal = \<lparr> jr_id = JournalId ''p'', jr_revision = 3, jr_phase = AwaitingFinalize, jr_identity = sample_identity,
     jr_plan_id = ''p'', jr_plan_digest = mp_digest sample_plan, jr_recovery_payload = [], jr_updated_at_unix_ms = 5 \<rparr>"

definition sample_world_after :: memory_world where
  "sample_world_after = sample_world \<lparr> w_journals := [(JournalId ''p'', sample_journal)],
     w_tree := \<lparr> mw_files = [(sample_path, sample_bytes)], mw_directories = [] \<rparr> \<rparr>"

lemma sample_identity_valid: "mutation_identity_validate sample_identity = Inr ()"
  by (simp add: mutation_identity_validate_def sample_identity_def)

lemma memory_port_simps [simp]:
  "port_acquire (memory_ports blake3) i = on_locks (lock_acquire blake3 i)"
  "port_release (memory_ports blake3) i w = w \<lparr> w_locks := lock_release blake3 i (w_locks w) \<rparr>"
  "port_checkpoint (memory_ports blake3) i c w = (verify_identity (w_locks w), w)"
  "port_now (memory_ports blake3) w = (Inr (w_clock w), w)"
  "port_emit (memory_ports blake3) e w = (Inr (), w)"
  "port_check (memory_ports blake3) p = on_armed (injector_check p)"
  "port_create (memory_ports blake3) j = on_journals (memory_journal_create j)"
  "port_load (memory_ports blake3) jid w = (memory_journal_load (w_journals w) jid, w)"
  "port_compare_exchange (memory_ports blake3) n j = on_journals (memory_journal_compare_exchange n j)"
  "port_apply_mutation (memory_ports blake3) = apply_worktree_actions blake3 (memory_worktree_ports blake3)"
  by (simp_all add: memory_ports_def guard_checkpoint_def fixed_clock_now_def noop_emit_def)

text \<open>The worlds of the sample run: locked, with journal, after the plan.\<close>

definition sample_at :: "u64 \<Rightarrow> journal_phase \<Rightarrow> journal_record" where
  "sample_at n p = sample_journal \<lparr> jr_revision := n, jr_phase := p \<rparr>"

definition sample_locked :: memory_world where
  "sample_locked = sample_world \<lparr> w_locks := (w_locks sample_world) \<lparr> lm_locked := [lock_path sum_hash sample_identity] \<rparr> \<rparr>"

lemma sample_root: "verify_identity (w_locks sample_locked) = Inr ()" "verify_identity (w_locks sample_world) = Inr ()"
  by (simp_all add: sample_locked_def sample_world_def verify_identity_def)

lemma sample_acquire: "on_locks (lock_acquire sum_hash sample_identity) sample_world = (Inr sample_identity, sample_locked)"
  using sample_root by (simp add: on_locks_def lock_acquire_def sample_identity_valid sample_locked_def) (simp add: sample_world_def)

lemma sample_check: "w_armed w = {} \<Longrightarrow> on_armed (injector_check p) w = (Inr (), w)"
  by (cases w) (simp add: on_armed_def injector_check_def)

lemma sample_at_valid: "journal_record_validate (sample_at n p) = Inr ()"
  by (simp add: sample_at_def journal_record_validate_def sample_journal_def journal_id_validate_def sample_identity_valid)

lemma sample_advance:
  assumes "w_journals w = [(JournalId ''p'', sample_at n q)]" and "checked_add n 1 = Some m"
  shows "advance_journal (memory_ports sum_hash) (sample_at n q) p 5 w =
    (Inr (sample_at m p), w \<lparr> w_journals := [(JournalId ''p'', sample_at m p)] \<rparr>)"
proof -
  have "validate_successor (sample_at m p) (sample_at n q) = Inr ()"
    using assms(2) by (simp add: validate_successor_def sample_at_valid) (simp add: sample_at_def)
  moreover have "(sample_at n q) \<lparr> jr_revision := m, jr_phase := p, jr_updated_at_unix_ms := 5 \<rparr> = sample_at m p"
    "jr_id (sample_at n q) = JournalId ''p''" "jr_revision (sample_at n q) = n" "jr_id (sample_at m p) = JournalId ''p''"
    by (simp_all add: sample_at_def sample_journal_def)
  ultimately show ?thesis
    using assms by (simp add: advance_journal_def io_then_def on_journals_def memory_journal_compare_exchange_def bt_get_def Let_def)
qed

lemma sample_begin:
  "begin_mutation (memory_ports sum_hash) sample_request sample_identity sample_locked =
     (Inr (5, sample_at 1 Applying), sample_locked \<lparr> w_journals := [(JournalId ''p'', sample_at 1 Applying)] \<rparr>)"
proof -
  have j: "\<lparr> jr_id = JournalId ''p'', jr_revision = 0, jr_phase = Prepared, jr_identity = sample_identity,
      jr_plan_id = ''p'', jr_plan_digest = mp_digest sample_plan, jr_recovery_payload = [], jr_updated_at_unix_ms = 5 \<rparr> = sample_at 0 Prepared"
    by (simp add: sample_at_def sample_journal_def)
  have w: "w_armed sample_locked = {}" "w_clock sample_locked = 5" "w_journals sample_locked = []"
    by (simp_all add: sample_locked_def sample_world_def)
  have "jr_revision (sample_at 0 Prepared) = 0" "jr_id (sample_at 0 Prepared) = JournalId ''p''"
    by (simp_all add: sample_at_def sample_journal_def)
  then have "on_journals (memory_journal_create (sample_at 0 Prepared)) sample_locked =
      (Inr (), sample_locked \<lparr> w_journals := [(JournalId ''p'', sample_at 0 Prepared)] \<rparr>)"
    using w by (simp add: on_journals_def memory_journal_create_def sample_at_valid)
  then show ?thesis
    using w sample_root(1) sample_check [OF w(1)]
      sample_advance [of "sample_locked \<lparr> w_journals := [(JournalId ''p'', sample_at 0 Prepared)] \<rparr>" 0 Prepared 1 Applying]
    by (simp add: begin_mutation_def sample_request_def Let_def io_then_def journal_id_new_def j checked_add_def)
qed

lemma sample_execute:
  "\<exists>receipt. execute_mutation sum_hash (memory_ports sum_hash) sample_request sample_world = Some (Inr receipt, sample_world_after)"
proof -
  let ?w = "\<lambda>t n p. sample_locked \<lparr> w_journals := [(JournalId ''p'', sample_at n p)], w_tree := t \<rparr>"
  let ?t = "\<lparr> mw_files = [(sample_path, sample_bytes)], mw_directories = [] \<rparr>"
  have same: "w_armed (?w t n p) = {}" "w_clock (?w t n p) = 5" "w_locks (?w t n p) = w_locks sample_locked"
    "w_catalog (?w t n p) = w_catalog sample_world" "w_objects (?w t n p) = w_objects sample_world" for t n p
    by (simp_all add: sample_locked_def sample_world_def)
  have start: "sample_locked \<lparr> w_journals := [(JournalId ''p'', sample_at 1 Applying)] \<rparr> = ?w (w_tree sample_world) 1 Applying"
    by (simp add: sample_locked_def)
  have app: "apply_under_guard (memory_ports sum_hash) sample_plan sample_identity (?w (w_tree sample_world) 1 Applying) =
      Some (Inr \<lparr> ma_actions_applied = 1, ma_bytes_written = 2 \<rparr>, ?w ?t 1 Applying)"
    using sample_apply [of "?w (w_tree sample_world) 1 Applying"] same sample_root(1) sample_check [OF same(1)]
    by (simp add: apply_under_guard_def io_then_def)
  have two: "advance_journal (memory_ports sum_hash) (sample_at 1 Applying) Applied 5 (?w ?t 1 Applying) = (Inr (sample_at 2 Applied), ?w ?t 2 Applied)"
    and three: "advance_journal (memory_ports sum_hash) (sample_at 2 Applied) AwaitingFinalize 5 (?w ?t 2 Applied) = (Inr (sample_at 3 AwaitingFinalize), ?w ?t 3 AwaitingFinalize)"
    using sample_advance [of "?w ?t 1 Applying" 1 Applying 2 Applied] sample_advance [of "?w ?t 2 Applied" 2 Applied 3 AwaitingFinalize]
    by (simp_all add: checked_add_def)
  have "\<exists>receipt. conclude_mutation (memory_ports sum_hash) sample_request sample_identity 5 (sample_at 1 Applying)
      \<lparr> ma_actions_applied = 1, ma_bytes_written = 2 \<rparr> (?w ?t 1 Applying) = (Inr receipt, ?w ?t 3 AwaitingFinalize)"
    using two three same sample_root(1) sample_check [OF same(1)]
    by (simp add: conclude_mutation_def Let_def io_then_def)
  moreover have "?w ?t 3 AwaitingFinalize \<lparr> w_locks := lock_release sum_hash sample_identity (w_locks sample_locked) \<rparr> = sample_world_after"
    by (simp add: sample_locked_def sample_world_after_def sample_world_def lock_release_def sample_at_def sample_journal_def)
  ultimately show ?thesis
    using sample_begin start app sample_acquire same(3)
    by (auto simp: execute_mutation_def sample_request_def sample_plan_valid execute_under_guard_def)
qed

section \<open>Properties\<close>

text \<open>
  C29: A plan is valid exactly when its content is and the stored digest is the hash of its canonical
  encoding, and the digest binds every field (identity, fencing token, expected index version and
  each action in order): two valid plans with equal digests are equal up to a hash collision.
\<close>

theorem plan_digest_binds:
  "(plan_validate blake3 p = Inr () \<longleftrightarrow>
      plan_validate_content p = Inr () \<and> plan_fits p \<and> mp_digest p = blake3 (plan_encoding p))
   \<and> (plan_validate blake3 p = Inr () \<and> plan_validate blake3 q = Inr () \<and> mp_digest p = mp_digest q \<longrightarrow>
        p = q \<or> collision blake3 (plan_encoding p) (plan_encoding q))"
proof -
  have iff: "plan_validate blake3 r = Inr () \<longleftrightarrow>
      plan_validate_content r = Inr () \<and> plan_fits r \<and> mp_digest r = blake3 (plan_encoding r)" for r
    by (auto simp: plan_validate_def plan_compute_digest_eq split: if_splits)
  show ?thesis
    using plan_encoding_inj [of p q] by (auto simp: iff collision_def)
qed

theorem plan_digest_binds_witness: "mp_digest sample_plan = sum_hash (plan_encoding sample_plan)"
  using plan_digest_binds [of sum_hash sample_plan sample_plan] sample_plan_valid by blast

text \<open>
  C14: The journal tells the truth about a run.  A successful execution creates exactly one journal,
  for a plan that had none, and leaves it awaiting finalisation at revision 3 with the plan's
  identity, digest and recovery payload, matching the receipt.  A failing execution leaves journals
  and worktree as they were, or leaves such a journal behind in an active phase, and never in
  \<open>Prepared\<close> if the worktree changed.
\<close>

theorem execute_journal_outcome:
  assumes "journals_ok (w_journals w)"
    and "execute_mutation blake3 (memory_ports blake3) request w = Some (r, w')"
  shows "case r of
      Inr receipt \<Rightarrow> (\<exists>j. run_journal request {(3, AwaitingFinalize)} j \<and> receipt_matches request j receipt
        \<and> bt_get (w_journals w) (journal_key request) = None
        \<and> bt_get (w_journals w') = (bt_get (w_journals w))(journal_key request \<mapsto> j))
    | Inl e \<Rightarrow> w_tree w' = w_tree w \<and> bt_get (w_journals w') = bt_get (w_journals w)
        \<or> (\<exists>j. run_journal request run_states j \<and> phase_is_active (jr_phase j)
             \<and> bt_get (w_journals w) (journal_key request) = None
             \<and> bt_get (w_journals w') = (bt_get (w_journals w))(journal_key request \<mapsto> j)
             \<and> (w_tree w' \<noteq> w_tree w \<longrightarrow> jr_phase j \<noteq> Prepared))"
proof -
  have key: "run_journal request A j \<Longrightarrow> jr_id j = journal_key request" for A j
    by (simp add: run_journal_def journal_key_def)
  have active: "run_journal request run_states j \<Longrightarrow> phase_is_active (jr_phase j)" for j
    by (auto simp: run_journal_def run_states_def phase_is_active_def)
  show ?thesis
  proof (cases r)
    case (Inr receipt)
    then show ?thesis
      using memory.execute_outcome [OF _ assms(2)] assms(1) key by (auto simp: journal_at_def)
  next
    case (Inl e)
    then have "left_behind memory_view request w w'" using memory.execute_outcome [OF _ assms(2)] assms(1) by simp
    from this [unfolded left_behind_def] show ?thesis
    proof (elim disjE exE conjE)
      assume "unchanged memory_view w w'"
      then show ?thesis using Inl by (simp add: unchanged_def)
    next
      fix j
      assume j: "run_journal request run_states j" "journal_at memory_view w j w'"
        "dv_tree memory_view w' \<noteq> dv_tree memory_view w \<longrightarrow> jr_phase j \<noteq> Prepared"
      then show ?thesis using Inl key [OF j(1)] active [OF j(1)] by (auto simp: journal_at_def)
    qed
  qed
qed

lemma sample_world_ok: "journals_ok (w_journals sample_world)" "catalog_ok (w_catalog sample_world)" "tree_ok sample_world"
  by (auto simp: sample_world_def journals_ok_def catalog_ok_def sample_file_def tree_ok_def bt_get_def split: if_splits)

theorem execute_journal_outcome_witness:
  "\<exists>j. run_journal sample_request {(3, AwaitingFinalize)} j
     \<and> bt_get (w_journals sample_world_after) (journal_key sample_request) = Some j"
proof -
  obtain receipt where "execute_mutation sum_hash (memory_ports sum_hash) sample_request sample_world
      = Some (Inr receipt, sample_world_after)" using sample_execute by blast
  from execute_journal_outcome [OF sample_world_ok(1) this] show ?thesis by auto
qed

text \<open>
  C15: Write-ahead: an execution behaves the same over ports that refuse to apply a plan unless the
  run's journal is already durable in phase \<open>Applying\<close>, so the worktree is never touched before.
\<close>

theorem worktree_after_journal:
  assumes "journals_ok (w_journals w)"
  shows "execute_mutation blake3 (write_ahead memory_view request (memory_ports blake3)) request w
       = execute_mutation blake3 (memory_ports blake3) request w"
  using memory.execute_write_ahead [of w blake3 request] assms by simp

theorem worktree_after_journal_witness:
  "\<exists>receipt. execute_mutation sum_hash (write_ahead memory_view sample_request (memory_ports sum_hash)) sample_request sample_world
     = Some (Inr receipt, sample_world_after)"
  using worktree_after_journal [OF sample_world_ok(1), of sum_hash sample_request] sample_execute by simp

text \<open>
  C27: Finalisation happens once.  It succeeds only for a journal with the given plan digest that
  awaits finalisation, which it marks \<open>Finalized\<close> at the next revision, or that is already
  finalised, in which case it changes nothing and reports the recorded time; it never touches the
  worktree, and finalising again after a success changes nothing and reports the same result.
\<close>

theorem finalize_once:
  assumes "journals_ok (w_journals w)" and "finalize_mutation (memory_ports blake3) request w = (Inr res, w')"
  shows "finalized_by memory_view request w res w' \<and> w_tree w' = w_tree w
     \<and> finalize_mutation (memory_ports blake3) request w' = (Inr res, w')"
proof -
  have fin: "finalized_by memory_view request w res w'"
    using memory.finalize_outcome [OF _ assms(2)] assms(1) by simp
  then obtain j where j: "bt_get (w_journals w') (fm_journal_id request) = Some j" "jr_phase j = Finalized"
    "jr_plan_digest j = fm_plan_digest request" "jr_updated_at_unix_ms j = fr_finalized_at_unix_ms res"
    "jr_id j = fm_journal_id request" "fr_journal_id res = fm_journal_id request" "w_tree w' = w_tree w"
    using journals_ok_id [OF assms(1)]
    by (auto simp: finalized_by_def unchanged_def journalled_def advanced_def)
  have valid: "journal_id_validate (fm_journal_id request) = Inr ()"
    using assms(2) by (cases "journal_id_validate (fm_journal_id request)")
      (auto simp: finalize_mutation_def io_then_def memory_journal_load_def)
  have "finalize_mutation (memory_ports blake3) request w' =
      (Inr \<lparr> fr_journal_id = jr_id j, fr_finalized_at_unix_ms = jr_updated_at_unix_ms j \<rparr>, w')"
    using j valid by (simp add: finalize_mutation_def io_then_def memory_journal_load_def)
  moreover have "\<lparr> fr_journal_id = jr_id j, fr_finalized_at_unix_ms = jr_updated_at_unix_ms j \<rparr> = res"
    using j by (cases res) simp
  ultimately show ?thesis using fin j(7) by simp
qed

definition sample_finalize :: finalize_mutation_request where
  "sample_finalize = \<lparr> fm_journal_id = JournalId ''p'', fm_plan_digest = mp_digest sample_plan \<rparr>"

theorem finalize_once_witness:
  "\<exists>res w'. finalize_mutation (memory_ports sum_hash) sample_finalize sample_world_after = (Inr res, w')
     \<and> finalize_mutation (memory_ports sum_hash) sample_finalize w' = (Inr res, w')"
proof -
  have j: "sample_journal = sample_at 3 AwaitingFinalize" by (simp add: sample_at_def sample_journal_def)
  have w: "w_journals sample_world_after = [(JournalId ''p'', sample_at 3 AwaitingFinalize)]" "w_clock sample_world_after = 5"
    by (simp_all add: sample_world_after_def j sample_world_def)
  have "jr_plan_digest (sample_at 3 AwaitingFinalize) = mp_digest sample_plan" "jr_phase (sample_at 3 AwaitingFinalize) = AwaitingFinalize"
    "jr_id (sample_at n p) = JournalId ''p''" for n p
    by (simp_all add: sample_at_def sample_journal_def)
  then have run: "finalize_mutation (memory_ports sum_hash) sample_finalize sample_world_after =
      (Inr \<lparr> fr_journal_id = JournalId ''p'', fr_finalized_at_unix_ms = 5 \<rparr>,
       sample_world_after \<lparr> w_journals := [(JournalId ''p'', sample_at 4 Finalized)] \<rparr>)"
    using w sample_advance [OF w(1), of 4 Finalized]
    by (simp add: finalize_mutation_def sample_finalize_def io_then_def memory_journal_load_def journal_id_validate_def
        bt_get_def checked_add_def)
  have "journals_ok (w_journals sample_world_after)"
    by (simp add: w journals_ok_def bt_ok_def sample_at_def sample_journal_def)
  from finalize_once [OF this run] run show ?thesis by blast
qed

text \<open>
  C16: A plan does to the files what it says.  Whatever the outcome, the files afterwards result from
  the first \<open>k\<close> actions, each of which wrote the content of its manifest (byte strings with the
  recorded object digests and sizes) to a free path, removed an existing file, or made a
  directory; on success \<open>k\<close> is the number of actions, and the receipt counts actions and bytes
  exactly.  Journals, objects, catalog and locks are not touched.
\<close>

theorem plan_effect:
  assumes "bt_ok (mw_files (w_tree w))"
    and "apply_worktree_actions blake3 (memory_worktree_ports blake3) plan w = Some (r, w')"
  shows "same_stores w w' \<and> (\<exists>k \<le> length (mp_actions plan).
      file_steps blake3 (bt_get (mw_files (w_tree w))) (take k (mp_actions plan)) (bt_get (mw_files (w_tree w')))
      \<and> (\<forall>app. r = Inr app \<longrightarrow> k = length (mp_actions plan)
           \<and> unat (ma_actions_applied app) = length (mp_actions plan)
           \<and> unat (ma_bytes_written app) = sum_list (map action_size (mp_actions plan))))"
proof (cases "u64_try_from (length (mp_actions plan))")
  case None
  then have "w' = w" "r = Inl EcInternal" using assms(2) by (simp_all add: apply_worktree_actions_def)
  then show ?thesis by (auto intro!: exI [of _ 0] file_steps.nil)
next
  case (Some n)
  then have run: "apply_actions blake3 (memory_worktree_ports blake3) n 0 0 (mp_actions plan) w = Some (r, w')"
    using assms(2) by (simp add: apply_worktree_actions_def)
  have "tree_ok w" using assms(1) by (simp add: tree_ok_def)
  from apply_actions_effect [OF run this] apply_actions_stores [OF run] show ?thesis
    by (simp add: tree_files_def)
qed

theorem plan_effect_witness:
  "file_steps sum_hash (\<lambda>_. None) [WriteFile sample_path sample_file_id 2] [sample_path \<mapsto> sample_bytes]"
proof -
  let ?w' = "sample_world \<lparr> w_tree := \<lparr> mw_files = [(sample_path, sample_bytes)], mw_directories = [] \<rparr> \<rparr>"
  have files: "bt_get (mw_files (w_tree sample_world)) = (\<lambda>_. None)" "bt_ok (mw_files (w_tree sample_world))"
    "bt_get (mw_files (w_tree ?w')) = [sample_path \<mapsto> sample_bytes]"
    by (simp_all add: sample_world_def bt_get_def fun_eq_iff)
  have run: "apply_worktree_actions sum_hash (memory_worktree_ports sum_hash) sample_plan sample_world =
      Some (Inr \<lparr> ma_actions_applied = 1, ma_bytes_written = 2 \<rparr>, ?w')"
    by (rule sample_apply) (simp_all add: sample_world_def)
  from plan_effect [OF files(2) run] files show ?thesis by auto
qed

text \<open>
  C28: Executions return and give their lock back: in a world with a sorted catalog every execution
  ends, whatever fails on the way, and the lock table afterwards is the one before.
\<close>

theorem execute_returns_unlocked:
  assumes "journals_ok (w_journals w)" and "catalog_ok (w_catalog w)"
  shows "\<exists>r w'. execute_mutation blake3 (memory_ports blake3) request w = Some (r, w') \<and> w_locks w' = w_locks w"
proof -
  obtain r w' where "execute_mutation blake3 (memory_ports blake3) request w = Some (r, w')"
    using memory_execute_returns [OF assms, of blake3 request] by fastforce
  then show ?thesis using memory_execute_locks by blast
qed

theorem execute_returns_unlocked_witness:
  "\<exists>r w'. execute_mutation sum_hash (memory_ports sum_hash) sample_request sample_world = Some (r, w')
     \<and> lm_locked (w_locks w') = []"
  using execute_returns_unlocked [OF sample_world_ok(1,2), of sum_hash sample_request]
  by (auto simp: sample_world_def)

lemma memory_put_from_store:
  assumes "memory_put_from blake3 others expected source s = (r, s')"
  shows "if r = Inr Created then bt_get (others s) (os_id expected) = None
     \<and> (\<exists>bytes. read_to_end source = Inr bytes \<and> s' = bt_insert (os_id expected) bytes (others s))
   else s' = s \<or> s' = others s"
  using assms by (auto simp: memory_put_from_def Let_def copy_and_hash_exact_iff split: option.splits sum.splits if_splits)

lemma memory_put_exact_fails:
  assumes "objects_ok blake3 s" and "objects_ok blake3 (others s)" and "length bytes = unat sz"
    and "memory_put_from blake3 others \<lparr> os_id = object_id_for_bytes blake3 bytes, os_size = sz \<rparr> (cursor_reads bytes) s = (Inl e, s')"
  shows "\<exists>x. collision blake3 x bytes"
proof -
  have copy: "copy_and_hash_exact blake3 (cursor_reads bytes) \<lparr> os_id = object_id_for_bytes blake3 bytes, os_size = sz \<rparr> EcInvalidArgument = Inr bytes"
    using assms(3) by (simp add: copy_and_hash_exact_iff read_cursor)
  obtain t existing where "t = s \<or> t = others s" "bt_get t (object_id_for_bytes blake3 bytes) = Some existing"
    "verify_bytes blake3 existing \<lparr> os_id = object_id_for_bytes blake3 bytes, os_size = sz \<rparr> = Inl e"
    using assms(4) copy by (auto simp: memory_put_from_def Let_def and_then_eq_Inl split: option.splits)
  moreover from this(1,2) assms(1,2) have "object_id_for_bytes blake3 existing = object_id_for_bytes blake3 bytes"
    by (auto simp: objects_ok_def bt_get_iff)
  ultimately have "collision blake3 existing bytes"
    using assms(3) by (auto simp: verify_bytes_def object_id_for_bytes_def collision_def split: if_splits)
  then show ?thesis ..
qed

lemma memory_put_content_cases:
  assumes "memory_put_content_addressed blake3 others source s = (r, s')"
  obtains (unread) e where "read_to_end source = Inl e" "r = Inl (io_to_engine e)" "s' = s"
  | (long) bytes where "read_to_end source = Inr bytes" "2 ^ 64 \<le> length bytes" "r = Inl EcInvalidArgument" "s' = s"
  | (put) bytes sz r' where "read_to_end source = Inr bytes" "length bytes = unat sz"
      "memory_put_from blake3 others \<lparr> os_id = object_id_for_bytes blake3 bytes, os_size = sz \<rparr> (cursor_reads bytes) s = (r', s')"
      "r = (case r' of Inl e \<Rightarrow> Inl e
         | Inr outcome \<Rightarrow> Inr \<lparr> cao_spec = \<lparr> os_id = object_id_for_bytes blake3 bytes, os_size = sz \<rparr>, cao_outcome = outcome \<rparr>)"
proof (cases "read_to_end source")
  case (Inl e)
  then show ?thesis using assms by (intro unread) (auto simp: memory_put_content_addressed_def io_then_def)
next
  case (Inr bytes)
  show ?thesis
  proof (cases "u64_try_from (length bytes)")
    case None
    then show ?thesis using assms Inr
      by (intro long) (auto simp: memory_put_content_addressed_def io_then_def u64_try_from_def split: if_splits)
  next
    case (Some sz)
    obtain r' s1 where "memory_put_from blake3 others \<lparr> os_id = object_id_for_bytes blake3 bytes, os_size = sz \<rparr> (cursor_reads bytes) s = (r', s1)"
      by (cases "memory_put_from blake3 others \<lparr> os_id = object_id_for_bytes blake3 bytes, os_size = sz \<rparr> (cursor_reads bytes) s")
    then show ?thesis using assms Inr Some
      by (intro put [of bytes sz r']) (auto simp: memory_put_content_addressed_def io_then_def Let_def u64_try_from_eq_Some split: sum.splits)
  qed
qed

text \<open>
  C30: Objects are stored under their digest and come back as they went in.  While other threads keep
  the store consistent, \<open>put_content_addressed\<close> leaves it consistent whatever it returns.  If it
  succeeds, \<open>copy_to\<close> of the reported specification returns the bytes of the stream (or, if an object
  was already there, bytes that collide with them under the hash), and the only change of its own
  is the entry it reports as created.  If it fails, it stored nothing.  A stream that cannot be read
  is reported as such without touching the store, and one that can be read is refused only for its
  length or because of a collision.
\<close>

theorem object_round_trip:
  assumes "objects_ok blake3 s" and "objects_ok blake3 (others s)"
    and "memory_put_content_addressed blake3 others source s = (r, s')"
  shows "objects_ok blake3 s'
     \<and> (case r of
          Inl e \<Rightarrow> s' = s \<or> s' = others s
        | Inr obj \<Rightarrow> \<exists>bytes stored. read_to_end source = Inr bytes
            \<and> memory_copy_to blake3 s' (cao_spec obj) = Inr stored
            \<and> os_id (cao_spec obj) = object_id_for_bytes blake3 bytes \<and> unat (os_size (cao_spec obj)) = length bytes
            \<and> (case cao_outcome obj of
                 Created \<Rightarrow> stored = bytes \<and> bt_get (others s) (os_id (cao_spec obj)) = None
                   \<and> s' = bt_insert (os_id (cao_spec obj)) bytes (others s)
               | AlreadyPresent \<Rightarrow> (stored = bytes \<or> collision blake3 stored bytes) \<and> (s' = s \<or> s' = others s)))
     \<and> (case read_to_end source of
          Inl e \<Rightarrow> r = Inl (io_to_engine e) \<and> s' = s
        | Inr bytes \<Rightarrow> is_ok r \<or> 2 ^ 64 \<le> length bytes \<or> (\<exists>x. collision blake3 x bytes))"
  using assms(3)
proof (cases rule: memory_put_content_cases)
  case unread
  then show ?thesis using assms(1) by simp
next
  case long
  then show ?thesis using assms(1) by simp
next
  case (put bytes sz r')
  note store = memory_put_from_store [OF put(3)]
  show ?thesis
  proof (cases r')
    case (Inl e)
    then show ?thesis
      using memory_put_exact_fails [where others = others, OF assms(1,2) put(2) put(3) [unfolded Inl]] put store assms(1,2) by auto
  next
    case (Inr outcome)
    from memory_put_from_ok [OF put(3) [unfolded Inr] assms(1,2)] obtain stored where st: "objects_ok blake3 s'"
      "memory_copy_to blake3 s' \<lparr> os_id = object_id_for_bytes blake3 bytes, os_size = sz \<rparr> = Inr stored"
      "outcome = Created \<Longrightarrow> stored = bytes"
      by (auto simp: read_cursor)
    have "stored = bytes \<or> collision blake3 stored bytes"
      using st(2) by (auto simp: memory_copy_to_iff object_id_for_bytes_def collision_def)
    then show ?thesis using st store put(1,2,4) Inr by (cases outcome) (auto simp: read_cursor)
  qed
qed

theorem object_round_trip_witness:
  "(\<exists>obj s'. memory_put_content_addressed sum_hash (\<lambda>s. s) [Inr [7], Inr [9]] [] = (Inr obj, s')
     \<and> (\<exists>stored. memory_copy_to sum_hash s' (cao_spec obj) = Inr stored \<and> length stored = 2))
   \<and> memory_put_content_addressed sum_hash (\<lambda>s. s) [Inr [7], Inl (IoOther EcIo)] [] = (Inl EcIo, [])"
proof (intro conjI)
  have ok: "objects_ok sum_hash []" by (simp add: objects_ok_def)
  have "copy_and_hash_exact sum_hash (cursor_reads [7, 9]) \<lparr> os_id = object_id_for_bytes sum_hash [7, 9], os_size = 2 \<rparr> EcInvalidArgument = Inr [7, 9]"
    by (simp add: copy_and_hash_exact_iff read_cursor)
  then have "\<exists>obj s'. memory_put_content_addressed sum_hash (\<lambda>s. s) [Inr [7], Inr [9]] [] = (Inr obj, s')"
    by (simp add: memory_put_content_addressed_def read_to_end_def io_then_def u64_try_from_def memory_put_from_def Let_def)
  then obtain obj s' where r: "memory_put_content_addressed sum_hash (\<lambda>s. s) [Inr [7], Inr [9]] [] = (Inr obj, s')" by blast
  from object_round_trip [OF ok ok r] obtain bytes stored where
    "read_to_end [Inr [7], Inr [9]] = Inr bytes" "memory_copy_to sum_hash s' (cao_spec obj) = Inr stored"
    "unat (os_size (cao_spec obj)) = length bytes"
    by auto
  moreover from this have "length stored = 2" by (auto simp: memory_copy_to_iff read_to_end_def)
  ultimately show "\<exists>obj s'. memory_put_content_addressed sum_hash (\<lambda>s. s) [Inr [7], Inr [9]] [] = (Inr obj, s')
     \<and> (\<exists>stored. memory_copy_to sum_hash s' (cao_spec obj) = Inr stored \<and> length stored = 2)" using r by blast
  obtain r s'' where f: "memory_put_content_addressed sum_hash (\<lambda>s. s) [Inr [7], Inl (IoOther EcIo)] [] = (r, s'')"
    by (cases "memory_put_content_addressed sum_hash (\<lambda>s. s) [Inr [7], Inl (IoOther EcIo)] []")
  from object_round_trip [OF ok ok f]
  show "memory_put_content_addressed sum_hash (\<lambda>s. s) [Inr [7], Inl (IoOther EcIo)] [] = (Inl EcIo, [])"
    by (simp add: f read_to_end_def io_to_engine_def)
qed

text \<open>
  C31: \<open>ManifestObjectReader\<close> streams a file: whatever the size of the (non-empty) buffer, reading it to its end
  delivers the objects of the manifest one after the other and nothing else, and fails exactly
  when, and with the error with which, the first unreadable object cannot be copied.
\<close>

theorem manifest_reader_streams:
  "manifest_read_to_end copy_to n [] (manifest_object_reader_new chunks) = try_fold (fetch_object copy_to) [] chunks
   \<and> (manifest_read_to_end copy_to n [] (manifest_object_reader_new chunks) = Inr bytes \<longleftrightarrow>
        (\<exists>parts. list_all2 (\<lambda>c p. copy_to \<lparr> os_id = cr_object_id c, os_size = cr_size c \<rparr> = Inr p) chunks parts
           \<and> bytes = concat parts))"
  by (simp add: manifest_source_eq fetch_objects_ok)

end
