(* ===== verification/AddEnv.thy ===== *)
theory AddEnv
  imports AddRuns Execution
begin

text \<open>
  The contract an add relies on, as a locale: the worktree port reports and opens the files that
  are there, the object port keeps what it stored, and nothing else changes them during the run.
  Under it \<open>prepare_add\<close> captures the worktree: every file in the requested scopes is recorded with
  a manifest of its content, and the store holds every object the candidate references.
  A second locale states how the object port reports what it stores; under it the statistics of an
  add count exactly the growth of the store.
\<close>

section \<open>The contract of the ports\<close>

text \<open>
  What an add sees of a world: the files of the worktree, the objects the store can deliver, and
  whether the world is well formed.  While an add runs, nobody else touches the worktree, and the
  store does not lose objects.
\<close>

record 'w add_view =
  av_files :: "'w \<Rightarrow> logical_path \<Rightarrow> byte list option"
  av_held :: "'w \<Rightarrow> object_spec \<Rightarrow> bool"
  av_ok :: "'w \<Rightarrow> bool"

definition add_keeps :: "'w add_view \<Rightarrow> 'w \<Rightarrow> 'w \<Rightarrow> bool" where
  "add_keeps V w w' \<longleftrightarrow> av_ok V w' \<and> av_files V w' = av_files V w \<and> (\<forall>s. av_held V w s \<longrightarrow> av_held V w' s)"

lemma add_keeps_refl: "av_ok V w \<Longrightarrow> add_keeps V w w"
  by (simp add: add_keeps_def)

lemma add_keeps_trans [trans]: "add_keeps V a b \<Longrightarrow> add_keeps V b c \<Longrightarrow> add_keeps V a c"
  by (simp add: add_keeps_def)

definition steady :: "'w add_view \<Rightarrow> ('w, 'a) engine_io \<Rightarrow> bool" where
  "steady V m \<longleftrightarrow> (\<forall>w r w'. av_ok V w \<longrightarrow> m w = (r, w') \<longrightarrow> add_keeps V w w')"

lemma steadyD: "steady V m \<Longrightarrow> av_ok V w \<Longrightarrow> m w = (r, w') \<Longrightarrow> add_keeps V w w'"
  by (auto simp: steady_def)

lemma add_keeps_ok: "add_keeps V w w' \<Longrightarrow> av_ok V w'"
  by (simp add: add_keeps_def)

text \<open>
  The documented behaviour of \<open>StreamCDC\<close>: on a source that can be read, the chunks are consecutive
  pieces of the content, with their lengths.
\<close>

definition cdc_splits :: "stream_cdc \<Rightarrow> bool" where
  "cdc_splits cdc \<longleftrightarrow> (\<forall>a b c source bytes. read_to_end source = Inr bytes \<longrightarrow>
     (\<exists>cs. cdc a b c source = map Inr cs \<and> concat (map cd_data cs) = bytes
        \<and> (\<forall>d \<in> set cs. cd_length d = length (cd_data d))))"

definition cut_into :: "(byte list \<Rightarrow> content_digest) \<Rightarrow> 'w add_view \<Rightarrow> 'w \<Rightarrow> chunk_ref list \<Rightarrow> byte list list \<Rightarrow> bool" where
  "cut_into blake3 V w chunks parts \<longleftrightarrow>
     list_all2 (\<lambda>c p. object_id_for_bytes blake3 p = cr_object_id c \<and> length p = unat (cr_size c)) chunks parts
     \<and> (\<forall>c \<in> set chunks. av_held V w (chunk_object_spec c))"

lemma cut_into_keeps: "cut_into blake3 V w chunks parts \<Longrightarrow> add_keeps V w w' \<Longrightarrow> cut_into blake3 V w' chunks parts"
  by (auto simp: cut_into_def add_keeps_def)

text \<open>A chunked file has the content it had in the worktree.\<close>

definition file_captured :: "(byte list \<Rightarrow> content_digest) \<Rightarrow> 'w add_view \<Rightarrow> 'w \<Rightarrow> logical_path \<Rightarrow> scanned_file \<Rightarrow> bool" where
  "file_captured blake3 V w p f \<longleftrightarrow> (\<exists>bytes. av_files V w p = Some bytes
     \<and> content_of blake3 (fr_manifest_id (sf_record f)) bytes \<and> unat (fr_total_size (sf_record f)) = length bytes)
     \<and> (\<forall>c \<in> set (m_chunks (sf_manifest f)). av_held V w (chunk_object_spec c))"

lemma file_captured_keeps: "file_captured blake3 V w p f \<Longrightarrow> add_keeps V w w' \<Longrightarrow> file_captured blake3 V w' p f"
  unfolding file_captured_def add_keeps_def by metis

text \<open>
  An index captures a worktree over the scopes of a request: files in scope are recorded with their
  content, other paths in scope are dropped if deletions are staged, and the rest is as before.
\<close>

definition captures ::
  "(byte list \<Rightarrow> content_digest) \<Rightarrow> prepare_add_request \<Rightarrow> (logical_path \<Rightarrow> byte list option) \<Rightarrow> index_map \<Rightarrow> index_map \<Rightarrow> bool" where
  "captures blake3 request files base idx \<longleftrightarrow> (\<forall>q.
     if in_scopes request q then
       (case files q of
          Some bytes \<Rightarrow> \<exists>r. idx q = Some r \<and> content_of blake3 (fr_manifest_id r) bytes \<and> unat (fr_total_size r) = length bytes
        | None \<Rightarrow> idx q = (if pa_stage_deletions request then None else base q))
     else idx q = base q)"

locale add_env =
  fixes blake3 :: "byte list \<Rightarrow> content_digest" and P :: "'w add_ports" and V :: "'w add_view"
  assumes steady_inspect: "steady V (ap_inspect P p)"
    and steady_scan: "av_ok V w \<Longrightarrow> ap_scan_files P scopes w = (entries, w') \<Longrightarrow> add_keeps V w w'"
    and steady_open: "steady V (ap_open_file P p)"
    and steady_initialize: "steady V (ap_initialize P)"
    and steady_validate_layout: "steady V (ap_validate_layout P)"
    and steady_put_from: "steady V (ap_put_from P spec source)"
    and steady_put_content: "steady V (ap_put_content_addressed P source)"
    and steady_barrier: "steady V (ap_durability_barrier P)"
    and steady_now: "steady V (ap_now P)"
    and steady_emit: "steady V (ap_emit P event)"
    and steady_check: "steady V (ap_check P point)"
    and inspect_file: "av_ok V w \<Longrightarrow> ap_inspect P p w = (Inr (Some e), w') \<Longrightarrow> we_fingerprint e = Some fp \<Longrightarrow>
        \<exists>bytes. av_files V w p = Some bytes \<and> unat (fp_size fp) = length bytes"
    and inspect_none: "av_ok V w \<Longrightarrow> ap_inspect P p w = (Inr None, w') \<Longrightarrow> scope_contains (ScopePath p) q \<Longrightarrow>
        av_files V w q = None"
    and scan_complete: "av_ok V w \<Longrightarrow> ap_scan_files P scopes w = (entries, w') \<Longrightarrow> \<forall>r \<in> set entries. is_ok r \<Longrightarrow>
        av_files V w q = Some bytes \<Longrightarrow> list_ex (\<lambda>scope. scope_contains scope q) scopes \<Longrightarrow>
        \<exists>e. Inr e \<in> set entries \<and> we_path e = q"
    and open_file: "av_ok V w \<Longrightarrow> ap_open_file P p w = (Inr source, w') \<Longrightarrow>
        \<exists>bytes. av_files V w p = Some bytes \<and> read_to_end source = Inr bytes"
    and put_from: "av_ok V w \<Longrightarrow> ap_put_from P spec source w = (Inr outcome, w') \<Longrightarrow> av_held V w' spec"
    and put_content: "av_ok V w \<Longrightarrow> ap_put_content_addressed P source w = (Inr obj, w') \<Longrightarrow>
        av_held V w' (cao_spec obj) \<and> (\<exists>bytes. read_to_end source = Inr bytes
          \<and> os_id (cao_spec obj) = object_id_for_bytes blake3 bytes \<and> unat (os_size (cao_spec obj)) = length bytes)"
begin

lemmas steady_ports = steady_inspect steady_open steady_initialize steady_validate_layout steady_put_from
  steady_put_content steady_barrier steady_now steady_emit steady_check

text \<open>Chunks that were cut, published and referenced in step.\<close>

lemma cdc_step_content:
  assumes ok: "av_ok V w" and len: "cd_length d = length (cd_data d)"
    and run: "cdc_step blake3 P (chunks, observed, st) (Inr d) w = (Inr (chunks', observed', st'), w')"
  shows "\<exists>c. chunks' = chunks @ [c] \<and> cr_object_id c = object_id_for_bytes blake3 (cd_data d)
    \<and> unat (cr_size c) = length (cd_data d) \<and> av_held V w' (chunk_object_spec c) \<and> add_keeps V w w'
    \<and> unat observed' = unat observed + length (cd_data d)"
proof -
  from run obtain sz outcome off where s: "u64_try_from (cd_length d) = Some sz"
    "ap_put_from P \<lparr> os_id = object_id_for_bytes blake3 (cd_data d), os_size = sz \<rparr> (cursor_reads (cd_data d)) w = (Inr outcome, w')"
    "chunks' = chunks @ [\<lparr> cr_object_id = object_id_for_bytes blake3 (cd_data d), cr_offset = off, cr_size = sz \<rparr>]"
    "checked_add observed sz = Some observed'"
    by (auto simp: cdc_step_def Let_def io_then_ok_iff chunk_new_iff)
  have "unat sz = length (cd_data d)" using s(1) len by (simp add: u64_try_from_eq_Some)
  then show ?thesis
    using s(3,4) put_from [OF ok s(2)] steadyD [OF steady_put_from ok s(2)]
    by (simp add: chunk_object_spec_def checked_add_eq_Some)
qed

lemma cdc_fold_content:
  assumes ok: "av_ok V w" and len: "\<forall>d \<in> set cs. cd_length d = length (cd_data d)"
    and run: "io_fold (cdc_step blake3 P) ([], 0, st) (map Inr cs) w = (Inr (chunks, observed, st'), w')"
  shows "add_keeps V w w' \<and> cut_into blake3 V w' chunks (map cd_data cs) \<and> unat observed = length (concat (map cd_data cs))"
proof -
  let ?I = "\<lambda>(rs :: (io_error + cdc_chunk) list) s v. \<forall>ds. rs = map Inr ds \<longrightarrow> (case s of (chunks, observed, st') \<Rightarrow>
     add_keeps V w v \<and> cut_into blake3 V v chunks (map cd_data ds) \<and> unat observed = length (concat (map cd_data ds)))"
  have "?I (map Inr cs) (chunks, observed, st') w'"
    using run
  proof (rule io_fold_prefix_induct [where I = ?I])
    show "?I [] ([], 0, st) w" using ok by (simp add: add_keeps_refl cut_into_def)
    fix ys :: "(io_error + cdc_chunk) list" and y t t' v v'
    assume I: "?I ys t v" and pre: "prefix (ys @ [y]) (map Inr cs)" and step: "cdc_step blake3 P t y v = (Inr t', v')"
    show "?I (ys @ [y]) t' v'"
    proof (intro allI impI)
      fix ds :: "cdc_chunk list"
      assume "ys @ [y] = map Inr ds"
      then obtain es d where ds: "ds = es @ [d]" "ys = map Inr es" "y = Inr d"
        by (cases ds rule: rev_cases) auto
      have "Inr d \<in> set (map Inr cs :: (io_error + cdc_chunk) list)" using set_mono_prefix [OF pre] ds(3) by auto
      then have d: "cd_length d = length (cd_data d)" using len by auto
      obtain c1 o1 s1 c2 o2 s2 where t: "t = (c1, o1, s1)" "t' = (c2, o2, s2)" by (cases t; cases t') auto
      have I': "add_keeps V w v" "cut_into blake3 V v c1 (map cd_data es)" "unat o1 = length (concat (map cd_data es))"
        using I ds(2) by (auto simp: t)
      from cdc_step_content [OF add_keeps_ok [OF I'(1)] d step [unfolded t ds(3)]]
      obtain c where c: "c2 = c1 @ [c]" "cr_object_id c = object_id_for_bytes blake3 (cd_data d)"
        "unat (cr_size c) = length (cd_data d)" "av_held V v' (chunk_object_spec c)" "add_keeps V v v'"
        "unat o2 = unat o1 + length (cd_data d)" by blast
      show "case t' of (chunks, observed, st') \<Rightarrow>
          add_keeps V w v' \<and> cut_into blake3 V v' chunks (map cd_data ds) \<and> unat observed = length (concat (map cd_data ds))"
        using c I' add_keeps_trans [OF I'(1) c(5)] cut_into_keeps [OF I'(2) c(5)]
        by (auto simp: t ds cut_into_def intro!: list_all2_appendI)
    qed
  qed
  then show ?thesis by simp
qed

lemma chunks_content:
  assumes ok: "av_ok V w" and cdc: "cdc_splits cdc" and size: "entry_size e = Inr expected"
    and run: "(case chunking of FastCdc \<Rightarrow> chunk_fast_cdc blake3 cdc P path expected st
        | WholeFile \<Rightarrow> chunk_whole_file P path expected st) w = (Inr (chunks, st'), w')"
  shows "add_keeps V w w' \<and> (\<exists>parts. cut_into blake3 V w' chunks parts \<and> length (concat parts) = unat expected
     \<and> (expected = 0 \<or> av_files V w path = Some (concat parts)))"
proof (cases chunking)
  case FastCdc
  with run obtain source w1 observed where o: "ap_open_file P path w = (Inr source, w1)"
    "io_fold (cdc_step blake3 P) ([], 0, st) (cdc MIN_CHUNK_SIZE AVG_CHUNK_SIZE MAX_CHUNK_SIZE source) w1
       = (Inr (chunks, observed, st'), w')" "observed = expected"
    by (auto simp: chunk_fast_cdc_def io_then_ok_iff split: if_splits)
  have k: "add_keeps V w w1" using steadyD [OF steady_open ok o(1)] .
  from open_file [OF ok o(1)] obtain bytes where b: "av_files V w path = Some bytes" "read_to_end source = Inr bytes" by blast
  with cdc obtain cs where cs: "cdc MIN_CHUNK_SIZE AVG_CHUNK_SIZE MAX_CHUNK_SIZE source = map Inr cs"
    "concat (map cd_data cs) = bytes" "\<forall>d \<in> set cs. cd_length d = length (cd_data d)"
    unfolding cdc_splits_def by blast
  from cdc_fold_content [OF add_keeps_ok [OF k] cs(3) o(2) [unfolded cs(1)]] cs(2) b(1) o(3) add_keeps_trans [OF k]
  show ?thesis by auto
next
  case WholeFile
  show ?thesis
  proof (cases "expected = 0")
    case True
    then show ?thesis using run WholeFile ok by (auto simp: chunk_whole_file_def add_keeps_refl cut_into_def intro!: exI [of _ "[]"])
  next
    case False
    with run WholeFile obtain source w1 obj where o: "ap_open_file P path w = (Inr source, w1)"
      "ap_put_content_addressed P source w1 = (Inr obj, w')" "os_size (cao_spec obj) = expected"
      "chunks = [\<lparr> cr_object_id = os_id (cao_spec obj), cr_offset = 0, cr_size = expected \<rparr>]"
      by (auto simp: chunk_whole_file_def io_then_ok_iff chunk_new_iff split: if_splits)
    have k: "add_keeps V w w1" using steadyD [OF steady_open ok o(1)] .
    from open_file [OF ok o(1)] obtain bytes where b: "av_files V w path = Some bytes" "read_to_end source = Inr bytes" by blast
    note p = put_content [OF add_keeps_ok [OF k] o(2)] steadyD [OF steady_put_content add_keeps_ok [OF k] o(2)]
    have "chunk_object_spec \<lparr> cr_object_id = os_id (cao_spec obj), cr_offset = 0, cr_size = expected \<rparr> = cao_spec obj"
      using o(3) by (simp add: chunk_object_spec_def)
    then show ?thesis
      using p b o(3,4) add_keeps_trans [OF k] by (auto simp: cut_into_def intro!: exI [of _ "[bytes]"])
  qed
qed

lemma chunk_file_captured:
  assumes ok: "av_ok V w" and cdc: "cdc_splits cdc"
    and run: "chunk_file blake3 cdc P path e chunking st w = (Inr (f, st'), w')"
  shows "add_keeps V w w' \<and> file_captured blake3 V w' path f"
  using run
proof (cases rule: chunk_file_cases)
  case (1 expected chunks st1 w1)
  from chunks_content [OF ok cdc 1(1,4)] obtain parts where p: "add_keeps V w w1" "cut_into blake3 V w1 chunks parts"
    "length (concat parts) = unat expected" "expected = 0 \<or> av_files V w path = Some (concat parts)" by blast
  have k: "add_keeps V w1 w'" using steadyD [OF steady_inspect add_keeps_ok [OF p(1)] 1(5)] .
  obtain fp where fp: "we_fingerprint e = Some fp" "fp_size fp = expected" using 1(1) by (auto simp: entry_size_def)
  from inspect_file [OF add_keeps_ok [OF p(1)] 1(5) fp(1)] obtain bytes where b: "av_files V w1 path = Some bytes"
    "unat expected = length bytes" using fp(2) by auto
  have files: "av_files V w' path = Some (concat parts)"
    using p(1,3,4) k b by (auto simp: add_keeps_def)
  have "manifest_id blake3 (sf_manifest f) = Inr (fr_manifest_id (sf_record f))"
    using 1(3) by (simp add: file_described_def manifest_id_eq id_of_manifest_def)
  then have "content_of blake3 (fr_manifest_id (sf_record f)) (concat parts)"
    using p(2,3) unfolding content_of_def cut_into_def
    by (intro exI [of _ "sf_manifest f"] exI [of _ parts]) (simp add: 1(2))
  moreover have "\<forall>c \<in> set (m_chunks (sf_manifest f)). av_held V w' (chunk_object_spec c)"
    using cut_into_keeps [OF p(2) k] by (simp add: 1(2) cut_into_def)
  moreover have "unat (fr_total_size (sf_record f)) = length (concat parts)"
    using 1(2,3) p(3) by (simp add: file_described_def)
  ultimately show ?thesis using files add_keeps_trans [OF p(1) k] by (auto simp: file_captured_def)
qed

end

context add_env
begin

lemma visit_file_keeps:
  assumes "av_ok V w" and "visit_file P scope files e w = (Inr files', w')"
  shows "add_keeps V w w'"
  using assms steadyD [OF steady_emit assms(1)]
  by (auto simp: visit_file_def Let_def io_then_ok_iff add_keeps_refl split: if_splits option.splits)

lemma visit_file_adds:
  assumes "visit_file P scope files e w = (Inr files', w')" and "bt_ok files"
  shows "bt_ok files' \<and> (\<forall>q. bt_get files' q \<noteq> None \<longleftrightarrow> bt_get files q \<noteq> None \<or> q = we_path e)"
  using visit_file_result [OF assms(1)] assms(2) by auto

lemma visit_entries_complete:
  assumes ok: "av_ok V w" and bt: "bt_ok files"
    and run: "visit_entries (visit_file P scope) files entries w = (Inr files', w')"
  shows "add_keeps V w w' \<and> bt_ok files' \<and> (\<forall>r \<in> set entries. is_ok r)
    \<and> (\<forall>q. bt_get files' q \<noteq> None \<longleftrightarrow> bt_get files q \<noteq> None \<or> (\<exists>e. Inr e \<in> set entries \<and> we_path e = q))"
  using run unfolding visit_entries_def
proof (rule io_fold_prefix_induct [where I = "\<lambda>(es :: worktree_entry engine_result list) fs v. add_keeps V w v \<and> bt_ok fs \<and> (\<forall>r \<in> set es. is_ok r)
    \<and> (\<forall>q. bt_get fs q \<noteq> None \<longleftrightarrow> bt_get files q \<noteq> None \<or> (\<exists>e. Inr e \<in> set es \<and> we_path e = q))"])
  show "add_keeps V w w \<and> bt_ok files \<and> (\<forall>r \<in> set ([] :: worktree_entry engine_result list). is_ok r)
    \<and> (\<forall>q. bt_get files q \<noteq> None \<longleftrightarrow> bt_get files q \<noteq> None
         \<or> (\<exists>e. Inr e \<in> set ([] :: worktree_entry engine_result list) \<and> we_path e = q))"
    using ok bt by (simp add: add_keeps_refl)
  fix es :: "worktree_entry engine_result list" and y fs fs' v v'
  assume I: "add_keeps V w v \<and> bt_ok fs \<and> (\<forall>r \<in> set es. is_ok r)
    \<and> (\<forall>q. bt_get fs q \<noteq> None \<longleftrightarrow> bt_get files q \<noteq> None \<or> (\<exists>e. Inr e \<in> set es \<and> we_path e = q))"
    and step: "io_then (io_of y) (visit_file P scope fs) v = (Inr fs', v')"
  from step obtain e where y: "y = Inr e" and v: "visit_file P scope fs e v = (Inr fs', v')" by (auto simp: io_then_ok_iff)
  have kw: "add_keeps V w v" using I by simp
  have k: "add_keeps V v v'" by (rule visit_file_keeps [OF add_keeps_ok [OF kw] v])
  note adds = visit_file_adds [OF v]
  show "add_keeps V w v' \<and> bt_ok fs' \<and> (\<forall>r \<in> set (es @ [y]). is_ok r)
    \<and> (\<forall>q. bt_get fs' q \<noteq> None \<longleftrightarrow> bt_get files q \<noteq> None \<or> (\<exists>e. Inr e \<in> set (es @ [y]) \<and> we_path e = q))"
    using I adds add_keeps_trans [OF kw k] by (auto simp: y)
qed

lemma scan_scope_complete:
  assumes ok: "av_ok V w" and bt: "bt_ok files" and run: "scan_scope P request files scope w = (Inr files', w')"
  shows "add_keeps V w w' \<and> bt_ok files' \<and> (\<forall>q. bt_get files q \<noteq> None \<longrightarrow> bt_get files' q \<noteq> None)
    \<and> (\<forall>q. av_files V w q \<noteq> None \<longrightarrow> scope_contains scope q \<longrightarrow> bt_get files' q \<noteq> None)"
  using run
proof (cases rule: scan_scope_cases)
  case (skipped p)
  then show ?thesis using steadyD [OF steady_inspect ok skipped(2)] inspect_none [OF ok skipped(2)] bt by auto
next
  case (scanned w1 entries w2)
  have k1: "add_keeps V w w1" using scanned(1) steadyD [OF steady_inspect ok] add_keeps_refl [OF ok] by auto
  have k2: "add_keeps V w1 w2" using steady_scan [OF add_keeps_ok [OF k1] scanned(2)] .
  note v = visit_entries_complete [OF add_keeps_ok [OF k2] bt scanned(3)]
  have "bt_get files' q \<noteq> None" if q: "av_files V w q \<noteq> None" "scope_contains scope q" for q
  proof -
    obtain bytes where "av_files V w1 q = Some bytes" using q(1) k1 by (auto simp: add_keeps_def)
    from scan_complete [OF add_keeps_ok [OF k1] scanned(2) _ this] v q(2) show ?thesis by auto
  qed
  then show ?thesis using v add_keeps_trans [OF add_keeps_trans [OF k1 k2]] by blast
qed

lemma scan_worktree_complete:
  assumes ok: "av_ok V w" and run: "scan_worktree P request w = (Inr files, w')"
  shows "add_keeps V w w' \<and> (\<forall>q. av_files V w q \<noteq> None \<longrightarrow> in_scopes request q \<longrightarrow> bt_get files q \<noteq> None)"
proof -
  let ?I = "\<lambda>scopes files v. add_keeps V w v \<and> bt_ok files
    \<and> (\<forall>q. av_files V w q \<noteq> None \<longrightarrow> list_ex (\<lambda>scope. scope_contains scope q) scopes \<longrightarrow> bt_get files q \<noteq> None)"
  have "?I (pa_scopes request) files w'"
    using run unfolding scan_worktree_def
  proof (rule io_fold_prefix_induct [where I = ?I])
    show "?I [] [] w" using ok by (simp add: add_keeps_refl)
    fix ys y t t' v v'
    assume I: "?I ys t v" and step: "scan_scope P request t y v = (Inr t', v')"
    have k: "add_keeps V w v" and bt: "bt_ok t" using I by blast+
    note s = scan_scope_complete [OF add_keeps_ok [OF k] bt step]
    have files: "av_files V v = av_files V w" using k by (simp add: add_keeps_def)
    show "?I (ys @ [y]) t' v'"
      using I s add_keeps_trans [OF k] unfolding files by (auto simp del: not_None_eq)
  qed
  then show ?thesis by (simp add: in_scopes_def)
qed

lemma publish_worktree_captured:
  assumes ok: "av_ok V w" and cdc: "cdc_splits cdc"
    and run: "publish_worktree blake3 cdc P request w = (Inr (scanned, st), w')"
  shows "add_keeps V w w' \<and> (\<forall>(p, f) \<in> set scanned. file_captured blake3 V w' p f)
    \<and> (\<forall>q. av_files V w q \<noteq> None \<longrightarrow> in_scopes request q \<longrightarrow> bt_get scanned q \<noteq> None)"
  using run
proof (cases rule: publish_worktree_cases)
  case (1 observed w1 w2 w3 w4 n)
  note sc = scan_worktree_complete [OF ok 1(1)]
  have bt: "bt_ok observed" using scan_worktree_ok [OF 1(1)] by (simp add: observed_ok_def)
  have k1: "add_keeps V w w1" using sc by blast
  from 1(4) obtain v1 v2 v3 where v: "ap_check P AfterScan w1 = (Inr (), v1)" "ap_initialize P v1 = (Inr (), v2)"
    "ap_validate_layout P v2 = (Inr (), v3)" "ap_check P BeforeObjectPublication v3 = (Inr (), w2)" by blast
  note k11 = add_keeps_trans [OF k1 steadyD [OF steady_check add_keeps_ok [OF k1] v(1)]]
  note k12 = add_keeps_trans [OF k11 steadyD [OF steady_initialize add_keeps_ok [OF k11] v(2)]]
  note k13 = add_keeps_trans [OF k12 steadyD [OF steady_validate_layout add_keeps_ok [OF k12] v(3)]]
  note k2 = add_keeps_trans [OF k13 steadyD [OF steady_check add_keeps_ok [OF k13] v(4)]]
  let ?I = "\<lambda>ys s v. publishing blake3 n ys s \<and> add_keeps V w v \<and> (\<forall>(p, f) \<in> set (fst s). file_captured blake3 V v p f)"
  have I: "?I observed (scanned, st) w3"
    using 1(5)
  proof (rule io_fold_prefix_induct [where I = ?I])
    show "?I [] ([], add_statistics_default \<lparr> st_files_scanned := n \<rparr>) w2" using publishing_start k2 by simp
    fix ys y t t' v v'
    assume I: "?I ys t v" and pre: "prefix (ys @ [y]) observed"
      and step: "chunk_observed blake3 cdc P (selected_chunking (pa_chunking request)) n t y v = (Inr t', v')"
    obtain s1 st1 s2 st2 where t: "t = (s1, st1)" "t' = (s2, st2)" by (cases t; cases t')
    have I': "publishing blake3 n ys (s1, st1)" "add_keeps V w v" "\<forall>(p, f) \<in> set s1. file_captured blake3 V v p f"
      using I by (simp_all add: t)
    from chunk_observed_publishing [OF I'(1) sorted_prefix_last [OF bt pre] step [unfolded t]]
    obtain f v1 event where f: "chunk_file blake3 cdc P (fst y) (snd y) (selected_chunking (pa_chunking request)) st1 v = (Inr (f, st2), v1)"
      "s2 = s1 @ [(fst y, f)]" "publishing blake3 n (ys @ [y]) (s2, st2)" "ap_emit P event v1 = (Inr (), v')" by blast
    note c = chunk_file_captured [OF add_keeps_ok [OF I'(2)] cdc f(1)]
    have kc: "add_keeps V v v1" using c by blast
    have k: "add_keeps V v1 v'" by (rule steadyD [OF steady_emit add_keeps_ok [OF kc] f(4)])
    note kv = add_keeps_trans [OF kc k]
    show "?I (ys @ [y]) t' v'"
      using I'(3) f(2,3) c k file_captured_keeps [OF _ kv] file_captured_keeps [OF _ k] add_keeps_trans [OF I'(2) kv]
      by (auto simp: t)
  qed
  have k3: "add_keeps V w w3" using I by blast
  note kb = steadyD [OF steady_barrier add_keeps_ok [OF k3] 1(6)]
  note k4 = add_keeps_trans [OF kb steadyD [OF steady_check add_keeps_ok [OF kb] 1(7)]]
  have keys: "map fst scanned = map fst observed" using I by (simp add: publishing_def)
  have "bt_get scanned q \<noteq> None" if "bt_get observed q \<noteq> None" for q
    using that arg_cong [OF keys, of set] by (simp add: bt_get_None_iff)
  then show ?thesis
    using I sc add_keeps_trans [OF k3 k4] file_captured_keeps [OF _ k4] by fastforce
qed

lemma prepare_add_captured:
  assumes ok: "av_ok V w" and cdc: "cdc_splits cdc"
    and run: "prepare_add uni blake3 cdc P request w = Some (Inr p, w')"
  obtains snapshot where
    "read_index_snapshot uni blake3 (pa_expected_index_version request) (ap_scan_index P) = Some (Inr snapshot)"
    "add_keeps V w w'"
    "captures blake3 request (av_files V w) (bt_get snapshot) (apply_mutations (delta_iter (pd_index_delta p)) (bt_get snapshot))"
    "\<forall>s \<in> set (pd_object_specs p). av_held V w' s"
  using run
proof (cases rule: prepare_add_cases)
  case (1 snapshot scanned st v w1 w2)
  note k0 = steadyD [OF steady_check ok 1(3)]
  note k1 = add_keeps_trans [OF k0 steadyD [OF steady_emit add_keeps_ok [OF k0] 1(4)]]
  note pub = publish_worktree_captured [OF add_keeps_ok [OF k1] cdc 1(6)] and pok = publish_worktree_ok [OF 1(6)]
  have snap: "records_ok snapshot" using read_index_snapshot_ok(1) [OF 1(5)] .
  have sok: "scanned_ok scanned" using pok by blast
  from 1(7) obtain parts st' where b: "build_candidate uni blake3 request snapshot scanned st = Inr (parts, st')"
    "pd_manifests p = cp_manifests parts" "pd_object_specs p = cp_object_specs parts"
    and fin: "\<exists>v v' event. ap_check P BeforeCandidateSeal w2 = (Inr (), v) \<and> (\<exists>now. ap_now P v = (Inr now, v'))
       \<and> ap_emit P event v' = (Inr (), w')"
    by (rule seal_candidate_cases)
  from fin obtain v3 v4 event now where f: "ap_check P BeforeCandidateSeal w2 = (Inr (), v3)" "ap_now P v3 = (Inr now, v4)"
    "ap_emit P event v4 = (Inr (), w')" by blast
  have k2: "add_keeps V w1 w2" using pub by blast
  note k3 = steadyD [OF steady_check add_keeps_ok [OF k2] f(1)]
  note k4 = steadyD [OF steady_now add_keeps_ok [OF k3] f(2)]
  note k5 = steadyD [OF steady_emit add_keeps_ok [OF k4] f(3)]
  have kf: "add_keeps V w2 w'" using add_keeps_trans [OF add_keeps_trans [OF k3 k4] k5] .
  have k: "add_keeps V w w'" using add_keeps_trans [OF add_keeps_trans [OF k1 k2] kf] .
  have files: "av_files V w1 = av_files V w" "av_files V w' = av_files V w" using k1 k by (simp_all add: add_keeps_def)
  have cap: "file_captured blake3 V w' q g" if "bt_get scanned q = Some g" for q g
    using that pub file_captured_keeps [OF _ kf] sok by (auto simp: scanned_ok_def bt_get_iff)
  have scopes: "in_scopes request q" if "bt_get scanned q = Some g" for q g
    using that pok by (auto simp: scanned_ok_def bt_get_iff)
  have idx: "apply_mutations (delta_iter (pd_index_delta p)) (bt_get snapshot) = target_index request (bt_get snapshot) scanned"
    by (rule sealed_delta_exact(1) [OF snap sok 1(7)])
  have "captures blake3 request (av_files V w) (bt_get snapshot) (target_index request (bt_get snapshot) scanned)"
    unfolding captures_def
  proof (intro allI)
    fix q
    show "if in_scopes request q then
        (case av_files V w q of
           Some bytes \<Rightarrow> \<exists>r. target_index request (bt_get snapshot) scanned q = Some r
             \<and> content_of blake3 (fr_manifest_id r) bytes \<and> unat (fr_total_size r) = length bytes
         | None \<Rightarrow> target_index request (bt_get snapshot) scanned q = (if pa_stage_deletions request then None else bt_get snapshot q))
      else target_index request (bt_get snapshot) scanned q = bt_get snapshot q"
    proof (cases "bt_get scanned q")
      case None
      then have "in_scopes request q \<Longrightarrow> av_files V w q = None" using pub files by auto
      with None show ?thesis by (auto simp: target_index_def)
    next
      case (Some g)
      with cap [OF Some] scopes [OF Some] files show ?thesis by (auto simp: target_index_def file_captured_def)
    qed
  qed
  moreover have "\<forall>s \<in> set (pd_object_specs p). av_held V w' s"
  proof
    fix s
    assume s: "s \<in> set (pd_object_specs p)"
    have snap': "bt_ok snapshot" "\<forall>(p, r) \<in> set snapshot. fr_path r = p" using snap by (auto simp: records_ok_def)
    obtain manifests where m: "cp_manifests parts = bt_values manifests"
      "\<forall>(i, m) \<in> set manifests. manifest_id blake3 m = Inr i
         \<and> (\<exists>(p, f) \<in> set (changed_files (bt_get snapshot) scanned). m = sf_manifest f)"
      "sizes_agree (all_chunks (cp_manifests parts))"
      "map spec_pair (cp_object_specs parts) = bt_collect (map chunk_pair (all_chunks (cp_manifests parts)))"
      by (rule build_candidate_result [OF snap' sok b(1)], rule that)
    have "spec_pair s \<in> set (map spec_pair (cp_object_specs parts))" using s b(3) by simp
    then have "spec_pair s \<in> set (map chunk_pair (all_chunks (cp_manifests parts)))"
      unfolding m(4) set_bt_collect_functional [OF m(3) [unfolded sizes_agree_pairs]] .
    then obtain mf c where c: "mf \<in> set (cp_manifests parts)" "c \<in> set (m_chunks mf)" "spec_pair s = chunk_pair c"
      by (auto simp: all_chunks_def)
    then obtain q g where g: "(q, g) \<in> set scanned" "mf = sf_manifest g"
      using m(1,2) by (fastforce simp: bt_values_def changed_files_def)
    have "bt_get scanned q = Some g" using g(1) sok by (simp add: scanned_ok_def bt_get_iff)
    from cap [OF this] have "av_held V w' (chunk_object_spec c)" using c(2) g(2) by (auto simp: file_captured_def)
    moreover have "chunk_object_spec c = s" using c(3) by (cases s) (simp add: chunk_object_spec_def spec_pair_def chunk_pair_def)
    ultimately show "av_held V w' s" by simp
  qed
  ultimately show ?thesis using that [OF 1(5) k] by (simp add: idx)
qed

end

section \<open>Counting what is stored\<close>

text \<open>
  What a store holds, as a number of objects and of bytes.  A port keeps it if a successful call does
  not change it; the statistics keep step with it if created objects and published bytes grow as it
  does.
\<close>

definition keeps_total :: "('w \<Rightarrow> nat \<times> nat) \<Rightarrow> ('w, 'a) engine_io \<Rightarrow> bool" where
  "keeps_total T m \<longleftrightarrow> (\<forall>w r w'. m w = (Inr r, w') \<longrightarrow> T w' = T w)"

lemma keeps_totalD: "keeps_total T m \<Longrightarrow> m w = (Inr r, w') \<Longrightarrow> T w' = T w"
  by (auto simp: keeps_total_def)

definition put_counted :: "('w \<Rightarrow> nat \<times> nat) \<Rightarrow> 'w \<Rightarrow> 'w \<Rightarrow> object_put_outcome \<Rightarrow> u64 \<Rightarrow> bool" where
  "put_counted T w w' outcome sz \<longleftrightarrow>
     T w' = (case outcome of Created \<Rightarrow> (fst (T w) + 1, snd (T w) + unat sz) | AlreadyPresent \<Rightarrow> T w)"

definition in_step :: "('w \<Rightarrow> nat \<times> nat) \<Rightarrow> add_statistics \<Rightarrow> 'w \<Rightarrow> add_statistics \<Rightarrow> 'w \<Rightarrow> bool" where
  "in_step T st w st' w' \<longleftrightarrow>
     fst (T w') + unat (st_objects_created st) = fst (T w) + unat (st_objects_created st')
     \<and> snd (T w') + unat (st_bytes_published st) = snd (T w) + unat (st_bytes_published st')"

lemma in_step_same: "T w' = T w \<Longrightarrow> in_step T st w st w'"
  by (simp add: in_step_def)

lemma in_step_trans [trans]: "in_step T a u b v \<Longrightarrow> in_step T b v c x \<Longrightarrow> in_step T a u c x"
  by (simp add: in_step_def)

lemma record_outcome_in_step:
  "put_counted T w w' outcome sz \<Longrightarrow> record_object_outcome outcome sz st = Inr st' \<Longrightarrow> in_step T st w st' w'"
  by (cases outcome) (auto simp: record_object_outcome_def put_counted_def in_step_def checked_add_eq_Some)

locale object_tally =
  fixes P :: "'w add_ports" and T :: "'w \<Rightarrow> nat \<times> nat"
  assumes keeps_total_inspect: "keeps_total T (ap_inspect P p)"
    and keeps_total_scan: "ap_scan_files P scopes w = (entries, w') \<Longrightarrow> T w' = T w"
    and keeps_total_open: "keeps_total T (ap_open_file P p)"
    and keeps_total_initialize: "keeps_total T (ap_initialize P)"
    and keeps_total_validate_layout: "keeps_total T (ap_validate_layout P)"
    and keeps_total_barrier: "keeps_total T (ap_durability_barrier P)"
    and keeps_total_now: "keeps_total T (ap_now P)"
    and keeps_total_emit: "keeps_total T (ap_emit P event)"
    and keeps_total_check: "keeps_total T (ap_check P point)"
    and put_from_counted: "ap_put_from P spec source w = (Inr outcome, w') \<Longrightarrow> put_counted T w w' outcome (os_size spec)"
    and put_content_counted: "ap_put_content_addressed P source w = (Inr obj, w') \<Longrightarrow>
        put_counted T w w' (cao_outcome obj) (os_size (cao_spec obj))"
begin

lemma cdc_step_in_step:
  "cdc_step blake3 P (chunks, observed, st) r w = (Inr (chunks', observed', st'), w') \<Longrightarrow> in_step T st w st' w'"
  by (auto simp: cdc_step_def Let_def io_then_ok_iff dest: put_from_counted intro: record_outcome_in_step)

lemma cdc_fold_in_step:
  assumes "io_fold (cdc_step blake3 P) ([], 0, st) rs w = (Inr s, w')"
  shows "in_step T st w (snd (snd s)) w'"
  using assms
proof (rule io_fold_prefix_induct [where I = "\<lambda>_ s v. in_step T st w (snd (snd s)) v"])
  fix ys y t t' v v'
  assume I: "in_step T st w (snd (snd t)) v" and run: "cdc_step blake3 P t y v = (Inr t', v')"
  obtain a b c a' b' c' where t: "t = (a, b, c)" "t' = (a', b', c')" by (cases t; cases t') auto
  from in_step_trans [OF I] cdc_step_in_step [OF run [unfolded t]] show "in_step T st w (snd (snd t')) v'" by (simp add: t)
qed (simp add: in_step_same)

lemma chunks_in_step:
  assumes "(case chunking of FastCdc \<Rightarrow> chunk_fast_cdc blake3 cdc P path expected st
        | WholeFile \<Rightarrow> chunk_whole_file P path expected st) w = (Inr (chunks, st'), w')"
  shows "in_step T st w st' w'"
proof (cases chunking)
  case FastCdc
  with assms obtain source w1 observed where o: "ap_open_file P path w = (Inr source, w1)"
    "io_fold (cdc_step blake3 P) ([], 0, st) (cdc MIN_CHUNK_SIZE AVG_CHUNK_SIZE MAX_CHUNK_SIZE source) w1
       = (Inr (chunks, observed, st'), w')"
    by (auto simp: chunk_fast_cdc_def io_then_ok_iff split: if_splits)
  from in_step_trans [OF in_step_same [of T, OF keeps_totalD [OF keeps_total_open o(1)]] cdc_fold_in_step [OF o(2)]] show ?thesis by simp
next
  case WholeFile
  show ?thesis
  proof (cases "expected = 0")
    case True
    then show ?thesis using assms WholeFile by (auto simp: chunk_whole_file_def in_step_same)
  next
    case False
    with assms WholeFile obtain source w1 obj where o: "ap_open_file P path w = (Inr source, w1)"
      "ap_put_content_addressed P source w1 = (Inr obj, w')" "os_size (cao_spec obj) = expected"
      "record_object_outcome (cao_outcome obj) expected st = Inr st'"
      by (auto simp: chunk_whole_file_def io_then_ok_iff split: if_splits)
    from put_content_counted [OF o(2)] o(3,4) have "in_step T st w1 st' w'" by (auto intro: record_outcome_in_step)
    from in_step_trans [OF in_step_same [of T, OF keeps_totalD [OF keeps_total_open o(1)]] this] show ?thesis .
  qed
qed

lemma chunk_file_in_step:
  assumes "chunk_file blake3 cdc P path e chunking st w = (Inr (f, st'), w')"
  shows "in_step T st w st' w'"
proof -
  from assms obtain expected chunks st1 w1 bs co where c:
    "(case chunking of FastCdc \<Rightarrow> chunk_fast_cdc blake3 cdc P path expected st
        | WholeFile \<Rightarrow> chunk_whole_file P path expected st) w = (Inr (chunks, st1), w1)"
    "ap_inspect P path w1 = (Inr (Some e), w')" "st' = st1 \<lparr> st_bytes_scanned := bs, st_chunks_observed := co \<rparr>"
    by (auto simp: chunk_file_def io_then_ok_iff split: if_splits)
  from chunks_in_step [OF c(1)] keeps_totalD [OF keeps_total_inspect c(2)] show ?thesis by (simp add: c(3) in_step_def)
qed

lemma chunk_observed_in_step:
  assumes "chunk_observed blake3 cdc P chunking n s y w = (Inr s', w')"
  shows "in_step T (snd s) w (snd s') w'"
proof -
  from assms obtain f w1 event where f: "chunk_file blake3 cdc P (fst y) (snd y) chunking (snd s) w = (Inr (f, snd s'), w1)"
    "ap_emit P event w1 = (Inr (), w')"
    by (cases s; cases y) (auto simp: chunk_observed_def Let_def io_then_ok_iff)
  from in_step_trans [OF chunk_file_in_step [OF f(1)] in_step_same [of T, OF keeps_totalD [OF keeps_total_emit f(2)]]] show ?thesis .
qed

lemma visit_file_keeps_total: "visit_file P scope files e w = (Inr files', w') \<Longrightarrow> T w' = T w"
  by (auto simp: visit_file_def Let_def io_then_ok_iff dest: keeps_totalD [OF keeps_total_emit] split: if_splits option.splits)

lemma scan_scope_keeps_total:
  assumes "scan_scope P request files scope w = (Inr files', w')"
  shows "T w' = T w"
  using assms
proof (cases rule: scan_scope_cases)
  case (skipped p)
  then show ?thesis using keeps_totalD [OF keeps_total_inspect] by metis
next
  case (scanned w1 entries w2)
  have "T w1 = T w" using scanned(1) keeps_totalD [OF keeps_total_inspect] by metis
  moreover have "T w2 = T w1" using keeps_total_scan [OF scanned(2)] .
  moreover have "T w' = T w2"
    using scanned(3) unfolding visit_entries_def
    by (rule io_fold_prefix_induct [where I = "\<lambda>_ _ v. T v = T w2"]) (auto simp: io_then_ok_iff dest: visit_file_keeps_total)
  ultimately show ?thesis by simp
qed

lemma publish_worktree_in_step:
  assumes "publish_worktree blake3 cdc P request w = (Inr (scanned, st), w')"
  shows "in_step T add_statistics_default w st w'"
  using assms
proof (cases rule: publish_worktree_cases)
  case (1 observed w1 w2 w3 w4 n)
  have "T w1 = T w"
    using 1(1) unfolding scan_worktree_def
    by (rule io_fold_prefix_induct [where I = "\<lambda>_ _ v. T v = T w"]) (auto dest: scan_scope_keeps_total)
  moreover have "T w2 = T w1"
    using 1(4) keeps_totalD [OF keeps_total_check] keeps_totalD [OF keeps_total_initialize] keeps_totalD [OF keeps_total_validate_layout] by metis
  moreover have "in_step T (add_statistics_default \<lparr> st_files_scanned := n \<rparr>) w2 (snd (scanned, st)) w3"
    using 1(5)
    by (rule io_fold_prefix_induct [where I = "\<lambda>_ s v. in_step T (add_statistics_default \<lparr> st_files_scanned := n \<rparr>) w2 (snd s) v"])
       (auto simp: in_step_same dest: chunk_observed_in_step intro: in_step_trans)
  moreover have "T w' = T w3" using keeps_totalD [OF keeps_total_barrier 1(6)] keeps_totalD [OF keeps_total_check 1(7)] by simp
  ultimately show ?thesis by (simp add: in_step_def)
qed

lemma prepare_add_in_step:
  assumes "prepare_add uni blake3 cdc P request w = Some (Inr p, w')"
  shows "in_step T add_statistics_default w (pd_statistics p) w'"
  using assms
proof (cases rule: prepare_add_cases)
  case (1 snapshot scanned st v w1 w2)
  have w1: "T w1 = T w" using keeps_totalD [OF keeps_total_check 1(3)] keeps_totalD [OF keeps_total_emit 1(4)] by simp
  from 1(7) obtain parts st' where b: "build_candidate uni blake3 request snapshot scanned st = Inr (parts, st')"
    "pd_statistics p = st'" and fin: "\<exists>v v' event. ap_check P BeforeCandidateSeal w2 = (Inr (), v) \<and> (\<exists>now. ap_now P v = (Inr now, v'))
       \<and> ap_emit P event v' = (Inr (), w')"
    by (rule seal_candidate_cases)
  have "T w' = T w2" using fin keeps_totalD [OF keeps_total_check] keeps_totalD [OF keeps_total_now] keeps_totalD [OF keeps_total_emit] by metis
  moreover have "st_objects_created st' = st_objects_created st" "st_bytes_published st' = st_bytes_published st"
    using b(1) by (auto simp: build_candidate_def Let_def split: prod.splits)
  ultimately show ?thesis using publish_worktree_in_step [OF 1(6)] w1 by (simp add: in_step_def b(2))
qed

end

end
