(* ===== verification/MemoryAdd.thy ===== *)
theory MemoryAdd
  imports AddEnv
begin

text \<open>
  The adapters of \<open>fs/memory.rs\<close> behind the ports of \<open>prepare_add\<close>: they satisfy the contract
  \<open>add_env\<close>, with the well-formedness of the worktree (recorded directories contain the ancestors of
  the files) and of the object store as invariant, and \<open>object_tally\<close>; the index they serve is read completely.
\<close>

section \<open>The memory adapters\<close>

definition on_objects :: "(memory_object_store, 'a) engine_io \<Rightarrow> (memory_world, 'a) engine_io" where
  "on_objects m w = (case m (w_objects w) of (r, s) \<Rightarrow> (r, w \<lparr> w_objects := s \<rparr>))"

text \<open>No other thread uses the object store in the meantime.\<close>

definition memory_add_ports ::
  "unicode \<Rightarrow> (byte list \<Rightarrow> content_digest) \<Rightarrow> memory_index_snapshot \<Rightarrow> memory_world add_ports" where
  "memory_add_ports uni blake3 index =
     \<lparr> ap_version = mi_version index,
       ap_scan_index = memory_index_scan_files uni index None,
       ap_inspect = (\<lambda>p w. (memory_inspect blake3 (w_tree w) p, w)),
       ap_scan_files = (\<lambda>scopes w. (memory_scan_worktree blake3 (w_tree w) scopes, w)),
       ap_open_file = (\<lambda>p w. (and_then (memory_open_file (w_tree w) p) (\<lambda>bytes. Inr (cursor_reads bytes)), w)),
       ap_initialize = io_ok (),
       ap_validate_layout = io_ok (),
       ap_put_from = (\<lambda>spec source. on_objects (memory_put_from blake3 (\<lambda>s. s) spec source)),
       ap_put_content_addressed = (\<lambda>source. on_objects (memory_put_content_addressed blake3 (\<lambda>s. s) source)),
       ap_durability_barrier = io_ok (),
       ap_now = (\<lambda>w. (fixed_clock_now (w_clock w), w)),
       ap_emit = noop_emit,
       ap_check = (\<lambda>point. on_armed (injector_check point)) \<rparr>"

text \<open>The directories of a worktree contain the ancestors of its files.\<close>

definition tree_closed :: "memory_worktree \<Rightarrow> bool" where
  "tree_closed t \<longleftrightarrow> bt_ok (mw_files t)
     \<and> (\<forall>q \<in> fst ` set (mw_files t). \<forall>a. is_ancestor_of a q \<longrightarrow> a \<in> set (mw_directories t))"

definition memory_add_view :: "(byte list \<Rightarrow> content_digest) \<Rightarrow> memory_world add_view" where
  "memory_add_view blake3 =
     \<lparr> av_files = (\<lambda>w. bt_get (mw_files (w_tree w))),
       av_held = (\<lambda>w s. is_ok (memory_copy_to blake3 (w_objects w) s)),
       av_ok = (\<lambda>w. objects_ok blake3 (w_objects w) \<and> tree_closed (w_tree w)) \<rparr>"

lemma memory_add_view_simps [simp]:
  "av_files (memory_add_view blake3) w = bt_get (mw_files (w_tree w))"
  "av_held (memory_add_view blake3) w s = is_ok (memory_copy_to blake3 (w_objects w) s)"
  "av_ok (memory_add_view blake3) w \<longleftrightarrow> objects_ok blake3 (w_objects w) \<and> tree_closed (w_tree w)"
  by (simp_all add: memory_add_view_def)

lemma memory_put_from_held:
  assumes "objects_ok blake3 s" and "memory_put_from blake3 (\<lambda>s. s) spec source s = (r, s')"
  shows "objects_ok blake3 s' \<and> (\<forall>t. is_ok (memory_copy_to blake3 s t) \<longrightarrow> is_ok (memory_copy_to blake3 s' t))
    \<and> (\<forall>outcome. r = Inr outcome \<longrightarrow> is_ok (memory_copy_to blake3 s' spec))"
proof (cases r)
  case (Inl e)
  then have "s' = s" using assms(2) by (auto simp: memory_put_from_def Let_def split: option.splits sum.splits prod.splits)
  then show ?thesis using assms(1) Inl by simp
next
  case (Inr outcome)
  from memory_put_from_ok [OF assms(2) [unfolded Inr] assms(1,1)]
  obtain bytes where b: "objects_ok blake3 s'" "memory_copy_to blake3 s' spec = Inr bytes"
    "outcome = Created \<longrightarrow> s' = bt_insert (os_id spec) bytes s" by blast
  have "s' = s \<or> outcome = Created \<and> bt_get s (os_id spec) = None"
    using assms(2) Inr by (auto simp: memory_put_from_def Let_def split: option.splits sum.splits prod.splits)
  then have "is_ok (memory_copy_to blake3 s' t)" if "is_ok (memory_copy_to blake3 s t)" for t
    using that b(3) assms(1) by (auto simp: is_ok_iff memory_copy_to_iff objects_ok_def)
  then show ?thesis using b Inr by auto
qed

lemma memory_put_content_held:
  assumes "objects_ok blake3 s" and "memory_put_content_addressed blake3 (\<lambda>s. s) source s = (r, s')"
  shows "objects_ok blake3 s' \<and> (\<forall>t. is_ok (memory_copy_to blake3 s t) \<longrightarrow> is_ok (memory_copy_to blake3 s' t))
    \<and> (\<forall>obj. r = Inr obj \<longrightarrow> is_ok (memory_copy_to blake3 s' (cao_spec obj)) \<and> (\<exists>bytes. read_to_end source = Inr bytes
         \<and> os_id (cao_spec obj) = object_id_for_bytes blake3 bytes \<and> unat (os_size (cao_spec obj)) = length bytes))"
proof (cases "read_to_end source")
  case (Inl e)
  then show ?thesis using assms by (auto simp: memory_put_content_addressed_def io_then_def)
next
  case (Inr bytes)
  show ?thesis
  proof (cases "u64_try_from (length bytes)")
    case None
    then show ?thesis using assms Inr by (auto simp: memory_put_content_addressed_def io_then_def)
  next
    case (Some sz)
    let ?spec = "\<lparr> os_id = object_id_for_bytes blake3 bytes, os_size = sz \<rparr>"
    obtain r1 s1 where put: "memory_put_from blake3 (\<lambda>s. s) ?spec (cursor_reads bytes) s = (r1, s1)"
      by (cases "memory_put_from blake3 (\<lambda>s. s) ?spec (cursor_reads bytes) s")
    have "s' = s1 \<and> r = (case r1 of Inl e \<Rightarrow> Inl e | Inr outcome \<Rightarrow> Inr \<lparr> cao_spec = ?spec, cao_outcome = outcome \<rparr>)"
      using assms(2) Inr Some put by (auto simp: memory_put_content_addressed_def io_then_def Let_def split: sum.splits)
    with memory_put_from_held [OF assms(1) put] Inr Some show ?thesis
      by (auto simp: u64_try_from_eq_Some split: sum.splits)
  qed
qed

lemma memory_file_entry_ok:
  "memory_file_entry blake3 p bytes = Inr e \<Longrightarrow> we_path e = p \<and> (\<exists>fp. we_fingerprint e = Some fp \<and> unat (fp_size fp) = length bytes)"
  by (auto simp: memory_file_entry_def u64_try_from_eq_Some)

lemma memory_ports_simps [simp]:
  "ap_version (memory_add_ports uni blake3 index) = mi_version index"
  "ap_scan_index (memory_add_ports uni blake3 index) = memory_index_scan_files uni index None"
  "ap_inspect (memory_add_ports uni blake3 index) p w = (memory_inspect blake3 (w_tree w) p, w)"
  "ap_scan_files (memory_add_ports uni blake3 index) scopes w = (memory_scan_worktree blake3 (w_tree w) scopes, w)"
  "ap_open_file (memory_add_ports uni blake3 index) p w =
     (and_then (memory_open_file (w_tree w) p) (\<lambda>bytes. Inr (cursor_reads bytes)), w)"
  "ap_initialize (memory_add_ports uni blake3 index) = io_ok ()"
  "ap_validate_layout (memory_add_ports uni blake3 index) = io_ok ()"
  "ap_put_from (memory_add_ports uni blake3 index) spec source = on_objects (memory_put_from blake3 (\<lambda>s. s) spec source)"
  "ap_put_content_addressed (memory_add_ports uni blake3 index) source =
     on_objects (memory_put_content_addressed blake3 (\<lambda>s. s) source)"
  "ap_durability_barrier (memory_add_ports uni blake3 index) = io_ok ()"
  "ap_now (memory_add_ports uni blake3 index) w = (fixed_clock_now (w_clock w), w)"
  "ap_emit (memory_add_ports uni blake3 index) = noop_emit"
  "ap_check (memory_add_ports uni blake3 index) point = on_armed (injector_check point)"
  by (simp_all add: memory_add_ports_def)

lemma steady_same: "(\<And>w. snd (m w) = w) \<Longrightarrow> steady V m"
  unfolding steady_def by (metis add_keeps_refl snd_conv)

lemma steady_on_armed: "steady (memory_add_view blake3) (on_armed m)"
  unfolding steady_def add_keeps_def on_armed_def by (auto split: prod.splits)

lemma steady_on_objects:
  assumes "\<And>s r s'. objects_ok blake3 s \<Longrightarrow> m s = (r, s') \<Longrightarrow>
     objects_ok blake3 s' \<and> (\<forall>t. is_ok (memory_copy_to blake3 s t) \<longrightarrow> is_ok (memory_copy_to blake3 s' t))"
  shows "steady (memory_add_view blake3) (on_objects m)"
  unfolding steady_def add_keeps_def on_objects_def using assms by (auto split: prod.splits)

lemma memory_inspect_absent:
  assumes "tree_closed t" and "memory_inspect blake3 t p = Inr None" and "scope_contains (ScopePath p) q"
  shows "bt_get (mw_files t) q = None"
proof -
  have p: "bt_get (mw_files t) p = None" "p \<notin> set (mw_directories t)"
    using assms(2) by (auto simp: memory_inspect_def split: option.splits if_splits)
  show ?thesis
  proof (rule ccontr)
    assume "bt_get (mw_files t) q \<noteq> None"
    then have q: "q \<in> fst ` set (mw_files t)" by (auto simp: bt_get_None_iff)
    have "p = q \<or> is_ancestor_of p q" using assms(3) by simp
    then show False using p q assms(1) \<open>bt_get (mw_files t) q \<noteq> None\<close> unfolding tree_closed_def by auto
  qed
qed

lemma memory_scan_lists:
  assumes "tree_closed t" and "\<forall>r \<in> set (memory_scan_worktree blake3 t scopes). is_ok r"
    and "bt_get (mw_files t) q = Some bytes" and "list_ex (\<lambda>scope. scope_contains scope q) scopes"
  shows "\<exists>e. Inr e \<in> set (memory_scan_worktree blake3 t scopes) \<and> we_path e = q"
proof -
  have "(q, bytes) \<in> set (mw_files t)" using assms(1,3) by (simp add: tree_closed_def bt_get_iff)
  then have m: "memory_file_entry blake3 q bytes \<in> set (memory_scan_worktree blake3 t scopes)"
    using assms(4) by (force simp: memory_scan_worktree_def)
  with assms(2) obtain e where e: "memory_file_entry blake3 q bytes = Inr e" by (auto simp: is_ok_iff)
  with m memory_file_entry_ok [OF e] show ?thesis by auto
qed

interpretation memory_add: add_env blake3 "memory_add_ports uni blake3 index" "memory_add_view blake3"
proof
  fix w w' p e fp q source outcome obj bytes spec scopes entries event point
  let ?P = "memory_add_ports uni blake3 index" and ?V = "memory_add_view blake3"
  show "steady ?V (ap_put_from ?P spec source)" "steady ?V (ap_put_content_addressed ?P source)"
    unfolding memory_ports_simps by (rule steady_on_objects; use memory_put_from_held memory_put_content_held in blast)+
  show "steady ?V (ap_inspect ?P p)" "steady ?V (ap_open_file ?P p)" "steady ?V (ap_initialize ?P)"
    "steady ?V (ap_validate_layout ?P)" "steady ?V (ap_durability_barrier ?P)" "steady ?V (ap_now ?P)"
    "steady ?V (ap_emit ?P event)"
    by (rule steady_same; simp add: noop_emit_def)+
  show "steady ?V (ap_check ?P point)" unfolding memory_ports_simps by (rule steady_on_armed)
  assume ok: "av_ok ?V w"
  show "add_keeps ?V w w'" if "ap_scan_files ?P scopes w = (entries, w')"
    using that add_keeps_refl [OF ok] by simp
  show "\<exists>bytes. av_files ?V w p = Some bytes \<and> unat (fp_size fp) = length bytes"
    if "ap_inspect ?P p w = (Inr (Some e), w')" "we_fingerprint e = Some fp"
    using that by (auto simp: memory_inspect_def dest!: memory_file_entry_ok split: option.splits if_splits)
  show "av_files ?V w q = None" if "ap_inspect ?P p w = (Inr None, w')" "scope_contains (ScopePath p) q"
    using memory_inspect_absent [of "w_tree w" blake3 p q] ok that by auto
  show "\<exists>e. Inr e \<in> set entries \<and> we_path e = q"
    if "ap_scan_files ?P scopes w = (entries, w')" "\<forall>r \<in> set entries. is_ok r"
      "av_files ?V w q = Some bytes" "list_ex (\<lambda>scope. scope_contains scope q) scopes"
    using memory_scan_lists [of "w_tree w" blake3 scopes q bytes] ok that by auto
  show "\<exists>bytes. av_files ?V w p = Some bytes \<and> read_to_end source = Inr bytes"
    if "ap_open_file ?P p w = (Inr source, w')"
    using that by (auto simp: memory_open_file_def read_cursor)
  show "av_held ?V w' spec" if "ap_put_from ?P spec source w = (Inr outcome, w')"
    using that memory_put_from_held [of blake3 "w_objects w" spec source] ok by (auto simp: on_objects_def split: prod.splits)
  show "av_held ?V w' (cao_spec obj) \<and> (\<exists>bytes. read_to_end source = Inr bytes
      \<and> os_id (cao_spec obj) = object_id_for_bytes blake3 bytes \<and> unat (os_size (cao_spec obj)) = length bytes)"
    if "ap_put_content_addressed ?P source w = (Inr obj, w')"
    using that memory_put_content_held [of blake3 "w_objects w" source] ok by (auto simp: on_objects_def split: prod.splits)
qed

section \<open>The store in memory\<close>

definition store_totals :: "memory_object_store \<Rightarrow> nat \<times> nat" where
  "store_totals s = (length s, sum_list (map (\<lambda>(i, bytes). length bytes) s))"

lemma store_totals_insert:
  "bt_get s i = None \<Longrightarrow> store_totals (bt_insert i bytes s) = (fst (store_totals s) + 1, snd (store_totals s) + length bytes)"
  by (induction i bytes s rule: bt_insert.induct) (auto simp: store_totals_def bt_get_def split: if_splits)

lemma memory_put_from_counted:
  "memory_put_from blake3 (\<lambda>s. s) spec source s = (Inr outcome, s') \<Longrightarrow> put_counted store_totals s s' outcome (os_size spec)"
  by (auto simp: memory_put_from_def Let_def put_counted_def store_totals_insert copy_and_hash_exact_iff
      split: option.splits sum.splits)

lemma memory_put_content_counted:
  "memory_put_content_addressed blake3 (\<lambda>s. s) source s = (Inr obj, s') \<Longrightarrow>
     put_counted store_totals s s' (cao_outcome obj) (os_size (cao_spec obj))"
  by (auto simp: memory_put_content_addressed_def io_then_ok_iff Let_def dest: memory_put_from_counted)

interpretation memory_tally: object_tally "memory_add_ports uni blake3 index" "\<lambda>w. store_totals (w_objects w)"
proof
  show "put_counted (\<lambda>w. store_totals (w_objects w)) w w' outcome (os_size spec)"
    if "ap_put_from (memory_add_ports uni blake3 index) spec source w = (Inr outcome, w')" for spec source w outcome w'
    using that by (auto simp: on_objects_def put_counted_def split: prod.splits dest!: memory_put_from_counted)
  show "put_counted (\<lambda>w. store_totals (w_objects w)) w w' (cao_outcome obj) (os_size (cao_spec obj))"
    if "ap_put_content_addressed (memory_add_ports uni blake3 index) source w = (Inr obj, w')" for source w obj w'
    using that by (auto simp: on_objects_def put_counted_def split: prod.splits dest!: memory_put_content_counted)
qed (auto simp: keeps_total_def noop_emit_def on_armed_def split: prod.splits)

section \<open>Reading the index in memory\<close>

text \<open>A well-behaved reader is read completely.\<close>

lemma read_index_pages_complete:
  assumes reader: "paged_reader scan contents cursor invar" and inv: "invar s"
    and ok: "sorted_wrt (<) (map fr_path (contents s))" "\<forall>r \<in> set (contents s). file_record_validate r = Inr ()"
    and i: "i \<le> length (contents s)" and seen: "set cursors \<subseteq> {cursor_str (cursor s j) | j. 0 < j \<and> j \<le> i}"
  shows "read_index_pages (scan s) (map (\<lambda>r. (fr_path r, r)) (take i (contents s))) cursors
     \<lparr> pr_after = if i = 0 then None else Some (cursor s i), pr_limit = MAX_PAGE_SIZE \<rparr>
     = Some (Inr (map (\<lambda>r. (fr_path r, r)) (contents s)))"
  using i seen
proof (induction "length (contents s) - i" arbitrary: i cursors rule: less_induct)
  case less
  let ?req = "\<lparr> pr_after = if i = 0 then None else Some (cursor s i), pr_limit = MAX_PAGE_SIZE \<rparr>"
  let ?page = "\<lparr> page_items = take 4096 (drop i (contents s)),
    page_next = if i + 4096 < length (contents s) then Some (cursor s (i + 4096)) else None \<rparr>"
  have page: "scan s ?req = Inr ?page"
    using inv less.prems paged_reader.scan_first [OF reader, of s MAX_PAGE_SIZE]
      paged_reader.scan_after [OF reader, of s i MAX_PAGE_SIZE] max_page by simp
  have split: "contents s = take i (contents s) @ take 4096 (drop i (contents s)) @ drop (i + 4096) (contents s)"
    by (metis append_assoc append_take_drop_id take_add)
  have sorted: "sorted_wrt (<) (map fr_path (take i (contents s)) @ map fr_path (take 4096 (drop i (contents s)))
      @ map fr_path (drop (i + 4096) (contents s)))"
    using ok(1) split by (metis map_append)
  have "\<forall>r \<in> set (take 4096 (drop i (contents s))). file_record_validate r = Inr ()"
    using ok(2) by (meson in_set_dropD in_set_takeD)
  then have items: "try_fold snapshot_record (map (\<lambda>r. (fr_path r, r)) (take i (contents s))) (take 4096 (drop i (contents s)))
      = Inr (map (\<lambda>r. (fr_path r, r)) (take (i + 4096) (contents s)))"
    using sorted by (subst snapshot_records_insert) (auto simp: sorted_wrt_append take_add)
  show ?case
  proof (cases "i + 4096 < length (contents s)")
    case True
    have new: "cursor_str (cursor s (i + 4096)) \<notin> set cursors"
    proof
      assume "cursor_str (cursor s (i + 4096)) \<in> set cursors"
      then obtain j where j: "0 < j" "j \<le> i" "cursor_str (cursor s (i + 4096)) = cursor_str (cursor s j)"
        using less.prems(2) by blast
      then show False
        using True paged_reader.cursor_inj [OF reader inv, of j "i + 4096"] by (cases "cursor s j"; cases "cursor s (i + 4096)") auto
    qed
    have "read_index_pages (scan s) (map (\<lambda>r. (fr_path r, r)) (take (i + 4096) (contents s)))
        (bts_insert (cursor_str (cursor s (i + 4096))) cursors)
        \<lparr> pr_after = if i + 4096 = 0 then None else Some (cursor s (i + 4096)), pr_limit = MAX_PAGE_SIZE \<rparr>
        = Some (Inr (map (\<lambda>r. (fr_path r, r)) (contents s)))"
      using True less.prems(2) by (intro less.hyps) fastforce+
    then show ?thesis
      using True new max_page by (subst read_index_pages.simps) (simp add: page items page_request_max)
  next
    case False
    have "try_fold snapshot_record (map (\<lambda>r. (fr_path r, r)) (take i (contents s))) (drop i (contents s))
        = Inr (map (\<lambda>r. (fr_path r, r)) (contents s))"
      using items False by simp
    then show ?thesis
      using False max_page by (subst read_index_pages.simps) (simp add: page page_request_max)
  qed
qed

lemma memory_index_snapshot:
  assumes "memory_index_ok uni s" and "\<forall>r \<in> set (bt_values (mi_files s)). file_record_validate r = Inr ()"
    and "index_snapshot_digest uni blake3 (bt_values (mi_files s)) = Inr (iv_digest version)"
  shows "read_index_snapshot uni blake3 version (memory_index_scan_files uni s None) = Some (Inr (mi_files s))"
proof -
  have "map (\<lambda>r. (fr_path r, r)) (bt_values (mi_files s)) = mi_files s"
    using assms(1) by (auto simp: memory_index_ok_def bt_values_def intro!: map_idI)
  then have "read_index_pages (memory_index_scan_files uni s None) [] [] \<lparr> pr_after = None, pr_limit = MAX_PAGE_SIZE \<rparr>
      = Some (Inr (mi_files s))"
    using read_index_pages_complete [OF memory_index.paged_reader_axioms assms(1) memory_index_paths(2) [OF assms(1)] assms(2), of 0 "[]"]
    by simp
  then show ?thesis
    using assms(3) by (simp add: read_index_snapshot_def page_request_first_def page_request_max)
qed

end
