(* ===== verification/AddCapture.thy ===== *)
theory AddCapture
  imports MemoryAdd
begin

text \<open>
  The properties of a managed add as a whole: the delta is exact, the worktree is captured and can be
  read back, the statistics count what happened, refused requests leave no trace, and the run
  returns; with a sample run on the memory adapters.
\<close>

section \<open>A sample run\<close>

text \<open>
  The index records a file that is gone, the worktree holds a new one.  The chunker of the sample
  returns its source in one piece.
\<close>

definition whole_cdc :: stream_cdc where
  "whole_cdc a b c source =
     (case read_to_end source of
        Inl e \<Rightarrow> [Inl e]
      | Inr bytes \<Rightarrow> if bytes = [] then [] else [Inr \<lparr> cd_offset = 0, cd_length = length bytes, cd_data = bytes \<rparr>])"

definition stale_record :: file_record where
  "stale_record = \<lparr> fr_path = LogicalPath ''b'', fr_manifest_id = ManifestId (ContentDigest 3), fr_total_size = 1, fr_chunk_count = 1 \<rparr>"

definition add_version :: index_version where
  "add_version = \<lparr> iv_revision = 1, iv_digest = sum_hash (snapshot_encoding [stale_record]) \<rparr>"

definition add_index :: memory_index_snapshot where
  "add_index = memory_index_new add_version [stale_record]"

definition add_request :: prepare_add_request where
  "add_request = \<lparr> pa_resource = pd_resource sample_candidate, pa_expected_index_version = add_version, pa_scopes = [ScopeRoot],
     pa_stage_deletions = True, pa_chunking = Explicit WholeFile, pa_max_whole_file_bytes = Some 2, pa_candidate_batch_id = ''b'' \<rparr>"

definition add_world :: memory_world where
  "add_world = sample_world \<lparr> w_tree := \<lparr> mw_files = [(sample_path, sample_bytes)], mw_directories = [] \<rparr>, w_objects := [] \<rparr>"

definition add_record :: file_record where
  "add_record = \<lparr> fr_path = sample_path, fr_manifest_id = sample_file_id, fr_total_size = 2, fr_chunk_count = 1 \<rparr>"

definition add_statistics_sample :: add_statistics where
  "add_statistics_sample = add_statistics_default \<lparr> st_files_scanned := 1, st_bytes_scanned := 2, st_chunks_observed := 1,
     st_objects_created := 1, st_bytes_published := 2 \<rparr>"

lemma whole_cdc_splits: "cdc_splits whole_cdc"
  unfolding cdc_splits_def whole_cdc_def
proof (intro allI impI)
  fix source bytes
  assume "read_to_end source = Inr bytes"
  then show "\<exists>cs. (case read_to_end source of Inl e \<Rightarrow> [Inl e]
      | Inr bytes \<Rightarrow> if bytes = [] then [] else [Inr \<lparr> cd_offset = 0, cd_length = length bytes, cd_data = bytes \<rparr>]) = map Inr cs
    \<and> concat (map cd_data cs) = bytes \<and> (\<forall>d \<in> set cs. cd_length d = length (cd_data d))"
    by (cases "bytes = []")
       (auto intro!: exI [of _ "[]"] exI [of _ "[\<lparr> cd_offset = 0, cd_length = length bytes, cd_data = bytes \<rparr>]"])
qed

lemma stale_snapshot: "snapshot_ok ascii_unicode [stale_record]"
proof -
  have "validate_index_snapshot ascii_unicode [stale_record] = Inr ()" by code_simp
  then show ?thesis by (simp add: snapshot_ok_def record_encodable_def stale_record_def str_fits_def)
qed

lemma add_index_files: "mi_files add_index = [(LogicalPath ''b'', stale_record)]" "mi_version add_index = add_version"
  by (simp_all add: add_index_def memory_index_new_def stale_record_def bt_collect_def)

lemma add_snapshot:
  "read_index_snapshot ascii_unicode sum_hash add_version (memory_index_scan_files ascii_unicode add_index None)
     = Some (Inr [(LogicalPath ''b'', stale_record)])"
proof -
  have "memory_index_ok ascii_unicode add_index" unfolding memory_index_ok_def add_index_files by code_simp
  from memory_index_snapshot [OF this, of sum_hash add_version] show ?thesis
    using stale_snapshot by (simp add: add_index_files bt_values_def index_snapshot_digest_iff add_version_def)
      (simp add: stale_record_def file_record_validate_def)
qed

lemma sample_manifest_record: "file_record_from_manifest sum_hash sample_path sample_file = Inr add_record"
  by (simp add: file_record_from_manifest_def manifest_chunk_count_def sample_file_valid manifest_id_eq sample_file_id_def
      add_record_def file_record_new_def file_record_validate_def) (simp add: sample_file_def u64_try_from_def file_record_validate_def)

lemma unarmed: "w_armed w = {} \<Longrightarrow> on_armed (injector_check point) w = (Inr (), w)"
  by (simp add: on_armed_def injector_check_def)

definition add_entry :: worktree_entry where
  "add_entry = \<lparr> we_path = sample_path, we_kind = WtFile,
     we_fingerprint = Some \<lparr> fp_size = 2, fp_modified_unix_nanos = None, fp_identity = Some (digest_to_hex (object_digest sample_object)) \<rparr> \<rparr>"

lemma add_entry: "memory_file_entry sum_hash sample_path sample_bytes = Inr add_entry"
  by (simp add: memory_file_entry_def add_entry_def sample_object_def) (simp add: sample_bytes_def u64_try_from_def)

lemma add_scan: "scan_worktree (memory_add_ports ascii_unicode sum_hash add_index) add_request add_world = (Inr [(sample_path, add_entry)], add_world)"
  by (simp add: scan_worktree_def add_request_def scan_scope_def add_world_def memory_scan_worktree_def
      add_entry visit_entries_def io_then_def visit_file_def noop_emit_def u64_try_from_def)
     (simp add: add_entry_def u64_try_from_def noop_emit_def)

definition add_published :: memory_world where
  "add_published = add_world \<lparr> w_objects := [(sample_object, sample_bytes)] \<rparr>"

lemma add_worlds:
  "w_armed add_world = {}" "w_armed add_published = {}" "w_tree add_published = w_tree add_world" "w_objects add_world = []"
  "mw_files (w_tree add_world) = [(sample_path, sample_bytes)]" "w_clock add_published = 5"
  by (simp_all add: add_published_def add_world_def sample_world_def)

lemma add_put: "memory_put_content_addressed sum_hash (\<lambda>s. s) (cursor_reads sample_bytes) [] =
   (Inr \<lparr> cao_spec = \<lparr> os_id = sample_object, os_size = 2 \<rparr>, cao_outcome = Created \<rparr>, [(sample_object, sample_bytes)])"
proof -
  have "u64_try_from (length sample_bytes) = Some 2" by (simp add: sample_bytes_def u64_try_from_def)
  moreover have "copy_and_hash_exact sum_hash (cursor_reads sample_bytes) \<lparr> os_id = sample_object, os_size = 2 \<rparr> EcInvalidArgument = Inr sample_bytes"
    by (simp add: copy_and_hash_exact_iff read_cursor sample_object_def) (simp add: sample_bytes_def)
  ultimately show ?thesis
    by (simp add: memory_put_content_addressed_def io_then_def read_cursor sample_object_def memory_put_from_def Let_def)
qed

lemma add_chunk: "chunk_file sum_hash whole_cdc (memory_add_ports ascii_unicode sum_hash add_index) sample_path add_entry WholeFile
    (add_statistics_default \<lparr> st_files_scanned := 1 \<rparr>) add_world =
   (Inr (\<lparr> sf_record = add_record, sf_manifest = sample_file \<rparr>, add_statistics_sample), add_published)"
proof -
  have e: "entry_size add_entry = Inr 2" by (simp add: entry_size_def add_entry_def)
  have i: "memory_inspect sum_hash (w_tree add_world) sample_path = Inr (Some add_entry)"
    by (simp add: memory_inspect_def add_worlds bt_get_def add_entry)
  have o: "memory_open_file (w_tree add_world) sample_path = Inr sample_bytes"
    by (simp add: memory_open_file_def add_worlds bt_get_def)
  have m: "manifest_new 2 WholeFile [\<lparr> cr_object_id = sample_object, cr_offset = 0, cr_size = 2 \<rparr>] = Inr sample_file"
    using sample_file_valid by (simp add: manifest_new_def sample_file_def)
  have c: "manifest_chunk_count sample_file = Inr 1"
    by (simp add: manifest_chunk_count_def sample_file_def u64_try_from_def)
  have k: "chunk_new sample_object 0 2 = Inr \<lparr> cr_object_id = sample_object, cr_offset = 0, cr_size = 2 \<rparr>"
    by (simp add: chunk_new_iff chunk_validate_def checked_add_def)
  show ?thesis
    by (simp add: k add_statistics_sample_def chunk_file_def io_then_def e chunk_whole_file_def o on_objects_def add_worlds add_put record_object_outcome_def
      checked_add_def add_statistics_default_def i m c sample_manifest_record chunk_new_iff add_published_def [symmetric])
qed

lemma add_publish: "publish_worktree sum_hash whole_cdc (memory_add_ports ascii_unicode sum_hash add_index) add_request add_world =
   (Inr ([(sample_path, \<lparr> sf_record = add_record, sf_manifest = sample_file \<rparr>)], add_statistics_sample), add_published)"
proof -
  have "validate_whole_file_size_limit add_request [(sample_path, add_entry)] = Inr ()"
    by (simp add: validate_whole_file_size_limit_def add_request_def entry_size_def add_entry_def)
  moreover have "pa_chunking add_request = Explicit WholeFile" by (simp add: add_request_def)
  ultimately show ?thesis
    by (simp add: publish_worktree_def add_scan io_then_def unarmed add_worlds chunk_observed_def add_chunk u64_try_from_def noop_emit_def)
qed

lemma add_build: "build_candidate ascii_unicode sum_hash add_request [(LogicalPath ''b'', stale_record)]
    [(sample_path, \<lparr> sf_record = add_record, sf_manifest = sample_file \<rparr>)] add_statistics_sample =
   Inr (\<lparr> cp_mutations = [Upsert add_record, Delete (LogicalPath ''b'')], cp_result_digest = sum_hash (snapshot_encoding [add_record]),
     cp_manifests = [sample_file], cp_object_specs = [\<lparr> os_id = sample_object, os_size = 2 \<rparr>] \<rparr>,
     add_statistics_sample \<lparr> st_files_upserted := 1, st_paths_deleted := 1 \<rparr>)"
proof -
  have "index_snapshot_digest ascii_unicode sum_hash [add_record] = Inr (sum_hash (snapshot_encoding [add_record]))"
  proof -
    have "validate_index_snapshot ascii_unicode [add_record] = Inr ()"
      by (simp add: validate_index_snapshot_iff add_record_def file_record_validate_def) code_simp
    then show ?thesis by (simp add: index_snapshot_digest_iff snapshot_ok_def record_encodable_def add_record_def sample_path_def str_fits_def)
  qed
  moreover have "manifest_id sum_hash sample_file = Inr sample_file_id"
    by (simp add: manifest_id_eq sample_file_valid sample_file_id_def)
  moreover have ord: "sample_path < LogicalPath ''b''" by code_simp
  moreover have "sample_path \<noteq> LogicalPath ''b''" "\<not> LogicalPath ''b'' < sample_path" using ord by auto
  moreover have "m_chunks sample_file = [\<lparr> cr_object_id = sample_object, cr_offset = 0, cr_size = 2 \<rparr>]"
    by (simp add: sample_file_def)
  ultimately show ?thesis
    by (simp add: build_candidate_def stage_file_def Let_def add_request_def stage_deletion_def bt_get_def bt_keys_def
      bt_remove_def bt_values_def u64_try_from_def is_upsert_def take_manifest_def candidate_chunk_spec_def)
qed

lemma add_sealed:
  "\<exists>p w. prepare_add ascii_unicode sum_hash whole_cdc (memory_add_ports ascii_unicode sum_hash add_index) add_request add_world = Some (Inr p, w)
     \<and> delta_iter (pd_index_delta p) = [Upsert add_record, Delete (LogicalPath ''b'')]"
proof -
  let ?P = "memory_add_ports ascii_unicode sum_hash add_index"
  let ?st = "add_statistics_sample \<lparr> st_files_upserted := 1, st_paths_deleted := 1 \<rparr>"
  have "mutations_ok ascii_unicode [Upsert add_record, Delete (LogicalPath ''b'')]"
    unfolding mutations_ok_def add_record_def by code_simp
  then obtain d where d: "delta_new ascii_unicode add_version [Upsert add_record, Delete (LogicalPath ''b'')] (sum_hash (snapshot_encoding [add_record])) = Inr d"
    using delta_new_ok [of ascii_unicode "[Upsert add_record, Delete (LogicalPath ''b'')]"] by (auto simp: is_ok_iff)
  let ?new = "prepared_new ascii_unicode sum_hash (pa_resource add_request) add_version ''b'' d [sample_file]
      [\<lparr> os_id = sample_object, os_size = 2 \<rparr>] ?st 5"
  let ?p = "\<lparr> pd_resource = pa_resource add_request, pd_base_index_version = add_version, pd_candidate_batch_id = ''b'',
      pd_index_delta = d, pd_manifests = [sample_file], pd_object_specs = [\<lparr> os_id = sample_object, os_size = 2 \<rparr>],
      pd_statistics = ?st, pd_candidate_digest = ContentDigest 0, pd_prepared_at_unix_ms = 5 \<rparr>"
  note dr = delta_new_result [OF d]
  have "publication_closed ascii_unicode sum_hash (resource_scope (pd_resource ?p)) add_version d [sample_file] [\<lparr> os_id = sample_object, os_size = 2 \<rparr>]"
    using sample_file_valid dr by (simp add: publication_closed_def upserts_def add_record_def manifests_collect_def id_of_manifest_def sample_file_id_def all_chunks_def sizes_agree_def)
     (simp add: sample_file_def spec_pair_def chunk_pair_def add_request_def sample_candidate_def Let_def resource_scope_def scope_fields_def)
  then have "prepared_validate_content ascii_unicode sum_hash ?p = Inr ()" by (simp add: prepared_content_iff)
  moreover have "candidate_fits ?p"
    using dr(1) by (simp add: candidate_fits_def add_request_def sample_candidate_def Let_def resource_scope_def scope_fields_def str_fits_def mutation_fits_def add_record_def sample_path_def sample_file_def)
  ultimately obtain p where p: "?new = Inr p"
    using prepared_compute_digest_eq [of ?p sum_hash] sample_file_valid by (simp add: prepared_new_def Let_def)
  have "prepared_validate_for ascii_unicode sum_hash p add_request = Inr ()"
    using prepared_new_valid [OF p] prepared_new_fields [OF p] by (simp add: prepared_validate_for_def add_request_def prepare_add_request_validate_def managed_resource_validate_def sample_candidate_def Let_def)
  moreover have "prepare_add_request_validate add_request = Inr ()"
    by (simp add: add_request_def prepare_add_request_validate_def managed_resource_validate_def sample_candidate_def Let_def)
  moreover have "pa_expected_index_version add_request = add_version" "pa_candidate_batch_id add_request = ''b''" by (simp_all add: add_request_def)
  moreover have "delta_iter (pd_index_delta p) = [Upsert add_record, Delete (LogicalPath ''b'')]"
    using prepared_new_fields(4) [OF p] dr(1) by simp
  ultimately show ?thesis using p d
    by (simp add: prepare_add_def io_then_def add_index_files add_snapshot unarmed add_worlds noop_emit_def add_publish seal_candidate_def add_build u64_try_from_def fixed_clock_now_def)
qed

section \<open>The files of an add\<close>

definition scoped_files :: "prepare_add_request \<Rightarrow> memory_worktree \<Rightarrow> (logical_path \<times> byte list) list" where
  "scoped_files request t = filter (\<lambda>(q, bytes). in_scopes request q) (mw_files t)"

lemma scoped_scanned:
  assumes "bt_ok (mw_files t)" and "scanned_ok scanned"
    and "\<And>q f. (q, f) \<in> set scanned \<Longrightarrow> in_scopes request q \<and> bt_get (mw_files t) q \<noteq> None"
    and "\<And>q. bt_get (mw_files t) q \<noteq> None \<Longrightarrow> in_scopes request q \<Longrightarrow> bt_get scanned q \<noteq> None"
  shows "map fst (scoped_files request t) = map fst scanned"
proof (rule sorted_distinct_set_unique)
  have bt: "bt_ok scanned" using assms(2) by (simp add: scanned_ok_def)
  have s: "sorted_wrt (<) (map fst (scoped_files request t))"
    using assms(1) by (auto simp: scoped_files_def bt_ok_def sorted_wrt_map intro: sorted_wrt_filter)
  then show "sorted (map fst (scoped_files request t))" "distinct (map fst (scoped_files request t))"
    by (simp_all add: strict_sorted_iff)
  show "sorted (map fst scanned)" "distinct (map fst scanned)"
    using bt by (simp_all add: bt_ok_def strict_sorted_iff)
  show "set (map fst (scoped_files request t)) = set (map fst scanned)"
    using assms(3,4) by (force simp: scoped_files_def bt_get_None_iff)
qed

lemma scoped_map:
  assumes "bt_ok (mw_files t)" and "map fst (scoped_files request t) = map fst scanned"
    and "\<And>q bytes f. bt_get (mw_files t) q = Some bytes \<Longrightarrow> (q, f) \<in> set scanned \<Longrightarrow> a (q, bytes) = b (q, f)"
  shows "map a (scoped_files request t) = map b scanned"
proof (rule nth_equalityI)
  show "length (map a (scoped_files request t)) = length (map b scanned)"
    using arg_cong [OF assms(2), of length] by simp
  fix i
  assume "i < length (map a (scoped_files request t))"
  then have i: "i < length (scoped_files request t)" "i < length scanned"
    using arg_cong [OF assms(2), of length] by simp_all
  obtain q bytes where x: "scoped_files request t ! i = (q, bytes)" by (cases "scoped_files request t ! i")
  have "fst (scanned ! i) = q" using arg_cong [OF assms(2), of "\<lambda>l. l ! i"] i x by simp
  then obtain f where y: "scanned ! i = (q, f)" by (cases "scanned ! i") auto
  have "(q, bytes) \<in> set (mw_files t)" using nth_mem [OF i(1)] x by (simp add: scoped_files_def)
  then have "bt_get (mw_files t) q = Some bytes" using assms(1) by (simp add: bt_get_iff)
  from assms(3) [OF this] nth_mem [OF i(2)] i x y show "map a (scoped_files request t) ! i = map b scanned ! i" by simp
qed

lemma scanned_totals:
  assumes "objects_ok blake3 (w_objects w)" and "tree_closed (w_tree w)" and "cdc_splits cdc"
    and pub: "publish_worktree blake3 cdc (memory_add_ports uni blake3 index) request w = (Inr (scanned, st), w')"
  shows "length scanned = length (scoped_files request (w_tree w))"
    and "sum_list (map (\<lambda>m. unat (m_total_size m)) (manifests_of scanned))
       = sum_list (map (\<lambda>(q, bytes). length bytes) (scoped_files request (w_tree w)))"
    and "length (all_chunks (manifests_of scanned))
       = sum_list (map (\<lambda>(q, bytes). unat (fr_chunk_count (the (target_index request idx scanned q)))) (scoped_files request (w_tree w)))"
    and "\<forall>(q, bytes) \<in> set (scoped_files request (w_tree w)). target_index request idx scanned q \<noteq> None"
proof -
  let ?files = "scoped_files request (w_tree w)"
  have "av_ok (memory_add_view blake3) w" using assms(1,2) by simp
  note cap = memory_add.publish_worktree_captured [OF this assms(3) pub] and pok = publish_worktree_ok [OF pub]
  have described: "in_scopes request q \<and> file_described blake3 q f
      \<and> (\<exists>bytes. bt_get (mw_files (w_tree w)) q = Some bytes \<and> unat (fr_total_size (sf_record f)) = length bytes)"
    if "(q, f) \<in> set scanned" for q f
    using that cap pok by (fastforce simp: add_keeps_def file_captured_def)
  have bt: "bt_ok (mw_files (w_tree w))" using assms(2) by (simp add: tree_closed_def)
  have sok: "scanned_ok scanned" using pok by blast
  have keys: "map fst ?files = map fst scanned"
    using described cap by (intro scoped_scanned [OF bt sok]) force+
  have get: "bt_get scanned q = Some f" if "(q, f) \<in> set scanned" for q f
    using that sok by (simp add: scanned_ok_def bt_get_iff)
  have "map (\<lambda>(q, bytes). length bytes) ?files = map (\<lambda>(q, f). unat (m_total_size (sf_manifest f))) scanned"
    by (rule scoped_map [OF bt keys]) (use described in \<open>fastforce simp: file_described_def\<close>)
  moreover have "map (\<lambda>(q, bytes). unat (fr_chunk_count (the (target_index request idx scanned q)))) ?files
      = map (\<lambda>(q, f). length (m_chunks (sf_manifest f))) scanned"
    by (rule scoped_map [OF bt keys]) (use described get in \<open>fastforce simp: file_described_def target_index_def\<close>)
  ultimately have sums: "sum_list (map (\<lambda>(q, bytes). length bytes) ?files) = sum_list (map (\<lambda>(q, f). unat (m_total_size (sf_manifest f))) scanned)"
    "sum_list (map (\<lambda>(q, bytes). unat (fr_chunk_count (the (target_index request idx scanned q)))) ?files)
      = sum_list (map (\<lambda>(q, f). length (m_chunks (sf_manifest f))) scanned)"
    by simp_all
  have chunks: "length (all_chunks (manifests_of scanned)) = sum_list (map (\<lambda>(q, f). length (m_chunks (sf_manifest f))) scanned)"
    "sum_list (map (\<lambda>m. unat (m_total_size m)) (manifests_of scanned)) = sum_list (map (\<lambda>(q, f). unat (m_total_size (sf_manifest f))) scanned)"
    by (simp_all add: all_chunks_def manifests_of_def length_concat comp_def case_prod_unfold)
  have "target_index request idx scanned q \<noteq> None" if "(q, bytes) \<in> set ?files" for q bytes
  proof -
    have "q \<in> set (map fst ?files)" using that by force
    then have "bt_get scanned q \<noteq> None" unfolding keys by (auto simp: bt_get_None_iff)
    then show ?thesis by (auto simp: target_index_def)
  qed
  then have idx_some: "\<forall>(q, bytes) \<in> set ?files. target_index request idx scanned q \<noteq> None" by blast
  show "length scanned = length ?files" using arg_cong [OF keys, of length] by simp
  show "sum_list (map (\<lambda>m. unat (m_total_size m)) (manifests_of scanned)) = sum_list (map (\<lambda>(q, bytes). length bytes) ?files)"
    "length (all_chunks (manifests_of scanned))
       = sum_list (map (\<lambda>(q, bytes). unat (fr_chunk_count (the (target_index request idx scanned q)))) ?files)"
    using chunks sums by simp_all
  show "\<forall>(q, bytes) \<in> set ?files. target_index request idx scanned q \<noteq> None" by (rule idx_some)
qed

section \<open>Properties\<close>

text \<open>
  C17: The delta of a prepared add is exact.  Whatever the ports do, a successful \<open>prepare_add\<close>
  worked on an index snapshot with the digest of the expected version and on files in the requested
  scopes; the mutations turn that snapshot into the target index (scanned files recorded, missing
  ones in scope dropped if deletions are staged, the rest as before); each of them changes the
  snapshot; and the declared result digest is that of the target index.
\<close>

theorem prepare_add_delta_exact:
  assumes "prepare_add uni blake3 cdc P request w = Some (Inr p, w')"
  shows "\<exists>snapshot scanned.
     read_index_snapshot uni blake3 (pa_expected_index_version request) (ap_scan_index P) = Some (Inr snapshot)
     \<and> (\<exists>v v' st. publish_worktree blake3 cdc P request v = (Inr (scanned, st), v'))
     \<and> index_snapshot_digest uni blake3 (bt_values snapshot) = Inr (iv_digest (pa_expected_index_version request))
     \<and> (\<forall>q f. bt_get scanned q = Some f \<longrightarrow> in_scopes request q \<and> fr_path (sf_record f) = q)
     \<and> apply_mutations (delta_iter (pd_index_delta p)) (bt_get snapshot) = target_index request (bt_get snapshot) scanned
     \<and> (\<forall>m \<in> set (delta_iter (pd_index_delta p)). apply_mutation m (bt_get snapshot) \<noteq> bt_get snapshot)
     \<and> (\<exists>result. bt_ok result \<and> bt_get result = target_index request (bt_get snapshot) scanned
          \<and> index_snapshot_digest uni blake3 (bt_values result) = Inr (dl_result_digest (pd_index_delta p)))
     \<and> prepared_validate_for uni blake3 p request = Inr ()"
  using assms
proof (cases rule: prepare_add_cases)
  case (1 snapshot scanned st v w1 w2)
  note pok = publish_worktree_ok [OF 1(6)]
  have snap: "records_ok snapshot" using read_index_snapshot_ok(1) [OF 1(5)] .
  have sok: "scanned_ok scanned" using pok by blast
  from 1(7) have v: "prepared_validate_for uni blake3 p request = Inr ()" by (rule seal_candidate_cases)
  have sc: "\<forall>q f. bt_get scanned q = Some f \<longrightarrow> in_scopes request q \<and> fr_path (sf_record f) = q"
    using pok sok by (auto simp: scanned_ok_def bt_get_iff)
  show ?thesis
    by (rule exI [of _ snapshot], rule exI [of _ scanned], intro conjI)
       (use 1(5,6) read_index_snapshot_ok(2) [OF 1(5)] sc sealed_delta_exact [OF snap sok 1(7)] v in blast)+
qed

theorem prepare_add_delta_exact_witness:
  "\<exists>p w'. prepare_add ascii_unicode sum_hash whole_cdc (memory_add_ports ascii_unicode sum_hash add_index) add_request add_world
       = Some (Inr p, w') \<and> prepared_validate_for ascii_unicode sum_hash p add_request = Inr ()"
proof -
  from add_sealed obtain p w' where run: "prepare_add ascii_unicode sum_hash whole_cdc
      (memory_add_ports ascii_unicode sum_hash add_index) add_request add_world = Some (Inr p, w')" by blast
  from prepare_add_delta_exact [OF run] run show ?thesis by blast
qed

text \<open>
  C4: A prepared add captures the worktree.  With the memory adapters, a successful \<open>prepare_add\<close>
  leaves the worktree as it was and loses no object; applied to the index, its delta records every
  file in scope with a manifest of its content and its size, and every object the candidate names
  can be read from the store.
\<close>

theorem prepare_add_captures_worktree:
  assumes "objects_ok blake3 (w_objects w)" and "tree_closed (w_tree w)" and "cdc_splits cdc"
    and "prepare_add uni blake3 cdc (memory_add_ports uni blake3 index) request w = Some (Inr p, w')"
  shows "\<exists>snapshot. read_index_snapshot uni blake3 (pa_expected_index_version request) (memory_index_scan_files uni index None)
         = Some (Inr snapshot)
     \<and> captures blake3 request (bt_get (mw_files (w_tree w))) (bt_get snapshot)
         (apply_mutations (delta_iter (pd_index_delta p)) (bt_get snapshot))
     \<and> bt_get (mw_files (w_tree w')) = bt_get (mw_files (w_tree w))
     \<and> (\<forall>s. is_ok (memory_copy_to blake3 (w_objects w) s) \<longrightarrow> is_ok (memory_copy_to blake3 (w_objects w') s))
     \<and> (\<forall>s \<in> set (pd_object_specs p). is_ok (memory_copy_to blake3 (w_objects w') s))"
proof -
  have "av_ok (memory_add_view blake3) w" using assms(1,2) by simp
  from memory_add.prepare_add_captured [OF this assms(3,4)] obtain snapshot where
    "read_index_snapshot uni blake3 (pa_expected_index_version request) (memory_index_scan_files uni index None) = Some (Inr snapshot)"
    "add_keeps (memory_add_view blake3) w w'"
    "captures blake3 request (bt_get (mw_files (w_tree w))) (bt_get snapshot) (apply_mutations (delta_iter (pd_index_delta p)) (bt_get snapshot))"
    "\<forall>s \<in> set (pd_object_specs p). is_ok (memory_copy_to blake3 (w_objects w') s)"
    by (auto simp: fun_eq_iff)
  then show ?thesis by (auto simp: add_keeps_def fun_eq_iff)
qed

lemma add_world_ok: "objects_ok sum_hash (w_objects add_world)" "tree_closed (w_tree add_world)"
proof -
  have "\<not> is_ancestor_of a sample_path" for a
    by (auto simp: is_ancestor_of_str sample_path_def Cons_eq_append_conv)
  then show "objects_ok sum_hash (w_objects add_world)" "tree_closed (w_tree add_world)"
    by (simp_all add: add_world_def objects_ok_def tree_closed_def bt_ok_def)
qed

theorem prepare_add_captures_worktree_witness:
  "\<exists>p w'. prepare_add ascii_unicode sum_hash whole_cdc (memory_add_ports ascii_unicode sum_hash add_index) add_request add_world
       = Some (Inr p, w') \<and> (\<forall>s \<in> set (pd_object_specs p). is_ok (memory_copy_to sum_hash (w_objects w') s))"
proof -
  from add_sealed obtain p w' where run: "prepare_add ascii_unicode sum_hash whole_cdc
      (memory_add_ports ascii_unicode sum_hash add_index) add_request add_world = Some (Inr p, w')" by blast
  from prepare_add_captures_worktree [OF add_world_ok whole_cdc_splits run] run show ?thesis by blast
qed

lemma prepared_statistics_related:
  assumes "prepare_add uni blake3 cdc P request w = Some (Inr p, w')"
  obtains snapshot scanned w1 w2 v where
    "read_index_snapshot uni blake3 (pa_expected_index_version request) (ap_scan_index P) = Some (Inr snapshot)"
    "ap_check P BeforeScan w = (Inr (), v)" "ap_emit P (progress_event_new PhScanning UnitFiles 0) v = (Inr (), w1)"
    "\<exists>st. publish_worktree blake3 cdc P request w1 = (Inr (scanned, st), w2)"
    "statistics_exact (manifests_of scanned) (pd_statistics p)" "unat (st_files_scanned (pd_statistics p)) = length scanned"
    "apply_mutations (delta_iter (pd_index_delta p)) (bt_get snapshot) = target_index request (bt_get snapshot) scanned"
    "unat (st_files_upserted (pd_statistics p)) + unat (st_paths_deleted (pd_statistics p)) = length (delta_iter (pd_index_delta p))"
    "unat (st_files_upserted (pd_statistics p)) = length (upserts (delta_iter (pd_index_delta p)))"
  using assms
proof (cases rule: prepare_add_cases)
  case (1 snapshot scanned st v w1 w2)
  note pok = publish_worktree_ok [OF 1(6)]
  have ok: "records_ok snapshot" using read_index_snapshot_ok(1) [OF 1(5)] .
  then have snap: "bt_ok snapshot" "\<forall>(p, r) \<in> set snapshot. fr_path r = p" by (auto simp: records_ok_def)
  have sok: "scanned_ok scanned" using pok by blast
  from 1(7) obtain parts st' where b: "build_candidate uni blake3 request snapshot scanned st = Inr (parts, st')"
    "delta_iter (pd_index_delta p) = cp_mutations parts" "pd_statistics p = st'" by (rule seal_candidate_cases)
  have "unat (st_files_upserted st') = length (upserts (cp_mutations parts))"
    "unat (st_files_upserted st') + unat (st_paths_deleted st') = length (cp_mutations parts)"
    and eq: "st' = st \<lparr> st_files_upserted := st_files_upserted st', st_paths_deleted := st_paths_deleted st' \<rparr>"
    by (rule build_candidate_result [OF snap sok b(1)], assumption)+
  moreover have "statistics_exact (manifests_of scanned) st'" "unat (st_files_scanned st') = length scanned"
    using pok by (subst eq, simp add: statistics_exact_def)+
  ultimately show ?thesis
    using that [OF 1(5,3,4)] 1(6) sealed_delta_exact(1) [OF ok sok 1(7)] b by auto
qed

text \<open>
  C36: The statistics of a prepared add are exact, and none of them wraps.  With the memory adapters:
  the files scanned are the files of the worktree in the requested scopes and the bytes scanned
  their content; the chunks observed are those of the records the index gets for these files, and each
  is counted as created or as reused; the store grew by exactly the objects counted as created and
  by exactly the bytes counted as published, which are no more than those scanned; upserts and
  deletions are those of the delta.
\<close>

theorem prepared_statistics_exact:
  assumes "objects_ok blake3 (w_objects w)" and "tree_closed (w_tree w)" and "cdc_splits cdc"
    and "prepare_add uni blake3 cdc (memory_add_ports uni blake3 index) request w = Some (Inr p, w')"
  shows "\<exists>snapshot. read_index_snapshot uni blake3 (pa_expected_index_version request) (memory_index_scan_files uni index None)
         = Some (Inr snapshot)
     \<and> (let st = pd_statistics p; files = scoped_files request (w_tree w);
           mutations = delta_iter (pd_index_delta p); idx = apply_mutations mutations (bt_get snapshot) in
         unat (st_files_scanned st) = length files
         \<and> unat (st_bytes_scanned st) = sum_list (map (\<lambda>(q, bytes). length bytes) files)
         \<and> (\<forall>(q, bytes) \<in> set files. idx q \<noteq> None)
         \<and> unat (st_chunks_observed st) = sum_list (map (\<lambda>(q, bytes). unat (fr_chunk_count (the (idx q)))) files)
         \<and> unat (st_objects_created st) + unat (st_objects_reused st) = unat (st_chunks_observed st)
         \<and> store_totals (w_objects w') = (fst (store_totals (w_objects w)) + unat (st_objects_created st),
                                    snd (store_totals (w_objects w)) + unat (st_bytes_published st))
         \<and> st_bytes_published st \<le> st_bytes_scanned st
         \<and> unat (st_files_upserted st) = length (upserts mutations)
         \<and> unat (st_files_upserted st) + unat (st_paths_deleted st) = length mutations)"
proof -
  let ?P = "memory_add_ports uni blake3 index" and ?files = "scoped_files request (w_tree w)"
  from assms(4) obtain snapshot scanned w1 w2 v where
    snap: "read_index_snapshot uni blake3 (pa_expected_index_version request) (memory_index_scan_files uni index None) = Some (Inr snapshot)"
    and start: "ap_check ?P BeforeScan w = (Inr (), v)" "ap_emit ?P (progress_event_new PhScanning UnitFiles 0) v = (Inr (), w1)"
    and pub: "\<exists>st. publish_worktree blake3 cdc ?P request w1 = (Inr (scanned, st), w2)"
    and st: "statistics_exact (manifests_of scanned) (pd_statistics p)" "unat (st_files_scanned (pd_statistics p)) = length scanned"
    and idx: "apply_mutations (delta_iter (pd_index_delta p)) (bt_get snapshot) = target_index request (bt_get snapshot) scanned"
    and ups: "unat (st_files_upserted (pd_statistics p)) + unat (st_paths_deleted (pd_statistics p)) = length (delta_iter (pd_index_delta p))"
      "unat (st_files_upserted (pd_statistics p)) = length (upserts (delta_iter (pd_index_delta p)))"
    by (rule prepared_statistics_related) simp
  from pub obtain st0 where pub: "publish_worktree blake3 cdc ?P request w1 = (Inr (scanned, st0), w2)" by blast
  have tree: "w_tree w1 = w_tree w" "w_objects w1 = w_objects w"
    using start by (auto simp: noop_emit_def on_armed_def split: prod.splits)
  note totals = scanned_totals [OF _ _ assms(3) pub, unfolded tree, OF assms(1,2)]
  have "store_totals (w_objects w') = (fst (store_totals (w_objects w)) + unat (st_objects_created (pd_statistics p)),
      snd (store_totals (w_objects w)) + unat (st_bytes_published (pd_statistics p)))"
    using memory_tally.prepare_add_in_step [OF assms(4)] by (simp add: in_step_def add_statistics_default_def prod_eq_iff)
  then show ?thesis
    using snap st ups totals by (auto simp: Let_def idx statistics_exact_def word_le_nat_alt)
qed

theorem prepared_statistics_exact_witness:
  "\<exists>p w'. prepare_add ascii_unicode sum_hash whole_cdc (memory_add_ports ascii_unicode sum_hash add_index) add_request add_world
       = Some (Inr p, w') \<and> unat (st_files_scanned (pd_statistics p)) = 1 \<and> unat (st_bytes_scanned (pd_statistics p)) = 2
       \<and> length (w_objects w') = unat (st_objects_created (pd_statistics p))"
proof -
  from add_sealed obtain p w' where run: "prepare_add ascii_unicode sum_hash whole_cdc
      (memory_add_ports ascii_unicode sum_hash add_index) add_request add_world = Some (Inr p, w')" by blast
  have "scoped_files add_request (w_tree add_world) = [(sample_path, sample_bytes)]"
    by (simp add: scoped_files_def add_worlds add_request_def in_scopes_def)
  with prepared_statistics_exact [OF add_world_ok whole_cdc_splits run] run show ?thesis
    by (auto simp: Let_def store_totals_def add_worlds sample_bytes_def)
qed

lemma memory_index_cursors:
  assumes "memory_index_scan_files uni s None req = Inr page" and "page_next page = Some nx"
  shows "cursor_str nx \<in> path_str ` fr_path ` set (bt_values (mi_files s))"
proof -
  have "\<exists>k. take (unat (pr_limit req)) (drop k (bt_values (mi_files s))) \<noteq> []
      \<and> cursor_str nx = path_str (fr_path (last (take (unat (pr_limit req)) (drop k (bt_values (mi_files s))))))"
    using assms
    by (auto simp: memory_index_scan_files_def page_by_logical_path_def Let_def page_cursor_new_def split: if_splits)
       (rule exI, rule conjI, assumption, rule refl)
  then show ?thesis by (metis image_eqI in_set_dropD in_set_takeD last_in_set)
qed

lemma prepare_add_index_returns:
  assumes "read_index_snapshot uni blake3 (ap_version P) (ap_scan_index P) = Some r"
  shows "\<exists>r w'. prepare_add uni blake3 cdc P request w = Some (r, w')"
proof -
  let ?start = "io_then (io_of (prepare_add_request_validate request)) (\<lambda>_.
      io_then (io_of (ensure (ap_version P = pa_expected_index_version request) EcIndexVersionMismatch)) (\<lambda>_.
      io_then (ap_check P BeforeScan) (\<lambda>_. ap_emit P (progress_event_new PhScanning UnitFiles 0))))"
  obtain s w1 where st: "?start w = (s, w1)" by (cases "?start w")
  show ?thesis unfolding prepare_add_def st assms by (cases s; cases r) auto
qed

text \<open>
  C38: \<open>prepare_add\<close> returns as soon as the index reader uses finitely many cursors: the loop
  over the pages refuses a cursor it has seen before, so that it cannot follow a cycle of cursors
  for ever, whatever its length.  Every index held in memory is such a reader.
\<close>

theorem prepare_add_returns:
  "(finite C \<and> (\<forall>req page nx. ap_scan_index P req = Inr page \<and> page_next page = Some nx \<longrightarrow> cursor_str nx \<in> C) \<longrightarrow>
      (\<exists>r w'. prepare_add uni blake3 cdc P request w = Some (r, w')))
   \<and> (\<exists>r v'. prepare_add uni blake3 cdc (memory_add_ports uni blake3 index) request v = Some (r, v'))"
proof (intro conjI impI)
  assume "finite C \<and> (\<forall>req page nx. ap_scan_index P req = Inr page \<and> page_next page = Some nx \<longrightarrow> cursor_str nx \<in> C)"
  then have "\<exists>r. read_index_snapshot uni blake3 (ap_version P) (ap_scan_index P) = Some r"
    by (intro read_index_snapshot_returns [of C]) blast+
  then show "\<exists>r w'. prepare_add uni blake3 cdc P request w = Some (r, w')" by (elim exE) (rule prepare_add_index_returns)
next
  have "\<exists>r. read_index_snapshot uni blake3 (mi_version index) (memory_index_scan_files uni index None) = Some r"
    by (rule read_index_snapshot_returns [OF _ memory_index_cursors]) simp_all
  then show "\<exists>r v'. prepare_add uni blake3 cdc (memory_add_ports uni blake3 index) request v = Some (r, v')"
    using prepare_add_index_returns [of uni blake3 "memory_add_ports uni blake3 index"] by auto
qed

theorem prepare_add_returns_witness:
  "\<exists>r w'. prepare_add ascii_unicode sum_hash whole_cdc (memory_add_ports ascii_unicode sum_hash add_index) add_request add_world = Some (r, w')"
proof -
  have "\<forall>req page nx. ap_scan_index (memory_add_ports ascii_unicode sum_hash add_index) req = Inr page \<and> page_next page = Some nx
      \<longrightarrow> cursor_str nx \<in> path_str ` fr_path ` set (bt_values (mi_files add_index))"
    using memory_index_cursors by auto
  then show ?thesis
    using prepare_add_returns [of "path_str ` fr_path ` set (bt_values (mi_files add_index))"
        "memory_add_ports ascii_unicode sum_hash add_index" ascii_unicode sum_hash whole_cdc add_request add_world] by blast
qed

text \<open>Scanning the memory worktree changes nothing, and what it observes is there.\<close>

lemma io_fold_same: "(\<And>s x w. snd (f s x w) = w) \<Longrightarrow> snd (io_fold f s xs w) = w"
proof (induction xs arbitrary: s w)
  case (Cons x xs)
  obtain r v where r: "f s x w = (r, v)" by (cases "f s x w")
  then have "v = w" using Cons.prems [of s x w] by simp
  with r Cons show ?case by (auto simp: io_then_def split: sum.splits)
qed simp

lemma memory_visit_same: "snd (visit_file (memory_add_ports uni blake3 index) scope files e w) = w"
  by (auto simp: visit_file_def io_then_def noop_emit_def Let_def split: option.splits sum.splits)

lemma memory_scan_scope_same: "snd (scan_scope (memory_add_ports uni blake3 index) request files scope w) = w"
proof -
  have "snd (visit_entries (visit_file (memory_add_ports uni blake3 index) scope) files entries w) = w" for scope files entries w
    unfolding visit_entries_def
    by (rule io_fold_same) (auto simp: io_then_def memory_visit_same split: sum.splits)
  then show ?thesis
    by (auto simp: scan_scope_def io_then_def split: path_scope.splits sum.splits option.splits)
qed

lemma memory_scan_same: "snd (scan_worktree (memory_add_ports uni blake3 index) request w) = w"
  unfolding scan_worktree_def by (rule io_fold_same) (rule memory_scan_scope_same)

definition observed_in :: "(byte list \<Rightarrow> content_digest) \<Rightarrow> memory_worktree \<Rightarrow> observed_files \<Rightarrow> bool" where
  "observed_in blake3 t files \<longleftrightarrow> (\<forall>(p, e) \<in> set files. \<exists>bytes. (p, bytes) \<in> set (mw_files t) \<and> memory_file_entry blake3 p bytes = Inr e)"

lemma memory_visit_observed:
  assumes "visit_file (memory_add_ports uni blake3 index) scope files e w = (Inr files', w')"
    and "observed_in blake3 t files" and "(we_path e, bytes) \<in> set (mw_files t)" "memory_file_entry blake3 (we_path e) bytes = Inr e"
  shows "observed_in blake3 t files'"
  using visit_file_result [OF assms(1)] assms(2-4) set_bt_insert_subset [of "we_path e" e files]
  by (auto simp: observed_in_def)

lemma memory_scan_observed:
  assumes "scan_worktree (memory_add_ports uni blake3 index) request w = (Inr files, w')"
  shows "observed_in blake3 (w_tree w) files"
proof -
  let ?P = "memory_add_ports uni blake3 index"
  have entries: "observed_in blake3 (w_tree w) files'"
    if "visit_entries (visit_file ?P scope) files (memory_scan_worktree blake3 (w_tree w) [scope]) w = (Inr files', v)"
      "observed_in blake3 (w_tree w) files" for scope files files' v
    using that(1) unfolding visit_entries_def
  proof (rule io_fold_prefix_induct [where I = "\<lambda>_ files _. observed_in blake3 (w_tree w) files"])
    show "observed_in blake3 (w_tree w) files" by (rule that(2))
    fix ys y t t' v v'
    assume I: "observed_in blake3 (w_tree w) t" and pre: "prefix (ys @ [y]) (memory_scan_worktree blake3 (w_tree w) [scope])"
      and run: "io_then (io_of y) (visit_file ?P scope t) v = (Inr t', v')"
    from run obtain e where e: "y = Inr e" "visit_file ?P scope t e v = (Inr t', v')" by (auto simp: io_then_ok_iff)
    have "Inr e \<in> set (memory_scan_worktree blake3 (w_tree w) [scope])" using set_mono_prefix [OF pre] e(1) by auto
    then obtain p bytes where b: "(p, bytes) \<in> set (mw_files (w_tree w))" "memory_file_entry blake3 p bytes = Inr e"
      by (fastforce simp: memory_scan_worktree_def)
    with memory_file_entry_ok [OF b(2)] memory_visit_observed [OF e(2) I] show "observed_in blake3 (w_tree w) t'" by simp
  qed
  have "observed_in blake3 (w_tree w) files \<and> w' = w"
    using assms unfolding scan_worktree_def
  proof (rule io_fold_prefix_induct [where I = "\<lambda>_ files v. observed_in blake3 (w_tree w) files \<and> v = w"])
    show "observed_in blake3 (w_tree w) [] \<and> w = w" by (simp add: observed_in_def)
    fix ys y t t' v v'
    assume I: "observed_in blake3 (w_tree w) t \<and> v = w" and run: "scan_scope ?P request t y v = (Inr t', v')"
    have "v' = v" using memory_scan_scope_same [of uni blake3 index request t y v] run by simp
    with run I entries [of y t t'] show "observed_in blake3 (w_tree w) t' \<and> v' = w"
      by (auto elim!: scan_scope_cases)
  qed
  then show ?thesis by blast
qed

lemma limit_exceeded:
  assumes "observed_in blake3 t observed" and "bt_ok (mw_files t)" and "bt_get observed q = Some e" and "bt_ok observed"
    and "bt_get (mw_files t) q = Some bytes" and "unat limit < length bytes" and "pa_max_whole_file_bytes request = Some limit"
  shows "validate_whole_file_size_limit request observed \<noteq> Inr ()"
proof
  assume "validate_whole_file_size_limit request observed = Inr ()"
  then have all: "\<forall>(path, entry) \<in> set observed.
      and_then (entry_size entry) (\<lambda>sz. if sz > limit then Inl EcInvalidArgument else Inr ()) = Inr ()"
    using assms(7) unfolding validate_whole_file_size_limit_def by (simp add: try_fold_unit split_def)
  have m: "(q, e) \<in> set observed" using assms(3,4) by (simp add: bt_get_iff)
  with all have "and_then (entry_size e) (\<lambda>sz. if sz > limit then Inl EcInvalidArgument else Inr ()) = Inr ()"
    by blast
  then obtain sz where sz: "entry_size e = Inr sz" "\<not> sz > limit" by (auto split: if_splits)
  from m assms(1) obtain b where b: "(q, b) \<in> set (mw_files t)" "memory_file_entry blake3 q b = Inr e"
    by (auto simp: observed_in_def)
  then have "b = bytes" using assms(2,5) by (simp add: bt_get_iff [symmetric])
  then have "unat sz = length bytes" using memory_file_entry_ok [OF b(2)] sz(1) by (auto simp: entry_size_def)
  then show False using sz(2) assms(6) by (simp add: word_less_nat_alt)
qed

lemma memory_publish_refused:
  assumes ok: "av_ok (memory_add_view blake3) w" and limit: "pa_max_whole_file_bytes request = Some limit"
    and q: "in_scopes request q" "bt_get (mw_files (w_tree w)) q = Some bytes" "unat limit < length bytes"
    and run: "publish_worktree blake3 cdc (memory_add_ports uni blake3 index) request w = (r, w')"
  shows "(\<exists>e. r = Inl e) \<and> w_objects w' = w_objects w \<and> w_tree w' = w_tree w"
proof -
  let ?P = "memory_add_ports uni blake3 index"
  obtain s v where sc: "scan_worktree ?P request w = (s, v)" by (cases "scan_worktree ?P request w")
  have v: "v = w" using memory_scan_same [of uni blake3 index request w] sc by simp
  show ?thesis
  proof (cases s)
    case (Inl e)
    then show ?thesis using run sc v by (auto simp: publish_worktree_def io_then_def)
  next
    case (Inr observed)
    have run1: "scan_worktree ?P request w = (Inr observed, w)" using sc v Inr by simp
    have bt: "bt_ok observed" using scan_worktree_ok [OF run1] by (simp add: observed_ok_def)
    obtain e where e: "bt_get observed q = Some e"
      using memory_add.scan_worktree_complete [OF ok run1] q(1,2) by auto
    have "bt_ok (mw_files (w_tree w))" using ok by (simp add: tree_closed_def)
    from limit_exceeded [OF memory_scan_observed [OF run1] this e bt q(2,3) limit]
    obtain e' where "validate_whole_file_size_limit request observed = Inl e'"
      by (cases "validate_whole_file_size_limit request observed") auto
    then show ?thesis
      using run run1 by (auto simp: publish_worktree_def io_then_def on_armed_def split: prod.splits sum.splits)
  qed
qed

text \<open>
  C37: What \<open>prepare_add\<close> refuses leaves no trace.  An invalid request and an index of another
  version are refused before any port is used.  With the memory adapters, a file in scope that
  exceeds the size limit of the request makes it fail with the objects and the worktree unchanged,
  whatever else is in scope.
\<close>

theorem prepare_add_refuses:
  "(prepare_add_request_validate request = Inl e \<longrightarrow> prepare_add uni blake3 cdc P request w = Some (Inl e, w))
   \<and> (prepare_add_request_validate request = Inr () \<and> ap_version P \<noteq> pa_expected_index_version request \<longrightarrow>
        prepare_add uni blake3 cdc P request w = Some (Inl EcIndexVersionMismatch, w))
   \<and> (objects_ok blake3 (w_objects v) \<and> tree_closed (w_tree v) \<and> pa_max_whole_file_bytes request = Some limit
        \<and> in_scopes request q \<and> bt_get (mw_files (w_tree v)) q = Some bytes \<and> unat limit < length bytes \<longrightarrow>
        (\<exists>e v'. prepare_add uni blake3 cdc (memory_add_ports uni blake3 index) request v = Some (Inl e, v')
           \<and> w_objects v' = w_objects v \<and> w_tree v' = w_tree v))"
proof (intro conjI impI)
  show "prepare_add uni blake3 cdc P request w = Some (Inl e, w)" if "prepare_add_request_validate request = Inl e"
    using that by (simp add: prepare_add_def io_then_def)
  show "prepare_add uni blake3 cdc P request w = Some (Inl EcIndexVersionMismatch, w)"
    if "prepare_add_request_validate request = Inr () \<and> ap_version P \<noteq> pa_expected_index_version request"
    using that by (simp add: prepare_add_def io_then_def ensure_def)
  let ?P = "memory_add_ports uni blake3 index"
  assume a: "objects_ok blake3 (w_objects v) \<and> tree_closed (w_tree v) \<and> pa_max_whole_file_bytes request = Some limit
    \<and> in_scopes request q \<and> bt_get (mw_files (w_tree v)) q = Some bytes \<and> unat limit < length bytes"
  obtain r where r: "read_index_snapshot uni blake3 (ap_version ?P) (ap_scan_index ?P) = Some r"
    using read_index_snapshot_returns [OF _ memory_index_cursors] by fastforce
  let ?start = "io_then (io_of (prepare_add_request_validate request)) (\<lambda>_.
      io_then (io_of (ensure (ap_version ?P = pa_expected_index_version request) EcIndexVersionMismatch)) (\<lambda>_.
      io_then (ap_check ?P BeforeScan) (\<lambda>_. ap_emit ?P (progress_event_new PhScanning UnitFiles 0))))"
  obtain s v1 where st: "?start v = (s, v1)" by (cases "?start v")
  then have v1: "w_objects v1 = w_objects v" "w_tree v1 = w_tree v"
    by (auto simp: io_then_def on_armed_def noop_emit_def split: prod.splits sum.splits)
  obtain t v2 where p: "publish_worktree blake3 cdc ?P request v1 = (t, v2)" by (cases "publish_worktree blake3 cdc ?P request v1")
  have "(\<exists>e. t = Inl e) \<and> w_objects v2 = w_objects v1 \<and> w_tree v2 = w_tree v1"
    using a v1 by (intro memory_publish_refused [OF _ _ _ _ _ p]) auto
  then show "\<exists>e v'. prepare_add uni blake3 cdc ?P request v = Some (Inl e, v')
      \<and> w_objects v' = w_objects v \<and> w_tree v' = w_tree v"
    unfolding prepare_add_def st r using v1 by (cases s; cases r) (auto simp: io_then_def p)
qed

theorem prepare_add_refuses_witness:
  "\<exists>e v'. prepare_add ascii_unicode sum_hash whole_cdc (memory_add_ports ascii_unicode sum_hash add_index)
       (add_request \<lparr> pa_max_whole_file_bytes := Some 1 \<rparr>) add_world = Some (Inl e, v') \<and> w_objects v' = []"
proof -
  let ?request = "add_request \<lparr> pa_max_whole_file_bytes := Some 1 \<rparr>"
  have "objects_ok sum_hash (w_objects add_world) \<and> tree_closed (w_tree add_world) \<and> pa_max_whole_file_bytes ?request = Some 1
    \<and> in_scopes ?request sample_path \<and> bt_get (mw_files (w_tree add_world)) sample_path = Some sample_bytes
    \<and> unat (1 :: u64) < length sample_bytes"
    using add_world_ok by (simp add: in_scopes_def add_request_def add_worlds bt_get_def sample_bytes_def)
  from prepare_add_refuses [THEN conjunct2, THEN conjunct2, THEN mp, OF this, of ascii_unicode whole_cdc add_index]
  show ?thesis unfolding add_worlds by blast
qed

text \<open>The worktrees that the memory adapter can reach.\<close>

inductive worktree_reachable :: "memory_worktree \<Rightarrow> bool" where
  empty_tree: "worktree_reachable \<lparr> mw_files = [], mw_directories = [] \<rparr>"
| inserted: "worktree_reachable t \<Longrightarrow> worktree_reachable (memory_insert_file t path bytes)"
| directory: "worktree_reachable t \<Longrightarrow> worktree_reachable (snd (memory_create_dir_all path t))"
| written: "worktree_reachable t \<Longrightarrow> worktree_reachable (snd (memory_write_file_atomic path sz source t))"
| removed: "worktree_reachable t \<Longrightarrow> worktree_reachable (snd (memory_remove_file path t))"
| renamed: "worktree_reachable t \<Longrightarrow> worktree_reachable (snd (memory_rename_no_replace path destination t))"

lemma parent_ancestors:
  "is_ancestor_of a p \<longleftrightarrow> (\<exists>q. path_parent p = Some q \<and> (a = q \<or> is_ancestor_of a q))"
proof
  assume a: "is_ancestor_of a p"
  then obtain cs where cs: "path_components p = path_components a @ cs" "cs \<noteq> []"
    by (auto simp: is_ancestor_of_components strict_prefix_def elim!: prefixE)
  show "\<exists>q. path_parent p = Some q \<and> (a = q \<or> is_ancestor_of a q)"
  proof (cases "path_parent p")
    case None
    then show ?thesis using a by (auto simp: path_parent_def rsplit_once_def is_ancestor_of_str split: if_splits)
  next
    case (Some q)
    then have "path_components q @ [path_file_name p] = path_components a @ cs" using cs by (simp add: path_components_parent)
    then have "prefix (path_components a) (path_components q)" using cs(2) by (cases cs rule: rev_cases) auto
    then show ?thesis
      using Some path_components_inj [of a q] by (auto simp: is_ancestor_of_components strict_prefix_def)
  qed
next
  show "\<exists>q. path_parent p = Some q \<and> (a = q \<or> is_ancestor_of a q) \<Longrightarrow> is_ancestor_of a p"
    by (auto simp: path_components_parent is_ancestor_of_components strict_prefix_def)
qed

lemma add_parent_directories_set: "set (add_parent_directories ds p) = set ds \<union> {a. is_ancestor_of a p}"
proof (induction ds p rule: add_parent_directories.induct)
  case (1 ds p)
  then show ?case
    by (subst add_parent_directories.simps) (auto simp: parent_ancestors [of _ p] split: option.splits)
qed

lemma tree_closed_insert: "tree_closed t \<Longrightarrow> tree_closed (memory_insert_file t path bytes)"
  using set_bt_insert_subset [of path bytes "mw_files t"]
  by (fastforce simp: tree_closed_def memory_insert_file_def add_parent_directories_set)

lemma tree_closed_remove: "tree_closed t \<Longrightarrow> tree_closed (t \<lparr> mw_files := bt_remove path (mw_files t) \<rparr>)"
  unfolding tree_closed_def by (auto simp: bt_remove_def image_iff intro: bt_ok_remove [unfolded bt_remove_def])

text \<open>
  C39: In every worktree the memory adapter can reach, by successful and by failed operations, the
  recorded directories contain all ancestors of the files, so that \<open>inspect\<close> finds a path under
  which there are files.
\<close>

theorem worktree_directories_closed:
  assumes "worktree_reachable t"
  shows "tree_closed t \<and> (bt_get (mw_files t) q \<noteq> None \<and> scope_contains (ScopePath p) q \<longrightarrow> memory_inspect blake3 t p \<noteq> Inr None)"
proof -
  from assms have "tree_closed t"
  proof induction
    case empty_tree
    show ?case by (simp add: tree_closed_def)
  next
    case directory
    then show ?case by (auto simp: memory_create_dir_all_def tree_closed_def add_parent_directories_set)
  next
    case written
    then show ?case by (auto simp: memory_write_file_atomic_def tree_closed_insert split: sum.splits)
  next
    case renamed
    then show ?case
      by (auto simp: memory_rename_no_replace_def tree_closed_insert tree_closed_remove split: option.splits)
  qed (simp_all add: tree_closed_insert tree_closed_remove memory_remove_file_def)
  then show ?thesis using memory_inspect_absent [of t blake3 p q] by auto
qed

theorem worktree_directories_closed_witness:
  "tree_closed (snd (memory_rename_no_replace sample_path (LogicalPath ''d/b'')
     (memory_insert_file \<lparr> mw_files = [], mw_directories = [] \<rparr> sample_path [7])))"
  using worktree_directories_closed [OF renamed [OF inserted [OF empty_tree]]] by blast

text \<open>A manifest that describes some content.\<close>

definition manifest_for :: "(byte list \<Rightarrow> content_digest) \<Rightarrow> byte list \<Rightarrow> manifest \<Rightarrow> bool" where
  "manifest_for blake3 bytes m \<longleftrightarrow> (\<exists>parts.
     list_all2 (\<lambda>c p. object_id_for_bytes blake3 p = cr_object_id c \<and> length p = unat (cr_size c)) (m_chunks m) parts
     \<and> bytes = concat parts \<and> length bytes = unat (m_total_size m))"

lemma content_of_manifest: "content_of blake3 mid bytes \<longleftrightarrow> (\<exists>m. manifest_id blake3 m = Inr mid \<and> manifest_for blake3 bytes m)"
  unfolding content_of_def manifest_for_def by blast

lemma upsert_applied:
  "distinct (map mutation_path ms) \<Longrightarrow> Upsert r \<in> set ms \<Longrightarrow> apply_mutations ms idx (fr_path r) = Some r"
proof (induction ms arbitrary: idx)
  case (Cons m ms)
  have other: "fr_path r \<notin> mutation_path ` set ms \<Longrightarrow> apply_mutations ms idx (fr_path r) = idx (fr_path r)" for idx
  proof (induction ms arbitrary: idx)
    case (Cons a ms)
    then show ?case by (cases a) (auto simp: apply_mutations_def)
  qed (simp add: apply_mutations_def)
  show ?case
  proof (cases "m = Upsert r")
    case True
    then show ?thesis using Cons.prems other [of "idx(fr_path r \<mapsto> r)"] by (simp add: apply_mutations_def)
  next
    case False
    then show ?thesis using Cons by (auto simp: apply_mutations_def)
  qed
qed simp

lemma held_content:
  assumes m: "manifest_for blake3 bytes m" and held: "\<forall>c \<in> set (m_chunks m). is_ok (memory_copy_to blake3 s (chunk_object_spec c))"
  shows "manifest_read_to_end (memory_copy_to blake3 s) n [] (manifest_object_reader_new (m_chunks m)) = Inr bytes
    \<or> (\<exists>x \<in> snd ` set s. \<exists>y. sublist y bytes \<and> collision blake3 x y)"
proof (cases "\<exists>x \<in> snd ` set s. \<exists>y. sublist y bytes \<and> collision blake3 x y")
  case False
  from m obtain parts where parts: "list_all2 (\<lambda>c p. object_id_for_bytes blake3 p = cr_object_id c \<and> length p = unat (cr_size c)) (m_chunks m) parts"
    and bytes: "bytes = concat parts" unfolding manifest_for_def by blast
  have "memory_copy_to blake3 s \<lparr> os_id = cr_object_id c, os_size = cr_size c \<rparr> = Inr q"
    if c: "c \<in> set (m_chunks m)" and q: "q \<in> set parts" "object_id_for_bytes blake3 q = cr_object_id c" for c q
  proof -
    from held c obtain x where x: "memory_copy_to blake3 s (chunk_object_spec c) = Inr x" by (auto simp: is_ok_iff)
    then have "x \<in> snd ` set s" "object_id_for_bytes blake3 x = cr_object_id c"
      by (force simp: memory_copy_to_iff chunk_object_spec_def bt_get_def dest: map_of_SomeD)+
    moreover have "sublist q bytes" using q(1) bytes by (fastforce simp: sublist_def dest!: split_list)
    moreover have "blake3 x = blake3 q" using calculation(2) q(2) by (metis object_id.inject object_id_for_bytes_def)
    ultimately have "x = q" using False by (auto simp: collision_def)
    then show ?thesis using x by (simp add: chunk_object_spec_def)
  qed
  with parts have "list_all2 (\<lambda>c p. memory_copy_to blake3 s \<lparr> os_id = cr_object_id c, os_size = cr_size c \<rparr> = Inr p) (m_chunks m) parts"
    by (auto simp: list_all2_conv_all_nth)
  then show ?thesis by (auto simp: manifest_source_eq fetch_objects_ok bytes)
qed simp

lemma prepare_add_sealed:
  assumes "prepare_add uni blake3 cdc P request w = Some (Inr p, w')"
    and "read_index_snapshot uni blake3 (pa_expected_index_version request) (ap_scan_index P) = Some (Inr snapshot)"
  shows "\<forall>m \<in> set (delta_iter (pd_index_delta p)). apply_mutation m (bt_get snapshot) \<noteq> bt_get snapshot"
    and "prepared_validate_for uni blake3 p request = Inr ()"
proof -
  from assms(1) obtain scanned st w1 w2 where
    s: "publish_worktree blake3 cdc P request w1 = (Inr (scanned, st), w2)"
    "seal_candidate uni blake3 P request snapshot scanned st w2 = (Inr p, w')"
    by (rule prepare_add_cases) (auto simp: assms(2))
  have "scanned_ok scanned" using publish_worktree_ok [OF s(1)] by blast
  from sealed_delta_exact(2) [OF read_index_snapshot_ok(1) [OF assms(2)] this s(2)]
  show "\<forall>m \<in> set (delta_iter (pd_index_delta p)). apply_mutation m (bt_get snapshot) \<noteq> bt_get snapshot" .
  from s(2) show "prepared_validate_for uni blake3 p request = Inr ()" by (rule seal_candidate_cases)
qed

text \<open>
  C5: What was added can be read back.  After a successful \<open>prepare_add\<close> with the memory adapters,
  every record it upserts has a manifest in the candidate, and reading that manifest's objects
  through \<open>ManifestObjectReader\<close> gives the content the file has in the worktree, unless an object of
  the store collides with a piece of that content, or two manifests' encodings collide.
\<close>

theorem added_file_reads_back:
  assumes "objects_ok blake3 (w_objects w)" and "tree_closed (w_tree w)" and "cdc_splits cdc"
    and "prepare_add uni blake3 cdc (memory_add_ports uni blake3 index) request w = Some (Inr p, w')"
    and "Upsert r \<in> set (delta_iter (pd_index_delta p))"
  shows "\<exists>bytes m. bt_get (mw_files (w_tree w)) (fr_path r) = Some bytes
     \<and> m \<in> set (pd_manifests p) \<and> manifest_id blake3 m = Inr (fr_manifest_id r)
     \<and> (manifest_read_to_end (memory_copy_to blake3 (w_objects w')) n [] (manifest_object_reader_new (m_chunks m)) = Inr bytes
        \<or> (\<exists>x \<in> snd ` set (w_objects w'). \<exists>y. sublist y bytes \<and> collision blake3 x y)
        \<or> (\<exists>m'. manifest_for blake3 bytes m' \<and> collision blake3 (manifest_encoding m) (manifest_encoding m')))"
proof -
  have ok: "av_ok (memory_add_view blake3) w" using assms(1,2) by simp
  obtain snapshot where
    snap: "read_index_snapshot uni blake3 (pa_expected_index_version request) (ap_scan_index (memory_add_ports uni blake3 index)) = Some (Inr snapshot)"
    and cap: "captures blake3 request (bt_get (mw_files (w_tree w))) (bt_get snapshot) (apply_mutations (delta_iter (pd_index_delta p)) (bt_get snapshot))"
    and held: "\<forall>s \<in> set (pd_object_specs p). is_ok (memory_copy_to blake3 (w_objects w') s)"
    by (rule memory_add.prepare_add_captured [OF ok assms(3,4)]) (auto simp: fun_eq_iff)
  note sealed = prepare_add_sealed [OF assms(4) snap]
  from sealed(2) have closed: "publication_closed uni blake3 (resource_scope (pd_resource p)) (pd_base_index_version p) (pd_index_delta p)
      (pd_manifests p) (pd_object_specs p)"
    by (simp add: prepared_validate_for_def prepared_validate_iff prepared_content_iff)
  then have "sorted_wrt (<) (map mutation_path (delta_iter (pd_index_delta p)))"
    by (simp add: publication_closed_def delta_validate_iff mutations_ok_def)
  then have "apply_mutations (delta_iter (pd_index_delta p)) (bt_get snapshot) (fr_path r) = Some r"
    by (intro upsert_applied [OF _ assms(5)]) (simp add: strict_sorted_iff)
  moreover have "bt_get snapshot (fr_path r) \<noteq> Some r" using sealed(1) assms(5) by (auto simp: fun_upd_idem_iff)
  ultimately obtain bytes where b: "bt_get (mw_files (w_tree w)) (fr_path r) = Some bytes" "content_of blake3 (fr_manifest_id r) bytes"
    using cap [unfolded captures_def, rule_format, of "fr_path r"] by (auto split: option.splits if_splits)
  then obtain m' where m': "manifest_id blake3 m' = Inr (fr_manifest_id r)" "manifest_for blake3 bytes m'"
    by (auto simp: content_of_manifest)
  have "r \<in> set (upserts (delta_iter (pd_index_delta p)))" using assms(5) by (force simp: upserts_def)
  with closed obtain m where m: "m \<in> set (pd_manifests p)" "manifest_id blake3 m = Inr (fr_manifest_id r)"
    by (auto simp: publication_closed_def manifests_collect_def manifest_id_eq id_of_manifest_def)
  have chunks: "\<forall>c \<in> set (m_chunks m). is_ok (memory_copy_to blake3 (w_objects w') (chunk_object_spec c))"
  proof
    fix c
    assume "c \<in> set (m_chunks m)"
    then have "chunk_pair c \<in> spec_pair ` set (pd_object_specs p)" using closed m(1) by (auto simp: publication_closed_def all_chunks_def)
    then obtain s where "s \<in> set (pd_object_specs p)" "chunk_object_spec c = s"
      by (auto simp: chunk_object_spec_def spec_pair_def chunk_pair_def)
    then show "is_ok (memory_copy_to blake3 (w_objects w') (chunk_object_spec c))" using held by blast
  qed
  have "blake3 (manifest_encoding m) = blake3 (manifest_encoding m')" using m(2) m'(1)
    by (auto simp: manifest_id_eq split: if_splits) (metis manifest_id.inject)
  then have "m = m' \<or> collision blake3 (manifest_encoding m) (manifest_encoding m')"
    by (rule manifest_code.same_identity [OF TrueI TrueI])
  then show ?thesis using b(1) m m'(2) held_content [OF _ chunks, of bytes n] by blast
qed

theorem added_file_reads_back_witness:
  "\<exists>p w'. prepare_add ascii_unicode sum_hash whole_cdc (memory_add_ports ascii_unicode sum_hash add_index) add_request add_world
       = Some (Inr p, w') \<and> (\<exists>m \<in> set (pd_manifests p). manifest_id sum_hash m = Inr (fr_manifest_id add_record))"
proof -
  from add_sealed obtain p w' where run: "prepare_add ascii_unicode sum_hash whole_cdc
      (memory_add_ports ascii_unicode sum_hash add_index) add_request add_world = Some (Inr p, w')"
    "delta_iter (pd_index_delta p) = [Upsert add_record, Delete (LogicalPath ''b'')]" by blast
  from added_file_reads_back [OF add_world_ok whole_cdc_splits run(1), of add_record] run show ?thesis by auto
qed

end
