(* ===== verification/Wire.thy ===== *)
theory Wire
  imports PreparedAdd Paging
begin

text \<open>
  The wire protocol between the control plane and its agents (\<open>protocol/\<close> of the domain crate), as far
  as the managed add uses it: identifiers and scalars, the bounded-text and extension checks, the
  task fence, and the message types of \<open>control.rs\<close> and \<open>metadata.rs\<close>.

  Serialised forms are produced by the \<open>serde\<close> derives and by \<open>serde_json_canonicalizer\<close>.  The canonical
  JSON form of a value is a parameter \<open>jcs\<close> of the definitions that hash it; the values it is applied
  to are the type \<open>canonical_input\<close>.
\<close>

section \<open>Errors\<close>

text \<open>Categories only; the text of a diagnostic is not part of the model.\<close>

datatype protocol_error =
    PeInvalidIdentifier | PeInvalidDecimal | PeUnsupportedProtocolVersion | PeUnsupportedMessageType
  | PeLimitExceeded | PeInvalidField | PeSerialization | PeInvalidDigest

type_synonym 'a protocol_result = "protocol_error + 'a"

primrec protocol_stable_code :: "protocol_error \<Rightarrow> string" where
  "protocol_stable_code PeUnsupportedProtocolVersion = ''PROTOCOL_UNSUPPORTED''"
| "protocol_stable_code PeUnsupportedMessageType = ''PROTOCOL_UNSUPPORTED''"
| "protocol_stable_code PeLimitExceeded = ''PROTOCOL_LIMIT_EXCEEDED''"
| "protocol_stable_code PeInvalidDigest = ''PROTOCOL_DIGEST_MISMATCH''"
| "protocol_stable_code PeInvalidIdentifier = ''PROTOCOL_INVALID''"
| "protocol_stable_code PeInvalidDecimal = ''PROTOCOL_INVALID''"
| "protocol_stable_code PeInvalidField = ''PROTOCOL_INVALID''"
| "protocol_stable_code PeSerialization = ''PROTOCOL_INVALID''"

section \<open>Identifiers and scalars\<close>

definition ascii_upper :: "char \<Rightarrow> bool" where
  "ascii_upper c \<longleftrightarrow> CHR ''A'' \<le> c \<and> c \<le> CHR ''Z''"

definition ascii_digit :: "char \<Rightarrow> bool" where
  "ascii_digit c \<longleftrightarrow> CHR ''0'' \<le> c \<and> c \<le> CHR ''9''"

definition ascii_alphanumeric :: "char \<Rightarrow> bool" where
  "ascii_alphanumeric c \<longleftrightarrow> ascii_upper c \<or> (CHR ''a'' \<le> c \<and> c \<le> CHR ''z'') \<or> ascii_digit c"

definition MAX_RESOURCE_ID_BYTES :: nat where
  "MAX_RESOURCE_ID_BYTES = 128"

definition validate_resource_id :: "string \<Rightarrow> unit protocol_result" where
  "validate_resource_id s =
     (let valid_length = s \<noteq> [] \<and> length s \<le> MAX_RESOURCE_ID_BYTES;
          valid_first = (case s of [] \<Rightarrow> False | c # _ \<Rightarrow> ascii_alphanumeric c);
          valid_rest = list_all (\<lambda>c. ascii_alphanumeric c \<or> c \<in> set ''._:-'') (tl s) in
      if valid_length \<and> valid_first \<and> valid_rest then Inr () else Inl PeInvalidIdentifier)"

text \<open>The identifier types that the macro \<open>resource_id!\<close> generates differ in their names only.\<close>

datatype resource_id = ResourceId string

primrec id_str :: "resource_id \<Rightarrow> string" where
  "id_str (ResourceId s) = s"

definition resource_id_new :: "string \<Rightarrow> resource_id protocol_result" where
  "resource_id_new s = and_then (validate_resource_id s) (\<lambda>_. Inr (ResourceId s))"

instantiation resource_id :: linorder
begin

definition less_eq_resource_id :: "resource_id \<Rightarrow> resource_id \<Rightarrow> bool" where
  "less_eq_resource_id a b \<longleftrightarrow> id_str a \<le> id_str b"

definition less_resource_id :: "resource_id \<Rightarrow> resource_id \<Rightarrow> bool" where
  "less_resource_id a b \<longleftrightarrow> id_str a < id_str b"

instance
proof
  fix x y z :: resource_id
  show "(x < y) = (x \<le> y \<and> \<not> y \<le> x)" by (auto simp: less_eq_resource_id_def less_resource_id_def)
  show "x \<le> x" by (simp add: less_eq_resource_id_def)
  show "x \<le> y \<Longrightarrow> y \<le> z \<Longrightarrow> x \<le> z" by (auto simp: less_eq_resource_id_def)
  show "x \<le> y \<Longrightarrow> y \<le> x \<Longrightarrow> x = y" by (cases x; cases y) (auto simp: less_eq_resource_id_def)
  show "x \<le> y \<or> y \<le> x" by (auto simp: less_eq_resource_id_def)
qed

end

text \<open>
  Decimal scalars (\<open>DecimalU64\<close>, the generations, \<open>UnixMillis\<close> and so on) are \<open>u64\<close> values; \<open>str::parse\<close>
  accepts an optional plus sign, which the guard rules out.
\<close>

definition parse_decimal_u64 :: "bool \<Rightarrow> string \<Rightarrow> u64 protocol_result" where
  "parse_decimal_u64 allow_zero s =
     (if s = ''0'' \<or> (\<not> prefix ''0'' s \<and> list_all ascii_digit s)
      then and_then (ok_or PeInvalidDecimal (parse_u64 s)) (\<lambda>parsed.
        if parsed = 0 \<and> \<not> allow_zero then Inl PeInvalidDecimal else Inr parsed)
      else Inl PeInvalidDecimal)"

section \<open>Shared checks\<close>

datatype json = JsonNull | JsonBool bool | JsonNumber string | JsonString string
  | JsonArray "json list" | JsonObject "(string \<times> json) list"

type_synonym extensions = "(string, json) btree_map"

definition validate_collection_limit :: "nat \<Rightarrow> nat \<Rightarrow> unit protocol_result" where
  "validate_collection_limit actual limit = (if actual > limit then Inl PeLimitExceeded else Inr ())"

definition validate_extension_keys :: "extensions \<Rightarrow> string list \<Rightarrow> unit protocol_result" where
  "validate_extension_keys ext reserved =
     (if list_ex (\<lambda>k. k \<in> set reserved) (bt_keys ext) then Inl PeInvalidField else Inr ())"

text \<open>The number of characters of a UTF-8 string: the bytes that do not continue a character.\<close>

definition continuation :: "char \<Rightarrow> bool" where
  "continuation c \<longleftrightarrow> CHR 0x80 \<le> c \<and> c < CHR 0xC0"

definition char_count :: "string \<Rightarrow> nat" where
  "char_count s = length (filter (\<lambda>c. \<not> continuation c) s)"

definition validate_nonempty_limited :: "string \<Rightarrow> nat \<Rightarrow> unit protocol_result" where
  "validate_nonempty_limited s limit =
     (if char_count s = 0 then Inl PeInvalidField
      else if char_count s > limit then Inl PeLimitExceeded
      else Inr ())"

definition validate_positive :: "u64 \<Rightarrow> unit protocol_result" where
  "validate_positive v = (if v = 0 then Inl PeInvalidField else Inr ())"

definition MAX_RECORDS_PER_PAGE :: nat where
  "MAX_RECORDS_PER_PAGE = 4096"

definition MAX_METADATA_PAGE_BYTES :: nat where
  "MAX_METADATA_PAGE_BYTES = 8 * 1024 * 1024"

section \<open>The task fence\<close>

definition MAX_TASK_DETAIL_BYTES :: nat where
  "MAX_TASK_DETAIL_BYTES = 256"

record task_fence =
  tf_task_id :: resource_id
  tf_attempt :: u64
  tf_stage_key :: string
  tf_stage_attempt :: u64
  tf_plan_revision :: u64

definition task_fence_validate :: "task_fence \<Rightarrow> unit protocol_result" where
  "task_fence_validate f =
     (if id_str (tf_task_id f) = [] then Inl PeInvalidField
      else
        and_then (validate_positive (tf_attempt f)) (\<lambda>_.
        and_then (validate_nonempty_limited (tf_stage_key f) MAX_TASK_DETAIL_BYTES) (\<lambda>_.
        and_then (validate_positive (tf_stage_attempt f)) (\<lambda>_.
        validate_positive (tf_plan_revision f)))))"

section \<open>Message types\<close>

subsection \<open>Metadata\<close>

record wire_index_version =
  wv_revision :: u64
  wv_digest :: content_digest
  wv_extensions :: extensions

definition wire_index_version_validate :: "wire_index_version \<Rightarrow> unit protocol_result" where
  "wire_index_version_validate v = validate_extension_keys (wv_extensions v) [''revision'', ''digest'']"

definition index_version_of_wire :: "wire_index_version \<Rightarrow> index_version" where
  "index_version_of_wire v = \<lparr> iv_revision = wv_revision v, iv_digest = wv_digest v \<rparr>"

datatype metadata_batch_kind = KindManifest | KindIndexDelta | KindObjectReceipt

record metadata_batch_scope =
  sc_tenant_id :: resource_id
  sc_project_id :: resource_id
  sc_artifact_id :: resource_id
  sc_workspace_id :: resource_id
  sc_job_id :: resource_id
  sc_base_index_version :: wire_index_version
  sc_extensions :: extensions

record metadata_page_descriptor =
  pgd_page_number :: u32
  pgd_record_count :: u32
  pgd_encoded_bytes :: u64
  pgd_page_digest :: content_digest
  pgd_extensions :: extensions

record metadata_batch_descriptor =
  bd_batch_id :: resource_id
  bd_scope :: metadata_batch_scope
  bd_kind :: metadata_batch_kind
  bd_schema_version :: "16 word"
  bd_page_count :: u32
  bd_record_count :: u64
  bd_encoded_bytes :: u64
  bd_pages :: "metadata_page_descriptor list"
  bd_batch_digest :: content_digest
  bd_extensions :: extensions

datatype wire_chunking_strategy = WireFastCdc | WireWholeFile

primrec wire_of_chunking :: "chunking_strategy \<Rightarrow> wire_chunking_strategy" where
  "wire_of_chunking FastCdc = WireFastCdc"
| "wire_of_chunking WholeFile = WireWholeFile"

primrec chunking_of_wire :: "wire_chunking_strategy \<Rightarrow> chunking_strategy" where
  "chunking_of_wire WireFastCdc = FastCdc"
| "chunking_of_wire WireWholeFile = WholeFile"

record wire_chunk_ref =
  wc_object_id :: object_id
  wc_offset :: u64
  wc_size :: u64
  wc_extensions :: extensions

record manifest_record =
  mr_manifest_id :: manifest_id
  mr_total_size :: u64
  mr_chunking :: wire_chunking_strategy
  mr_chunk_start :: u64
  mr_chunks :: "wire_chunk_ref list"
  mr_extensions :: extensions

datatype index_delta_record =
    WireUpsert logical_path manifest_id u64 u64 extensions
  | WireDelete logical_path extensions

record object_receipt_record =
  or_receipt_id :: resource_id
  or_tenant_id :: resource_id
  or_artifact_id :: resource_id
  or_job_id :: resource_id
  or_storage_volume_id :: resource_id
  or_artifact_placement_id :: resource_id
  or_object_id :: object_id
  or_size :: u64
  or_verified_at_unix_ms :: u64
  or_extensions :: extensions

datatype metadata_batch_records =
    ManifestRecords "manifest_record list"
  | IndexDeltaRecords "index_delta_record list"
  | ObjectReceiptRecords "object_receipt_record list"

record metadata_batch_page =
  mp_batch_id :: resource_id
  mp_scope :: metadata_batch_scope
  mp_schema_version :: "16 word"
  mp_page_number :: u32
  mp_page_count :: u32
  mp_records :: metadata_batch_records
  mp_page_digest :: content_digest
  mp_extensions :: extensions

subsection \<open>Assignments\<close>

datatype principal_kind = PrincipalUser | PrincipalService | PrincipalSystem

record principal_ref =
  pn_kind :: principal_kind
  pn_id :: resource_id
  pn_extensions :: extensions

datatype lease_mode = SharedRead | ExclusiveWrite

record lease_grant =
  lg_lease_id :: resource_id
  lg_mode :: lease_mode
  lg_fencing_token :: "u64 option"
  lg_expires_at_unix_ms :: u64
  lg_extensions :: extensions

datatype commit_data_layout = LayoutFastCdc | LayoutWholeFile

record add_operation =
  ao_job_id :: resource_id
  ao_principal :: principal_ref
  ao_tenant_id :: resource_id
  ao_project_id :: resource_id
  ao_artifact_id :: resource_id
  ao_workspace_id :: resource_id
  ao_expected_index_version :: wire_index_version
  ao_data_layout :: commit_data_layout
  ao_deadline_unix_ms :: u64
  ao_paths :: "logical_path list"
  ao_all :: bool
  ao_extensions :: extensions

record add_assignment =
  as_job_id :: resource_id
  as_task_fence :: task_fence
  as_assignment_id :: resource_id
  as_assignment_generation :: u64
  as_agent_id :: resource_id
  as_principal :: principal_ref
  as_tenant_id :: resource_id
  as_project_id :: resource_id
  as_artifact_id :: resource_id
  as_workspace_id :: resource_id
  as_edge_cluster_id :: resource_id
  as_storage_volume_id :: resource_id
  as_artifact_placement_id :: resource_id
  as_placement_generation :: u64
  as_agent_mount_id :: resource_id
  as_mount_generation :: u64
  as_owner_generation :: u64
  as_expected_index_version :: wire_index_version
  as_data_layout :: commit_data_layout
  as_max_whole_file_bytes :: u64
  as_lease :: "lease_grant option"
  as_request_digest :: content_digest
  as_deadline_unix_ms :: u64
  as_paths :: "logical_path list"
  as_all :: bool
  as_extensions :: extensions

subsection \<open>Job messages\<close>

datatype job_state =
    JsQueued | JsAssigned | JsAccepted | JsRunning | JsPrepared | JsPublishing | JsCancelRequested
  | JsSucceeded | JsConflicted | JsRejected | JsFailed | JsCancelled | JsTimedOut | JsRecoveryRequired
  | JsUnknown

definition job_state_is_terminal :: "job_state \<Rightarrow> bool" where
  "job_state_is_terminal s \<longleftrightarrow>
     s \<in> {JsSucceeded, JsConflicted, JsRejected, JsFailed, JsCancelled, JsTimedOut, JsRecoveryRequired}"

definition job_state_is_failure_terminal :: "job_state \<Rightarrow> bool" where
  "job_state_is_failure_terminal s \<longleftrightarrow> s \<in> {JsRejected, JsFailed, JsCancelled, JsTimedOut, JsRecoveryRequired}"

datatype error_code_text = ErrorCode string

definition error_code_new :: "string \<Rightarrow> error_code_text protocol_result" where
  "error_code_new s =
     (let valid = s \<noteq> [] \<and> length s \<le> 96
          \<and> (case s of [] \<Rightarrow> False | c # _ \<Rightarrow> ascii_upper c)
          \<and> list_all (\<lambda>c. ascii_upper c \<or> ascii_digit c \<or> c = CHR ''_'') s in
      if valid then Inr (ErrorCode s) else Inl PeInvalidField)"

record control_error =
  ce_code :: error_code_text
  ce_message :: string
  ce_retryable :: bool
  ce_retry_after_ms :: "u64 option"
  ce_extensions :: extensions

record job_accepted =
  ja_job_id :: resource_id
  ja_task_fence :: task_fence
  ja_assignment_id :: resource_id
  ja_assignment_generation :: u64
  ja_accepted_at_unix_ms :: u64
  ja_request_digest :: content_digest
  ja_extensions :: extensions

record job_progress =
  jp_job_id :: resource_id
  jp_task_fence :: task_fence
  jp_assignment_id :: resource_id
  jp_assignment_generation :: u64
  jp_state :: job_state
  jp_phase :: string
  jp_files_completed :: u64
  jp_bytes_completed :: u64
  jp_retry_after_ms :: "u64 option"
  jp_extensions :: extensions

record job_prepared =
  jq_job_id :: resource_id
  jq_task_fence :: task_fence
  jq_assignment_id :: resource_id
  jq_assignment_generation :: u64
  jq_base_index_version :: wire_index_version
  jq_result_index_digest :: content_digest
  jq_publication_digest :: content_digest
  jq_candidate_digest :: content_digest
  jq_metadata_batches :: "metadata_batch_descriptor list"
  jq_extensions :: extensions

datatype job_failure_stage = StageExecution | StageObjectTransfer | StageReporting | StageFinalization

record job_failed =
  jf_tenant_id :: resource_id
  jf_job_id :: resource_id
  jf_task_fence :: task_fence
  jf_assignment_id :: resource_id
  jf_assignment_generation :: u64
  jf_final_state :: job_state
  jf_failed_at_unix_ms :: u64
  jf_stage :: job_failure_stage
  jf_error :: control_error
  jf_extensions :: extensions

datatype publish_decision =
    DecPublish wire_index_version extensions
  | DecConflict wire_index_version extensions
  | DecReject control_error extensions

record job_decision =
  jd_job_id :: resource_id
  jd_task_fence :: task_fence
  jd_assignment_id :: resource_id
  jd_assignment_generation :: u64
  jd_decision_generation :: u64
  jd_decision :: publish_decision
  jd_final_state :: job_state
  jd_extensions :: extensions

record job_finalized =
  jz_job_id :: resource_id
  jz_task_fence :: task_fence
  jz_assignment_id :: resource_id
  jz_assignment_generation :: u64
  jz_decision_generation :: u64
  jz_final_state :: job_state
  jz_finalized_at_unix_ms :: u64
  jz_extensions :: extensions

section \<open>Canonical JSON\<close>

text \<open>
  The values that are hashed or measured in canonical form: the digest inputs of \<open>metadata.rs\<close> and
  \<open>control.rs\<close>, a complete page, the operation of an assignment, and the scope of a receipt identifier.
\<close>

record batch_digest_input =
  bi_batch_id :: resource_id
  bi_scope :: metadata_batch_scope
  bi_kind :: metadata_batch_kind
  bi_schema_version :: "16 word"
  bi_page_count :: u32
  bi_record_count :: u64
  bi_encoded_bytes :: u64
  bi_pages :: "metadata_page_descriptor list"
  bi_extensions :: extensions

record page_digest_input =
  gi_batch_id :: resource_id
  gi_scope :: metadata_batch_scope
  gi_schema_version :: "16 word"
  gi_page_number :: u32
  gi_page_count :: u32
  gi_records :: metadata_batch_records
  gi_extensions :: extensions

record prepared_digest_input =
  qi_job_id :: resource_id
  qi_task_fence :: task_fence
  qi_assignment_id :: resource_id
  qi_assignment_generation :: u64
  qi_base_index_version :: wire_index_version
  qi_result_index_digest :: content_digest
  qi_publication_digest :: content_digest
  qi_metadata_batches :: "metadata_batch_descriptor list"
  qi_extensions :: extensions

record receipt_scope =
  rs_tenant_id :: resource_id
  rs_artifact_id :: resource_id
  rs_job_id :: resource_id
  rs_storage_volume_id :: resource_id
  rs_artifact_placement_id :: resource_id
  rs_placement_generation :: string
  rs_object_id :: object_id
  rs_object_size :: u64

datatype canonical_input =
    CanonUnit
  | CanonBatch batch_digest_input
  | CanonPageInput page_digest_input
  | CanonPage metadata_batch_page
  | CanonPrepared prepared_digest_input
  | CanonOperation add_operation
  | CanonReceipt receipt_scope

type_synonym jcs = "canonical_input \<Rightarrow> byte list protocol_result"

definition jcs_blake3 :: "jcs \<Rightarrow> (byte list \<Rightarrow> content_digest) \<Rightarrow> canonical_input \<Rightarrow> content_digest protocol_result" where
  "jcs_blake3 jcs blake3 v = and_then (jcs v) (\<lambda>canonical. Inr (blake3 canonical))"

definition domain_separated_jcs_bytes :: "jcs \<Rightarrow> string \<Rightarrow> canonical_input \<Rightarrow> byte list protocol_result" where
  "domain_separated_jcs_bytes jcs domain v =
     (if domain = [] \<or> \<not> list_all (\<lambda>c. CHR 0x21 \<le> c \<and> c \<le> CHR 0x7E) domain then Inl PeInvalidField
      else and_then (jcs v) (\<lambda>canonical. Inr (str_bytes domain @ [0] @ canonical)))"

end
