(* ===== verification/Metadata.thy ===== *)
theory Metadata
  imports Wire
begin

text \<open>
  Metadata batches (\<open>protocol/metadata.rs\<close>): pages and descriptors with their digests and totals, and
  the reconstruction of a publication from the pages of three batches.
\<close>

section \<open>Records and pages\<close>

definition METADATA_SCHEMA_VERSION_V1 :: "16 word" where
  "METADATA_SCHEMA_VERSION_V1 = 1"

definition metadata_batch_scope_validate :: "metadata_batch_scope \<Rightarrow> unit protocol_result" where
  "metadata_batch_scope_validate s =
     and_then (wire_index_version_validate (sc_base_index_version s)) (\<lambda>_.
     validate_extension_keys (sc_extensions s)
       [''tenant_id'', ''project_id'', ''artifact_id'', ''workspace_id'', ''job_id'', ''base_index_version''])"

definition wire_chunk_ref_validate :: "wire_chunk_ref \<Rightarrow> unit protocol_result" where
  "wire_chunk_ref_validate c =
     (if wc_size c = 0 then Inl PeInvalidField
      else
        and_then (ok_or PeInvalidField (checked_add (wc_offset c) (wc_size c))) (\<lambda>_.
        validate_extension_keys (wc_extensions c) [''object_id'', ''offset'', ''size'']))"

definition fragment_step :: "u64 \<Rightarrow> wire_chunk_ref \<Rightarrow> u64 protocol_result" where
  "fragment_step next_offset c =
     (if wc_offset c \<noteq> next_offset then Inl PeInvalidField
      else ok_or PeInvalidField (checked_add next_offset (wc_size c)))"

definition manifest_record_validate :: "manifest_record \<Rightarrow> unit protocol_result" where
  "manifest_record_validate r =
     and_then (try_fold (\<lambda>_ c. wire_chunk_ref_validate c) () (mr_chunks r)) (\<lambda>_.
     and_then (validate_extension_keys (mr_extensions r)
       [''manifest_id'', ''total_size'', ''chunking'', ''chunk_start'', ''chunks'']) (\<lambda>_.
     and_then (ok_or PeInvalidField (u64_try_from (length (mr_chunks r)))) (\<lambda>count.
     and_then (ok_or PeInvalidField (checked_add (mr_chunk_start r) count)) (\<lambda>_.
     case mr_chunks r of
       [] \<Rightarrow> if mr_chunk_start r \<noteq> 0 \<or> mr_total_size r \<noteq> 0 then Inl PeInvalidField else Inr ()
     | first # _ \<Rightarrow>
         if mr_total_size r = 0 then Inl PeInvalidField
         else if mr_chunk_start r = 0 \<and> wc_offset first \<noteq> 0 then Inl PeInvalidField
         else
           and_then (try_fold fragment_step (wc_offset first) (mr_chunks r)) (\<lambda>next_offset.
           if next_offset > mr_total_size r then Inl PeInvalidField else Inr ())))))"

primrec index_delta_record_validate :: "index_delta_record \<Rightarrow> unit protocol_result" where
  "index_delta_record_validate (WireUpsert path mid total_size chunk_count ext) =
     (if (total_size = 0) \<noteq> (chunk_count = 0) then Inl PeInvalidField
      else validate_extension_keys ext [''mutation'', ''path'', ''manifest_id'', ''total_size'', ''chunk_count''])"
| "index_delta_record_validate (WireDelete path ext) = validate_extension_keys ext [''mutation'', ''path'']"

definition object_receipt_record_validate :: "object_receipt_record \<Rightarrow> unit protocol_result" where
  "object_receipt_record_validate r =
     validate_extension_keys (or_extensions r)
       [''receipt_id'', ''tenant_id'', ''artifact_id'', ''job_id'', ''storage_volume_id'', ''artifact_placement_id'',
        ''object_id'', ''size'', ''verified_at_unix_ms'']"

primrec records_kind :: "metadata_batch_records \<Rightarrow> metadata_batch_kind" where
  "records_kind (ManifestRecords _) = KindManifest"
| "records_kind (IndexDeltaRecords _) = KindIndexDelta"
| "records_kind (ObjectReceiptRecords _) = KindObjectReceipt"

primrec records_len :: "metadata_batch_records \<Rightarrow> nat" where
  "records_len (ManifestRecords rs) = length rs"
| "records_len (IndexDeltaRecords rs) = length rs"
| "records_len (ObjectReceiptRecords rs) = length rs"

primrec records_validate :: "metadata_batch_records \<Rightarrow> unit protocol_result" where
  "records_validate (ManifestRecords rs) = try_fold (\<lambda>_ r. manifest_record_validate r) () rs"
| "records_validate (IndexDeltaRecords rs) = try_fold (\<lambda>_ r. index_delta_record_validate r) () rs"
| "records_validate (ObjectReceiptRecords rs) = try_fold (\<lambda>_ r. object_receipt_record_validate r) () rs"

definition page_kind :: "metadata_batch_page \<Rightarrow> metadata_batch_kind" where
  "page_kind p = records_kind (mp_records p)"

definition page_record_count :: "metadata_batch_page \<Rightarrow> nat" where
  "page_record_count p = records_len (mp_records p)"

definition page_computed_digest ::
  "jcs \<Rightarrow> (byte list \<Rightarrow> content_digest) \<Rightarrow> metadata_batch_page \<Rightarrow> content_digest protocol_result" where
  "page_computed_digest jcs blake3 p =
     jcs_blake3 jcs blake3 (CanonPageInput
       \<lparr> gi_batch_id = mp_batch_id p, gi_scope = mp_scope p, gi_schema_version = mp_schema_version p,
         gi_page_number = mp_page_number p, gi_page_count = mp_page_count p, gi_records = mp_records p,
         gi_extensions = mp_extensions p \<rparr>)"

definition metadata_page_validate ::
  "jcs \<Rightarrow> (byte list \<Rightarrow> content_digest) \<Rightarrow> metadata_batch_page \<Rightarrow> unit protocol_result" where
  "metadata_page_validate jcs blake3 p =
     (if mp_schema_version p \<noteq> METADATA_SCHEMA_VERSION_V1 then Inl PeInvalidField
      else
        and_then (metadata_batch_scope_validate (mp_scope p)) (\<lambda>_.
        if mp_page_count p = 0 \<or> mp_page_number p \<ge> mp_page_count p then Inl PeInvalidField
        else if page_record_count p > MAX_RECORDS_PER_PAGE then Inl PeLimitExceeded
        else
          and_then (records_validate (mp_records p)) (\<lambda>_.
          and_then (validate_extension_keys (mp_extensions p)
            [''batch_id'', ''scope'', ''schema_version'', ''page_number'', ''page_count'', ''kind'', ''records'',
             ''page_digest'']) (\<lambda>_.
          and_then (page_computed_digest jcs blake3 p) (\<lambda>computed.
          if computed \<noteq> mp_page_digest p then Inl PeInvalidDigest
          else
            and_then (jcs (CanonPage p)) (\<lambda>encoded.
            if length encoded > MAX_METADATA_PAGE_BYTES then Inl PeLimitExceeded else Inr ()))))))"

definition empty_digest :: "jcs \<Rightarrow> (byte list \<Rightarrow> content_digest) \<Rightarrow> content_digest protocol_result" where
  "empty_digest jcs blake3 = jcs_blake3 jcs blake3 CanonUnit"

definition metadata_page_new ::
  "jcs \<Rightarrow> (byte list \<Rightarrow> content_digest) \<Rightarrow> resource_id \<Rightarrow> metadata_batch_scope \<Rightarrow> u32 \<Rightarrow> u32
   \<Rightarrow> metadata_batch_records \<Rightarrow> extensions \<Rightarrow> metadata_batch_page protocol_result" where
  "metadata_page_new jcs blake3 batch_id sc page_number page_count records ext =
     and_then (empty_digest jcs blake3) (\<lambda>d.
     let p = \<lparr> mp_batch_id = batch_id, mp_scope = sc, mp_schema_version = METADATA_SCHEMA_VERSION_V1,
               mp_page_number = page_number, mp_page_count = page_count, mp_records = records,
               mp_page_digest = d, mp_extensions = ext \<rparr> in
     and_then (page_computed_digest jcs blake3 p) (\<lambda>d.
     let p = p \<lparr> mp_page_digest := d \<rparr> in
     and_then (metadata_page_validate jcs blake3 p) (\<lambda>_. Inr p)))"

section \<open>Descriptors\<close>

definition metadata_page_descriptor_validate :: "metadata_page_descriptor \<Rightarrow> unit protocol_result" where
  "metadata_page_descriptor_validate d =
     validate_extension_keys (pgd_extensions d) [''page_number'', ''record_count'', ''encoded_bytes'', ''page_digest'']"

definition descriptor_computed_digest ::
  "jcs \<Rightarrow> (byte list \<Rightarrow> content_digest) \<Rightarrow> metadata_batch_descriptor \<Rightarrow> content_digest protocol_result" where
  "descriptor_computed_digest jcs blake3 d =
     jcs_blake3 jcs blake3 (CanonBatch
       \<lparr> bi_batch_id = bd_batch_id d, bi_scope = bd_scope d, bi_kind = bd_kind d,
         bi_schema_version = bd_schema_version d, bi_page_count = bd_page_count d,
         bi_record_count = bd_record_count d, bi_encoded_bytes = bd_encoded_bytes d, bi_pages = bd_pages d,
         bi_extensions = bd_extensions d \<rparr>)"

definition descriptor_page_step ::
  "u64 \<times> u64 \<Rightarrow> nat \<times> metadata_page_descriptor \<Rightarrow> (u64 \<times> u64) protocol_result" where
  "descriptor_page_step st ip =
     (case st of (records, bytes) \<Rightarrow> case ip of (expected, page) \<Rightarrow>
      and_then (metadata_page_descriptor_validate page) (\<lambda>_.
      if unat (pgd_page_number page) \<noteq> expected then Inl PeInvalidField
      else if unat (pgd_record_count page) > MAX_RECORDS_PER_PAGE then Inl PeLimitExceeded
      else if unat (pgd_encoded_bytes page) > MAX_METADATA_PAGE_BYTES then Inl PeLimitExceeded
      else
        and_then (ok_or PeInvalidField (checked_add records (ucast (pgd_record_count page)))) (\<lambda>records.
        and_then (ok_or PeInvalidField (checked_add bytes (pgd_encoded_bytes page))) (\<lambda>bytes.
        Inr (records, bytes)))))"

definition metadata_descriptor_validate ::
  "jcs \<Rightarrow> (byte list \<Rightarrow> content_digest) \<Rightarrow> metadata_batch_descriptor \<Rightarrow> unit protocol_result" where
  "metadata_descriptor_validate jcs blake3 d =
     (if bd_schema_version d \<noteq> METADATA_SCHEMA_VERSION_V1 then Inl PeInvalidField
      else
        and_then (metadata_batch_scope_validate (bd_scope d)) (\<lambda>_.
        if bd_page_count d = 0 \<or> unat (bd_page_count d) \<noteq> length (bd_pages d) then Inl PeInvalidField
        else
          and_then (try_fold descriptor_page_step (0, 0) (enumerate 0 (bd_pages d))) (\<lambda>(records, bytes).
          if records \<noteq> bd_record_count d \<or> bytes \<noteq> bd_encoded_bytes d then Inl PeInvalidField
          else
            and_then (validate_extension_keys (bd_extensions d)
              [''batch_id'', ''scope'', ''kind'', ''schema_version'', ''page_count'', ''record_count'', ''encoded_bytes'',
               ''pages'', ''batch_digest'']) (\<lambda>_.
            and_then (descriptor_computed_digest jcs blake3 d) (\<lambda>computed.
            if computed \<noteq> bd_batch_digest d then Inl PeInvalidDigest else Inr ())))))"

definition describe_page ::
  "jcs \<Rightarrow> (byte list \<Rightarrow> content_digest) \<Rightarrow> resource_id \<Rightarrow> metadata_batch_scope \<Rightarrow> metadata_batch_kind \<Rightarrow> u32
   \<Rightarrow> metadata_page_descriptor list \<times> u64 \<times> u64 \<Rightarrow> metadata_batch_page
   \<Rightarrow> (metadata_page_descriptor list \<times> u64 \<times> u64) protocol_result" where
  "describe_page jcs blake3 batch_id sc kind page_count st page =
     (case st of (described, record_count, encoded_bytes) \<Rightarrow>
      and_then (metadata_page_validate jcs blake3 page) (\<lambda>_.
      if mp_batch_id page \<noteq> batch_id \<or> mp_scope page \<noteq> sc \<or> page_kind page \<noteq> kind \<or> mp_page_count page \<noteq> page_count
      then Inl PeInvalidField
      else
        and_then (ok_or PeLimitExceeded (u32_try_from (page_record_count page))) (\<lambda>page_records.
        and_then (jcs (CanonPage page)) (\<lambda>encoded.
        and_then (ok_or PeInvalidField (u64_try_from (length encoded))) (\<lambda>page_bytes.
        and_then (ok_or PeInvalidField (checked_add record_count (ucast page_records))) (\<lambda>record_count.
        and_then (ok_or PeInvalidField (checked_add encoded_bytes page_bytes)) (\<lambda>encoded_bytes.
        Inr (described @ [\<lparr> pgd_page_number = mp_page_number page, pgd_record_count = page_records,
                            pgd_encoded_bytes = page_bytes, pgd_page_digest = mp_page_digest page,
                            pgd_extensions = [] \<rparr>], record_count, encoded_bytes))))))))"

definition metadata_descriptor_from_pages ::
  "jcs \<Rightarrow> (byte list \<Rightarrow> content_digest) \<Rightarrow> resource_id \<Rightarrow> metadata_batch_scope \<Rightarrow> metadata_batch_page list \<Rightarrow> extensions
   \<Rightarrow> metadata_batch_descriptor protocol_result" where
  "metadata_descriptor_from_pages jcs blake3 batch_id sc pages ext =
     (case pages of
        [] \<Rightarrow> Inl PeInvalidField
      | first # _ \<Rightarrow>
          let kind = page_kind first in
          and_then (ok_or PeLimitExceeded (u32_try_from (length pages))) (\<lambda>page_count.
          and_then (try_fold (describe_page jcs blake3 batch_id sc kind page_count) ([], 0, 0) pages)
            (\<lambda>(described, record_count, encoded_bytes).
          and_then (empty_digest jcs blake3) (\<lambda>d.
          let descriptor = \<lparr> bd_batch_id = batch_id, bd_scope = sc, bd_kind = kind,
                bd_schema_version = METADATA_SCHEMA_VERSION_V1, bd_page_count = page_count,
                bd_record_count = record_count, bd_encoded_bytes = encoded_bytes, bd_pages = described,
                bd_batch_digest = d, bd_extensions = ext \<rparr> in
          and_then (descriptor_computed_digest jcs blake3 descriptor) (\<lambda>d.
          let descriptor = descriptor \<lparr> bd_batch_digest := d \<rparr> in
          and_then (metadata_descriptor_validate jcs blake3 descriptor) (\<lambda>_. Inr descriptor))))))"

definition descriptor_validate_page ::
  "jcs \<Rightarrow> (byte list \<Rightarrow> content_digest) \<Rightarrow> metadata_batch_descriptor \<Rightarrow> metadata_batch_page \<Rightarrow> unit protocol_result" where
  "descriptor_validate_page jcs blake3 d page =
     and_then (metadata_descriptor_validate jcs blake3 d) (\<lambda>_.
     and_then (metadata_page_validate jcs blake3 page) (\<lambda>_.
     if mp_batch_id page \<noteq> bd_batch_id d \<or> mp_scope page \<noteq> bd_scope d \<or> page_kind page \<noteq> bd_kind d
        \<or> mp_schema_version page \<noteq> bd_schema_version d \<or> mp_page_count page \<noteq> bd_page_count d
     then Inl PeInvalidField
     else
       and_then (ok_or PeInvalidField
         (if unat (mp_page_number page) < length (bd_pages d) then Some (bd_pages d ! unat (mp_page_number page)) else None))
         (\<lambda>expected.
       and_then (jcs (CanonPage page)) (\<lambda>encoded.
       and_then (ok_or PeInvalidField (u64_try_from (length encoded))) (\<lambda>encoded_bytes.
       if unat (pgd_record_count expected) \<noteq> page_record_count page \<or> pgd_encoded_bytes expected \<noteq> encoded_bytes
          \<or> pgd_page_digest expected \<noteq> mp_page_digest page
       then Inl PeInvalidDigest else Inr ())))))"

end
