(* ===== verification/Control.thy ===== *)
theory Control
  imports Metadata
begin

text \<open>
  The control messages of a managed add (\<open>protocol/control.rs\<close>): the operation a request digest binds,
  the assignment, and the reports and decisions exchanged about a job, with their validation.
\<close>

section \<open>Assignments\<close>

definition principal_ref_validate :: "principal_ref \<Rightarrow> unit protocol_result" where
  "principal_ref_validate p = validate_extension_keys (pn_extensions p) [''kind'', ''id'']"

definition lease_grant_validate :: "lease_grant \<Rightarrow> unit protocol_result" where
  "lease_grant_validate l =
     and_then (case (lg_mode l, lg_fencing_token l) of
                 (SharedRead, None) \<Rightarrow> Inr ()
               | (ExclusiveWrite, Some token) \<Rightarrow> validate_positive token
               | (SharedRead, Some _) \<Rightarrow> Inl PeInvalidField
               | (ExclusiveWrite, None) \<Rightarrow> Inl PeInvalidField) (\<lambda>_.
     validate_extension_keys (lg_extensions l) [''lease_id'', ''mode'', ''fencing_token'', ''expires_at_unix_ms''])"

definition add_operation_validate :: "unicode \<Rightarrow> add_operation \<Rightarrow> unit protocol_result" where
  "add_operation_validate uni op =
     (if ao_extensions op \<noteq> [] then Inl PeInvalidField
      else if \<not> ao_all op \<and> ao_paths op = [] then Inl PeInvalidField
      else
        and_then (validate_collection_limit (length (ao_paths op)) MAX_RECORDS_PER_PAGE) (\<lambda>_.
        and_then (map_err (\<lambda>_. PeInvalidField) (validate_path_set uni (ao_paths op))) (\<lambda>_.
        and_then (wire_index_version_validate (ao_expected_index_version op)) (\<lambda>_.
        and_then (principal_ref_validate (ao_principal op)) (\<lambda>_.
        validate_extension_keys (ao_extensions op)
          [''job_id'', ''principal'', ''tenant_id'', ''project_id'', ''artifact_id'', ''workspace_id'',
           ''expected_index_version'', ''data_layout'', ''deadline_unix_ms'', ''paths'', ''all''])))))"

definition add_operation_request_digest ::
  "unicode \<Rightarrow> jcs \<Rightarrow> (byte list \<Rightarrow> content_digest) \<Rightarrow> add_operation \<Rightarrow> content_digest protocol_result" where
  "add_operation_request_digest uni jcs blake3 op =
     and_then (add_operation_validate uni op) (\<lambda>_. jcs_blake3 jcs blake3 (CanonOperation op))"

definition add_assignment_operation :: "add_assignment \<Rightarrow> add_operation" where
  "add_assignment_operation a =
     \<lparr> ao_job_id = as_job_id a, ao_principal = as_principal a, ao_tenant_id = as_tenant_id a,
       ao_project_id = as_project_id a, ao_artifact_id = as_artifact_id a, ao_workspace_id = as_workspace_id a,
       ao_expected_index_version = as_expected_index_version a, ao_data_layout = as_data_layout a,
       ao_deadline_unix_ms = as_deadline_unix_ms a, ao_paths = as_paths a, ao_all = as_all a,
       ao_extensions = as_extensions a \<rparr>"

definition add_assignment_validate ::
  "unicode \<Rightarrow> jcs \<Rightarrow> (byte list \<Rightarrow> content_digest) \<Rightarrow> add_assignment \<Rightarrow> unit protocol_result" where
  "add_assignment_validate uni jcs blake3 a =
     and_then (task_fence_validate (as_task_fence a)) (\<lambda>_.
     and_then (try_fold (\<lambda>_ g. validate_positive g) ()
       [as_assignment_generation a, as_placement_generation a, as_mount_generation a, as_owner_generation a]) (\<lambda>_.
     and_then (add_operation_request_digest uni jcs blake3 (add_assignment_operation a)) (\<lambda>computed.
     if as_request_digest a \<noteq> computed then Inl PeInvalidDigest
     else
       and_then (case as_lease a of None \<Rightarrow> Inr () | Some lease \<Rightarrow> lease_grant_validate lease) (\<lambda>_.
       validate_extension_keys (as_extensions a)
         [''job_id'', ''task_id'', ''attempt'', ''stage_key'', ''stage_attempt'', ''plan_revision'', ''assignment_id'',
          ''assignment_generation'', ''agent_id'', ''principal'', ''tenant_id'', ''project_id'', ''artifact_id'',
          ''workspace_id'', ''edge_cluster_id'', ''storage_volume_id'', ''artifact_placement_id'',
          ''placement_generation'', ''agent_mount_id'', ''mount_generation'', ''owner_generation'',
          ''expected_index_version'', ''data_layout'', ''max_whole_file_bytes'', ''lease'', ''request_digest'',
          ''deadline_unix_ms'', ''paths'', ''all'']))))"

section \<open>Reports\<close>

definition control_error_validate :: "control_error \<Rightarrow> unit protocol_result" where
  "control_error_validate e =
     and_then (validate_nonempty_limited (ce_message e) 4096) (\<lambda>_.
     validate_extension_keys (ce_extensions e) [''code'', ''message'', ''retryable'', ''retry_after_ms''])"

definition job_accepted_validate :: "job_accepted \<Rightarrow> unit protocol_result" where
  "job_accepted_validate r =
     and_then (task_fence_validate (ja_task_fence r)) (\<lambda>_.
     and_then (validate_positive (ja_assignment_generation r)) (\<lambda>_.
     validate_extension_keys (ja_extensions r)
       [''job_id'', ''task_id'', ''attempt'', ''stage_key'', ''stage_attempt'', ''plan_revision'', ''assignment_id'',
        ''assignment_generation'', ''accepted_at_unix_ms'', ''request_digest'']))"

definition job_progress_validate :: "job_progress \<Rightarrow> unit protocol_result" where
  "job_progress_validate r =
     and_then (task_fence_validate (jp_task_fence r)) (\<lambda>_.
     and_then (validate_positive (jp_assignment_generation r)) (\<lambda>_.
     and_then (validate_nonempty_limited (jp_phase r) 128) (\<lambda>_.
     validate_extension_keys (jp_extensions r)
       [''job_id'', ''task_id'', ''attempt'', ''stage_key'', ''stage_attempt'', ''plan_revision'', ''assignment_id'',
        ''assignment_generation'', ''state'', ''phase'', ''files_completed'', ''bytes_completed'', ''retry_after_ms''])))"

definition job_prepared_computed_digest ::
  "jcs \<Rightarrow> (byte list \<Rightarrow> content_digest) \<Rightarrow> job_prepared \<Rightarrow> content_digest protocol_result" where
  "job_prepared_computed_digest jcs blake3 r =
     jcs_blake3 jcs blake3 (CanonPrepared
       \<lparr> qi_job_id = jq_job_id r, qi_task_fence = jq_task_fence r, qi_assignment_id = jq_assignment_id r,
         qi_assignment_generation = jq_assignment_generation r, qi_base_index_version = jq_base_index_version r,
         qi_result_index_digest = jq_result_index_digest r, qi_publication_digest = jq_publication_digest r,
         qi_metadata_batches = jq_metadata_batches r, qi_extensions = jq_extensions r \<rparr>)"

definition job_prepared_validate ::
  "jcs \<Rightarrow> (byte list \<Rightarrow> content_digest) \<Rightarrow> job_prepared \<Rightarrow> unit protocol_result" where
  "job_prepared_validate jcs blake3 r =
     and_then (task_fence_validate (jq_task_fence r)) (\<lambda>_.
     and_then (validate_positive (jq_assignment_generation r)) (\<lambda>_.
     and_then (wire_index_version_validate (jq_base_index_version r)) (\<lambda>_.
     and_then (validate_collection_limit (length (jq_metadata_batches r)) MAX_RECORDS_PER_PAGE) (\<lambda>_.
     and_then (try_fold (\<lambda>_ d. metadata_descriptor_validate jcs blake3 d) () (jq_metadata_batches r)) (\<lambda>_.
     and_then (validate_extension_keys (jq_extensions r)
       [''job_id'', ''task_id'', ''attempt'', ''stage_key'', ''stage_attempt'', ''plan_revision'', ''assignment_id'',
        ''assignment_generation'', ''base_index_version'', ''result_index_digest'', ''publication_digest'',
        ''candidate_digest'', ''metadata_batches'']) (\<lambda>_.
     and_then (job_prepared_computed_digest jcs blake3 r) (\<lambda>computed.
     if computed \<noteq> jq_candidate_digest r then Inl PeInvalidDigest else Inr ())))))))"

definition job_prepared_new ::
  "jcs \<Rightarrow> (byte list \<Rightarrow> content_digest) \<Rightarrow> resource_id \<Rightarrow> task_fence \<Rightarrow> resource_id \<Rightarrow> u64 \<Rightarrow> wire_index_version
   \<Rightarrow> content_digest \<Rightarrow> content_digest \<Rightarrow> metadata_batch_descriptor list \<Rightarrow> extensions \<Rightarrow> job_prepared protocol_result" where
  "job_prepared_new jcs blake3 job_id fence assignment_id generation base result_digest publication_digest batches ext =
     and_then (jcs_blake3 jcs blake3 (CanonPrepared
       \<lparr> qi_job_id = job_id, qi_task_fence = fence, qi_assignment_id = assignment_id,
         qi_assignment_generation = generation, qi_base_index_version = base,
         qi_result_index_digest = result_digest, qi_publication_digest = publication_digest,
         qi_metadata_batches = batches, qi_extensions = ext \<rparr>)) (\<lambda>candidate_digest.
     let r = \<lparr> jq_job_id = job_id, jq_task_fence = fence, jq_assignment_id = assignment_id,
               jq_assignment_generation = generation, jq_base_index_version = base,
               jq_result_index_digest = result_digest, jq_publication_digest = publication_digest,
               jq_candidate_digest = candidate_digest, jq_metadata_batches = batches, jq_extensions = ext \<rparr> in
     and_then (job_prepared_validate jcs blake3 r) (\<lambda>_. Inr r))"

definition job_failed_validate :: "job_failed \<Rightarrow> unit protocol_result" where
  "job_failed_validate r =
     and_then (task_fence_validate (jf_task_fence r)) (\<lambda>_.
     and_then (validate_positive (jf_assignment_generation r)) (\<lambda>_.
     if \<not> job_state_is_failure_terminal (jf_final_state r) then Inl PeInvalidField
     else
       and_then (control_error_validate (jf_error r)) (\<lambda>_.
       validate_extension_keys (jf_extensions r)
         [''tenant_id'', ''job_id'', ''task_id'', ''attempt'', ''stage_key'', ''stage_attempt'', ''plan_revision'',
          ''assignment_id'', ''assignment_generation'', ''final_state'', ''failed_at_unix_ms'', ''stage'', ''error''])))"

definition job_finalized_validate :: "job_finalized \<Rightarrow> unit protocol_result" where
  "job_finalized_validate r =
     and_then (task_fence_validate (jz_task_fence r)) (\<lambda>_.
     and_then (validate_positive (jz_assignment_generation r)) (\<lambda>_.
     and_then (validate_positive (jz_decision_generation r)) (\<lambda>_.
     if \<not> job_state_is_terminal (jz_final_state r) then Inl PeInvalidField
     else
       validate_extension_keys (jz_extensions r)
         [''job_id'', ''task_id'', ''attempt'', ''stage_key'', ''stage_attempt'', ''plan_revision'', ''assignment_id'',
          ''assignment_generation'', ''decision_generation'', ''final_state'', ''finalized_at_unix_ms''])))"

section \<open>Decisions\<close>

primrec publish_decision_validate :: "publish_decision \<Rightarrow> unit protocol_result" where
  "publish_decision_validate (DecPublish published ext) =
     and_then (wire_index_version_validate published) (\<lambda>_.
     validate_extension_keys ext [''outcome'', ''published_index_version''])"
| "publish_decision_validate (DecConflict current ext) =
     and_then (wire_index_version_validate current) (\<lambda>_.
     validate_extension_keys ext [''outcome'', ''current_index_version''])"
| "publish_decision_validate (DecReject error ext) =
     and_then (control_error_validate error) (\<lambda>_.
     validate_extension_keys ext [''outcome'', ''error''])"

primrec final_state_matches :: "publish_decision \<Rightarrow> job_state \<Rightarrow> bool" where
  "final_state_matches (DecPublish _ _) s \<longleftrightarrow> s = JsSucceeded"
| "final_state_matches (DecConflict _ _) s \<longleftrightarrow> s = JsConflicted"
| "final_state_matches (DecReject _ _) s \<longleftrightarrow>
     s \<in> {JsRejected, JsFailed, JsCancelled, JsTimedOut, JsRecoveryRequired}"

definition job_decision_validate :: "job_decision \<Rightarrow> unit protocol_result" where
  "job_decision_validate d =
     and_then (task_fence_validate (jd_task_fence d)) (\<lambda>_.
     and_then (validate_positive (jd_assignment_generation d)) (\<lambda>_.
     and_then (validate_positive (jd_decision_generation d)) (\<lambda>_.
     and_then (publish_decision_validate (jd_decision d)) (\<lambda>_.
     if \<not> final_state_matches (jd_decision d) (jd_final_state d) then Inl PeInvalidField
     else
       validate_extension_keys (jd_extensions d)
         [''job_id'', ''task_id'', ''attempt'', ''stage_key'', ''stage_attempt'', ''plan_revision'', ''assignment_id'',
          ''assignment_generation'', ''decision_generation'', ''decision'', ''final_state'']))))"

end
