(* ===== verification/WirePublication.thy ===== *)
theory WirePublication
  imports Metadata "HOL-Library.Product_Lexorder"
begin

text \<open>
  The publication carried by metadata pages (\<open>MetadataPublication\<close> of \<open>protocol/metadata.rs\<close>): the pages
  of the three batches are ordered and checked for gaps, manifest fragments are put together again,
  and the parts must close over each other.
\<close>

section \<open>Ordering the pages\<close>

primrec metadata_kind_index :: "metadata_batch_kind \<Rightarrow> nat" where
  "metadata_kind_index KindManifest = 0"
| "metadata_kind_index KindIndexDelta = 1"
| "metadata_kind_index KindObjectReceipt = 2"

record ordered_pages =
  op_pages :: "(nat \<times> u32, metadata_batch_page) btree_map"
  op_batch_ids :: "resource_id option list"
  op_page_counts :: "u32 list"

definition order_page ::
  "jcs \<Rightarrow> (byte list \<Rightarrow> content_digest) \<Rightarrow> ordered_pages \<Rightarrow> metadata_batch_page \<Rightarrow> ordered_pages protocol_result" where
  "order_page jcs blake3 st page =
     and_then (metadata_page_validate jcs blake3 page) (\<lambda>_.
     let kind = metadata_kind_index (page_kind page) in
     and_then (case op_batch_ids st ! kind of
                 Some batch_id \<Rightarrow> if batch_id \<noteq> mp_batch_id page then Inl PeInvalidField else Inr st
               | None \<Rightarrow> Inr (st \<lparr> op_batch_ids := (op_batch_ids st)[kind := Some (mp_batch_id page)],
                                   op_page_counts := (op_page_counts st)[kind := mp_page_count page] \<rparr>)) (\<lambda>st.
     if op_page_counts st ! kind \<noteq> mp_page_count page \<or> bt_contains (op_pages st) (kind, mp_page_number page)
     then Inl PeInvalidField
     else Inr (st \<lparr> op_pages := bt_insert (kind, mp_page_number page) page (op_pages st) \<rparr>)))"

definition pages_complete :: "ordered_pages \<Rightarrow> bool" where
  "pages_complete st \<longleftrightarrow>
     list_all (\<lambda>(kind, page_count). list_all (\<lambda>n. bt_contains (op_pages st) (kind, of_nat n)) [0..<unat page_count])
       (enumerate 0 (op_page_counts st))"

section \<open>Collecting the records\<close>

record publication_manifest_fragments =
  pf_total_size :: u64
  pf_chunking :: chunking_strategy
  pf_chunks_by_start :: "(u64, chunk_ref list) btree_map"

record publication_records =
  px_fragments :: "(manifest_id, publication_manifest_fragments) btree_map"
  px_mutations :: "index_mutation list"
  px_object_specs :: "(object_id, u64) btree_map"
  px_receipt_ids :: "resource_id btree_set"

definition invalid_publication :: "'e + 'a \<Rightarrow> 'a protocol_result" where
  "invalid_publication r = map_err (\<lambda>_. PeInvalidField) r"

definition fragment_chunks :: "wire_chunk_ref list \<Rightarrow> chunk_ref list protocol_result" where
  "fragment_chunks cs =
     try_fold (\<lambda>acc c. and_then (invalid_publication (chunk_new (wc_object_id c) (wc_offset c) (wc_size c)))
       (\<lambda>chunk. Inr (acc @ [chunk]))) [] cs"

definition collect_fragment :: "publication_records \<Rightarrow> manifest_record \<Rightarrow> publication_records protocol_result" where
  "collect_fragment st r =
     and_then (fragment_chunks (mr_chunks r)) (\<lambda>chunks.
     let fragments = (case bt_get (px_fragments st) (mr_manifest_id r) of
           Some f \<Rightarrow> f
         | None \<Rightarrow> \<lparr> pf_total_size = mr_total_size r, pf_chunking = chunking_of_wire (mr_chunking r), pf_chunks_by_start = [] \<rparr>) in
     if pf_total_size fragments \<noteq> mr_total_size r \<or> pf_chunking fragments \<noteq> chunking_of_wire (mr_chunking r)
        \<or> bt_contains (pf_chunks_by_start fragments) (mr_chunk_start r)
     then Inl PeInvalidField
     else Inr (st \<lparr> px_fragments := bt_insert (mr_manifest_id r)
       (fragments \<lparr> pf_chunks_by_start := bt_insert (mr_chunk_start r) chunks (pf_chunks_by_start fragments) \<rparr>)
       (px_fragments st) \<rparr>))"

primrec wire_mutation :: "index_delta_record \<Rightarrow> index_mutation protocol_result" where
  "wire_mutation (WireUpsert path mid total_size chunk_count ext) =
     and_then (invalid_publication (file_record_new path mid total_size chunk_count)) (\<lambda>r. Inr (Upsert r))"
| "wire_mutation (WireDelete path ext) = Inr (Delete path)"

definition collect_mutation :: "publication_records \<Rightarrow> index_delta_record \<Rightarrow> publication_records protocol_result" where
  "collect_mutation st r = and_then (wire_mutation r) (\<lambda>m. Inr (st \<lparr> px_mutations := px_mutations st @ [m] \<rparr>))"

definition collect_receipt :: "publication_records \<Rightarrow> object_receipt_record \<Rightarrow> publication_records protocol_result" where
  "collect_receipt st r =
     (if or_receipt_id r \<in> set (px_receipt_ids st) \<or> bt_contains (px_object_specs st) (or_object_id r)
      then Inl PeInvalidField
      else Inr (st \<lparr> px_receipt_ids := bts_insert (or_receipt_id r) (px_receipt_ids st),
                     px_object_specs := bt_insert (or_object_id r) (or_size r) (px_object_specs st) \<rparr>))"

definition collect_page :: "publication_records \<Rightarrow> metadata_batch_page \<Rightarrow> publication_records protocol_result" where
  "collect_page st page =
     (case mp_records page of
        ManifestRecords rs \<Rightarrow> try_fold collect_fragment st rs
      | IndexDeltaRecords rs \<Rightarrow> try_fold collect_mutation st rs
      | ObjectReceiptRecords rs \<Rightarrow> try_fold collect_receipt st rs)"

section \<open>Assembling the manifests\<close>

definition join_fragment :: "u64 \<times> chunk_ref list \<Rightarrow> u64 \<times> chunk_ref list \<Rightarrow> (u64 \<times> chunk_ref list) protocol_result" where
  "join_fragment st f =
     (case st of (next_chunk_start, chunks) \<Rightarrow> case f of (chunk_start, fragment) \<Rightarrow>
      if chunk_start \<noteq> next_chunk_start then Inl PeInvalidField
      else
        and_then (ok_or PeInvalidField (u64_try_from (length fragment))) (\<lambda>n.
        and_then (ok_or PeInvalidField (checked_add next_chunk_start n)) (\<lambda>next_chunk_start.
        Inr (next_chunk_start, chunks @ fragment))))"

definition join_object :: "(object_id, u64) btree_map \<Rightarrow> chunk_ref \<Rightarrow> (object_id, u64) btree_map protocol_result" where
  "join_object objects chunk =
     (if (case bt_get objects (cr_object_id chunk) of None \<Rightarrow> False | Some sz \<Rightarrow> sz \<noteq> cr_size chunk)
      then Inl PeInvalidField
      else Inr (bt_insert (cr_object_id chunk) (cr_size chunk) objects))"

definition join_manifest ::
  "(byte list \<Rightarrow> content_digest) \<Rightarrow> (manifest_id, manifest) btree_map \<times> (object_id, u64) btree_map
   \<Rightarrow> manifest_id \<times> publication_manifest_fragments
   \<Rightarrow> ((manifest_id, manifest) btree_map \<times> (object_id, u64) btree_map) protocol_result" where
  "join_manifest blake3 st mf =
     (case st of (manifests, objects) \<Rightarrow> case mf of (mid, fragments) \<Rightarrow>
      and_then (try_fold join_fragment (0, []) (pf_chunks_by_start fragments)) (\<lambda>(_, chunks).
      and_then (invalid_publication (manifest_new (pf_total_size fragments) (pf_chunking fragments) chunks)) (\<lambda>m.
      and_then (invalid_publication (manifest_id blake3 m)) (\<lambda>observed.
      if observed \<noteq> mid then Inl PeInvalidField
      else
        and_then (try_fold join_object objects (m_chunks m)) (\<lambda>objects.
        Inr (bt_insert mid m manifests, objects))))))"

section \<open>The publication\<close>

record metadata_publication =
  mpub_index_mutations :: "index_mutation list"
  mpub_manifests :: "manifest list"
  mpub_object_specs :: "object_spec list"

definition referenced_manifests :: "index_mutation list \<Rightarrow> manifest_id btree_set" where
  "referenced_manifests ms = bts_collect (concat (map (\<lambda>m. case m of Upsert r \<Rightarrow> [fr_manifest_id r] | Delete _ \<Rightarrow> []) ms))"

definition wire_upsert_matches :: "(manifest_id, manifest) btree_map \<Rightarrow> index_mutation \<Rightarrow> unit protocol_result" where
  "wire_upsert_matches manifests mut =
     (case mut of
        Delete _ \<Rightarrow> Inr ()
      | Upsert r \<Rightarrow>
          and_then (ok_or PeInvalidField (bt_get manifests (fr_manifest_id r))) (\<lambda>m.
          if m_total_size m \<noteq> fr_total_size r then Inl PeInvalidField
          else
            and_then (invalid_publication (manifest_chunk_count m)) (\<lambda>count.
            if count \<noteq> fr_chunk_count r then Inl PeInvalidField else Inr ())))"

definition assemble_publication ::
  "unicode \<Rightarrow> (byte list \<Rightarrow> content_digest) \<Rightarrow> publication_records \<Rightarrow> metadata_publication protocol_result" where
  "assemble_publication uni blake3 px =
     and_then (invalid_publication (validate_index_mutation_paths uni (map mutation_path (px_mutations px)))) (\<lambda>_.
     and_then (try_fold (join_manifest blake3) ([], []) (px_fragments px)) (\<lambda>(manifests, manifest_objects).
     if manifest_objects \<noteq> px_object_specs px then Inl PeInvalidField
     else if bt_keys manifests \<noteq> referenced_manifests (px_mutations px) then Inl PeInvalidField
     else
       and_then (try_fold (\<lambda>_ m. wire_upsert_matches manifests m) () (px_mutations px)) (\<lambda>_.
       Inr \<lparr> mpub_index_mutations = px_mutations px, mpub_manifests = bt_values manifests,
             mpub_object_specs = map (\<lambda>(i, sz). \<lparr> os_id = i, os_size = sz \<rparr>) (px_object_specs px) \<rparr>)))"

definition publication_from_pages ::
  "unicode \<Rightarrow> jcs \<Rightarrow> (byte list \<Rightarrow> content_digest) \<Rightarrow> metadata_batch_page list \<Rightarrow> metadata_publication protocol_result" where
  "publication_from_pages uni jcs blake3 pages =
     and_then (try_fold (order_page jcs blake3)
       \<lparr> op_pages = [], op_batch_ids = [None, None, None], op_page_counts = [0, 0, 0] \<rparr> pages) (\<lambda>st.
     if \<not> pages_complete st then Inl PeInvalidField
     else
       and_then (try_fold collect_page
         \<lparr> px_fragments = [], px_mutations = [], px_object_specs = [], px_receipt_ids = [] \<rparr> (bt_values (op_pages st))) (\<lambda>px.
       assemble_publication uni blake3 px))"

definition scope_of_batch :: "metadata_batch_scope \<Rightarrow> publication_scope" where
  "scope_of_batch s =
     \<lparr> ps_tenant_id = id_str (sc_tenant_id s), ps_project_id = id_str (sc_project_id s),
       ps_artifact_id = id_str (sc_artifact_id s), ps_workspace_id = id_str (sc_workspace_id s),
       ps_job_id = id_str (sc_job_id s) \<rparr>"

definition metadata_publication_digest ::
  "unicode \<Rightarrow> (byte list \<Rightarrow> content_digest) \<Rightarrow> metadata_publication \<Rightarrow> metadata_batch_scope \<Rightarrow> content_digest
   \<Rightarrow> content_digest protocol_result" where
  "metadata_publication_digest uni blake3 pub sc result_index_digest =
     (let base = index_version_of_wire (sc_base_index_version sc) in
      and_then (invalid_publication (delta_new uni base (mpub_index_mutations pub) result_index_digest)) (\<lambda>delta.
      invalid_publication (add_publication_digest uni blake3 (scope_of_batch sc) base delta
        (mpub_manifests pub) (mpub_object_specs pub))))"

end
