(* ===== verification/AgentState.thy ===== *)
theory AgentState
  imports Control WirePublication
begin

text \<open>
  The durable state of an agent (\<open>agent_core/state.rs\<close>, \<open>memory.rs\<close>, \<open>error.rs\<close>, and the baseline validator of
  \<open>ports.rs\<close>): transfer receipts, ledger records, reports, and the in-memory ledger.
\<close>

section \<open>Errors\<close>

text \<open>As elsewhere, an error is its code; the text for operators is not part of the model.\<close>

datatype agent_error_code =
    AeInvalidAssignment | AeDeadlineExceeded | AeJobIdReused | AeAssignmentNotFound | AeAssignmentMismatch
  | AeScopeMismatch | AeGenerationMismatch | AeMountUnavailable | AeInvalidState | AeLedgerConflict
  | AeExecutionFailed | AeObjectTransferFailed | AeReportFailed | AeProtocolInvalid | AeInternal

type_synonym 'a agent_result = "agent_error_code + 'a"

primrec agent_error_str :: "agent_error_code \<Rightarrow> string" where
  "agent_error_str AeInvalidAssignment = ''ASSIGNMENT_INVALID''"
| "agent_error_str AeDeadlineExceeded = ''ASSIGNMENT_DEADLINE_EXCEEDED''"
| "agent_error_str AeJobIdReused = ''JOB_ID_REUSED''"
| "agent_error_str AeAssignmentNotFound = ''ASSIGNMENT_NOT_FOUND''"
| "agent_error_str AeAssignmentMismatch = ''ASSIGNMENT_MISMATCH''"
| "agent_error_str AeScopeMismatch = ''ASSIGNMENT_SCOPE_MISMATCH''"
| "agent_error_str AeGenerationMismatch = ''GENERATION_MISMATCH''"
| "agent_error_str AeMountUnavailable = ''MOUNT_UNAVAILABLE''"
| "agent_error_str AeInvalidState = ''AGENT_STATE_INVALID''"
| "agent_error_str AeLedgerConflict = ''LEDGER_CONFLICT''"
| "agent_error_str AeExecutionFailed = ''EXECUTION_FAILED''"
| "agent_error_str AeObjectTransferFailed = ''OBJECT_TRANSFER_FAILED''"
| "agent_error_str AeReportFailed = ''REPORT_FAILED''"
| "agent_error_str AeProtocolInvalid = ''PROTOCOL_INVALID''"
| "agent_error_str AeInternal = ''AGENT_INTERNAL''"

definition from_engine_error :: "'a engine_result \<Rightarrow> 'a agent_result" where
  "from_engine_error r = map_err (\<lambda>_. AeExecutionFailed) r"

definition from_protocol_error :: "'a protocol_result \<Rightarrow> 'a agent_result" where
  "from_protocol_error r = map_err (\<lambda>_. AeProtocolInvalid) r"

section \<open>Assignments\<close>

datatype assignment_key = AssignmentKey (key_tenant_id: resource_id) (key_job_id: resource_id)

instantiation assignment_key :: linorder
begin

definition less_eq_assignment_key :: "assignment_key \<Rightarrow> assignment_key \<Rightarrow> bool" where
  "less_eq_assignment_key a b \<longleftrightarrow> (key_tenant_id a, key_job_id a) \<le> (key_tenant_id b, key_job_id b)"

definition less_assignment_key :: "assignment_key \<Rightarrow> assignment_key \<Rightarrow> bool" where
  "less_assignment_key a b \<longleftrightarrow> (key_tenant_id a, key_job_id a) < (key_tenant_id b, key_job_id b)"

instance
proof
  fix x y z :: assignment_key
  show "(x < y) = (x \<le> y \<and> \<not> y \<le> x)" by (auto simp: less_eq_assignment_key_def less_assignment_key_def)
  show "x \<le> x" by (simp add: less_eq_assignment_key_def)
  show "x \<le> y \<Longrightarrow> y \<le> z \<Longrightarrow> x \<le> z" unfolding less_eq_assignment_key_def by (rule order_trans)
  show "x \<le> y \<Longrightarrow> y \<le> x \<Longrightarrow> x = y" by (cases x; cases y) (auto simp: less_eq_assignment_key_def)
  show "x \<le> y \<or> y \<le> x" unfolding less_eq_assignment_key_def by (rule linear)
qed

end

definition key_from_assignment :: "add_assignment \<Rightarrow> assignment_key" where
  "key_from_assignment a = AssignmentKey (as_tenant_id a) (as_job_id a)"

text \<open>\<open>BasicAssignmentValidator\<close>.\<close>

definition basic_validate ::
  "unicode \<Rightarrow> jcs \<Rightarrow> (byte list \<Rightarrow> content_digest) \<Rightarrow> add_assignment \<Rightarrow> u64 \<Rightarrow> unit agent_result" where
  "basic_validate uni jcs blake3 a now =
     and_then (map_err (\<lambda>_. AeInvalidAssignment) (add_assignment_validate uni jcs blake3 a)) (\<lambda>_.
     if as_deadline_unix_ms a \<le> now then Inl AeDeadlineExceeded
     else if (case as_lease a of None \<Rightarrow> False | Some lease \<Rightarrow> lg_expires_at_unix_ms lease \<le> now) then Inl AeDeadlineExceeded
     else Inr ())"

datatype agent_assignment_state =
    Claimed | Accepted | Running | Prepared | AwaitingDecision | Finalizing | Completed | FailedReported | Recovering

section \<open>Transfer receipts\<close>

record transfer_receipt =
  tr_metadata_batches :: "metadata_batch_descriptor list"
  tr_metadata_pages :: "metadata_batch_page list"

primrec kind_name :: "metadata_batch_kind \<Rightarrow> string" where
  "kind_name KindManifest = ''manifest''"
| "kind_name KindIndexDelta = ''index_delta''"
| "kind_name KindObjectReceipt = ''object_receipt''"

definition count_up :: "'k::linorder \<Rightarrow> ('k, nat) btree_map \<Rightarrow> ('k, nat) btree_map" where
  "count_up k m = bt_insert k ((case bt_get m k of None \<Rightarrow> 0 | Some n \<Rightarrow> n) + 1) m"

definition count_of :: "('k, nat) btree_map \<Rightarrow> 'k \<Rightarrow> nat" where
  "count_of m k = (case bt_get m k of None \<Rightarrow> 0 | Some n \<Rightarrow> n)"

definition receipt_descriptor ::
  "jcs \<Rightarrow> (byte list \<Rightarrow> content_digest) \<Rightarrow> add_assignment
   \<Rightarrow> (resource_id, metadata_batch_descriptor) btree_map \<times> (string, nat) btree_map \<Rightarrow> metadata_batch_descriptor
   \<Rightarrow> ((resource_id, metadata_batch_descriptor) btree_map \<times> (string, nat) btree_map) agent_result" where
  "receipt_descriptor jcs blake3 a st d =
     (case st of (descriptors, batch_kinds) \<Rightarrow>
      and_then (from_protocol_error (metadata_descriptor_validate jcs blake3 d)) (\<lambda>_.
      let batch_kinds = count_up (kind_name (bd_kind d)) batch_kinds; sc = bd_scope d in
      if sc_tenant_id sc \<noteq> as_tenant_id a \<or> sc_project_id sc \<noteq> as_project_id a \<or> sc_artifact_id sc \<noteq> as_artifact_id a
         \<or> sc_workspace_id sc \<noteq> as_workspace_id a \<or> sc_job_id sc \<noteq> as_job_id a
         \<or> wv_revision (sc_base_index_version sc) \<noteq> wv_revision (as_expected_index_version a)
         \<or> wv_digest (sc_base_index_version sc) \<noteq> wv_digest (as_expected_index_version a)
      then Inl AeObjectTransferFailed
      else if bt_contains descriptors (bd_batch_id d) then Inl AeObjectTransferFailed
      else Inr (bt_insert (bd_batch_id d) d descriptors, batch_kinds)))"

definition receipt_matches :: "add_assignment \<Rightarrow> object_receipt_record \<Rightarrow> bool" where
  "receipt_matches a r \<longleftrightarrow>
     or_tenant_id r = as_tenant_id a \<and> or_artifact_id r = as_artifact_id a \<and> or_job_id r = as_job_id a
     \<and> or_storage_volume_id r = as_storage_volume_id a \<and> or_artifact_placement_id r = as_artifact_placement_id a"

definition receipt_page ::
  "jcs \<Rightarrow> (byte list \<Rightarrow> content_digest) \<Rightarrow> add_assignment \<Rightarrow> (resource_id, metadata_batch_descriptor) btree_map
   \<Rightarrow> (resource_id, nat) btree_map \<times> (resource_id \<times> u32) btree_set \<Rightarrow> metadata_batch_page
   \<Rightarrow> ((resource_id, nat) btree_map \<times> (resource_id \<times> u32) btree_set) agent_result" where
  "receipt_page jcs blake3 a descriptors st page =
     (case st of (pages_per_batch, pages) \<Rightarrow>
      and_then (ok_or AeObjectTransferFailed (bt_get descriptors (mp_batch_id page))) (\<lambda>d.
      and_then (from_protocol_error (descriptor_validate_page jcs blake3 d page)) (\<lambda>_.
      and_then (case mp_records page of
                  ObjectReceiptRecords rs \<Rightarrow>
                    if \<not> list_all (receipt_matches a) rs then Inl AeObjectTransferFailed else Inr ()
                | _ \<Rightarrow> Inr ()) (\<lambda>_.
      if (mp_batch_id page, mp_page_number page) \<in> set pages then Inl AeObjectTransferFailed
      else Inr (count_up (mp_batch_id page) pages_per_batch,
                bts_insert (mp_batch_id page, mp_page_number page) pages)))))"

definition transfer_receipt_validate ::
  "jcs \<Rightarrow> (byte list \<Rightarrow> content_digest) \<Rightarrow> transfer_receipt \<Rightarrow> add_assignment \<Rightarrow> unit agent_result" where
  "transfer_receipt_validate jcs blake3 receipt a =
     and_then (try_fold (receipt_descriptor jcs blake3 a) ([], []) (tr_metadata_batches receipt)) (\<lambda>(descriptors, batch_kinds).
     if \<not> list_all (\<lambda>required. count_of batch_kinds required = 1) [''manifest'', ''index_delta'', ''object_receipt'']
     then Inl AeObjectTransferFailed
     else
       and_then (try_fold (receipt_page jcs blake3 a descriptors) ([], []) (tr_metadata_pages receipt)) (\<lambda>(pages_per_batch, _).
       if \<not> list_all (\<lambda>d. count_of pages_per_batch (bd_batch_id d) = unat (bd_page_count d)) (tr_metadata_batches receipt)
       then Inl AeObjectTransferFailed
       else Inr ()))"

definition assignment_batch_scope :: "add_assignment \<Rightarrow> metadata_batch_scope" where
  "assignment_batch_scope a =
     \<lparr> sc_tenant_id = as_tenant_id a, sc_project_id = as_project_id a, sc_artifact_id = as_artifact_id a,
       sc_workspace_id = as_workspace_id a, sc_job_id = as_job_id a,
       sc_base_index_version = as_expected_index_version a, sc_extensions = [] \<rparr>"

definition transfer_receipt_validate_for ::
  "unicode \<Rightarrow> jcs \<Rightarrow> (byte list \<Rightarrow> content_digest) \<Rightarrow> transfer_receipt \<Rightarrow> add_assignment \<Rightarrow> prepared_add \<Rightarrow> unit agent_result" where
  "transfer_receipt_validate_for uni jcs blake3 receipt a prepared =
     and_then (transfer_receipt_validate jcs blake3 receipt a) (\<lambda>_.
     and_then (map_err (\<lambda>_. AeObjectTransferFailed) (publication_from_pages uni jcs blake3 (tr_metadata_pages receipt))) (\<lambda>material.
     and_then (map_err (\<lambda>_. AeObjectTransferFailed)
       (metadata_publication_digest uni blake3 material (assignment_batch_scope a)
          (dl_result_digest (pd_index_delta prepared)))) (\<lambda>observed.
     and_then (map_err (\<lambda>_. AeObjectTransferFailed) (prepared_publication_digest uni blake3 prepared)) (\<lambda>expected.
     if observed \<noteq> expected then Inl AeObjectTransferFailed else Inr ()))))"

section \<open>Ledger records\<close>

record prepared_execution =
  px_candidate :: prepared_add
  px_transfer :: transfer_receipt

record ledger_record =
  lr_key :: assignment_key
  lr_request_digest :: content_digest
  lr_assignment :: add_assignment
  lr_state :: agent_assignment_state
  lr_revision :: u64
  lr_claimed_at_unix_ms :: u64
  lr_updated_at_unix_ms :: u64
  lr_accepted_at_unix_ms :: "u64 option"
  lr_prepared :: "prepared_execution option"
  lr_decision :: "job_decision option"
  lr_finalized :: "job_finalized option"
  lr_failure :: "job_failed option"

definition ledger_record_claimed :: "add_assignment \<Rightarrow> u64 \<Rightarrow> ledger_record" where
  "ledger_record_claimed a now =
     \<lparr> lr_key = key_from_assignment a, lr_request_digest = as_request_digest a, lr_assignment = a, lr_state = Claimed,
       lr_revision = 1, lr_claimed_at_unix_ms = now, lr_updated_at_unix_ms = now, lr_accepted_at_unix_ms = None,
       lr_prepared = None, lr_decision = None, lr_finalized = None, lr_failure = None \<rparr>"

record ledger_claim =
  lc_assignment :: add_assignment
  lc_claimed_at_unix_ms :: u64

datatype claim_outcome = ClaimNew ledger_record | ClaimExisting ledger_record

datatype claim_disposition = DispositionNew | DispositionReplayed

record assignment_acceptance =
  aa_disposition :: claim_disposition
  aa_record :: ledger_record

text \<open>The payloads of the other subsystems' reports are a type parameter.\<close>

datatype 'x agent_report =
    ReportAccepted job_accepted
  | ReportProgress job_progress
  | ReportPrepared job_prepared
  | ReportFinalized job_finalized
  | ReportFailed job_failed
  | ReportLifecycle 'x
  | ReportReplication 'x
  | ReportMaterialization 'x
  | ReportIntegrity 'x

section \<open>The in-memory ledger\<close>

text \<open>A lock is poisoned only after a panic, which is not modelled.\<close>

type_synonym memory_ledger = "(assignment_key, ledger_record) btree_map"

definition memory_ledger_claim :: "ledger_claim \<Rightarrow> (agent_error_code, memory_ledger, claim_outcome) io" where
  "memory_ledger_claim claim records =
     (let key = key_from_assignment (lc_assignment claim) in
      case bt_get records key of
        Some existing \<Rightarrow>
          if lr_request_digest existing = as_request_digest (lc_assignment claim)
          then (Inr (ClaimExisting existing), records)
          else (Inl AeJobIdReused, records)
      | None \<Rightarrow>
          let r = ledger_record_claimed (lc_assignment claim) (lc_claimed_at_unix_ms claim) in
          (Inr (ClaimNew r), bt_insert key r records))"

definition memory_ledger_load :: "assignment_key \<Rightarrow> (agent_error_code, memory_ledger, ledger_record option) io" where
  "memory_ledger_load key records = (Inr (bt_get records key), records)"

definition memory_ledger_list_active :: "(agent_error_code, memory_ledger, ledger_record list) io" where
  "memory_ledger_list_active records = (Inr (filter (\<lambda>r. lr_state r \<noteq> Completed) (bt_values records)), records)"

definition memory_ledger_compare_exchange ::
  "u64 \<Rightarrow> ledger_record \<Rightarrow> (agent_error_code, memory_ledger, ledger_record) io" where
  "memory_ledger_compare_exchange expected_revision nxt records =
     (case bt_get records (lr_key nxt) of
        None \<Rightarrow> (Inl AeAssignmentNotFound, records)
      | Some current \<Rightarrow>
          if lr_revision current \<noteq> expected_revision then (Inl AeLedgerConflict, records)
          else if lr_key current \<noteq> lr_key nxt \<or> lr_request_digest current \<noteq> lr_request_digest nxt
             \<or> lr_assignment current \<noteq> lr_assignment nxt \<or> lr_key nxt \<noteq> key_from_assignment (lr_assignment nxt)
             \<or> lr_request_digest nxt \<noteq> as_request_digest (lr_assignment nxt)
          then (Inl AeAssignmentMismatch, records)
          else
            (case checked_add expected_revision 1 of
               None \<Rightarrow> (Inl AeInternal, records)
             | Some revision \<Rightarrow>
                 let nxt = nxt \<lparr> lr_revision := revision \<rparr> in
                 (Inr nxt, bt_insert (lr_key nxt) nxt records)))"

end
