(* ===== verification/ObjectTransfer.thy ===== *)
theory ObjectTransfer
  imports AgentState
begin

text \<open>
  How an agent turns a prepared candidate into metadata batches (the object transfer of
  \<open>neoengram-agent/src/execution.rs\<close>): manifests are cut into fragments, records into pages, and every
  batch gets a descriptor.  The object store, the control-plane bridge and the placement inventory
  are ports.
\<close>

section \<open>Records\<close>

text \<open>\<open>slice::chunks\<close>.\<close>

function chunks_of :: "nat \<Rightarrow> 'a list \<Rightarrow> 'a list list" where
  "chunks_of n xs = (if n = 0 \<or> xs = [] then [] else take n xs # chunks_of n (drop n xs))"
  by pat_completeness auto
termination by (relation "measure (\<lambda>(n, xs). length xs)") auto

declare chunks_of.simps [simp del]

definition wire_chunk :: "chunk_ref \<Rightarrow> wire_chunk_ref" where
  "wire_chunk c = \<lparr> wc_object_id = cr_object_id c, wc_offset = cr_offset c, wc_size = cr_size c, wc_extensions = [] \<rparr>"

definition manifest_fragment :: "manifest_id \<Rightarrow> manifest \<Rightarrow> nat \<times> chunk_ref list \<Rightarrow> manifest_record agent_result" where
  "manifest_fragment i m nc =
     (case nc of (fragment_number, chunks) \<Rightarrow>
      and_then (ok_or AeObjectTransferFailed (u64_try_from (fragment_number * MAX_RECORDS_PER_PAGE))) (\<lambda>chunk_start.
      Inr \<lparr> mr_manifest_id = i, mr_total_size = m_total_size m, mr_chunking = wire_of_chunking (m_chunking m),
            mr_chunk_start = chunk_start, mr_chunks = map wire_chunk chunks, mr_extensions = [] \<rparr>))"

definition try_map :: "('a \<Rightarrow> 'e + 'b) \<Rightarrow> 'a list \<Rightarrow> 'e + 'b list" where
  "try_map f xs = try_fold (\<lambda>acc x. and_then (f x) (\<lambda>y. Inr (acc @ [y]))) [] xs"

definition manifest_fragments ::
  "(byte list \<Rightarrow> content_digest) \<Rightarrow> manifest \<Rightarrow> manifest_record list agent_result" where
  "manifest_fragments blake3 m =
     and_then (map_err (\<lambda>_. AeObjectTransferFailed) (manifest_id blake3 m)) (\<lambda>i.
     if m_chunks m = []
     then Inr [\<lparr> mr_manifest_id = i, mr_total_size = m_total_size m, mr_chunking = wire_of_chunking (m_chunking m),
                 mr_chunk_start = 0, mr_chunks = [], mr_extensions = [] \<rparr>]
     else try_map (manifest_fragment i m) (enumerate 0 (chunks_of MAX_RECORDS_PER_PAGE (m_chunks m))))"

primrec delta_record :: "index_mutation \<Rightarrow> index_delta_record" where
  "delta_record (Upsert r) = WireUpsert (fr_path r) (fr_manifest_id r) (fr_total_size r) (fr_chunk_count r) []"
| "delta_record (Delete p) = WireDelete p []"

definition object_receipt_id ::
  "jcs \<Rightarrow> (byte list \<Rightarrow> content_digest) \<Rightarrow> add_assignment \<Rightarrow> object_spec \<Rightarrow> resource_id agent_result" where
  "object_receipt_id jcs blake3 a spec =
     and_then (map_err (\<lambda>_. AeObjectTransferFailed)
       (domain_separated_jcs_bytes jcs ''neoengram.object-receipt-id.v1'' (CanonReceipt
          \<lparr> rs_tenant_id = as_tenant_id a, rs_artifact_id = as_artifact_id a, rs_job_id = as_job_id a,
            rs_storage_volume_id = as_storage_volume_id a, rs_artifact_placement_id = as_artifact_placement_id a,
            rs_placement_generation = dec_str (unat (as_placement_generation a)),
            rs_object_id = os_id spec, rs_object_size = os_size spec \<rparr>))) (\<lambda>canonical.
     from_protocol_error (resource_id_new (''r-'' @ digest_to_hex (blake3 canonical))))"

definition object_receipt ::
  "jcs \<Rightarrow> (byte list \<Rightarrow> content_digest) \<Rightarrow> add_assignment \<Rightarrow> (object_id, u64) btree_map \<Rightarrow> object_spec
   \<Rightarrow> object_receipt_record agent_result" where
  "object_receipt jcs blake3 a verified_at spec =
     and_then (ok_or AeObjectTransferFailed (bt_get verified_at (os_id spec))) (\<lambda>checked_at.
     and_then (object_receipt_id jcs blake3 a spec) (\<lambda>receipt_id.
     Inr \<lparr> or_receipt_id = receipt_id, or_tenant_id = as_tenant_id a, or_artifact_id = as_artifact_id a,
           or_job_id = as_job_id a, or_storage_volume_id = as_storage_volume_id a,
           or_artifact_placement_id = as_artifact_placement_id a, or_object_id = os_id spec, or_size = os_size spec,
           or_verified_at_unix_ms = checked_at, or_extensions = [] \<rparr>))"

section \<open>Pages and descriptors\<close>

definition build_pages ::
  "jcs \<Rightarrow> (byte list \<Rightarrow> content_digest) \<Rightarrow> resource_id \<Rightarrow> metadata_batch_scope \<Rightarrow> 'a list
   \<Rightarrow> ('a list \<Rightarrow> metadata_batch_records) \<Rightarrow> metadata_batch_page list agent_result" where
  "build_pages jcs blake3 batch_id sc records wrap =
     (let count = max ((length records + (MAX_RECORDS_PER_PAGE - 1)) div MAX_RECORDS_PER_PAGE) 1 in
      and_then (ok_or AeObjectTransferFailed (u32_try_from count)) (\<lambda>page_count.
      if records = [] then
        and_then (from_protocol_error (metadata_page_new jcs blake3 batch_id sc 0 1 (wrap []) [])) (\<lambda>p. Inr [p])
      else
        try_map (\<lambda>(page_number, rs).
          and_then (ok_or AeObjectTransferFailed (u32_try_from page_number)) (\<lambda>n.
          from_protocol_error (metadata_page_new jcs blake3 batch_id sc n page_count (wrap rs) [])))
          (enumerate 0 (chunks_of MAX_RECORDS_PER_PAGE records))))"

definition batch_descriptor ::
  "jcs \<Rightarrow> (byte list \<Rightarrow> content_digest) \<Rightarrow> metadata_batch_scope \<Rightarrow> metadata_batch_page list
   \<Rightarrow> metadata_batch_descriptor agent_result" where
  "batch_descriptor jcs blake3 sc pages =
     (case pages of
        [] \<Rightarrow> Inl AeObjectTransferFailed
      | first # _ \<Rightarrow> from_protocol_error (metadata_descriptor_from_pages jcs blake3 (mp_batch_id first) sc pages []))"

definition metadata_receipt ::
  "unicode \<Rightarrow> jcs \<Rightarrow> (byte list \<Rightarrow> content_digest) \<Rightarrow> add_assignment \<Rightarrow> prepared_add \<Rightarrow> (object_id, u64) btree_map
   \<Rightarrow> transfer_receipt agent_result" where
  "metadata_receipt uni jcs blake3 a prepared verified_at =
     (let sc = assignment_batch_scope a in
      and_then (map_err (\<lambda>_. AeObjectTransferFailed) (prepared_publication_digest uni blake3 prepared)) (\<lambda>digest.
      and_then (from_protocol_error (resource_id_new (''m-'' @ digest_to_hex digest))) (\<lambda>manifest_batch_id.
      and_then (from_protocol_error (resource_id_new (''i-'' @ digest_to_hex digest))) (\<lambda>index_batch_id.
      and_then (from_protocol_error (resource_id_new (''o-'' @ digest_to_hex digest))) (\<lambda>receipt_batch_id.
      and_then (try_map (manifest_fragments blake3) (pd_manifests prepared)) (\<lambda>fragments.
      let mutations = map delta_record (delta_iter (pd_index_delta prepared)) in
      and_then (try_map (object_receipt jcs blake3 a verified_at) (pd_object_specs prepared)) (\<lambda>receipts.
      and_then (build_pages jcs blake3 manifest_batch_id sc (concat fragments) ManifestRecords) (\<lambda>manifest_pages.
      and_then (build_pages jcs blake3 index_batch_id sc mutations IndexDeltaRecords) (\<lambda>index_pages.
      and_then (build_pages jcs blake3 receipt_batch_id sc receipts ObjectReceiptRecords) (\<lambda>receipt_pages.
      and_then (batch_descriptor jcs blake3 sc manifest_pages) (\<lambda>md.
      and_then (batch_descriptor jcs blake3 sc index_pages) (\<lambda>xd.
      and_then (batch_descriptor jcs blake3 sc receipt_pages) (\<lambda>rd.
      Inr \<lparr> tr_metadata_batches = [md, xd, rd],
            tr_metadata_pages = manifest_pages @ index_pages @ receipt_pages \<rparr>)))))))))))))"

section \<open>The execution ports of the file system agent\<close>

definition MAX_AGENT_OBJECT_BYTES :: u64 where
  "MAX_AGENT_OBJECT_BYTES = 4 * 1024 * 1024"

datatype object_placement_state = PlacementVerified | PlacementRetiring | PlacementDeleted | PlacementLost

datatype object_encoding = EncodingRaw | EncodingZstd

record object_placement =
  opl_placement_id :: resource_id
  opl_tenant_id :: resource_id
  opl_object_namespace_id :: resource_id
  opl_object_id :: object_id
  opl_size :: u64
  opl_encoding :: object_encoding
  opl_verified_digest :: content_digest
  opl_storage_volume_id :: "resource_id option"
  opl_archive_id :: "resource_id option"
  opl_placement_generation :: u64
  opl_state :: object_placement_state
  opl_failure_domain :: string

text \<open>
  What \<open>FilesystemExecution\<close> calls: the object store of the assignment's volume, the clock of the
  bridge, the inventory if there is one, and the staging calls of the bridge.
\<close>

record 'w execution_ports =
  xp_objects :: "add_assignment \<Rightarrow> (agent_error_code, 'w, unit) io"
  xp_verify :: "add_assignment \<Rightarrow> object_spec \<Rightarrow> ('w, unit) engine_io"
  xp_durability_barrier :: "add_assignment \<Rightarrow> ('w, unit) engine_io"
  xp_now :: "(agent_error_code, 'w, u64) io"
  xp_record :: "(object_placement \<Rightarrow> (agent_error_code, 'w, unit) io) option"
  xp_stage_descriptor :: "add_assignment \<Rightarrow> metadata_batch_descriptor \<Rightarrow> (agent_error_code, 'w, unit) io"
  xp_stage_page :: "add_assignment \<Rightarrow> metadata_batch_page \<Rightarrow> (agent_error_code, 'w, unit) io"

definition io_map_err :: "('e \<Rightarrow> 'f) \<Rightarrow> ('e, 'w, 'a) io \<Rightarrow> ('f, 'w, 'a) io" where
  "io_map_err g m w = (case m w of (r, w') \<Rightarrow> (map_err g r, w'))"

definition chunking_of_layout :: "commit_data_layout \<Rightarrow> chunking_strategy" where
  "chunking_of_layout l = (case l of LayoutFastCdc \<Rightarrow> FastCdc | LayoutWholeFile \<Rightarrow> WholeFile)"

definition add_request_of :: "add_assignment \<Rightarrow> prepare_add_request" where
  "add_request_of a =
     \<lparr> pa_resource = \<lparr> res_tenant_id = id_str (as_tenant_id a), res_project_id = id_str (as_project_id a),
         res_artifact_id = id_str (as_artifact_id a), res_workspace_id = id_str (as_workspace_id a),
         res_job_id = id_str (as_job_id a) \<rparr>,
       pa_expected_index_version = index_version_of_wire (as_expected_index_version a),
       pa_scopes = (if as_all a then [ScopeRoot] else map ScopePath (as_paths a)),
       pa_stage_deletions = True,
       pa_chunking = Explicit (chunking_of_layout (as_data_layout a)),
       pa_max_whole_file_bytes = (if as_data_layout a = LayoutWholeFile then Some (as_max_whole_file_bytes a) else None),
       pa_candidate_batch_id = ''candidate-'' @ digest_to_hex (as_request_digest a) \<rparr>"

definition verify_objects ::
  "'w execution_ports \<Rightarrow> add_assignment \<Rightarrow> object_spec list \<Rightarrow> (agent_error_code, 'w, unit) io" where
  "verify_objects X a specs =
     io_fold (\<lambda>_ spec.
       if as_data_layout a = LayoutFastCdc \<and> os_size spec > MAX_AGENT_OBJECT_BYTES then io_err AeObjectTransferFailed
       else io_map_err (\<lambda>_. AeObjectTransferFailed) (xp_verify X a spec)) () specs"

definition placement_of ::
  "(byte list \<Rightarrow> content_digest) \<Rightarrow> add_assignment \<Rightarrow> object_spec \<Rightarrow> object_placement agent_result" where
  "placement_of blake3 a spec =
     (let text = ''managed-add-v2'' @ [CHR 0x00] @ id_str (as_tenant_id a) @ [CHR 0x00] @ id_str (as_artifact_id a) @ [CHR 0x00]
            @ id_str (as_artifact_placement_id a) @ [CHR 0x00] @ digest_to_hex (object_digest (os_id spec)) in
      and_then (map_err (\<lambda>_. AeObjectTransferFailed)
        (resource_id_new (''managed-add-v2-'' @ take 32 (digest_to_hex (blake3 (str_bytes text)))))) (\<lambda>placement_id.
      Inr \<lparr> opl_placement_id = placement_id, opl_tenant_id = as_tenant_id a, opl_object_namespace_id = as_artifact_id a,
            opl_object_id = os_id spec, opl_size = os_size spec, opl_encoding = EncodingRaw,
            opl_verified_digest = object_digest (os_id spec), opl_storage_volume_id = Some (as_storage_volume_id a),
            opl_archive_id = None, opl_placement_generation = as_placement_generation a, opl_state = PlacementVerified,
            opl_failure_domain = ''volume:'' @ id_str (as_storage_volume_id a) \<rparr>))"

definition record_placements ::
  "(byte list \<Rightarrow> content_digest) \<Rightarrow> 'w execution_ports \<Rightarrow> add_assignment \<Rightarrow> object_spec list \<Rightarrow> (agent_error_code, 'w, unit) io" where
  "record_placements blake3 X a specs =
     (case xp_record X of
        None \<Rightarrow> io_ok ()
      | Some rec \<Rightarrow> io_fold (\<lambda>_ spec. io_then (io_of (placement_of blake3 a spec)) rec) () specs)"

definition filesystem_transfer ::
  "unicode \<Rightarrow> jcs \<Rightarrow> (byte list \<Rightarrow> content_digest) \<Rightarrow> 'w execution_ports \<Rightarrow> add_assignment \<Rightarrow> prepared_add
   \<Rightarrow> (agent_error_code, 'w, transfer_receipt) io" where
  "filesystem_transfer uni jcs blake3 X a prepared =
     io_then (io_of (from_engine_error (prepared_validate uni blake3 prepared))) (\<lambda>_.
     io_then (xp_objects X a) (\<lambda>_.
     io_then (verify_objects X a (pd_object_specs prepared)) (\<lambda>_.
     io_then (io_map_err (\<lambda>_. AeObjectTransferFailed) (xp_durability_barrier X a)) (\<lambda>_.
     io_then (xp_now X) (\<lambda>checked_at.
     io_then (record_placements blake3 X a (pd_object_specs prepared)) (\<lambda>_.
     let verified_at = bt_collect (map (\<lambda>spec. (os_id spec, checked_at)) (pd_object_specs prepared)) in
     io_then (io_of (metadata_receipt uni jcs blake3 a prepared verified_at)) (\<lambda>receipt.
     io_then (io_of (transfer_receipt_validate_for uni jcs blake3 receipt a prepared)) (\<lambda>_.
     io_ok receipt))))))))"

definition filesystem_stage_metadata ::
  "jcs \<Rightarrow> (byte list \<Rightarrow> content_digest) \<Rightarrow> 'w execution_ports \<Rightarrow> add_assignment \<Rightarrow> transfer_receipt \<Rightarrow> (agent_error_code, 'w, unit) io" where
  "filesystem_stage_metadata jcs blake3 X a receipt =
     io_then (io_of (transfer_receipt_validate jcs blake3 receipt a)) (\<lambda>_.
     io_then (io_fold (\<lambda>_ d. xp_stage_descriptor X a d) () (tr_metadata_batches receipt)) (\<lambda>_.
     io_fold (\<lambda>_ page. xp_stage_page X a page) () (tr_metadata_pages receipt)))"

end
