(* ===== verification/Receipts.thy ===== *)
theory Receipts
  imports ObjectTransfer
begin

text \<open>
  The metadata batches an agent builds carry its candidate: pages and descriptors validate, the pages
  are complete, and putting them together again gives the publication they were made from.
\<close>

section \<open>Building pages\<close>

lemma try_map_iff: "try_map f xs = Inr ys \<longleftrightarrow> list_all2 (\<lambda>x y. f x = Inr y) xs ys"
proof -
  have "try_fold (\<lambda>acc x. and_then (f x) (\<lambda>y. Inr (acc @ [y]))) acc xs = Inr zs \<longleftrightarrow>
      (\<exists>ys. zs = acc @ ys \<and> list_all2 (\<lambda>x y. f x = Inr y) xs ys)" for acc zs
  proof (induction xs arbitrary: acc)
    case (Cons x xs)
    show ?case by (cases "f x") (auto simp: Cons list_all2_Cons1 intro: exI [of _ "_ # _"])
  qed auto
  then show ?thesis by (simp add: try_map_def)
qed

lemma chunks_of_Nil [simp]: "chunks_of n [] = []"
  by (simp add: chunks_of.simps)

lemma concat_chunks_of: "0 < n \<Longrightarrow> concat (chunks_of n xs) = xs"
  by (induction n xs rule: chunks_of.induct) (subst chunks_of.simps, simp)

lemma chunks_of_nonempty: "c \<in> set (chunks_of n xs) \<Longrightarrow> c \<noteq> [] \<and> length c \<le> n"
proof (induction n xs rule: chunks_of.induct)
  case (1 n xs)
  then show ?case by (subst (asm) (2) chunks_of.simps) (auto split: if_splits)
qed

lemma length_chunks_of: "0 < n \<Longrightarrow> length (chunks_of n xs) = (length xs + (n - 1)) div n"
proof (induction n xs rule: chunks_of.induct)
  case (1 n xs)
  show ?case
  proof (cases "xs = []")
    case False
    have "length (chunks_of n xs) = Suc ((length xs - n + (n - 1)) div n)"
      using False 1 by (subst chunks_of.simps) simp
    also have "\<dots> = (length xs + (n - 1)) div n"
    proof (cases "n \<le> length xs")
      case True
      have "(length xs - n + (n - 1) + n) div n = (length xs - n + (n - 1)) div n + 1"
        using 1(2) by (intro div_add_self2) simp
      moreover have "length xs - n + (n - 1) + n = length xs + (n - 1)" using True by simp
      ultimately show ?thesis by (simp only: Suc_eq_plus1)
    next
      case short: False
      have "(length xs - 1 + n) div n = (length xs - 1) div n + 1" using 1(2) by (intro div_add_self2) simp
      moreover have "length xs - 1 + n = length xs + (n - 1)" using False 1(2) by (cases xs) simp_all
      moreover have "(length xs - 1) div n = 0" "(length xs - n + (n - 1)) div n = 0" using short 1(2) by simp_all
      ultimately show ?thesis by (simp only: Suc_eq_plus1)
    qed
    finally show ?thesis .
  qed (use 1(2) in simp)
qed

text \<open>The parts of a record list that go into its pages; an empty list still has a page.\<close>

definition page_parts :: "'a list \<Rightarrow> 'a list list" where
  "page_parts rs = (if rs = [] then [[]] else chunks_of MAX_RECORDS_PER_PAGE rs)"

lemma concat_page_parts [simp]: "concat (page_parts rs) = rs"
  by (simp add: page_parts_def concat_chunks_of MAX_RECORDS_PER_PAGE_def)

text \<open>The pages of one batch, in order.\<close>

definition batch_pages ::
  "jcs \<Rightarrow> (byte list \<Rightarrow> content_digest) \<Rightarrow> resource_id \<Rightarrow> metadata_batch_scope \<Rightarrow> ('a list \<Rightarrow> metadata_batch_records)
   \<Rightarrow> 'a list list \<Rightarrow> metadata_batch_page list \<Rightarrow> bool" where
  "batch_pages jcs blake3 bid sc wrap parts ps \<longleftrightarrow>
     ps \<noteq> [] \<and> length ps < 2 ^ 32 \<and> length parts = length ps
     \<and> (\<forall>i < length ps. mp_batch_id (ps ! i) = bid \<and> mp_scope (ps ! i) = sc \<and> unat (mp_page_number (ps ! i)) = i
          \<and> unat (mp_page_count (ps ! i)) = length ps \<and> mp_records (ps ! i) = wrap (parts ! i)
          \<and> metadata_page_validate jcs blake3 (ps ! i) = Inr ())"

lemma metadata_page_new_ok:
  assumes "metadata_page_new jcs blake3 bid sc n c records ext = Inr p"
  shows "mp_batch_id p = bid \<and> mp_scope p = sc \<and> mp_page_number p = n \<and> mp_page_count p = c \<and> mp_records p = records
    \<and> metadata_page_validate jcs blake3 p = Inr ()"
  using assms by (auto simp: metadata_page_new_def Let_def)

lemma from_protocol_eq_Inr [simp]: "from_protocol_error r = Inr a \<longleftrightarrow> r = Inr a"
  by (simp add: from_protocol_error_def)

lemma build_pages_ok:
  assumes "build_pages jcs blake3 bid sc rs wrap = Inr ps"
  shows "batch_pages jcs blake3 bid sc wrap (page_parts rs) ps"
proof (cases "rs = []")
  case True
  then obtain p where "metadata_page_new jcs blake3 bid sc 0 1 (wrap []) [] = Inr p" "ps = [p]"
    using assms by (auto simp: build_pages_def Let_def)
  then show ?thesis
    using metadata_page_new_ok True by (fastforce simp: batch_pages_def page_parts_def)
next
  case False
  let ?cs = "chunks_of MAX_RECORDS_PER_PAGE rs"
  have max1: "max ((length rs + (MAX_RECORDS_PER_PAGE - 1)) div MAX_RECORDS_PER_PAGE) 1 = length ?cs"
    using False length_chunks_of [of MAX_RECORDS_PER_PAGE rs]
    by (cases rs) (auto simp: MAX_RECORDS_PER_PAGE_def max_def)
  obtain c where c: "u32_try_from (length ?cs) = Some c"
    and l: "list_all2 (\<lambda>(i, part) p. \<exists>n. u32_try_from i = Some n
        \<and> metadata_page_new jcs blake3 bid sc n c (wrap part) [] = Inr p) (enumerate 0 ?cs) ps"
    using assms False max1 by (auto simp: build_pages_def Let_def try_map_iff split_def)
  have len: "length ps = length ?cs" using list_all2_lengthD [OF l] by simp
  have c': "unat c = length ?cs" "length ?cs < 2 ^ 32" 
    using c by (simp add: u32_try_from_eq_Some, simp add: u32_try_from_def split: if_splits)
  have page: "mp_batch_id (ps ! i) = bid \<and> mp_scope (ps ! i) = sc \<and> unat (mp_page_number (ps ! i)) = i
          \<and> unat (mp_page_count (ps ! i)) = length ps \<and> mp_records (ps ! i) = wrap (?cs ! i)
          \<and> metadata_page_validate jcs blake3 (ps ! i) = Inr ()" if i: "i < length ps" for i
  proof -
    obtain n where n: "u32_try_from i = Some n" "metadata_page_new jcs blake3 bid sc n c (wrap (?cs ! i)) [] = Inr (ps ! i)"
      using list_all2_nthD [OF l, of i] i len by (auto simp: nth_enumerate_eq)
    then have "unat n = i" by (simp add: u32_try_from_eq_Some)
    then show ?thesis using metadata_page_new_ok [OF n(2)] c' len by simp
  qed
  have "?cs \<noteq> []" using False by (subst chunks_of.simps) (simp add: MAX_RECORDS_PER_PAGE_def)
  then show ?thesis using page len c' False by (auto simp: batch_pages_def page_parts_def)
qed

section \<open>Ordering the pages again\<close>

definition keyed :: "nat \<Rightarrow> metadata_batch_page list \<Rightarrow> (nat \<times> u32, metadata_batch_page) btree_map" where
  "keyed kind ps = map (\<lambda>p. ((kind, mp_page_number p), p)) ps"

lemma keyed_append: "keyed kind (ps @ qs) = keyed kind ps @ keyed kind qs"
  by (simp add: keyed_def)

lemma order_page_next:
  assumes v: "metadata_page_validate jcs blake3 p = Inr ()" and k: "metadata_kind_index (page_kind p) = kind"
    and ids: "op_batch_ids st ! kind = Some (mp_batch_id p)" and cnt: "op_page_counts st ! kind = mp_page_count p"
    and new: "\<forall>x \<in> fst ` set (op_pages st). x < (kind, mp_page_number p)"
  shows "order_page jcs blake3 st p = Inr (st \<lparr> op_pages := op_pages st @ keyed kind [p] \<rparr>)"
proof -
  have "(kind, mp_page_number p) \<notin> fst ` set (op_pages st)" using new by blast
  then show ?thesis
    using v k ids cnt bt_insert_last [OF new] by (simp add: order_page_def Let_def keyed_def)
qed

lemma order_page_first:
  assumes v: "metadata_page_validate jcs blake3 p = Inr ()" and k: "metadata_kind_index (page_kind p) = kind"
    and ids: "op_batch_ids st ! kind = None" and len: "kind < length (op_batch_ids st)" "kind < length (op_page_counts st)"
    and new: "\<forall>x \<in> fst ` set (op_pages st). x < (kind, mp_page_number p)"
  shows "order_page jcs blake3 st p =
    Inr (st \<lparr> op_pages := op_pages st @ keyed kind [p], op_batch_ids := (op_batch_ids st)[kind := Some (mp_batch_id p)],
              op_page_counts := (op_page_counts st)[kind := mp_page_count p] \<rparr>)"
proof -
  have "(kind, mp_page_number p) \<notin> fst ` set (op_pages st)" using new by blast
  then show ?thesis
    using v k ids len bt_insert_last [OF new] by (simp add: order_page_def Let_def keyed_def)
qed

lemma order_batch_rest:
  assumes "\<forall>p \<in> set qs. metadata_page_validate jcs blake3 p = Inr () \<and> metadata_kind_index (page_kind p) = kind
      \<and> op_batch_ids st ! kind = Some (mp_batch_id p) \<and> op_page_counts st ! kind = mp_page_count p"
    and "sorted_wrt (<) (map mp_page_number qs)"
    and "\<forall>x \<in> fst ` set (op_pages st). \<forall>p \<in> set qs. x < (kind, mp_page_number p)"
  shows "try_fold (order_page jcs blake3) st qs = Inr (st \<lparr> op_pages := op_pages st @ keyed kind qs \<rparr>)"
  using assms
proof (induction qs arbitrary: st)
  case (Cons p qs)
  let ?st = "st \<lparr> op_pages := op_pages st @ keyed kind [p] \<rparr>"
  have 1: "order_page jcs blake3 st p = Inr ?st"
    by (rule order_page_next) (use Cons.prems in auto)
  have "try_fold (order_page jcs blake3) ?st qs = Inr (?st \<lparr> op_pages := op_pages ?st @ keyed kind qs \<rparr>)"
    by (rule Cons.IH) (use Cons.prems in \<open>auto simp: keyed_def\<close>)
  then show ?case using 1 by (simp add: keyed_def)
qed (simp add: keyed_def)

text \<open>A complete batch, added after batches of smaller kinds.\<close>

lemma batch_pages_numbers:
  assumes "batch_pages jcs blake3 bid sc wrap parts ps"
  shows "sorted_wrt (<) (map mp_page_number ps)"
    "p \<in> set ps \<Longrightarrow> mp_batch_id p = bid \<and> mp_scope p = sc \<and> unat (mp_page_count p) = length ps
       \<and> metadata_page_validate jcs blake3 p = Inr () \<and> (\<exists>part. mp_records p = wrap part)"
    "p \<in> set ps \<Longrightarrow> mp_page_count p = mp_page_count (hd ps)"
proof -
  show "sorted_wrt (<) (map mp_page_number ps)"
    using assms by (auto simp: batch_pages_def sorted_wrt_iff_nth_less word_less_nat_alt)
  show p: "mp_batch_id p = bid \<and> mp_scope p = sc \<and> unat (mp_page_count p) = length ps
       \<and> metadata_page_validate jcs blake3 p = Inr () \<and> (\<exists>part. mp_records p = wrap part)" if "p \<in> set ps" for p
    using assms that by (auto simp: batch_pages_def in_set_conv_nth)
  have "hd ps \<in> set ps" using assms by (simp add: batch_pages_def)
  then show "mp_page_count p = mp_page_count (hd ps)" if "p \<in> set ps" using p [OF that] p [of "hd ps"] by (simp add: word_unat_eq_iff)
qed

lemma order_batch:
  assumes b: "batch_pages jcs blake3 bid sc wrap parts ps" and kind: "\<And>part. metadata_kind_index (records_kind (wrap part)) = kind"
    and ids: "op_batch_ids st ! kind = None" and len: "kind < length (op_batch_ids st)" "kind < length (op_page_counts st)"
    and new: "\<forall>x \<in> fst ` set (op_pages st). fst x < kind"
  shows "try_fold (order_page jcs blake3) st ps =
    Inr (st \<lparr> op_pages := op_pages st @ keyed kind ps, op_batch_ids := (op_batch_ids st)[kind := Some bid],
              op_page_counts := (op_page_counts st)[kind := mp_page_count (hd ps)] \<rparr>)"
proof -
  obtain p qs where ps: "ps = p # qs" using b by (cases ps) (auto simp: batch_pages_def)
  note n = batch_pages_numbers [OF b]
  have k: "metadata_kind_index (page_kind q) = kind" if "q \<in> set ps" for q
    using n(2) [OF that] kind by (auto simp: page_kind_def)
  let ?st = "st \<lparr> op_pages := op_pages st @ keyed kind [p], op_batch_ids := (op_batch_ids st)[kind := Some bid],
      op_page_counts := (op_page_counts st)[kind := mp_page_count p] \<rparr>"
  have before: "\<forall>x \<in> fst ` set (op_pages st). x < (kind, mp_page_number p)" using new by (auto simp: less_prod_def)
  have p: "metadata_page_validate jcs blake3 p = Inr ()" "mp_batch_id p = bid" using n(2) [of p] by (simp_all add: ps)
  have 1: "order_page jcs blake3 st p = Inr ?st"
    using order_page_first [OF p(1) k ids len before] p(2) by (simp add: ps)
  have "try_fold (order_page jcs blake3) ?st qs = Inr (?st \<lparr> op_pages := op_pages ?st @ keyed kind qs \<rparr>)"
  proof (rule order_batch_rest)
    show "\<forall>q \<in> set qs. metadata_page_validate jcs blake3 q = Inr () \<and> metadata_kind_index (page_kind q) = kind
        \<and> op_batch_ids ?st ! kind = Some (mp_batch_id q) \<and> op_page_counts ?st ! kind = mp_page_count q"
    proof
      fix q assume q: "q \<in> set qs"
      show "metadata_page_validate jcs blake3 q = Inr () \<and> metadata_kind_index (page_kind q) = kind
        \<and> op_batch_ids ?st ! kind = Some (mp_batch_id q) \<and> op_page_counts ?st ! kind = mp_page_count q"
        using n(2) [of q] n(3) [of q] k [of q] len q by (simp add: ps)
    qed
    show "sorted_wrt (<) (map mp_page_number qs)" using n(1) by (simp add: ps)
    show "\<forall>x \<in> fst ` set (op_pages ?st). \<forall>q \<in> set qs. x < (kind, mp_page_number q)"
      using n(1) new by (auto simp: ps keyed_def)
  qed
  then show ?thesis using 1 by (simp add: ps keyed_def)
qed

definition start_pages :: ordered_pages where
  "start_pages = \<lparr> op_pages = [], op_batch_ids = [None, None, None], op_page_counts = [0, 0, 0] \<rparr>"

lemma order_three_batches:
  assumes m: "batch_pages jcs blake3 mid sc ManifestRecords mparts mps"
    and x: "batch_pages jcs blake3 xid sc IndexDeltaRecords xparts xps"
    and r: "batch_pages jcs blake3 rid sc ObjectReceiptRecords rparts rps"
  shows "try_fold (order_page jcs blake3) start_pages (mps @ xps @ rps) =
    Inr \<lparr> op_pages = keyed 0 mps @ keyed 1 xps @ keyed 2 rps, op_batch_ids = [Some mid, Some xid, Some rid],
          op_page_counts = [mp_page_count (hd mps), mp_page_count (hd xps), mp_page_count (hd rps)] \<rparr>"
proof -
  let ?s1 = "\<lparr> op_pages = keyed 0 mps, op_batch_ids = [Some mid, None, None], op_page_counts = [mp_page_count (hd mps), 0, 0] \<rparr>"
  let ?s2 = "\<lparr> op_pages = keyed 0 mps @ keyed 1 xps, op_batch_ids = [Some mid, Some xid, None],
      op_page_counts = [mp_page_count (hd mps), mp_page_count (hd xps), 0] \<rparr>"
  have "try_fold (order_page jcs blake3) start_pages mps = Inr ?s1"
    using order_batch [OF m, of 0 start_pages] by (simp add: start_pages_def)
  moreover have "try_fold (order_page jcs blake3) ?s1 xps = Inr ?s2"
    using order_batch [OF x, of 1 ?s1] by (simp add: keyed_def)
  moreover have "try_fold (order_page jcs blake3) ?s2 rps =
    Inr \<lparr> op_pages = keyed 0 mps @ keyed 1 xps @ keyed 2 rps, op_batch_ids = [Some mid, Some xid, Some rid],
          op_page_counts = [mp_page_count (hd mps), mp_page_count (hd xps), mp_page_count (hd rps)] \<rparr>"
    using order_batch [OF r, of 2 ?s2] by (simp add: keyed_def numeral_2_eq_2 ball_Un)
  ultimately show ?thesis by (simp add: try_fold_append)
qed

lemma batch_complete:
  assumes "batch_pages jcs blake3 bid sc wrap parts ps" "n < unat (mp_page_count (hd ps))"
  shows "(kind, of_nat n) \<in> fst ` set (keyed kind ps)"
proof -
  have "hd ps \<in> set ps" using assms(1) by (simp add: batch_pages_def)
  then have n: "n < length ps" using batch_pages_numbers(2) [OF assms(1)] assms(2) by simp
  then have "unat (mp_page_number (ps ! n)) = n" using assms(1) by (simp add: batch_pages_def)
  moreover have "mp_page_number (ps ! n) = of_nat (unat (mp_page_number (ps ! n)))" by simp
  ultimately have "mp_page_number (ps ! n) = of_nat n" by simp
  then show ?thesis using n by (auto simp: keyed_def image_image intro!: image_eqI [of _ _ "ps ! n"])
qed

lemma three_batches_complete:
  assumes m: "batch_pages jcs blake3 mid sc ManifestRecords mparts mps"
    and x: "batch_pages jcs blake3 xid sc IndexDeltaRecords xparts xps"
    and r: "batch_pages jcs blake3 rid sc ObjectReceiptRecords rparts rps"
  shows "pages_complete \<lparr> op_pages = keyed 0 mps @ keyed 1 xps @ keyed 2 rps, op_batch_ids = ids,
          op_page_counts = [mp_page_count (hd mps), mp_page_count (hd xps), mp_page_count (hd rps)] \<rparr>"
  using batch_complete [OF m, of _ 0] batch_complete [OF x, of _ 1] batch_complete [OF r, of _ 2]
  by (auto simp: pages_complete_def list_all_iff image_Un numeral_2_eq_2)

lemma bt_values_keyed: "bt_values (keyed kind ps) = ps"
  by (simp add: bt_values_def keyed_def comp_def)

lemma collect_batch:
  assumes b: "batch_pages jcs blake3 bid sc wrap parts ps"
    and step: "\<And>st p part. mp_records p = wrap part \<Longrightarrow> collect_page st p = try_fold f st part"
  shows "try_fold collect_page st ps = try_fold f st (concat parts)"
proof -
  have "list_all2 (\<lambda>p part. mp_records p = wrap part) ps parts"
    using b by (auto simp: batch_pages_def list_all2_conv_all_nth)
  then show ?thesis
  proof (induction arbitrary: st)
    case (Cons p ps part parts)
    then show ?case by (simp add: step try_fold_append)
  qed simp
qed

section \<open>Collecting the records again\<close>

lemma fragment_chunks_wire:
  assumes "\<forall>c \<in> set cs. chunk_validate c = Inr ()"
  shows "fragment_chunks (map wire_chunk cs) = Inr cs"
proof -
  have "try_fold (\<lambda>acc c. and_then (invalid_publication (chunk_new (wc_object_id c) (wc_offset c) (wc_size c)))
       (\<lambda>chunk. Inr (acc @ [chunk]))) acc (map wire_chunk cs) = (Inr (acc @ cs) :: chunk_ref list protocol_result)" for acc
    using assms
  proof (induction cs arbitrary: acc)
    case (Cons c cs)
    have "chunk_new (wc_object_id (wire_chunk c)) (wc_offset (wire_chunk c)) (wc_size (wire_chunk c)) = Inr c"
      using Cons.prems by (cases c) (simp add: chunk_new_def wire_chunk_def)
    then show ?case using Cons by (simp add: invalid_publication_def)
  qed simp
  then show ?thesis by (simp add: fragment_chunks_def)
qed

text \<open>The fragments of a manifest by their first chunk.\<close>

definition fragment_map :: "manifest \<Rightarrow> (u64, chunk_ref list) btree_map" where
  "fragment_map m = (if m_chunks m = [] then [(0, [])]
     else map (\<lambda>(i, c). (of_nat (i * MAX_RECORDS_PER_PAGE), c)) (enumerate 0 (chunks_of MAX_RECORDS_PER_PAGE (m_chunks m))))"

definition fragments_of :: "manifest \<Rightarrow> publication_manifest_fragments" where
  "fragments_of m = \<lparr> pf_total_size = m_total_size m, pf_chunking = m_chunking m, pf_chunks_by_start = fragment_map m \<rparr>"

lemma chunking_wire [simp]: "chunking_of_wire (wire_of_chunking c) = c"
  by (cases c) simp_all

lemma u64_of_nat_less:
  assumes "u64_try_from a = Some x" "u64_try_from b = Some y" shows "x < y \<longleftrightarrow> a < b"
  using assms by (simp add: u64_try_from_eq_Some word_less_nat_alt)

lemma collect_fragment_next:
  assumes "fragment_chunks (mr_chunks r) = Inr cs" "mr_manifest_id r = i" "mr_total_size r = t" "chunking_of_wire (mr_chunking r) = ch"
    and "bt_get (px_fragments st) i = Some \<lparr> pf_total_size = t, pf_chunking = ch, pf_chunks_by_start = fm \<rparr>"
    and "\<forall>x \<in> fst ` set fm. x < mr_chunk_start r"
  shows "collect_fragment st r = Inr (st \<lparr> px_fragments := bt_insert i
     \<lparr> pf_total_size = t, pf_chunking = ch, pf_chunks_by_start = fm @ [(mr_chunk_start r, cs)] \<rparr> (px_fragments st) \<rparr>)"
proof -
  have "mr_chunk_start r \<notin> fst ` set fm" using assms(6) by blast
  then show ?thesis
    using assms(1-5) bt_insert_last [OF assms(6)] by (simp add: collect_fragment_def Let_def)
qed

lemma collect_fragment_first:
  assumes "fragment_chunks (mr_chunks r) = Inr cs" "mr_manifest_id r = i" "bt_get (px_fragments st) i = None"
  shows "collect_fragment st r = Inr (st \<lparr> px_fragments := bt_insert i
     \<lparr> pf_total_size = mr_total_size r, pf_chunking = chunking_of_wire (mr_chunking r),
       pf_chunks_by_start = [(mr_chunk_start r, cs)] \<rparr> (px_fragments st) \<rparr>)"
  using assms by (simp add: collect_fragment_def Let_def)

abbreviation joined_fragments :: "manifest \<Rightarrow> (u64, chunk_ref list) btree_map \<Rightarrow> publication_manifest_fragments" where
  "joined_fragments m fm \<equiv> \<lparr> pf_total_size = m_total_size m, pf_chunking = m_chunking m, pf_chunks_by_start = fm \<rparr>"

lemma collect_fragments_from:
  assumes "list_all2 (\<lambda>nc r. manifest_fragment i m nc = Inr r) (enumerate k css) rs"
    and "\<forall>cs \<in> set css. \<forall>c \<in> set cs. chunk_validate c = Inr ()" and "bt_ok base"
    and "\<forall>x \<in> fst ` set fm. unat x < k * MAX_RECORDS_PER_PAGE"
  shows "try_fold collect_fragment (st \<lparr> px_fragments := bt_insert i (joined_fragments m fm) base \<rparr>) rs =
    Inr (st \<lparr> px_fragments := bt_insert i (joined_fragments m
      (fm @ map (\<lambda>(n, c). (of_nat (n * MAX_RECORDS_PER_PAGE), c)) (enumerate k css))) base \<rparr>)"
  using assms
proof (induction css arbitrary: k rs fm)
  case (Cons cs css)
  obtain r rs' where rs: "rs = r # rs'" "manifest_fragment i m (k, cs) = Inr r"
      "list_all2 (\<lambda>nc r. manifest_fragment i m nc = Inr r) (enumerate (Suc k) css) rs'"
    using Cons.prems(1) by (auto simp: list_all2_Cons1)
  obtain s where s: "u64_try_from (k * MAX_RECORDS_PER_PAGE) = Some s"
    and r: "r = \<lparr> mr_manifest_id = i, mr_total_size = m_total_size m, mr_chunking = wire_of_chunking (m_chunking m),
            mr_chunk_start = s, mr_chunks = map wire_chunk cs, mr_extensions = [] \<rparr>"
    using rs(2) by (auto simp: manifest_fragment_def)
  have us: "unat s = k * MAX_RECORDS_PER_PAGE" using s by (simp add: u64_try_from_eq_Some)
  have so: "s = of_nat (k * MAX_RECORDS_PER_PAGE)" using us [symmetric] by simp
  have "collect_fragment (st \<lparr> px_fragments := bt_insert i (joined_fragments m fm) base \<rparr>) r =
      Inr (st \<lparr> px_fragments := bt_insert i (joined_fragments m (fm @ [(s, cs)])) base \<rparr>)"
    using collect_fragment_next [of r cs i "m_total_size m" "m_chunking m" "st \<lparr> px_fragments := bt_insert i (joined_fragments m fm) base \<rparr>" fm]
      Cons.prems(2,3,4) us by (auto simp: r fragment_chunks_wire word_less_nat_alt)
  moreover have "try_fold collect_fragment (st \<lparr> px_fragments := bt_insert i (joined_fragments m (fm @ [(s, cs)])) base \<rparr>) rs' =
      Inr (st \<lparr> px_fragments := bt_insert i (joined_fragments m
        ((fm @ [(s, cs)]) @ map (\<lambda>(n, c). (of_nat (n * MAX_RECORDS_PER_PAGE), c)) (enumerate (Suc k) css))) base \<rparr>)"
    by (rule Cons.IH [OF rs(3)]) (use Cons.prems us in \<open>auto simp: MAX_RECORDS_PER_PAGE_def\<close>)
  ultimately show ?case by (simp add: rs(1) so)
qed simp

lemma manifest_chunks_valid:
  assumes "manifest_validate m = Inr ()" "c \<in> set (m_chunks m)" shows "chunk_validate c = Inr ()"
proof -
  have "try_fold manifest_step s cs = Inr t \<Longrightarrow> c \<in> set cs \<Longrightarrow> chunk_validate c = Inr ()" for s t cs
    by (induction cs arbitrary: s) (auto simp: manifest_step_def)
  then show ?thesis using assms by (auto simp: manifest_validate_def)
qed

lemma collect_manifest_fragments:
  assumes v: "manifest_validate m = Inr ()" and f: "manifest_fragments blake3 m = Inr frs"
    and ok: "bt_ok (px_fragments st)" and new: "bt_get (px_fragments st) (id_of_manifest blake3 m) = None"
  shows "try_fold collect_fragment st frs =
    Inr (st \<lparr> px_fragments := bt_insert (id_of_manifest blake3 m) (fragments_of m) (px_fragments st) \<rparr>)"
proof -
  let ?i = "id_of_manifest blake3 m"
  have i: "manifest_id blake3 m = Inr ?i" using v by (simp add: manifest_id_eq id_of_manifest_def)
  show ?thesis
  proof (cases "m_chunks m")
    case Nil
    then show ?thesis
      using f new collect_fragment_first [of _ "[]" ?i st]
      by (auto simp: manifest_fragments_def i fragments_of_def fragment_map_def fragment_chunks_def)
  next
    case (Cons c0 cs0)
    define css where "css = chunks_of MAX_RECORDS_PER_PAGE (m_chunks m)"
    have con: "concat css = m_chunks m" by (simp add: css_def concat_chunks_of MAX_RECORDS_PER_PAGE_def)
    have valid: "\<forall>cs \<in> set css. \<forall>c \<in> set cs. chunk_validate c = Inr ()"
      using manifest_chunks_valid [OF v] con by (metis (full_types) UN_I set_concat)
    obtain cs css' where css: "css = cs # css'" using con Cons by (cases css) auto
    have "list_all2 (\<lambda>nc r. manifest_fragment ?i m nc = Inr r) (enumerate 0 css) frs"
      using f Cons by (simp add: manifest_fragments_def i try_map_iff css_def)
    then obtain r rs where rs: "frs = r # rs" "manifest_fragment ?i m (0, cs) = Inr r"
        "list_all2 (\<lambda>nc r. manifest_fragment ?i m nc = Inr r) (enumerate 1 css') rs"
      by (auto simp: css list_all2_Cons1)
    have r: "r = \<lparr> mr_manifest_id = ?i, mr_total_size = m_total_size m, mr_chunking = wire_of_chunking (m_chunking m),
            mr_chunk_start = 0, mr_chunks = map wire_chunk cs, mr_extensions = [] \<rparr>"
      using rs(2) by (auto simp: manifest_fragment_def u64_try_from_def)
    have "collect_fragment st r = Inr (st \<lparr> px_fragments := bt_insert ?i (joined_fragments m [(0, cs)]) (px_fragments st) \<rparr>)"
      using collect_fragment_first [of r cs ?i st] valid new by (simp add: r fragment_chunks_wire css)
    moreover have "try_fold collect_fragment (st \<lparr> px_fragments := bt_insert ?i (joined_fragments m [(0, cs)]) (px_fragments st) \<rparr>) rs =
        Inr (st \<lparr> px_fragments := bt_insert ?i (joined_fragments m
          ([(0, cs)] @ map (\<lambda>(n, c). (of_nat (n * MAX_RECORDS_PER_PAGE), c)) (enumerate 1 css'))) (px_fragments st) \<rparr>)"
      by (rule collect_fragments_from [OF rs(3)]) (use valid ok in \<open>auto simp: css MAX_RECORDS_PER_PAGE_def\<close>)
    moreover have "fragment_map m = (0, cs) # map (\<lambda>(n, c). (of_nat (n * MAX_RECORDS_PER_PAGE), c)) (enumerate 1 css')"
    proof -
      have "fragment_map m = map (\<lambda>(n, c). (of_nat (n * MAX_RECORDS_PER_PAGE), c)) (enumerate 0 css)"
        using Cons by (simp add: fragment_map_def css_def)
      then show ?thesis by (simp add: css)
    qed
    ultimately show ?thesis by (simp add: rs(1) fragments_of_def)
  qed
qed

definition fragments_pair :: "(byte list \<Rightarrow> content_digest) \<Rightarrow> manifest \<Rightarrow> manifest_id \<times> publication_manifest_fragments" where
  "fragments_pair blake3 m = (id_of_manifest blake3 m, fragments_of m)"

lemma collect_all_fragments:
  assumes "list_all2 (\<lambda>m frs. manifest_fragments blake3 m = Inr frs) ms frss"
    and "\<forall>m \<in> set ms. manifest_validate m = Inr ()" and "distinct (map (id_of_manifest blake3) (pre @ ms))"
  shows "try_fold collect_fragment (st \<lparr> px_fragments := bt_collect (map (fragments_pair blake3) pre) \<rparr>) (concat frss) =
    Inr (st \<lparr> px_fragments := bt_collect (map (fragments_pair blake3) (pre @ ms)) \<rparr>)"
  using assms
proof (induction arbitrary: pre)
  case (Cons m ms frs frss)
  let ?st = "st \<lparr> px_fragments := bt_collect (map (fragments_pair blake3) pre) \<rparr>"
  have "bt_get (px_fragments ?st) (id_of_manifest blake3 m) = None"
    using Cons.prems(2) by (auto simp: bt_get_None_iff fragments_pair_def)
  then have "try_fold collect_fragment ?st frs =
      Inr (st \<lparr> px_fragments := bt_collect (map (fragments_pair blake3) (pre @ [m])) \<rparr>)"
    using collect_manifest_fragments [OF _ Cons.hyps(1), of ?st] Cons.prems(1)
    by (simp add: bt_collect_snoc fragments_pair_def)
  moreover have "try_fold collect_fragment (st \<lparr> px_fragments := bt_collect (map (fragments_pair blake3) (pre @ [m])) \<rparr>) (concat frss) =
      Inr (st \<lparr> px_fragments := bt_collect (map (fragments_pair blake3) ((pre @ [m]) @ ms)) \<rparr>)"
    by (rule Cons.IH) (use Cons.prems in auto)
  ultimately show ?case by (simp add: try_fold_append)
qed simp

lemma collect_mutations:
  assumes "\<forall>m \<in> set ms. mutation_validate m = Inr ()"
  shows "try_fold collect_mutation st (map delta_record ms) = Inr (st \<lparr> px_mutations := px_mutations st @ ms \<rparr>)"
  using assms
proof (induction ms arbitrary: st)
  case (Cons m ms)
  have "wire_mutation (delta_record m) = Inr m"
  proof (cases m)
    case (Upsert x)
    then show ?thesis using Cons.prems by (cases x) (simp add: file_record_new_def invalid_publication_def Let_def)
  qed simp
  then show ?case using Cons by (simp add: collect_mutation_def)
qed simp

lemma collect_receipts:
  assumes "list_all2 (\<lambda>s r. or_object_id r = os_id s \<and> or_size r = os_size s) os rs"
    and "distinct (map os_id (pre @ os))" and "distinct (ids @ map or_receipt_id rs)"
    and "px_object_specs st = bt_collect (map spec_pair pre)" "set (px_receipt_ids st) = set ids"
  shows "\<exists>ids'. try_fold collect_receipt st rs =
    Inr (st \<lparr> px_receipt_ids := ids', px_object_specs := bt_collect (map spec_pair (pre @ os)) \<rparr>)"
  using assms
proof (induction arbitrary: pre ids st)
  case Nil
  then show ?case by (intro exI [of _ "px_receipt_ids st"]) simp
next
  case (Cons s os r rs)
  let ?st = "st \<lparr> px_receipt_ids := bts_insert (or_receipt_id r) (px_receipt_ids st),
      px_object_specs := bt_collect (map spec_pair (pre @ [s])) \<rparr>"
  have "os_id s \<notin> fst ` set (bt_collect (map spec_pair pre))"
    using Cons.prems(1) by (auto simp: spec_pair_def)
  moreover have "spec_pair s = (os_id s, os_size s)" by (simp add: spec_pair_def)
  ultimately have 1: "collect_receipt st r = Inr ?st"
    using Cons.hyps(1) Cons.prems by (simp add: collect_receipt_def bt_collect_snoc)
  have "\<exists>ids'. try_fold collect_receipt ?st rs =
      Inr (?st \<lparr> px_receipt_ids := ids', px_object_specs := bt_collect (map spec_pair ((pre @ [s]) @ os)) \<rparr>)"
    by (rule Cons.IH [where ids = "ids @ [or_receipt_id r]"]) (use Cons.prems in auto)
  then show ?case using 1 by simp
qed

section \<open>Assembling the publication again\<close>

lemma word_add_nat_Some: "a + b < 2 ^ 64 \<Longrightarrow> checked_add (of_nat a :: u64) (of_nat b) = Some (of_nat (a + b))"
proof -
  assume "a + b < 2 ^ 64"
  then have "unat (of_nat a :: u64) = a" "unat (of_nat b :: u64) = b" "unat (of_nat (a + b) :: u64) = a + b"
    by (simp_all only: fits_word [symmetric]) auto
  then show ?thesis by (simp only: checked_add_eq_Some)
qed

lemma join_fragments:
  assumes "0 < n" "k * n + length xs < 2 ^ 64"
  shows "\<exists>s. try_fold join_fragment (of_nat (k * n), acc) (map (\<lambda>(i, c). (of_nat (i * n), c)) (enumerate k (chunks_of n xs)))
    = Inr (s, acc @ xs)"
  using assms
proof (induction n xs arbitrary: k acc rule: chunks_of.induct)
  case (1 n xs)
  show ?case
  proof (cases "xs = []")
    case False
    let ?t = "take n xs" and ?d = "drop n xs"
    have len: "k * n + length ?t < 2 ^ 64" using 1(3) by simp
    have u: "u64_try_from (length ?t) = Some (of_nat (length ?t))" using len by (simp add: u64_try_from_def)
    have step: "join_fragment (of_nat (k * n), acc) (of_nat (k * n), ?t) = Inr (of_nat (k * n + length ?t), acc @ ?t)"
      unfolding join_fragment_def prod.case u using word_add_nat_Some [OF len] by simp
    have cs: "chunks_of n xs = ?t # chunks_of n ?d" using False 1(2) by (subst chunks_of.simps) simp
    show ?thesis
    proof (cases "?d = []")
      case True
      then show ?thesis using step cs by (simp del: of_nat_mult)
    next
      case more: False
      then have lt: "length ?t = n" by simp
      have "\<exists>s. try_fold join_fragment (of_nat (Suc k * n), acc @ ?t)
          (map (\<lambda>(i, c). (of_nat (i * n), c)) (enumerate (Suc k) (chunks_of n ?d))) = Inr (s, (acc @ ?t) @ ?d)"
        using False 1(2,3) more by (intro 1(1)) auto
      moreover have "k * n + length ?t = Suc k * n" using lt by simp
      ultimately show ?thesis using step cs by (simp del: of_nat_mult mult_Suc)
    qed
  qed simp
qed

lemma join_fragment_map:
  assumes "manifest_validate m = Inr ()"
  shows "\<exists>s. try_fold join_fragment (0, []) (fragment_map m) = Inr (s, m_chunks m)"
proof (cases "m_chunks m = []")
  case True
  then show ?thesis by (simp add: fragment_map_def join_fragment_def u64_try_from_def checked_add_def)
next
  case False
  then show ?thesis
    using join_fragments [of MAX_RECORDS_PER_PAGE 0 "m_chunks m" "[]"] manifest_chunk_count_ok(2) [OF assms]
    by (simp add: fragment_map_def MAX_RECORDS_PER_PAGE_def del: of_nat_mult)
qed

lemma join_objects:
  assumes "sizes_agree (pre @ cs)"
  shows "try_fold join_object (bt_collect (map chunk_pair pre)) cs = Inr (bt_collect (map chunk_pair (pre @ cs)))"
proof -
  have "join_object s c = map_err (\<lambda>_. PeInvalidField) (collect_chunk s c)" for s c
    by (simp add: join_object_def collect_chunk_def split: option.split)
  then have "try_fold join_object s cs = map_err (\<lambda>_. PeInvalidField) (try_fold collect_chunk s cs)" for s
    by (rule try_fold_map_err)
  moreover have "try_fold collect_chunk (bt_collect (map chunk_pair pre)) cs = Inr (bt_collect (map chunk_pair (pre @ cs)))"
    using collect_chunks_iff [OF sizes_agree_prefix [OF assms]] assms by blast
  ultimately show ?thesis by simp
qed

lemma join_manifests:
  assumes "manifests_collect blake3 (pre @ ms)"
  shows "try_fold (join_manifest blake3) (collected blake3 pre) (map (fragments_pair blake3) ms) = Inr (collected blake3 (pre @ ms))"
  using assms
proof (induction ms arbitrary: pre)
  case (Cons m ms)
  have v: "manifest_validate m = Inr ()" using Cons.prems by (simp add: manifests_collect_def)
  obtain s where s: "try_fold join_fragment (0, []) (fragment_map m) = Inr (s, m_chunks m)"
    using join_fragment_map [OF v] by blast
  have new: "manifest_new (m_total_size m) (m_chunking m) (m_chunks m) = Inr m"
    using v by (cases m) (simp add: manifest_new_def)
  have i: "manifest_id blake3 m = Inr (id_of_manifest blake3 m)" using v by (simp add: manifest_id_eq id_of_manifest_def)
  have agree: "sizes_agree (all_chunks pre @ m_chunks m)"
    using Cons.prems sizes_agree_prefix [of "all_chunks pre @ m_chunks m" "all_chunks ms"]
    by (simp add: manifests_collect_def all_chunks_def)
  have "join_manifest blake3 (collected blake3 pre) (fragments_pair blake3 m) = Inr (collected blake3 (pre @ [m]))"
    using s new i join_objects [OF agree]
    by (simp add: join_manifest_def collected_def fragments_pair_def fragments_of_def invalid_publication_def
        bt_collect_snoc manifest_pair_def all_chunks_def)
  then show ?case using Cons.IH [of "pre @ [m]"] Cons.prems by simp
qed simp

lemma bt_insert_map_values:
  "bt_insert k (g k v) (map (\<lambda>(k, v). (k, g k v)) m) = map (\<lambda>(k, v). (k, g k v)) (bt_insert k v m)"
  by (induction k v m rule: bt_insert.induct) auto

lemma bt_collect_map_values:
  "bt_collect (map (\<lambda>(k, v). (k, g k v)) kvs) = map (\<lambda>(k, v). (k, g k v)) (bt_collect kvs)"
proof (induction kvs rule: rev_induct)
  case (snoc kv kvs)
  then show ?case by (cases kv) (simp add: bt_collect_snoc bt_insert_map_values)
qed (simp add: bt_collect_def)

text \<open>The manifests of a publication in the order of their identities.\<close>

definition by_identity :: "(byte list \<Rightarrow> content_digest) \<Rightarrow> manifest list \<Rightarrow> manifest list" where
  "by_identity blake3 ms = bt_values (bt_collect (map (manifest_pair blake3) ms))"

lemma by_identity_collected:
  assumes "distinct (map (id_of_manifest blake3) ms)"
  shows "bt_collect (map (manifest_pair blake3) ms) = map (manifest_pair blake3) (by_identity blake3 ms)"
    "set (by_identity blake3 ms) = set ms" "distinct (map (id_of_manifest blake3) (by_identity blake3 ms))"
    "bt_collect (map (fragments_pair blake3) ms) = map (fragments_pair blake3) (by_identity blake3 ms)"
    "bt_collect (map (manifest_pair blake3) (by_identity blake3 ms)) = bt_collect (map (manifest_pair blake3) ms)"
proof -
  let ?c = "bt_collect (map (manifest_pair blake3) ms)"
  have pair_eqs: "fragments_pair blake3 = (\<lambda>m. (id_of_manifest blake3 m, fragments_of m))"
    "manifest_pair blake3 = (\<lambda>m. (id_of_manifest blake3 m, m))"
    by (simp_all add: fun_eq_iff fragments_pair_def manifest_pair_def)
  have fn: "\<forall>p \<in> set (map (manifest_pair blake3) ms). \<forall>q \<in> set (map (manifest_pair blake3) ms). fst p = fst q \<longrightarrow> snd p = snd q"
    using assms by (auto simp: manifest_pair_def distinct_map inj_on_def)
  have set: "set ?c = set (map (manifest_pair blake3) ms)" by (rule set_bt_collect_functional [OF fn])
  then have pair: "\<forall>kv \<in> set ?c. kv = manifest_pair blake3 (snd kv)" by (auto simp: manifest_pair_def)
  then show c: "?c = map (manifest_pair blake3) (by_identity blake3 ms)"
    by (simp add: by_identity_def bt_values_def comp_def map_idI)
  show s: "set (by_identity blake3 ms) = set ms" using set by (force simp: by_identity_def bt_values_def manifest_pair_def)
  have "map fst ?c = map (id_of_manifest blake3) (by_identity blake3 ms)"
    by (subst c) (simp add: manifest_pair_def comp_def)
  then show "distinct (map (id_of_manifest blake3) (by_identity blake3 ms))" using bt_ok_distinct [OF bt_ok_collect] by metis
  have "bt_collect (map (fragments_pair blake3) ms) = map (\<lambda>(k, v). (k, fragments_of v)) ?c"
    using bt_collect_map_values [of "\<lambda>_. fragments_of" "map (manifest_pair blake3) ms"]
    by (simp add: pair_eqs comp_def)
  also have "\<dots> = map (fragments_pair blake3) (by_identity blake3 ms)"
    by (subst c) (simp only: pair_eqs map_map comp_def prod.case)
  finally show "bt_collect (map (fragments_pair blake3) ms) = map (fragments_pair blake3) (by_identity blake3 ms)" .
  have fn': "\<forall>p \<in> set (map (manifest_pair blake3) (by_identity blake3 ms)).
      \<forall>q \<in> set (map (manifest_pair blake3) (by_identity blake3 ms)). fst p = fst q \<longrightarrow> snd p = snd q"
    using fn unfolding set_map s .
  show "bt_collect (map (manifest_pair blake3) (by_identity blake3 ms)) = ?c"
    by (rule bt_collect_eq_functional [OF fn' fn, THEN iffD2]) (simp only: set_map s)
qed

lemma sizes_agree_set: "set cs = set ds \<Longrightarrow> sizes_agree cs \<longleftrightarrow> sizes_agree ds"
  by (simp only: sizes_agree_def)

lemma by_identity_collect:
  assumes "manifests_collect blake3 ms" shows "manifests_collect blake3 (by_identity blake3 ms)"
proof -
  have d: "distinct (map (id_of_manifest blake3) ms)" using assms by (simp add: manifests_collect_def)
  have "set (all_chunks (by_identity blake3 ms)) = set (all_chunks ms)"
    by (simp add: all_chunks_def by_identity_collected(2) [OF d])
  from sizes_agree_set [OF this] show ?thesis
    using assms by_identity_collected(3) [OF d] unfolding manifests_collect_def by_identity_collected(2) [OF d] by blast
qed

text \<open>The objects of a publication in the order of their identities.\<close>

definition by_object :: "object_spec list \<Rightarrow> object_spec list" where
  "by_object os = map (\<lambda>(i, sz). \<lparr> os_id = i, os_size = sz \<rparr>) (bt_collect (map spec_pair os))"

lemma spec_pairs_by_object: "map spec_pair (by_object os) = bt_collect (map spec_pair os)"
  by (simp add: by_object_def spec_pair_def comp_def case_prod_beta)

lemma by_object_ids: "distinct (map os_id (by_object os))"
  using bt_ok_distinct [OF bt_ok_collect, of "map spec_pair os"] unfolding map_fst_spec_pair [symmetric] spec_pairs_by_object .

lemma spec_pairs_functional:
  assumes "distinct (map os_id os)"
  shows "\<forall>p \<in> set (map spec_pair os). \<forall>q \<in> set (map spec_pair os). fst p = fst q \<longrightarrow> snd p = snd q"
  using assms by (metis eq_key_imp_eq_value map_fst_spec_pair prod.collapse)

lemma by_object_set:
  assumes "distinct (map os_id os)" shows "spec_pair ` set (by_object os) = spec_pair ` set os"
  using set_bt_collect_functional [OF spec_pairs_functional [OF assms]] unfolding spec_pairs_by_object [symmetric] set_map .

lemma by_object_collect:
  assumes "distinct (map os_id os)" shows "bt_collect (map spec_pair (by_object os)) = bt_collect (map spec_pair os)"
  using bt_collect_eq_functional [OF spec_pairs_functional [OF by_object_ids] spec_pairs_functional [OF assms], THEN iffD2]
    by_object_set [OF assms]
  by (simp only: set_map)

lemma referenced_manifests_upserts: "referenced_manifests ms = bts_collect (map fr_manifest_id (upserts ms))"
proof -
  have "concat (map (\<lambda>m. case m of Upsert r \<Rightarrow> [fr_manifest_id r] | Delete _ \<Rightarrow> []) ms) = map fr_manifest_id (upserts ms)"
    by (induction ms) (auto simp: upserts_def split: index_mutation.split)
  then show ?thesis by (simp add: referenced_manifests_def)
qed

lemma wire_upsert_matches_iff:
  assumes "manifests_collect blake3 ms"
    and "\<exists>m \<in> set ms. id_of_manifest blake3 m = fr_manifest_id r \<and> m_total_size m = fr_total_size r
      \<and> unat (fr_chunk_count r) = length (m_chunks m)"
  shows "wire_upsert_matches (bt_collect (map (manifest_pair blake3) ms)) (Upsert r) = Inr ()"
proof -
  obtain m where m: "m \<in> set ms" "id_of_manifest blake3 m = fr_manifest_id r" "m_total_size m = fr_total_size r"
    "unat (fr_chunk_count r) = length (m_chunks m)" using assms(2) by blast
  have "bt_get (bt_collect (map (manifest_pair blake3) ms)) (fr_manifest_id r) = Some m"
    using bt_get_manifest [OF assms(1)] m(1,2) by blast
  moreover have "manifest_chunk_count m = Inr (fr_chunk_count r)"
    using m(4) by (simp add: manifest_chunk_count_def u64_try_from_eq_Some)
  ultimately show ?thesis using m(3) by (simp add: wire_upsert_matches_def invalid_publication_def)
qed

lemma bt_collect_Nil: "bt_collect [] = []"
  by (simp add: bt_collect_def)

lemma assemble_collected:
  assumes c: "publication_closed uni blake3 sc base d ms os" and f: "px_fragments px = bt_collect (map (fragments_pair blake3) ms)"
    and m: "px_mutations px = delta_iter d" and o: "px_object_specs px = bt_collect (map spec_pair os)"
  shows "assemble_publication uni blake3 px = Inr \<lparr> mpub_index_mutations = delta_iter d,
    mpub_manifests = by_identity blake3 ms, mpub_object_specs = by_object os \<rparr>"
proof -
  have mc: "manifests_collect blake3 ms" and d: "distinct (map (id_of_manifest blake3) ms)"
    using c by (simp_all add: publication_closed_def manifests_collect_def)
  have paths: "validate_index_mutation_paths uni (map mutation_path (delta_iter d)) = Inr ()"
    using c by (auto simp: publication_closed_def delta_validate_def is_ok_iff)
  have cs: "set (all_chunks (by_identity blake3 ms)) = set (all_chunks ms)"
    by (simp add: all_chunks_def by_identity_collected(2) [OF d])
  have objs: "bt_collect (map chunk_pair (all_chunks (by_identity blake3 ms))) = bt_collect (map spec_pair os)"
    using objects_equal_iff [of os "all_chunks (by_identity blake3 ms)"] c by_identity_collect [OF mc]
    unfolding publication_closed_def manifests_collect_def cs by simp
  have joined: "try_fold (join_manifest blake3) ([], []) (px_fragments px) =
      Inr (bt_collect (map (manifest_pair blake3) ms), bt_collect (map spec_pair os))"
    using join_manifests [of blake3 "[]" "by_identity blake3 ms"] by_identity_collect [OF mc]
    by (simp add: f by_identity_collected(4,5) [OF d] collected_def objs bt_collect_Nil all_chunks_def [of "[]"])
  have keys: "bt_keys (bt_collect (map (manifest_pair blake3) ms)) = referenced_manifests (delta_iter d)"
    using c by (simp add: manifest_keys referenced_manifests_upserts bts_collect_eq publication_closed_def)
  have "wire_upsert_matches (bt_collect (map (manifest_pair blake3) ms)) mu = Inr ()" if "mu \<in> set (delta_iter d)" for mu
  proof (cases mu)
    case (Upsert r)
    then have "r \<in> set (upserts (delta_iter d))" using that by (simp add: set_upserts)
    then show ?thesis using c Upsert wire_upsert_matches_iff [OF mc] unfolding publication_closed_def by blast
  qed (simp add: wire_upsert_matches_def)
  then have ups: "try_fold (\<lambda>_ m. wire_upsert_matches (bt_collect (map (manifest_pair blake3) ms)) m) () (delta_iter d) = Inr ()"
    unfolding try_fold_unit by blast
  show ?thesis
    by (simp add: assemble_publication_def m o invalid_publication_def paths joined keys ups by_object_def by_identity_def)
qed

end
