(* ===== verification/Agent.thy ===== *)
theory Agent
  imports AgentState
begin

text \<open>
  The agent's state machine (\<open>agent_core/agent.rs\<close>): it claims an assignment in a durable ledger, runs the
  add, reports the prepared candidate, waits for the central decision and acknowledges it.  Every
  collaborator is a port; an operation is a function on the world the ports act on.
\<close>

section \<open>Ports\<close>

type_synonym ('w, 'a) agent_io = "(agent_error_code, 'w, 'a) io"

text \<open>
  The traits of \<open>ports.rs\<close>.  The field \<open>ag_message\<close> is the text of an error that was just raised; it may
  depend on anything in the world.
\<close>

record ('w, 'x) agent_ports =
  ag_claim :: "ledger_claim \<Rightarrow> ('w, claim_outcome) agent_io"
  ag_load :: "assignment_key \<Rightarrow> ('w, ledger_record option) agent_io"
  ag_list_active :: "('w, ledger_record list) agent_io"
  ag_compare_exchange :: "u64 \<Rightarrow> ledger_record \<Rightarrow> ('w, ledger_record) agent_io"
  ag_validate :: "add_assignment \<Rightarrow> u64 \<Rightarrow> ('w, unit) agent_io"
  ag_prepare_add :: "add_assignment \<Rightarrow> ('w, prepared_add) agent_io"
  ag_transfer :: "add_assignment \<Rightarrow> prepared_add \<Rightarrow> ('w, transfer_receipt) agent_io"
  ag_stage_metadata :: "add_assignment \<Rightarrow> transfer_receipt \<Rightarrow> ('w, unit) agent_io"
  ag_finalize :: "add_assignment \<Rightarrow> prepared_add \<Rightarrow> job_decision \<Rightarrow> ('w, unit) agent_io"
  ag_send :: "'x agent_report \<Rightarrow> ('w, unit) agent_io"
  ag_now :: "('w, u64) agent_io"
  ag_message :: "agent_error_code \<Rightarrow> 'w \<Rightarrow> string"

text \<open>\<open>match m \<lbrace> Ok(a) => f(a), Err(e) => return h(e) \<rbrace>\<close>.\<close>

definition io_else :: "('e, 'w, 'a) io \<Rightarrow> ('e \<Rightarrow> ('e, 'w, 'b) io) \<Rightarrow> ('a \<Rightarrow> ('e, 'w, 'b) io) \<Rightarrow> ('e, 'w, 'b) io" where
  "io_else m h f w = (case m w of (Inl e, w') \<Rightarrow> h e w' | (Inr a, w') \<Rightarrow> f a w')"

section \<open>Checks of a record\<close>

definition validate_candidate ::
  "unicode \<Rightarrow> (byte list \<Rightarrow> content_digest) \<Rightarrow> ledger_record \<Rightarrow> prepared_add \<Rightarrow> unit agent_result" where
  "validate_candidate uni blake3 record prepared =
     and_then (from_engine_error (prepared_validate uni blake3 prepared)) (\<lambda>_.
     let a = lr_assignment record; res = pd_resource prepared; expected = as_expected_index_version a;
         matches_scope = res_tenant_id res = id_str (as_tenant_id a) \<and> res_project_id res = id_str (as_project_id a)
           \<and> res_artifact_id res = id_str (as_artifact_id a) \<and> res_workspace_id res = id_str (as_workspace_id a)
           \<and> res_job_id res = id_str (as_job_id a);
         matches_version = iv_revision (pd_base_index_version prepared) = wv_revision expected
           \<and> iv_digest (pd_base_index_version prepared) = wv_digest expected in
     if \<not> matches_scope \<or> \<not> matches_version then Inl AeExecutionFailed
     else if \<not> as_all a
        \<and> \<not> list_all (\<lambda>m. list_ex (\<lambda>scope. scope = mutation_path m \<or> is_ancestor_of scope (mutation_path m)) (as_paths a))
             (delta_iter (pd_index_delta prepared))
     then Inl AeExecutionFailed
     else Inr ())"

definition validate_decision_identity :: "ledger_record \<Rightarrow> job_decision \<Rightarrow> unit agent_result" where
  "validate_decision_identity record d =
     (if jd_job_id d \<noteq> as_job_id (lr_assignment record) \<or> jd_assignment_id d \<noteq> as_assignment_id (lr_assignment record)
         \<or> jd_assignment_generation d \<noteq> as_assignment_generation (lr_assignment record)
      then Inl AeAssignmentMismatch
      else map_err (\<lambda>_. AeAssignmentMismatch) (job_decision_validate d))"

definition validate_publish_result :: "ledger_record \<Rightarrow> job_decision \<Rightarrow> unit agent_result" where
  "validate_publish_result record d =
     (case jd_decision d of
        DecPublish published _ \<Rightarrow>
          and_then (ok_or AeInvalidState (lr_prepared record)) (\<lambda>prepared.
          and_then (ok_or AeInvalidState (checked_add (iv_revision (pd_base_index_version (px_candidate prepared))) 1)) (\<lambda>expected_revision.
          if wv_digest published \<noteq> dl_result_digest (pd_index_delta (px_candidate prepared))
             \<or> wv_revision published \<noteq> expected_revision
          then Inl AeAssignmentMismatch else Inr ()))
      | _ \<Rightarrow> Inr ())"

definition validate_finalized_identity :: "ledger_record \<Rightarrow> job_decision \<Rightarrow> job_finalized \<Rightarrow> unit agent_result" where
  "validate_finalized_identity record d f =
     (if jz_job_id f \<noteq> as_job_id (lr_assignment record) \<or> jz_assignment_id f \<noteq> as_assignment_id (lr_assignment record)
         \<or> jz_assignment_generation f \<noteq> as_assignment_generation (lr_assignment record)
         \<or> jz_decision_generation f \<noteq> jd_decision_generation d \<or> jz_final_state f \<noteq> jd_final_state d
      then Inl AeAssignmentMismatch else Inr ())"

definition validate_failure_identity :: "ledger_record \<Rightarrow> job_failed \<Rightarrow> unit agent_result" where
  "validate_failure_identity record f =
     (if jf_tenant_id f \<noteq> as_tenant_id (lr_assignment record) \<or> jf_job_id f \<noteq> as_job_id (lr_assignment record)
         \<or> jf_assignment_id f \<noteq> as_assignment_id (lr_assignment record)
         \<or> jf_assignment_generation f \<noteq> as_assignment_generation (lr_assignment record)
      then Inl AeAssignmentMismatch
      else map_err (\<lambda>_. AeAssignmentMismatch) (job_failed_validate f))"

definition verify_claim_identity :: "add_assignment \<Rightarrow> ledger_record \<Rightarrow> unit agent_result" where
  "verify_claim_identity a record =
     (if lr_key record \<noteq> key_from_assignment a then Inl AeAssignmentMismatch
      else if lr_request_digest record \<noteq> as_request_digest a then Inl AeJobIdReused
      else if lr_assignment record \<noteq> a then Inl AeAssignmentMismatch
      else Inr ())"

definition is_retryable :: "agent_error_code \<Rightarrow> bool" where
  "is_retryable e \<longleftrightarrow> e \<in> {AeExecutionFailed, AeObjectTransferFailed, AeReportFailed, AeInternal}"

definition is_char_boundary :: "string \<Rightarrow> nat \<Rightarrow> bool" where
  "is_char_boundary s n \<longleftrightarrow> n = 0 \<or> n = length s \<or> (n < length s \<and> \<not> continuation (s ! n))"

function boundary_before :: "string \<Rightarrow> nat \<Rightarrow> nat" where
  "boundary_before s n = (if is_char_boundary s n then n else boundary_before s (n - 1))"
  by pat_completeness auto
termination by (relation "measure snd") (auto simp: is_char_boundary_def)

declare boundary_before.simps [simp del]

definition truncate_message :: "string \<Rightarrow> nat \<Rightarrow> string" where
  "truncate_message s limit = (if length s \<le> limit then s else take (boundary_before s limit) s)"

section \<open>Ledger transitions and reports\<close>

definition persist_transition ::
  "('w, 'x) agent_ports \<Rightarrow> ledger_record \<Rightarrow> agent_assignment_state \<Rightarrow> agent_assignment_state \<Rightarrow> u64
   \<Rightarrow> (ledger_record \<Rightarrow> ledger_record) \<Rightarrow> ('w, ledger_record) agent_io" where
  "persist_transition P current expected target now upd =
     (if lr_state current \<noteq> expected then io_err AeInvalidState
      else ag_compare_exchange P (lr_revision current)
             (upd (current \<lparr> lr_state := target, lr_updated_at_unix_ms := now \<rparr>)))"

definition load_required :: "('w, 'x) agent_ports \<Rightarrow> assignment_key \<Rightarrow> ('w, ledger_record) agent_io" where
  "load_required P key = io_then (ag_load P key) (\<lambda>r. io_of (ok_or AeAssignmentNotFound r))"

definition validate_active_assignment :: "('w, 'x) agent_ports \<Rightarrow> ledger_record \<Rightarrow> ('w, u64) agent_io" where
  "validate_active_assignment P record =
     io_then (ag_now P) (\<lambda>now. io_then (ag_validate P (lr_assignment record) now) (\<lambda>_. io_ok now))"

definition accepted_report :: "ledger_record \<Rightarrow> u64 \<Rightarrow> job_accepted" where
  "accepted_report record accepted_at =
     (let a = lr_assignment record in
      \<lparr> ja_job_id = as_job_id a, ja_task_fence = as_task_fence a, ja_assignment_id = as_assignment_id a,
        ja_assignment_generation = as_assignment_generation a, ja_accepted_at_unix_ms = accepted_at,
        ja_request_digest = lr_request_digest record, ja_extensions = [] \<rparr>)"

definition send_accepted :: "('w, 'x) agent_ports \<Rightarrow> ledger_record \<Rightarrow> ('w, unit) agent_io" where
  "send_accepted P record =
     io_then (io_of (ok_or AeInvalidState (lr_accepted_at_unix_ms record))) (\<lambda>accepted_at.
     ag_send P (ReportAccepted (accepted_report record accepted_at)))"

definition running_report :: "ledger_record \<Rightarrow> job_progress" where
  "running_report record =
     (let a = lr_assignment record in
      \<lparr> jp_job_id = as_job_id a, jp_task_fence = as_task_fence a, jp_assignment_id = as_assignment_id a,
        jp_assignment_generation = as_assignment_generation a, jp_state = JsRunning, jp_phase = ''prepare_add'',
        jp_files_completed = 0, jp_bytes_completed = 0, jp_retry_after_ms = None, jp_extensions = [] \<rparr>)"

definition send_running :: "('w, 'x) agent_ports \<Rightarrow> ledger_record \<Rightarrow> ('w, unit) agent_io" where
  "send_running P record = ag_send P (ReportProgress (running_report record))"

definition failure_of ::
  "ledger_record \<Rightarrow> job_failure_stage \<Rightarrow> error_code_text \<Rightarrow> agent_error_code \<Rightarrow> string \<Rightarrow> u64 \<Rightarrow> job_failed" where
  "failure_of record stage wire_code e message now =
     (let a = lr_assignment record in
      \<lparr> jf_tenant_id = as_tenant_id a, jf_job_id = as_job_id a, jf_task_fence = as_task_fence a,
        jf_assignment_id = as_assignment_id a, jf_assignment_generation = as_assignment_generation a,
        jf_final_state = JsFailed, jf_failed_at_unix_ms = now, jf_stage = stage,
        jf_error = \<lparr> ce_code = wire_code, ce_message = truncate_message message 4096, ce_retryable = is_retryable e,
                     ce_retry_after_ms = None, ce_extensions = [] \<rparr>,
        jf_extensions = [] \<rparr>)"

definition record_failure ::
  "('w, 'x) agent_ports \<Rightarrow> ledger_record \<Rightarrow> job_failure_stage \<Rightarrow> agent_error_code \<Rightarrow> string \<Rightarrow> ('w, unit) agent_io" where
  "record_failure P record stage e message =
     io_then (ag_now P) (\<lambda>now.
     io_then (io_of (from_protocol_error (error_code_new (agent_error_str e)))) (\<lambda>wire_code.
     let failure = failure_of record stage wire_code e message now in
     io_then (io_of (from_protocol_error (job_failed_validate failure))) (\<lambda>_.
     io_then (persist_transition P record (lr_state record) FailedReported now (\<lambda>nxt. nxt \<lparr> lr_failure := Some failure \<rparr>)) (\<lambda>failed.
     io_then (io_of (ok_or AeInternal (lr_failure failed))) (\<lambda>persisted.
     ag_send P (ReportFailed persisted))))))"

text \<open>The caller returns the error; that recording it failed only changes its text.\<close>

definition persist_failure ::
  "('w, 'x) agent_ports \<Rightarrow> ledger_record \<Rightarrow> job_failure_stage \<Rightarrow> agent_error_code \<Rightarrow> ('w, 'a) agent_io" where
  "persist_failure P record stage e w = (Inl e, snd (record_failure P record stage e (ag_message P e w) w))"

definition report_failure :: "('w, 'x) agent_ports \<Rightarrow> ledger_record \<Rightarrow> ('w, ledger_record) agent_io" where
  "report_failure P record =
     io_then (io_of (ok_or AeInvalidState (lr_failure record))) (\<lambda>failure.
     io_then (io_of (validate_failure_identity record failure)) (\<lambda>_.
     io_then (ag_send P (ReportFailed failure)) (\<lambda>_. io_ok record)))"

section \<open>The prepared candidate\<close>

definition prepared_report ::
  "unicode \<Rightarrow> jcs \<Rightarrow> (byte list \<Rightarrow> content_digest) \<Rightarrow> ledger_record \<Rightarrow> prepared_execution \<Rightarrow> job_prepared agent_result" where
  "prepared_report uni jcs blake3 record prepared =
     (let a = lr_assignment record in
      and_then (validate_candidate uni blake3 record (px_candidate prepared)) (\<lambda>_.
      and_then (transfer_receipt_validate_for uni jcs blake3 (px_transfer prepared) a (px_candidate prepared)) (\<lambda>_.
      and_then (from_engine_error (prepared_publication_digest uni blake3 (px_candidate prepared))) (\<lambda>publication_digest.
      from_protocol_error (job_prepared_new jcs blake3 (as_job_id a) (as_task_fence a) (as_assignment_id a)
        (as_assignment_generation a) (as_expected_index_version a)
        (dl_result_digest (pd_index_delta (px_candidate prepared))) publication_digest
        (tr_metadata_batches (px_transfer prepared)) [])))))"

definition report_prepared ::
  "unicode \<Rightarrow> jcs \<Rightarrow> (byte list \<Rightarrow> content_digest) \<Rightarrow> ('w, 'x) agent_ports \<Rightarrow> ledger_record \<Rightarrow> ('w, ledger_record) agent_io" where
  "report_prepared uni jcs blake3 P record =
     (if lr_state record \<noteq> Prepared then io_err AeInvalidState
      else
        io_else (validate_active_assignment P record) (persist_failure P record StageExecution) (\<lambda>_.
        io_then (io_of (ok_or AeInvalidState (lr_prepared record))) (\<lambda>prepared.
        io_then (io_of (prepared_report uni jcs blake3 record prepared)) (\<lambda>report.
        io_then (ag_send P (ReportPrepared report)) (\<lambda>_.
        io_then (ag_stage_metadata P (lr_assignment record) (px_transfer prepared)) (\<lambda>_.
        io_then (ag_now P) (\<lambda>now.
        persist_transition P record Prepared AwaitingDecision now id)))))))"

section \<open>Finalization\<close>

definition is_reject :: "publish_decision \<Rightarrow> bool" where
  "is_reject d = (case d of DecReject _ _ \<Rightarrow> True | _ \<Rightarrow> False)"

definition acknowledge ::
  "('w, 'x) agent_ports \<Rightarrow> ledger_record \<Rightarrow> job_decision \<Rightarrow> ('w, ledger_record) agent_io" where
  "acknowledge P record d =
     io_then (io_of (ok_or AeInvalidState (lr_finalized record))) (\<lambda>finalized.
     io_then (io_of (validate_finalized_identity record d finalized)) (\<lambda>_.
     io_then (ag_send P (ReportFinalized finalized)) (\<lambda>_.
     io_then (ag_now P) (\<lambda>now.
     persist_transition P record Finalizing Completed now (\<lambda>nxt. nxt \<lparr> lr_failure := None \<rparr>)))))"

definition finalize ::
  "unicode \<Rightarrow> (byte list \<Rightarrow> content_digest) \<Rightarrow> ('w, 'x) agent_ports \<Rightarrow> ledger_record \<Rightarrow> ('w, ledger_record) agent_io" where
  "finalize uni blake3 P record =
     (if lr_state record \<noteq> Finalizing then io_err AeInvalidState
      else
        io_then (io_of (ok_or AeInvalidState (lr_decision record))) (\<lambda>d.
        io_then (io_of (validate_decision_identity record d)) (\<lambda>_.
        io_then (io_of (validate_publish_result record d)) (\<lambda>_.
        case lr_prepared record of
          Some prepared \<Rightarrow>
            io_then (io_of (validate_candidate uni blake3 record (px_candidate prepared))) (\<lambda>_.
            io_else (ag_finalize P (lr_assignment record) (px_candidate prepared) d)
              (persist_failure P record StageFinalization) (\<lambda>_.
            acknowledge P record d))
        | None \<Rightarrow>
            if \<not> is_reject (jd_decision d) then io_err AeInvalidState else acknowledge P record d))))"

section \<open>The operations\<close>

definition accept_claimed :: "('w, 'x) agent_ports \<Rightarrow> u64 \<Rightarrow> ledger_record \<Rightarrow> ('w, ledger_record) agent_io" where
  "accept_claimed P now record =
     io_then (persist_transition P record Claimed Accepted now (\<lambda>nxt. nxt \<lparr> lr_accepted_at_unix_ms := Some now \<rparr>)) (\<lambda>record.
     io_then (send_accepted P record) (\<lambda>_. io_ok record))"

definition accept_assignment ::
  "('w, 'x) agent_ports \<Rightarrow> add_assignment \<Rightarrow> ('w, assignment_acceptance) agent_io" where
  "accept_assignment P a =
     io_then (ag_now P) (\<lambda>now.
     io_then (ag_load P (key_from_assignment a)) (\<lambda>loaded.
     case loaded of
       Some record \<Rightarrow>
         io_then (io_of (verify_claim_identity a record)) (\<lambda>_.
         io_then (if lr_state record = Claimed then accept_claimed P now record
                  else if lr_state record = Accepted then io_then (send_accepted P record) (\<lambda>_. io_ok record)
                  else io_ok record) (\<lambda>record.
         io_ok \<lparr> aa_disposition = DispositionReplayed, aa_record = record \<rparr>))
     | None \<Rightarrow>
         io_then (ag_validate P a now) (\<lambda>_.
         io_then (ag_claim P \<lparr> lc_assignment = a, lc_claimed_at_unix_ms = now \<rparr>) (\<lambda>outcome.
         let (disposition, record) = (case outcome of ClaimNew r \<Rightarrow> (DispositionNew, r) | ClaimExisting r \<Rightarrow> (DispositionReplayed, r)) in
         io_then (io_of (verify_claim_identity a record)) (\<lambda>_.
         io_then (if lr_state record = Claimed then accept_claimed P now record
                  else if disposition = DispositionReplayed \<and> lr_state record = Accepted
                  then io_then (send_accepted P record) (\<lambda>_. io_ok record)
                  else io_ok record) (\<lambda>record.
         io_ok \<lparr> aa_disposition = disposition, aa_record = record \<rparr>))))))"

definition run_assignment ::
  "unicode \<Rightarrow> jcs \<Rightarrow> (byte list \<Rightarrow> content_digest) \<Rightarrow> ('w, 'x) agent_ports \<Rightarrow> ledger_record \<Rightarrow> ('w, ledger_record) agent_io" where
  "run_assignment uni jcs blake3 P running =
     io_else (send_running P running) (persist_failure P running StageReporting) (\<lambda>_.
     io_else (ag_prepare_add P (lr_assignment running)) (persist_failure P running StageExecution) (\<lambda>prepared.
     io_else (io_of (validate_candidate uni blake3 running prepared)) (persist_failure P running StageExecution) (\<lambda>_.
     io_else (ag_transfer P (lr_assignment running) prepared) (persist_failure P running StageObjectTransfer) (\<lambda>transfer.
     io_else (io_of (transfer_receipt_validate_for uni jcs blake3 transfer (lr_assignment running) prepared))
       (persist_failure P running StageObjectTransfer) (\<lambda>_.
     io_then (ag_now P) (\<lambda>now.
     io_then (persist_transition P running Running Prepared now
       (\<lambda>nxt. nxt \<lparr> lr_prepared := Some \<lparr> px_candidate = prepared, px_transfer = transfer \<rparr> \<rparr>)) (\<lambda>prepared_record.
     report_prepared uni jcs blake3 P prepared_record)))))))"

definition execute ::
  "unicode \<Rightarrow> jcs \<Rightarrow> (byte list \<Rightarrow> content_digest) \<Rightarrow> ('w, 'x) agent_ports \<Rightarrow> assignment_key \<Rightarrow> ('w, ledger_record) agent_io" where
  "execute uni jcs blake3 P key =
     io_then (load_required P key) (\<lambda>record.
     if lr_state record = Prepared then report_prepared uni jcs blake3 P record
     else if lr_state record \<notin> {Accepted, Recovering} then
       if lr_state record \<in> {Running, AwaitingDecision, Finalizing, Completed} then io_ok record else io_err AeInvalidState
     else
       io_else (validate_active_assignment P record) (persist_failure P record StageExecution) (\<lambda>now.
       io_then (persist_transition P record (lr_state record) Running now (\<lambda>nxt. nxt \<lparr> lr_failure := None \<rparr>)) (\<lambda>running.
       run_assignment uni jcs blake3 P running)))"

definition handle_assignment ::
  "unicode \<Rightarrow> jcs \<Rightarrow> (byte list \<Rightarrow> content_digest) \<Rightarrow> ('w, 'x) agent_ports \<Rightarrow> add_assignment \<Rightarrow> ('w, ledger_record) agent_io" where
  "handle_assignment uni jcs blake3 P a =
     io_then (accept_assignment P a) (\<lambda>acceptance.
     if lr_state (aa_record acceptance) \<in> {Accepted, Prepared}
     then execute uni jcs blake3 P (lr_key (aa_record acceptance))
     else io_ok (aa_record acceptance))"

definition recover ::
  "unicode \<Rightarrow> jcs \<Rightarrow> (byte list \<Rightarrow> content_digest) \<Rightarrow> ('w, 'x) agent_ports \<Rightarrow> assignment_key \<Rightarrow> ('w, ledger_record) agent_io" where
  "recover uni jcs blake3 P key =
     io_then (load_required P key) (\<lambda>record.
     case lr_state record of
       Accepted \<Rightarrow> io_then (send_accepted P record) (\<lambda>_. execute uni jcs blake3 P key)
     | Prepared \<Rightarrow> report_prepared uni jcs blake3 P record
     | AwaitingDecision \<Rightarrow> io_ok record
     | Completed \<Rightarrow> io_ok record
     | Finalizing \<Rightarrow> finalize uni blake3 P record
     | Running \<Rightarrow>
         io_then (ag_now P) (\<lambda>now.
         io_then (persist_transition P record Running Recovering now id) (\<lambda>_.
         execute uni jcs blake3 P key))
     | Claimed \<Rightarrow> io_err AeInvalidState
     | _ \<Rightarrow>
         (case lr_decision record of
            Some d \<Rightarrow>
              io_then (io_of (validate_decision_identity record d)) (\<lambda>_.
              io_then (io_of (validate_publish_result record d)) (\<lambda>_.
              io_then (ag_now P) (\<lambda>now.
              io_then (persist_transition P record (lr_state record) Finalizing now (\<lambda>nxt. nxt \<lparr> lr_failure := None \<rparr>)) (\<lambda>finalizing.
              finalize uni blake3 P finalizing))))
          | None \<Rightarrow>
              if lr_failure record \<noteq> None then
                io_then (if lr_state record = Recovering
                         then io_then (ag_now P) (\<lambda>now. persist_transition P record Recovering FailedReported now id)
                         else io_ok record) (\<lambda>failed.
                report_failure P failed)
              else if lr_state record = Recovering then execute uni jcs blake3 P key
              else io_err AeInvalidState))"

definition finalized_of :: "ledger_record \<Rightarrow> job_decision \<Rightarrow> u64 \<Rightarrow> job_finalized" where
  "finalized_of record d now =
     (let a = lr_assignment record in
      \<lparr> jz_job_id = as_job_id a, jz_task_fence = as_task_fence a, jz_assignment_id = as_assignment_id a,
        jz_assignment_generation = as_assignment_generation a, jz_decision_generation = jd_decision_generation d,
        jz_final_state = jd_final_state d, jz_finalized_at_unix_ms = now, jz_extensions = [] \<rparr>)"

definition may_apply :: "ledger_record \<Rightarrow> job_decision \<Rightarrow> bool" where
  "may_apply record d \<longleftrightarrow>
     lr_state record = AwaitingDecision
     \<or> (is_reject (jd_decision d)
         \<and> lr_state record \<in> {Claimed, Accepted, Running, Prepared, FailedReported, Recovering})
     \<or> (\<not> is_reject (jd_decision d) \<and> lr_prepared record \<noteq> None
         \<and> lr_state record \<in> {Prepared, FailedReported, Recovering})"

definition handle_decision ::
  "unicode \<Rightarrow> jcs \<Rightarrow> (byte list \<Rightarrow> content_digest) \<Rightarrow> ('w, 'x) agent_ports \<Rightarrow> resource_id \<Rightarrow> job_decision \<Rightarrow> ('w, ledger_record) agent_io" where
  "handle_decision uni jcs blake3 P tenant_id d =
     (if jd_decision_generation d = 0 then io_err AeAssignmentMismatch
      else
        let key = AssignmentKey tenant_id (jd_job_id d) in
        io_then (load_required P key) (\<lambda>record.
        io_then (io_of (validate_decision_identity record d)) (\<lambda>_.
        io_then (io_of (validate_publish_result record d)) (\<lambda>_.
        case lr_decision record of
          Some existing \<Rightarrow>
            if existing \<noteq> d then io_err AeAssignmentMismatch
            else (case lr_state record of
                    Completed \<Rightarrow> io_ok record
                  | Finalizing \<Rightarrow> finalize uni blake3 P record
                  | FailedReported \<Rightarrow> recover uni jcs blake3 P key
                  | Recovering \<Rightarrow> recover uni jcs blake3 P key
                  | _ \<Rightarrow> io_err AeInvalidState)
        | None \<Rightarrow>
            if \<not> may_apply record d then io_err AeInvalidState
            else
              io_then (ag_now P) (\<lambda>now.
              io_then (persist_transition P record (lr_state record) Finalizing now
                (\<lambda>nxt. nxt \<lparr> lr_decision := Some d, lr_finalized := Some (finalized_of record d now) \<rparr>)) (\<lambda>finalizing.
              finalize uni blake3 P finalizing))))))"

definition recover_active ::
  "unicode \<Rightarrow> jcs \<Rightarrow> (byte list \<Rightarrow> content_digest) \<Rightarrow> ('w, 'x) agent_ports \<Rightarrow> ('w, ledger_record list) agent_io" where
  "recover_active uni jcs blake3 P =
     io_then (ag_list_active P) (\<lambda>active.
     io_fold (\<lambda>done record.
       io_then (if lr_state record = Claimed then handle_assignment uni jcs blake3 P (lr_assignment record)
                else recover uni jcs blake3 P (lr_key record)) (\<lambda>r. io_ok (done @ [r]))) [] active)"

end
