(* ===== verification/AgentSteps.thy ===== *)
theory AgentSteps
  imports Agent
begin

text \<open>
  The life of a ledger record as a step relation: which records may replace which.  Everything a
  record promises follows from being reached from a fresh claim by such steps.
\<close>

section \<open>Steps of a record\<close>

definition advance :: "ledger_record \<Rightarrow> agent_assignment_state \<Rightarrow> u64 \<Rightarrow> ledger_record" where
  "advance r s now = r \<lparr> lr_state := s, lr_updated_at_unix_ms := now, lr_revision := lr_revision r + 1 \<rparr>"

inductive agent_step ::
  "unicode \<Rightarrow> jcs \<Rightarrow> (byte list \<Rightarrow> content_digest) \<Rightarrow> ledger_record \<Rightarrow> ledger_record \<Rightarrow> bool"
  for uni :: unicode and jcs :: jcs and blake3 :: "byte list \<Rightarrow> content_digest"
where
  step_accept: "lr_state r = Claimed \<Longrightarrow> checked_add (lr_revision r) 1 = Some v \<Longrightarrow>
     agent_step uni jcs blake3 r (advance r Accepted now \<lparr> lr_accepted_at_unix_ms := Some now \<rparr>)"
| step_start: "lr_state r \<in> {Accepted, Recovering} \<Longrightarrow> checked_add (lr_revision r) 1 = Some v \<Longrightarrow>
     agent_step uni jcs blake3 r (advance r Running now \<lparr> lr_failure := None \<rparr>)"
| step_prepare: "lr_state r = Running \<Longrightarrow> checked_add (lr_revision r) 1 = Some v \<Longrightarrow>
     validate_candidate uni blake3 r (px_candidate px) = Inr () \<Longrightarrow>
     transfer_receipt_validate_for uni jcs blake3 (px_transfer px) (lr_assignment r) (px_candidate px) = Inr () \<Longrightarrow>
     agent_step uni jcs blake3 r (advance r Prepared now \<lparr> lr_prepared := Some px \<rparr>)"
| step_report: "lr_state r = Prepared \<Longrightarrow> checked_add (lr_revision r) 1 = Some v \<Longrightarrow>
     agent_step uni jcs blake3 r (advance r AwaitingDecision now)"
| step_interrupt: "lr_state r = Running \<Longrightarrow> checked_add (lr_revision r) 1 = Some v \<Longrightarrow>
     agent_step uni jcs blake3 r (advance r Recovering now)"
| step_fail: "lr_state r \<in> {Accepted, Recovering, Running, Prepared, Finalizing} \<Longrightarrow> checked_add (lr_revision r) 1 = Some v \<Longrightarrow>
     validate_failure_identity r f = Inr () \<Longrightarrow>
     agent_step uni jcs blake3 r (advance r FailedReported now \<lparr> lr_failure := Some f \<rparr>)"
| step_decide: "may_apply r d \<Longrightarrow> lr_decision r = None \<Longrightarrow> checked_add (lr_revision r) 1 = Some v \<Longrightarrow>
     validate_decision_identity r d = Inr () \<Longrightarrow> validate_publish_result r d = Inr () \<Longrightarrow>
     agent_step uni jcs blake3 r
       (advance r Finalizing now \<lparr> lr_decision := Some d, lr_finalized := Some (finalized_of r d now) \<rparr>)"
| step_resume: "lr_state r \<in> {FailedReported, Recovering} \<Longrightarrow> lr_decision r = Some d \<Longrightarrow> checked_add (lr_revision r) 1 = Some v \<Longrightarrow>
     agent_step uni jcs blake3 r (advance r Finalizing now \<lparr> lr_failure := None \<rparr>)"
| step_refail: "lr_state r = Recovering \<Longrightarrow> lr_failure r = Some f \<Longrightarrow> checked_add (lr_revision r) 1 = Some v \<Longrightarrow>
     agent_step uni jcs blake3 r (advance r FailedReported now)"
| step_complete: "lr_state r = Finalizing \<Longrightarrow> checked_add (lr_revision r) 1 = Some v \<Longrightarrow>
     agent_step uni jcs blake3 r (advance r Completed now \<lparr> lr_failure := None \<rparr>)"

lemmas agent_step_defs = advance_def checked_add_eq_Some

definition agent_steps ::
  "unicode \<Rightarrow> jcs \<Rightarrow> (byte list \<Rightarrow> content_digest) \<Rightarrow> ledger_record \<Rightarrow> ledger_record \<Rightarrow> bool" where
  "agent_steps uni jcs blake3 = (agent_step uni jcs blake3)\<^sup>*\<^sup>*"

lemma agent_steps_refl [simp, intro]: "agent_steps uni jcs blake3 r r"
  by (simp add: agent_steps_def)

lemma agent_steps_trans [trans]:
  "agent_steps uni jcs blake3 r s \<Longrightarrow> agent_steps uni jcs blake3 s t \<Longrightarrow> agent_steps uni jcs blake3 r t"
  unfolding agent_steps_def by (rule rtranclp_trans)

lemma agent_steps_step [intro]: "agent_step uni jcs blake3 r s \<Longrightarrow> agent_steps uni jcs blake3 r s"
  unfolding agent_steps_def by blast

lemma agent_steps_induct [consumes 1, case_names refl step]:
  assumes "agent_steps uni jcs blake3 r s" and "Q r"
    and "\<And>s t. agent_steps uni jcs blake3 r s \<Longrightarrow> agent_step uni jcs blake3 s t \<Longrightarrow> Q s \<Longrightarrow> Q t"
  shows "Q s"
  using assms unfolding agent_steps_def by (rule rtranclp_induct)

lemma next_revision:
  assumes "checked_add (x :: u64) 1 = Some v" shows "v = x + 1 \<and> unat (x + 1) = unat x + 1"
proof -
  have u: "unat v = unat x + 1" using assms by (simp add: checked_add_eq_Some)
  have "v = of_nat (unat v)" by simp
  also have "\<dots> = x + 1" by (simp add: u)
  finally show ?thesis using u by simp
qed

lemma agent_step_revision:
  "agent_step uni jcs blake3 r s \<Longrightarrow> unat (lr_revision s) = unat (lr_revision r) + 1"
  by (erule agent_step.cases) (auto simp: advance_def dest!: next_revision)

lemma agent_steps_revision:
  assumes "agent_steps uni jcs blake3 r s"
  shows "unat (lr_revision r) \<le> unat (lr_revision s) \<and> (lr_revision r = lr_revision s \<longrightarrow> r = s)"
  using assms
proof (induction rule: agent_steps_induct)
  case (step s t)
  then show ?case using agent_step_revision [OF step.hyps(2)] by auto
qed simp

section \<open>What steps keep\<close>

definition key_consistent :: "ledger_record \<Rightarrow> bool" where
  "key_consistent r \<longleftrightarrow>
     lr_key r = key_from_assignment (lr_assignment r) \<and> lr_request_digest r = as_request_digest (lr_assignment r)"

definition accepted_consistent :: "ledger_record \<Rightarrow> bool" where
  "accepted_consistent r \<longleftrightarrow>
     (lr_state r = Claimed \<longrightarrow> lr_accepted_at_unix_ms r = None)
     \<and> (lr_state r \<in> {Accepted, Running, Recovering, Prepared, AwaitingDecision} \<longrightarrow> lr_accepted_at_unix_ms r \<noteq> None)"

definition prepared_consistent :: "unicode \<Rightarrow> jcs \<Rightarrow> (byte list \<Rightarrow> content_digest) \<Rightarrow> ledger_record \<Rightarrow> bool" where
  "prepared_consistent uni jcs blake3 r \<longleftrightarrow>
     (lr_state r \<in> {Claimed, Accepted, Running, Recovering} \<longrightarrow> lr_prepared r = None)
     \<and> (lr_state r \<in> {Prepared, AwaitingDecision} \<longrightarrow> lr_prepared r \<noteq> None)
     \<and> (\<forall>px. lr_prepared r = Some px \<longrightarrow> validate_candidate uni blake3 r (px_candidate px) = Inr ()
          \<and> transfer_receipt_validate_for uni jcs blake3 (px_transfer px) (lr_assignment r) (px_candidate px) = Inr ())"

definition decision_consistent :: "ledger_record \<Rightarrow> bool" where
  "decision_consistent r \<longleftrightarrow>
     (lr_state r \<in> {Finalizing, Completed} \<longrightarrow> lr_decision r \<noteq> None)
     \<and> (lr_state r \<notin> {Finalizing, Completed, FailedReported} \<longrightarrow> lr_decision r = None)
     \<and> (lr_decision r = None \<longleftrightarrow> lr_finalized r = None)
     \<and> (\<forall>d f. lr_decision r = Some d \<and> lr_finalized r = Some f \<longrightarrow>
          validate_decision_identity r d = Inr () \<and> validate_publish_result r d = Inr ()
          \<and> validate_finalized_identity r d f = Inr () \<and> (lr_prepared r = None \<longrightarrow> is_reject (jd_decision d)))"

definition failure_consistent :: "ledger_record \<Rightarrow> bool" where
  "failure_consistent r \<longleftrightarrow>
     (lr_state r = FailedReported \<longrightarrow> lr_failure r \<noteq> None)
     \<and> (lr_state r \<notin> {FailedReported, Finalizing} \<longrightarrow> lr_failure r = None)
     \<and> (\<forall>f. lr_failure r = Some f \<longrightarrow> validate_failure_identity r f = Inr ())"

definition record_consistent ::
  "unicode \<Rightarrow> jcs \<Rightarrow> (byte list \<Rightarrow> content_digest) \<Rightarrow> ledger_record \<Rightarrow> bool" where
  "record_consistent uni jcs blake3 r \<longleftrightarrow>
     key_consistent r \<and> accepted_consistent r \<and> prepared_consistent uni jcs blake3 r \<and> decision_consistent r
     \<and> failure_consistent r"

lemmas consistent_defs = key_consistent_def accepted_consistent_def prepared_consistent_def decision_consistent_def
  failure_consistent_def

text \<open>The checks of a record read nothing but its assignment and its candidate.\<close>

lemmas record_check_defs = validate_candidate_def validate_decision_identity_def validate_finalized_identity_def
  validate_failure_identity_def validate_publish_result_def

lemma claimed_consistent: "record_consistent uni jcs blake3 (ledger_record_claimed a now)"
  by (simp add: record_consistent_def consistent_defs ledger_record_claimed_def)

lemma finalized_of_identity: "validate_finalized_identity r d (finalized_of r d now) = Inr ()"
  by (simp add: validate_finalized_identity_def finalized_of_def Let_def)

lemma advance_simps [simp]:
  "lr_key (advance r s now) = lr_key r" "lr_assignment (advance r s now) = lr_assignment r"
  "lr_request_digest (advance r s now) = lr_request_digest r" "lr_state (advance r s now) = s"
  "lr_revision (advance r s now) = lr_revision r + 1" "lr_claimed_at_unix_ms (advance r s now) = lr_claimed_at_unix_ms r"
  "lr_updated_at_unix_ms (advance r s now) = now"
  "lr_accepted_at_unix_ms (advance r s now) = lr_accepted_at_unix_ms r" "lr_prepared (advance r s now) = lr_prepared r"
  "lr_decision (advance r s now) = lr_decision r" "lr_finalized (advance r s now) = lr_finalized r"
  "lr_failure (advance r s now) = lr_failure r"
  by (simp_all add: advance_def)

lemma record_checks_advance [simp]:
  "validate_candidate uni blake3 (advance r s now) c = validate_candidate uni blake3 r c"
  "validate_decision_identity (advance r s now) d = validate_decision_identity r d"
  "validate_finalized_identity (advance r s now) d z = validate_finalized_identity r d z"
  "validate_failure_identity (advance r s now) f = validate_failure_identity r f"
  "validate_publish_result (advance r s now) d = validate_publish_result r d"
  by (simp_all add: record_check_defs split: publish_decision.split)

lemma record_checks_accepted_at [simp]:
  "validate_candidate uni blake3 (r\<lparr>lr_accepted_at_unix_ms := x\<rparr>) c = validate_candidate uni blake3 r c"
  "validate_decision_identity (r\<lparr>lr_accepted_at_unix_ms := x\<rparr>) d = validate_decision_identity r d"
  "validate_finalized_identity (r\<lparr>lr_accepted_at_unix_ms := x\<rparr>) d z = validate_finalized_identity r d z"
  "validate_failure_identity (r\<lparr>lr_accepted_at_unix_ms := x\<rparr>) f = validate_failure_identity r f"
  "validate_publish_result (r\<lparr>lr_accepted_at_unix_ms := x\<rparr>) d = validate_publish_result r d"
  by (simp_all add: record_check_defs split: publish_decision.split)

lemma record_checks_prepared [simp]:
  "validate_candidate uni blake3 (r\<lparr>lr_prepared := x\<rparr>) c = validate_candidate uni blake3 r c"
  "validate_decision_identity (r\<lparr>lr_prepared := x\<rparr>) d = validate_decision_identity r d"
  "validate_finalized_identity (r\<lparr>lr_prepared := x\<rparr>) d z = validate_finalized_identity r d z"
  "validate_failure_identity (r\<lparr>lr_prepared := x\<rparr>) f = validate_failure_identity r f"
  by (simp_all add: record_check_defs split: publish_decision.split)

lemma record_checks_decision [simp]:
  "validate_candidate uni blake3 (r\<lparr>lr_decision := x\<rparr>) c = validate_candidate uni blake3 r c"
  "validate_decision_identity (r\<lparr>lr_decision := x\<rparr>) d = validate_decision_identity r d"
  "validate_finalized_identity (r\<lparr>lr_decision := x\<rparr>) d z = validate_finalized_identity r d z"
  "validate_failure_identity (r\<lparr>lr_decision := x\<rparr>) f = validate_failure_identity r f"
  "validate_publish_result (r\<lparr>lr_decision := x\<rparr>) d = validate_publish_result r d"
  by (simp_all add: record_check_defs split: publish_decision.split)

lemma record_checks_finalized [simp]:
  "validate_candidate uni blake3 (r\<lparr>lr_finalized := x\<rparr>) c = validate_candidate uni blake3 r c"
  "validate_decision_identity (r\<lparr>lr_finalized := x\<rparr>) d = validate_decision_identity r d"
  "validate_finalized_identity (r\<lparr>lr_finalized := x\<rparr>) d z = validate_finalized_identity r d z"
  "validate_failure_identity (r\<lparr>lr_finalized := x\<rparr>) f = validate_failure_identity r f"
  "validate_publish_result (r\<lparr>lr_finalized := x\<rparr>) d = validate_publish_result r d"
  by (simp_all add: record_check_defs split: publish_decision.split)

lemma record_checks_failure [simp]:
  "validate_candidate uni blake3 (r\<lparr>lr_failure := x\<rparr>) c = validate_candidate uni blake3 r c"
  "validate_decision_identity (r\<lparr>lr_failure := x\<rparr>) d = validate_decision_identity r d"
  "validate_finalized_identity (r\<lparr>lr_failure := x\<rparr>) d z = validate_finalized_identity r d z"
  "validate_failure_identity (r\<lparr>lr_failure := x\<rparr>) f = validate_failure_identity r f"
  "validate_publish_result (r\<lparr>lr_failure := x\<rparr>) d = validate_publish_result r d"
  by (simp_all add: record_check_defs split: publish_decision.split)

lemma agent_step_key: "agent_step uni jcs blake3 r s \<Longrightarrow> key_consistent r \<Longrightarrow> key_consistent s"
  by (erule agent_step.cases) (simp_all add: key_consistent_def)

lemma agent_step_accepted: "agent_step uni jcs blake3 r s \<Longrightarrow> accepted_consistent r \<Longrightarrow> accepted_consistent s"
  by (erule agent_step.cases) (auto simp: accepted_consistent_def)

lemma agent_step_prepared:
  "agent_step uni jcs blake3 r s \<Longrightarrow> prepared_consistent uni jcs blake3 r \<Longrightarrow> prepared_consistent uni jcs blake3 s"
  by (erule agent_step.cases) (auto simp: prepared_consistent_def)

lemma may_apply_candidate:
  "may_apply r d \<Longrightarrow> prepared_consistent uni jcs blake3 r \<Longrightarrow> lr_prepared r = None \<Longrightarrow> is_reject (jd_decision d)"
  by (auto simp: may_apply_def prepared_consistent_def)

lemma agent_step_decision:
  assumes "agent_step uni jcs blake3 r s" and "prepared_consistent uni jcs blake3 r" and "decision_consistent r"
  shows "decision_consistent s"
  using assms(1)
proof cases
  case (step_decide d v now)
  then show ?thesis
    using may_apply_candidate [OF _ assms(2)] by (simp add: decision_consistent_def finalized_of_identity)
next
  case (step_prepare v px now)
  then have "lr_decision r = None" "lr_finalized r = None" using assms(3) by (auto simp: decision_consistent_def)
  then show ?thesis using step_prepare by (simp add: decision_consistent_def)
qed (use assms(3) in \<open>auto simp: decision_consistent_def\<close>)

lemma agent_step_failure: "agent_step uni jcs blake3 r s \<Longrightarrow> failure_consistent r \<Longrightarrow> failure_consistent s"
  by (erule agent_step.cases) (auto simp: failure_consistent_def)

lemma agent_step_consistent:
  assumes "agent_step uni jcs blake3 r s" and "record_consistent uni jcs blake3 r"
  shows "record_consistent uni jcs blake3 s"
  using assms(2) agent_step_key [OF assms(1)] agent_step_accepted [OF assms(1)] agent_step_prepared [OF assms(1)]
    agent_step_decision [OF assms(1)] agent_step_failure [OF assms(1)]
  by (simp add: record_consistent_def)

text \<open>Fields that are written once, and the states after which nothing changes.\<close>

definition record_extends :: "ledger_record \<Rightarrow> ledger_record \<Rightarrow> bool" where
  "record_extends r s \<longleftrightarrow>
     lr_key s = lr_key r \<and> lr_assignment s = lr_assignment r \<and> lr_request_digest s = lr_request_digest r
     \<and> lr_claimed_at_unix_ms s = lr_claimed_at_unix_ms r
     \<and> (lr_accepted_at_unix_ms r \<noteq> None \<longrightarrow> lr_accepted_at_unix_ms s = lr_accepted_at_unix_ms r)
     \<and> (lr_prepared r \<noteq> None \<longrightarrow> lr_prepared s = lr_prepared r)
     \<and> (lr_decision r \<noteq> None \<longrightarrow> lr_decision s = lr_decision r \<and> lr_finalized s = lr_finalized r)
     \<and> unat (lr_revision r) \<le> unat (lr_revision s)
     \<and> (lr_revision s = lr_revision r \<longrightarrow> s = r)
     \<and> (lr_state r = Completed \<longrightarrow> s = r)"

lemma agent_step_extends:
  assumes "agent_step uni jcs blake3 r s" and "record_consistent uni jcs blake3 r"
  shows "record_extends r s"
proof -
  have "unat (lr_revision s) = unat (lr_revision r) + 1" using assms(1) by (rule agent_step_revision)
  then have "unat (lr_revision r) \<le> unat (lr_revision s)" "lr_revision s \<noteq> lr_revision r" by auto
  moreover have "lr_key s = lr_key r" "lr_assignment s = lr_assignment r" "lr_request_digest s = lr_request_digest r"
    "lr_claimed_at_unix_ms s = lr_claimed_at_unix_ms r"
    using assms(1) by (cases; simp)+
  moreover have "lr_state r \<noteq> Completed" using assms(1) by cases (auto simp: may_apply_def)
  moreover have "lr_accepted_at_unix_ms r \<noteq> None \<Longrightarrow> lr_accepted_at_unix_ms s = lr_accepted_at_unix_ms r"
    using assms by cases (auto simp: record_consistent_def accepted_consistent_def)
  moreover have "lr_prepared r \<noteq> None \<Longrightarrow> lr_prepared s = lr_prepared r"
    using assms by cases (auto simp: record_consistent_def prepared_consistent_def)
  moreover have "lr_decision r \<noteq> None \<Longrightarrow> lr_decision s = lr_decision r \<and> lr_finalized s = lr_finalized r"
    using assms(1) by cases auto
  ultimately show ?thesis by (simp add: record_extends_def)
qed

lemma record_extends_refl [simp]: "record_extends r r"
  by (simp add: record_extends_def)

lemma agent_steps_consistent:
  "agent_steps uni jcs blake3 r s \<Longrightarrow> record_consistent uni jcs blake3 r \<Longrightarrow> record_consistent uni jcs blake3 s"
  by (induction rule: agent_steps_induct) (auto intro: agent_step_consistent)

lemma agent_steps_completed:
  assumes "agent_steps uni jcs blake3 r s" "lr_state r = Completed" shows "s = r"
  using assms by (induction rule: agent_steps_induct) (auto elim: agent_step.cases simp: may_apply_def)

lemma agent_steps_extends:
  assumes "agent_steps uni jcs blake3 r s" and "record_consistent uni jcs blake3 r"
  shows "record_extends r s"
  using assms
proof (induction rule: agent_steps_induct)
  case (step s t)
  have st: "record_extends s t"
    using step.hyps agent_steps_consistent [OF step.hyps(1) step.prems] by (rule_tac agent_step_extends)
  have "agent_steps uni jcs blake3 r t" using step.hyps by (meson agent_steps_step agent_steps_trans)
  note rt = agent_steps_revision [OF this] agent_steps_completed [OF this]
  show ?case using step.IH [OF step.prems] st rt unfolding record_extends_def by auto
qed simp

section \<open>Ledgers\<close>

type_synonym ledger_view = "assignment_key \<Rightarrow> ledger_record option"

text \<open>A record that the state machine can have reached from a claim of the assignment under its key.\<close>

definition reached ::
  "unicode \<Rightarrow> jcs \<Rightarrow> (byte list \<Rightarrow> content_digest) \<Rightarrow> assignment_key \<Rightarrow> ledger_record \<Rightarrow> bool" where
  "reached uni jcs blake3 k r \<longleftrightarrow>
     (\<exists>a now. key_from_assignment a = k \<and> agent_steps uni jcs blake3 (ledger_record_claimed a now) r)"

definition ledger_ok :: "unicode \<Rightarrow> jcs \<Rightarrow> (byte list \<Rightarrow> content_digest) \<Rightarrow> ledger_view \<Rightarrow> bool" where
  "ledger_ok uni jcs blake3 L \<longleftrightarrow> (\<forall>k r. L k = Some r \<longrightarrow> reached uni jcs blake3 k r)"

definition ledger_evolves ::
  "unicode \<Rightarrow> jcs \<Rightarrow> (byte list \<Rightarrow> content_digest) \<Rightarrow> ledger_view \<Rightarrow> ledger_view \<Rightarrow> bool" where
  "ledger_evolves uni jcs blake3 L M \<longleftrightarrow>
     (\<forall>k r. L k = Some r \<longrightarrow> (\<exists>s. M k = Some s \<and> agent_steps uni jcs blake3 r s))
     \<and> (\<forall>k s. L k = None \<and> M k = Some s \<longrightarrow> reached uni jcs blake3 k s)"

lemma ledger_evolves_refl [simp, intro]: "ledger_evolves uni jcs blake3 L L"
  by (auto simp: ledger_evolves_def)

lemma ledger_evolvesD:
  "ledger_evolves uni jcs blake3 L M \<Longrightarrow> L k = Some r \<Longrightarrow> \<exists>s. M k = Some s \<and> agent_steps uni jcs blake3 r s"
  by (simp add: ledger_evolves_def)

lemma reached_steps: "reached uni jcs blake3 k r \<Longrightarrow> agent_steps uni jcs blake3 r s \<Longrightarrow> reached uni jcs blake3 k s"
  by (auto simp: reached_def intro: agent_steps_trans)

lemma reached_claimed: "reached uni jcs blake3 (key_from_assignment a) (ledger_record_claimed a now)"
  by (auto simp: reached_def)

lemma reached_consistent: "reached uni jcs blake3 k r \<Longrightarrow> record_consistent uni jcs blake3 r \<and> lr_key r = k"
proof -
  assume "reached uni jcs blake3 k r"
  then obtain a now where a: "key_from_assignment a = k" "agent_steps uni jcs blake3 (ledger_record_claimed a now) r"
    by (auto simp: reached_def)
  show ?thesis
    using agent_steps_consistent [OF a(2) claimed_consistent] agent_steps_extends [OF a(2) claimed_consistent] a(1)
    by (simp add: record_extends_def ledger_record_claimed_def)
qed

lemma ledger_evolves_trans [trans]:
  assumes "ledger_evolves uni jcs blake3 L M" "ledger_evolves uni jcs blake3 M N"
  shows "ledger_evolves uni jcs blake3 L N"
  unfolding ledger_evolves_def
proof (intro conjI allI impI)
  fix k r assume "L k = Some r"
  then obtain s where s: "M k = Some s" "agent_steps uni jcs blake3 r s" using ledger_evolvesD [OF assms(1)] by blast
  then obtain t where "N k = Some t" "agent_steps uni jcs blake3 s t" using ledger_evolvesD [OF assms(2)] by blast
  then show "\<exists>s. N k = Some s \<and> agent_steps uni jcs blake3 r s" using s(2) agent_steps_trans by blast
next
  fix k t assume a: "L k = None \<and> N k = Some t"
  show "reached uni jcs blake3 k t"
  proof (cases "M k")
    case None
    then show ?thesis using assms(2) a by (simp add: ledger_evolves_def)
  next
    case (Some s)
    have "reached uni jcs blake3 k s" using assms(1) a Some by (simp add: ledger_evolves_def)
    then show ?thesis using ledger_evolvesD [OF assms(2) Some] a reached_steps by auto
  qed
qed

lemma ledger_evolves_ok: "ledger_evolves uni jcs blake3 L M \<Longrightarrow> ledger_ok uni jcs blake3 L \<Longrightarrow> ledger_ok uni jcs blake3 M"
  unfolding ledger_ok_def ledger_evolves_def
  by (metis option.exhaust option.inject reached_steps)

lemma ledger_evolves_update:
  "L k = Some r \<Longrightarrow> agent_steps uni jcs blake3 r s \<Longrightarrow> ledger_evolves uni jcs blake3 L (L(k \<mapsto> s))"
  by (auto simp: ledger_evolves_def)

lemma ledger_evolves_claim:
  "L k = None \<Longrightarrow> reached uni jcs blake3 k s \<Longrightarrow> ledger_evolves uni jcs blake3 L (L(k \<mapsto> s))"
  by (auto simp: ledger_evolves_def)

end
