(* ===== verification/AgentEnv.thy ===== *)
theory AgentEnv
  imports AgentSteps
begin

text \<open>
  The contract the agent's state machine relies on, as a locale, and what it guarantees in return.
  The ledger compares and exchanges atomically.  Between any two port calls other threads may run
  the same state machine, and a failed exchange may or may not have reached the disk: the contract
  only says that a ledger moves along the steps of its records.
\<close>

section \<open>What an agent sees of a world\<close>

record ('w, 'x) agent_view =
  gv_ledger :: "'w \<Rightarrow> ledger_view"
  gv_sent :: "'w \<Rightarrow> 'x agent_report set"
  gv_ok :: "'w \<Rightarrow> bool"

text \<open>A report is backed when the ledger durably holds what it says.\<close>

primrec report_backed ::
  "unicode \<Rightarrow> jcs \<Rightarrow> (byte list \<Rightarrow> content_digest) \<Rightarrow> ledger_view \<Rightarrow> 'x agent_report \<Rightarrow> bool" where
  "report_backed uni jcs blake3 L (ReportAccepted x) \<longleftrightarrow>
     (\<exists>k r t. L k = Some r \<and> lr_accepted_at_unix_ms r = Some t \<and> x = accepted_report r t)"
| "report_backed uni jcs blake3 L (ReportProgress x) \<longleftrightarrow>
     (\<exists>k r. L k = Some r \<and> lr_accepted_at_unix_ms r \<noteq> None \<and> x = running_report r)"
| "report_backed uni jcs blake3 L (ReportPrepared x) \<longleftrightarrow>
     (\<exists>k r px. L k = Some r \<and> lr_prepared r = Some px \<and> prepared_report uni jcs blake3 r px = Inr x)"
| "report_backed uni jcs blake3 L (ReportFinalized x) \<longleftrightarrow> (\<exists>k r. L k = Some r \<and> lr_finalized r = Some x)"
| "report_backed uni jcs blake3 L (ReportFailed x) \<longleftrightarrow> (\<exists>k r. L k = Some r \<and> validate_failure_identity r x = Inr ())"
| "report_backed uni jcs blake3 L (ReportLifecycle x) \<longleftrightarrow> False"
| "report_backed uni jcs blake3 L (ReportReplication x) \<longleftrightarrow> False"
| "report_backed uni jcs blake3 L (ReportMaterialization x) \<longleftrightarrow> False"
| "report_backed uni jcs blake3 L (ReportIntegrity x) \<longleftrightarrow> False"

lemma report_of_assignment:
  assumes "lr_assignment s = lr_assignment r"
  shows "running_report s = running_report r"
    "lr_request_digest s = lr_request_digest r \<Longrightarrow> accepted_report s t = accepted_report r t"
    "prepared_report uni jcs blake3 s px = prepared_report uni jcs blake3 r px"
    "validate_failure_identity s f = validate_failure_identity r f"
  using assms
  by (simp_all add: running_report_def accepted_report_def prepared_report_def validate_candidate_def
      validate_failure_identity_def Let_def)

lemma report_backed_evolves:
  assumes "report_backed uni jcs blake3 L x" "ledger_evolves uni jcs blake3 L M" "ledger_ok uni jcs blake3 L"
  shows "report_backed uni jcs blake3 M x"
proof -
  have ext: "\<exists>s. M k = Some s \<and> record_extends r s" if "L k = Some r" for k r
    using ledger_evolvesD [OF assms(2) that] agent_steps_extends reached_consistent assms(3) that
    by (meson ledger_ok_def)
  show ?thesis
  proof (cases x)
    case (ReportAccepted y)
    then obtain k r t where r: "L k = Some r" "lr_accepted_at_unix_ms r = Some t" "y = accepted_report r t"
      using assms(1) by auto
    then obtain s where "M k = Some s" "record_extends r s" using ext by blast
    then have "M k = Some s \<and> lr_accepted_at_unix_ms s = Some t \<and> y = accepted_report s t"
      using r by (simp add: record_extends_def report_of_assignment [of s r])
    then show ?thesis using ReportAccepted by auto
  next
    case (ReportProgress y)
    then obtain k r where r: "L k = Some r" "lr_accepted_at_unix_ms r \<noteq> None" "y = running_report r"
      using assms(1) by auto
    then obtain s where "M k = Some s" "record_extends r s" using ext by blast
    then have "M k = Some s \<and> lr_accepted_at_unix_ms s \<noteq> None \<and> y = running_report s"
      using r by (simp add: record_extends_def report_of_assignment [of s r])
    then show ?thesis using ReportProgress by auto
  next
    case (ReportPrepared y)
    then obtain k r px where r: "L k = Some r" "lr_prepared r = Some px" "prepared_report uni jcs blake3 r px = Inr y"
      using assms(1) by auto
    then obtain s where "M k = Some s" "record_extends r s" using ext by blast
    then have "M k = Some s \<and> lr_prepared s = Some px \<and> prepared_report uni jcs blake3 s px = Inr y"
      using r by (simp add: record_extends_def report_of_assignment [of s r])
    then show ?thesis using ReportPrepared by auto
  next
    case (ReportFinalized y)
    then obtain k r where r: "L k = Some r" "lr_finalized r = Some y" using assms(1) by auto
    then obtain s where s: "M k = Some s" "record_extends r s" using ext by blast
    have "lr_decision r \<noteq> None"
      using reached_consistent [of uni jcs blake3 k r] r assms(3)
      by (auto simp: ledger_ok_def record_consistent_def decision_consistent_def)
    then have "M k = Some s \<and> lr_finalized s = Some y" using r s by (simp add: record_extends_def)
    then show ?thesis using ReportFinalized by auto
  next
    case (ReportFailed y)
    then obtain k r where r: "L k = Some r" "validate_failure_identity r y = Inr ()" using assms(1) by auto
    then obtain s where "M k = Some s" "record_extends r s" using ext by blast
    then have "M k = Some s \<and> validate_failure_identity s y = Inr ()"
      using r by (simp add: record_extends_def report_of_assignment [of s r])
    then show ?thesis using ReportFailed by auto
  qed (use assms(1) in auto)
qed

definition agent_ok :: "unicode \<Rightarrow> jcs \<Rightarrow> (byte list \<Rightarrow> content_digest) \<Rightarrow> ('w, 'x) agent_view \<Rightarrow> 'w \<Rightarrow> bool" where
  "agent_ok uni jcs blake3 V w \<longleftrightarrow> gv_ok V w \<and> ledger_ok uni jcs blake3 (gv_ledger V w)"

definition agent_sends ::
  "unicode \<Rightarrow> jcs \<Rightarrow> (byte list \<Rightarrow> content_digest) \<Rightarrow> ('w, 'x) agent_view \<Rightarrow> 'x agent_report set \<Rightarrow> 'w \<Rightarrow> 'w \<Rightarrow> bool" where
  "agent_sends uni jcs blake3 V new w w' \<longleftrightarrow>
     (\<forall>x \<in> gv_sent V w'. x \<in> gv_sent V w \<or> x \<in> new \<or> report_backed uni jcs blake3 (gv_ledger V w') x)"

definition agent_evolves ::
  "unicode \<Rightarrow> jcs \<Rightarrow> (byte list \<Rightarrow> content_digest) \<Rightarrow> ('w, 'x) agent_view \<Rightarrow> 'w \<Rightarrow> 'w \<Rightarrow> bool" where
  "agent_evolves uni jcs blake3 V w w' \<longleftrightarrow>
     gv_ok V w' \<and> ledger_evolves uni jcs blake3 (gv_ledger V w) (gv_ledger V w') \<and> agent_sends uni jcs blake3 V {} w w'"

lemma agent_evolves_refl: "agent_ok uni jcs blake3 V w \<Longrightarrow> agent_evolves uni jcs blake3 V w w"
  by (simp add: agent_evolves_def agent_ok_def agent_sends_def)

lemma agent_evolves_ok: "agent_ok uni jcs blake3 V w \<Longrightarrow> agent_evolves uni jcs blake3 V w w' \<Longrightarrow> agent_ok uni jcs blake3 V w'"
  by (auto simp: agent_evolves_def agent_ok_def intro: ledger_evolves_ok)

lemma agent_evolves_trans:
  assumes "agent_ok uni jcs blake3 V a" "agent_evolves uni jcs blake3 V a b" "agent_evolves uni jcs blake3 V b c"
  shows "agent_evolves uni jcs blake3 V a c"
proof -
  have b: "ledger_ok uni jcs blake3 (gv_ledger V b)"
    using agent_evolves_ok [OF assms(1,2)] by (simp add: agent_ok_def)
  show ?thesis
    using assms(2,3) report_backed_evolves [OF _ _ b]
    unfolding agent_evolves_def agent_sends_def
    by (blast intro: ledger_evolves_trans)
qed

text \<open>A record that the ledger held at some time.\<close>

definition durable ::
  "unicode \<Rightarrow> jcs \<Rightarrow> (byte list \<Rightarrow> content_digest) \<Rightarrow> ledger_view \<Rightarrow> ledger_record \<Rightarrow> bool" where
  "durable uni jcs blake3 L r \<longleftrightarrow>
     reached uni jcs blake3 (lr_key r) r \<and> (\<exists>s. L (lr_key r) = Some s \<and> agent_steps uni jcs blake3 r s)"

lemma durable_evolves:
  "durable uni jcs blake3 L r \<Longrightarrow> ledger_evolves uni jcs blake3 L M \<Longrightarrow> durable uni jcs blake3 M r"
  unfolding durable_def by (meson agent_steps_trans ledger_evolvesD)

lemma durable_held: "ledger_ok uni jcs blake3 L \<Longrightarrow> L k = Some r \<Longrightarrow> durable uni jcs blake3 L r"
  using reached_consistent [of uni jcs blake3 k r] by (auto simp: durable_def ledger_ok_def)

lemma durable_backs:
  assumes "durable uni jcs blake3 L r" "ledger_ok uni jcs blake3 L"
    and "report_backed uni jcs blake3 [lr_key r \<mapsto> r] x"
  shows "report_backed uni jcs blake3 L x"
proof (rule report_backed_evolves [OF assms(3)])
  show "ledger_evolves uni jcs blake3 [lr_key r \<mapsto> r] L"
    using assms(1,2) by (auto simp: ledger_evolves_def durable_def ledger_ok_def)
  show "ledger_ok uni jcs blake3 [lr_key r \<mapsto> r]" using assms(1) by (simp add: ledger_ok_def durable_def)
qed

section \<open>The contract\<close>

definition exchanges :: "u64 \<Rightarrow> ledger_record \<Rightarrow> ledger_view \<Rightarrow> ledger_view \<Rightarrow> bool" where
  "exchanges expected nxt L M \<longleftrightarrow>
     (\<exists>current v. L (lr_key nxt) = Some current \<and> lr_revision current = expected
        \<and> checked_add expected 1 = Some v \<and> M = L(lr_key nxt \<mapsto> nxt \<lparr> lr_revision := v \<rparr>))"

text \<open>The reports others send around an exchange are backed before it or after it.\<close>

definition sends_around ::
  "unicode \<Rightarrow> jcs \<Rightarrow> (byte list \<Rightarrow> content_digest) \<Rightarrow> ('w, 'x) agent_view \<Rightarrow> ledger_view \<Rightarrow> 'w \<Rightarrow> 'w \<Rightarrow> bool" where
  "sends_around uni jcs blake3 V L w w' \<longleftrightarrow>
     (\<forall>x \<in> gv_sent V w'. x \<in> gv_sent V w \<or> report_backed uni jcs blake3 L x
        \<or> report_backed uni jcs blake3 (gv_ledger V w') x)"

lemma sends_around_evolves:
  assumes "sends_around uni jcs blake3 V L w w'" "ledger_ok uni jcs blake3 L"
    "ledger_evolves uni jcs blake3 L (gv_ledger V w')"
  shows "agent_sends uni jcs blake3 V {} w w'"
  using assms(1) report_backed_evolves [OF _ assms(3,2)] unfolding sends_around_def agent_sends_def by blast

definition agent_calm ::
  "unicode \<Rightarrow> jcs \<Rightarrow> (byte list \<Rightarrow> content_digest) \<Rightarrow> ('w, 'x) agent_view \<Rightarrow> ('w, 'a) agent_io \<Rightarrow> bool" where
  "agent_calm uni jcs blake3 V m \<longleftrightarrow>
     (\<forall>w. agent_ok uni jcs blake3 V w \<longrightarrow> agent_evolves uni jcs blake3 V w (snd (m w)))"

locale agent_env =
  fixes uni :: unicode and jcs :: jcs and blake3 :: "byte list \<Rightarrow> content_digest"
    and P :: "('w, 'x) agent_ports" and V :: "('w, 'x) agent_view"
  assumes calm_validate: "agent_calm uni jcs blake3 V (ag_validate P a t)"
    and calm_prepare_add: "agent_calm uni jcs blake3 V (ag_prepare_add P a)"
    and calm_transfer: "agent_calm uni jcs blake3 V (ag_transfer P a c)"
    and calm_stage: "agent_calm uni jcs blake3 V (ag_stage_metadata P a tr)"
    and calm_finalize: "agent_calm uni jcs blake3 V (ag_finalize P a c d)"
    and calm_now: "agent_calm uni jcs blake3 V (ag_now P)"
    and calm_list_active: "agent_calm uni jcs blake3 V (ag_list_active P)"
    and calm_load: "agent_calm uni jcs blake3 V (ag_load P k)"
    and calm_claim: "agent_calm uni jcs blake3 V (ag_claim P c')"
    and load_reads: "agent_ok uni jcs blake3 V w \<Longrightarrow> ag_load P k w = (Inr (Some r), w') \<Longrightarrow>
       durable uni jcs blake3 (gv_ledger V w') r \<and> lr_key r = k"
    and claim_new: "agent_ok uni jcs blake3 V w \<Longrightarrow> ag_claim P c' w = (Inr (ClaimNew r), w') \<Longrightarrow>
       durable uni jcs blake3 (gv_ledger V w') r"
    and claim_existing: "agent_ok uni jcs blake3 V w \<Longrightarrow> ag_claim P c' w = (Inr (ClaimExisting r), w') \<Longrightarrow>
       durable uni jcs blake3 (gv_ledger V w') r"
    and send_ok: "agent_ok uni jcs blake3 V w \<Longrightarrow> ag_send P x w = (res, w') \<Longrightarrow>
       gv_ok V w' \<and> ledger_evolves uni jcs blake3 (gv_ledger V w) (gv_ledger V w')
       \<and> agent_sends uni jcs blake3 V {x} w w'"
    and exchange_world: "agent_ok uni jcs blake3 V w \<Longrightarrow> ag_compare_exchange P expected nxt w = (u, w') \<Longrightarrow> gv_ok V w'"
    and exchange_ok: "agent_ok uni jcs blake3 V w \<Longrightarrow> ag_compare_exchange P expected nxt w = (Inr s, w') \<Longrightarrow>
       \<exists>L M. ledger_evolves uni jcs blake3 (gv_ledger V w) L \<and> exchanges expected nxt L M
         \<and> ledger_evolves uni jcs blake3 M (gv_ledger V w') \<and> M (lr_key nxt) = Some s
         \<and> sends_around uni jcs blake3 V L w w'"
    and exchange_err: "agent_ok uni jcs blake3 V w \<Longrightarrow> ag_compare_exchange P expected nxt w = (Inl e, w') \<Longrightarrow>
       \<exists>L M. ledger_evolves uni jcs blake3 (gv_ledger V w) L \<and> (M = L \<or> exchanges expected nxt L M)
         \<and> ledger_evolves uni jcs blake3 M (gv_ledger V w') \<and> sends_around uni jcs blake3 V L w w'"

section \<open>Safe programs\<close>

text \<open>
  A program is safe when, from a world that durably holds the records \<open>R\<close>, it moves the world along
  steps; if it returns \<open>a\<close>, then \<open>post a\<close> holds and the records \<open>D a\<close> are durable too.
\<close>

definition agent_safe ::
  "unicode \<Rightarrow> jcs \<Rightarrow> (byte list \<Rightarrow> content_digest) \<Rightarrow> ('w, 'x) agent_view \<Rightarrow> ledger_record set
   \<Rightarrow> ('w, 'a) agent_io \<Rightarrow> ('a \<Rightarrow> bool) \<Rightarrow> ('a \<Rightarrow> ledger_record set) \<Rightarrow> bool" where
  "agent_safe uni jcs blake3 V R m post D \<longleftrightarrow>
     (\<forall>w res w'. agent_ok uni jcs blake3 V w \<longrightarrow> (\<forall>r \<in> R. durable uni jcs blake3 (gv_ledger V w) r) \<longrightarrow> m w = (res, w') \<longrightarrow>
        agent_evolves uni jcs blake3 V w w'
        \<and> (\<forall>a. res = Inr a \<longrightarrow> post a \<and> (\<forall>r \<in> D a. durable uni jcs blake3 (gv_ledger V w') r)))"

lemma agent_safeD:
  assumes "agent_safe uni jcs blake3 V R m post D" "agent_ok uni jcs blake3 V w"
    "\<forall>r \<in> R. durable uni jcs blake3 (gv_ledger V w) r" "m w = (res, w')"
  shows "agent_evolves uni jcs blake3 V w w'"
    "res = Inr a \<Longrightarrow> post a \<and> (\<forall>r \<in> D a. durable uni jcs blake3 (gv_ledger V w') r)"
  using assms unfolding agent_safe_def by blast+

lemma agent_safe_weaken:
  assumes "agent_safe uni jcs blake3 V R m post D" "R \<subseteq> R'" "\<And>a. post a \<Longrightarrow> post' a \<and> D' a \<subseteq> D a"
  shows "agent_safe uni jcs blake3 V R' m post' D'"
  unfolding agent_safe_def
proof (intro allI impI)
  fix w res w'
  assume ok: "agent_ok uni jcs blake3 V w" and R: "\<forall>r \<in> R'. durable uni jcs blake3 (gv_ledger V w) r"
    and run: "m w = (res, w')"
  have "\<forall>r \<in> R. durable uni jcs blake3 (gv_ledger V w) r" using R assms(2) by blast
  note D = agent_safeD [OF assms(1) ok this run]
  have "post' a \<and> (\<forall>r \<in> D' a. durable uni jcs blake3 (gv_ledger V w') r)" if "res = Inr a" for a
    using D(2) [OF that] assms(3) [of a] by blast
  then show "agent_evolves uni jcs blake3 V w w'
      \<and> (\<forall>a. res = Inr a \<longrightarrow> post' a \<and> (\<forall>r \<in> D' a. durable uni jcs blake3 (gv_ledger V w') r))"
    using D(1) by blast
qed

lemma agent_safe_calm:
  "agent_calm uni jcs blake3 V m \<Longrightarrow> agent_safe uni jcs blake3 V R m (\<lambda>_. True) (\<lambda>_. {})"
  by (force simp: agent_safe_def agent_calm_def)

lemma agent_safe_of: "agent_safe uni jcs blake3 V R (io_of r) (\<lambda>a. r = Inr a) (\<lambda>_. {})"
  by (auto simp: agent_safe_def agent_evolves_refl)

lemma agent_safe_err: "agent_safe uni jcs blake3 V R (io_err e) post D"
  by (auto simp: agent_safe_def agent_evolves_refl)

lemma agent_safe_ok: "post a \<Longrightarrow> D a \<subseteq> R \<Longrightarrow> agent_safe uni jcs blake3 V R (io_ok a) post D"
  by (auto simp: agent_safe_def agent_evolves_refl)

lemma agent_safe_else:
  assumes m: "agent_safe uni jcs blake3 V R m mid D"
    and h: "\<And>e. agent_safe uni jcs blake3 V R (h e) post E"
    and f: "\<And>a. mid a \<Longrightarrow> agent_safe uni jcs blake3 V (R \<union> D a) (f a) post E"
  shows "agent_safe uni jcs blake3 V R (io_else m h f) post E"
  unfolding agent_safe_def
proof (intro allI impI)
  fix w res w'
  assume ok: "agent_ok uni jcs blake3 V w" and R: "\<forall>r \<in> R. durable uni jcs blake3 (gv_ledger V w) r"
    and run: "io_else m h f w = (res, w')"
  obtain r1 w1 where 1: "m w = (r1, w1)" by fastforce
  note e1 = agent_safeD(1) [OF m ok R 1]
  have ok1: "agent_ok uni jcs blake3 V w1" using agent_evolves_ok [OF ok e1] .
  have R1: "\<forall>r \<in> R. durable uni jcs blake3 (gv_ledger V w1) r"
    using R e1 durable_evolves unfolding agent_evolves_def by blast
  have "agent_evolves uni jcs blake3 V w1 w' \<and> (\<forall>a. res = Inr a \<longrightarrow> post a \<and> (\<forall>r \<in> E a. durable uni jcs blake3 (gv_ledger V w') r))"
  proof (cases r1)
    case (Inl e)
    then have "h e w1 = (res, w')" using run 1 by (simp add: io_else_def)
    then show ?thesis using agent_safeD [OF h ok1 R1] by blast
  next
    case (Inr a)
    then have run': "f a w1 = (res, w')" using run 1 by (simp add: io_else_def)
    have a: "mid a" "\<forall>r \<in> R \<union> D a. durable uni jcs blake3 (gv_ledger V w1) r"
      using agent_safeD(2) [OF m ok R 1 Inr] R1 by blast+
    show ?thesis using agent_safeD [OF f [OF a(1)] ok1 a(2) run'] by blast
  qed
  then show "agent_evolves uni jcs blake3 V w w' \<and> (\<forall>a. res = Inr a \<longrightarrow> post a \<and> (\<forall>r \<in> E a. durable uni jcs blake3 (gv_ledger V w') r))"
    using agent_evolves_trans [OF ok e1] by blast
qed

lemma io_then_else: "io_then m f = io_else m io_err f"
  by (auto simp: io_then_def io_else_def fun_eq_iff split: prod.splits sum.splits)

lemma agent_safe_then:
  assumes "agent_safe uni jcs blake3 V R m mid D"
    and "\<And>a. mid a \<Longrightarrow> agent_safe uni jcs blake3 V (R \<union> D a) (f a) post E"
  shows "agent_safe uni jcs blake3 V R (io_then m f) post E"
  unfolding io_then_else using assms(1) agent_safe_err assms(2) by (rule agent_safe_else)

end
