(* ===== verification/AgentSafety.thy ===== *)
theory AgentSafety
  imports AgentEnv
begin

text \<open>
  Every operation of the agent is safe: whatever its ports answer, it moves the ledger along the steps
  of its records, sends only reports the ledger backs, and returns only records the ledger held.
\<close>

section \<open>Updates of a record\<close>

definition keeps_revision :: "(ledger_record \<Rightarrow> ledger_record) \<Rightarrow> bool" where
  "keeps_revision upd \<longleftrightarrow> (\<forall>x v. (upd x) \<lparr> lr_revision := v \<rparr> = upd (x \<lparr> lr_revision := v \<rparr>))"

lemma keeps_revision_updates [simp]:
  "keeps_revision id"
  "keeps_revision (\<lambda>x. x \<lparr> lr_accepted_at_unix_ms := t \<rparr>)"
  "keeps_revision (\<lambda>x. x \<lparr> lr_prepared := p \<rparr>)"
  "keeps_revision (\<lambda>x. x \<lparr> lr_decision := d, lr_finalized := z \<rparr>)"
  "keeps_revision (\<lambda>x. x \<lparr> lr_failure := f \<rparr>)"
  by (auto simp: keeps_revision_def intro!: ledger_record.equality)

section \<open>The operations are safe\<close>

context agent_env
begin

lemma safe_reached:
  assumes "(\<forall>r \<in> R. reached uni jcs blake3 (lr_key r) r) \<Longrightarrow> agent_safe uni jcs blake3 V R m post D"
  shows "agent_safe uni jcs blake3 V R m post D"
  using assms unfolding agent_safe_def durable_def by blast

lemma safe_send:
  assumes "r \<in> R" "report_backed uni jcs blake3 [lr_key r \<mapsto> r] x"
  shows "agent_safe uni jcs blake3 V R (ag_send P x) (\<lambda>_. True) (\<lambda>_. {})"
  unfolding agent_safe_def
proof (intro allI impI)
  fix w res w'
  assume ok: "agent_ok uni jcs blake3 V w" and R: "\<forall>r \<in> R. durable uni jcs blake3 (gv_ledger V w) r"
    and run: "ag_send P x w = (res, w')"
  note s = send_ok [OF ok run]
  have ok': "ledger_ok uni jcs blake3 (gv_ledger V w')"
    using s ok ledger_evolves_ok by (auto simp: agent_ok_def)
  have "report_backed uni jcs blake3 (gv_ledger V w') x"
    using durable_backs [OF durable_evolves ok' assms(2)] R assms(1) s by blast
  then have "agent_sends uni jcs blake3 V {} w w'" using s unfolding agent_sends_def by blast
  then show "agent_evolves uni jcs blake3 V w w'
      \<and> (\<forall>a. res = Inr a \<longrightarrow> True \<and> (\<forall>r \<in> {}. durable uni jcs blake3 (gv_ledger V w') r))"
    using s by (simp add: agent_evolves_def)
qed

lemma exchange_steps:
  assumes d: "durable uni jcs blake3 L r" and e: "exchanges (lr_revision r) nxt L M"
    and step: "\<And>v. checked_add (lr_revision r) 1 = Some v \<Longrightarrow> agent_step uni jcs blake3 r (nxt \<lparr> lr_revision := v \<rparr>)"
  shows "ledger_evolves uni jcs blake3 L M" "M (lr_key nxt) = Some (nxt \<lparr> lr_revision := lr_revision r + 1 \<rparr>)"
    "agent_step uni jcs blake3 r (nxt \<lparr> lr_revision := lr_revision r + 1 \<rparr>)"
proof -
  obtain current v where v: "L (lr_key nxt) = Some current" "lr_revision current = lr_revision r"
      "checked_add (lr_revision r) 1 = Some v" "M = L(lr_key nxt \<mapsto> nxt \<lparr> lr_revision := v \<rparr>)"
    using e by (auto simp: exchanges_def)
  have v1: "v = lr_revision r + 1" using next_revision [OF v(3)] by simp
  have st: "agent_step uni jcs blake3 r (nxt \<lparr> lr_revision := v \<rparr>)" using step v(3) by blast
  have "record_extends r (nxt \<lparr> lr_revision := v \<rparr>)"
    using agent_step_extends [OF st] reached_consistent d unfolding durable_def by blast
  then have key: "lr_key nxt = lr_key r" by (simp add: record_extends_def)
  have "current = r"
    using d v(1,2) key agent_steps_revision [of uni jcs blake3 r current] by (auto simp: durable_def)
  then show "ledger_evolves uni jcs blake3 L M"
    using v(1,4) st ledger_evolves_update [of L "lr_key nxt" r uni jcs blake3] by blast
  show "M (lr_key nxt) = Some (nxt \<lparr> lr_revision := lr_revision r + 1 \<rparr>)" using v(4) v1 by simp
  show "agent_step uni jcs blake3 r (nxt \<lparr> lr_revision := lr_revision r + 1 \<rparr>)" using st v1 by simp
qed

lemma safe_exchange:
  assumes r: "r \<in> R"
    and step: "\<And>v. checked_add (lr_revision r) 1 = Some v \<Longrightarrow> agent_step uni jcs blake3 r (nxt \<lparr> lr_revision := v \<rparr>)"
  shows "agent_safe uni jcs blake3 V R (ag_compare_exchange P (lr_revision r) nxt)
    (\<lambda>s. s = nxt \<lparr> lr_revision := lr_revision r + 1 \<rparr> \<and> agent_step uni jcs blake3 r s) (\<lambda>s. {s})"
  unfolding agent_safe_def
proof (intro allI impI)
  fix w res w'
  assume ok: "agent_ok uni jcs blake3 V w" and R: "\<forall>r \<in> R. durable uni jcs blake3 (gv_ledger V w) r"
    and run: "ag_compare_exchange P (lr_revision r) nxt w = (res, w')"
  have d: "durable uni jcs blake3 (gv_ledger V w) r" and lok: "ledger_ok uni jcs blake3 (gv_ledger V w)"
    using R r ok by (simp_all add: agent_ok_def)
  show "agent_evolves uni jcs blake3 V w w'
    \<and> (\<forall>s. res = Inr s \<longrightarrow> (s = nxt \<lparr> lr_revision := lr_revision r + 1 \<rparr> \<and> agent_step uni jcs blake3 r s)
        \<and> (\<forall>r \<in> {s}. durable uni jcs blake3 (gv_ledger V w') r))"
  proof (cases res)
    case (Inl e)
    obtain L M where m: "ledger_evolves uni jcs blake3 (gv_ledger V w) L" "M = L \<or> exchanges (lr_revision r) nxt L M"
        "ledger_evolves uni jcs blake3 M (gv_ledger V w')" "sends_around uni jcs blake3 V L w w'"
      using exchange_err [OF ok run [unfolded Inl]] by blast
    have "ledger_evolves uni jcs blake3 L M"
      using m(2) exchange_steps(1) [OF durable_evolves [OF d m(1)] _ step] by auto
    then have ev: "ledger_evolves uni jcs blake3 L (gv_ledger V w')"
      using m(3) by (blast intro: ledger_evolves_trans)
    then have "ledger_evolves uni jcs blake3 (gv_ledger V w) (gv_ledger V w')"
      using m(1) by (blast intro: ledger_evolves_trans)
    then show ?thesis
      using exchange_world [OF ok run] sends_around_evolves [OF m(4) ledger_evolves_ok [OF m(1) lok] ev] Inl
      by (simp add: agent_evolves_def)
  next
    case (Inr s)
    obtain L M where m: "ledger_evolves uni jcs blake3 (gv_ledger V w) L" "exchanges (lr_revision r) nxt L M"
        "ledger_evolves uni jcs blake3 M (gv_ledger V w')" "M (lr_key nxt) = Some s" "sends_around uni jcs blake3 V L w w'"
      using exchange_ok [OF ok run [unfolded Inr]] by blast
    note x = exchange_steps [OF durable_evolves [OF d m(1)] m(2) step]
    have ev: "ledger_evolves uni jcs blake3 (gv_ledger V w) M" using m(1) x(1) by (blast intro: ledger_evolves_trans)
    have "durable uni jcs blake3 M s" using durable_held [OF ledger_evolves_ok [OF ev lok] m(4)] .
    then have "durable uni jcs blake3 (gv_ledger V w') s" using m(3) by (rule durable_evolves)
    moreover have "ledger_evolves uni jcs blake3 (gv_ledger V w) (gv_ledger V w')"
      using ev m(3) by (rule ledger_evolves_trans)
    moreover have "agent_sends uni jcs blake3 V {} w w'"
      using sends_around_evolves [OF m(5) ledger_evolves_ok [OF m(1) lok] ledger_evolves_trans [OF x(1) m(3)]] .
    ultimately show ?thesis
      using exchange_world [OF ok run] x(2,3) m(4) Inr by (simp add: agent_evolves_def)
  qed
qed

lemma safe_transition:
  assumes "r \<in> R" and "keeps_revision upd"
    and "\<And>v. lr_state r = ex \<Longrightarrow> checked_add (lr_revision r) 1 = Some v \<Longrightarrow>
      agent_step uni jcs blake3 r (upd (advance r target now))"
  shows "agent_safe uni jcs blake3 V R (persist_transition P r ex target now upd)
    (\<lambda>s. s = upd (advance r target now) \<and> lr_state r = ex \<and> agent_step uni jcs blake3 r s) (\<lambda>s. {s})"
proof (cases "lr_state r = ex")
  case True
  have eq: "(upd (r \<lparr> lr_state := target, lr_updated_at_unix_ms := now \<rparr>)) \<lparr> lr_revision := lr_revision r + 1 \<rparr>
      = upd (advance r target now)"
    using assms(2) by (simp add: keeps_revision_def advance_def)
  have step: "agent_step uni jcs blake3 r
      ((upd (r \<lparr> lr_state := target, lr_updated_at_unix_ms := now \<rparr>)) \<lparr> lr_revision := v \<rparr>)"
    if "checked_add (lr_revision r) 1 = Some v" for v
    using assms(3) [OF True that] next_revision [OF that] eq by simp
  from safe_exchange [OF assms(1) step] show ?thesis by (simp add: persist_transition_def True eq)
next
  case False
  then show ?thesis by (simp add: persist_transition_def agent_safe_err)
qed

lemma safe_load:
  "agent_safe uni jcs blake3 V R (ag_load P k) (\<lambda>x. \<forall>r. x = Some r \<longrightarrow> lr_key r = k)
     (\<lambda>x. case x of None \<Rightarrow> {} | Some r \<Rightarrow> {r})"
  unfolding agent_safe_def
proof (intro allI impI conjI ballI)
  fix w res w' assume ok: "agent_ok uni jcs blake3 V w" and run: "ag_load P k w = (res, w')"
  show "agent_evolves uni jcs blake3 V w w'" using calm_load ok run unfolding agent_calm_def by (metis snd_conv)
  fix x assume x: "res = Inr x"
  show "lr_key r = k" if "x = Some r" for r using load_reads [OF ok] run x that by blast
  show "durable uni jcs blake3 (gv_ledger V w') r" if "r \<in> (case x of None \<Rightarrow> {} | Some r \<Rightarrow> {r})" for r
    using load_reads [OF ok] run x that by (auto split: option.splits)
qed

lemma safe_load_required:
  "agent_safe uni jcs blake3 V R (load_required P k) (\<lambda>r. lr_key r = k) (\<lambda>r. {r})"
  unfolding load_required_def
proof (rule agent_safe_then [OF safe_load])
  fix x :: "ledger_record option" assume "\<forall>r. x = Some r \<longrightarrow> lr_key r = k"
  then show "agent_safe uni jcs blake3 V (R \<union> (case x of None \<Rightarrow> {} | Some r \<Rightarrow> {r}))
      (io_of (ok_or AeAssignmentNotFound x)) (\<lambda>r. lr_key r = k) (\<lambda>r. {r})"
    by (cases x) (auto simp: ok_or_def agent_safe_def agent_evolves_refl)
qed

lemma safe_claim:
  "agent_safe uni jcs blake3 V R (ag_claim P c) (\<lambda>_. True)
     (\<lambda>x. case x of ClaimNew r \<Rightarrow> {r} | ClaimExisting r \<Rightarrow> {r})"
  unfolding agent_safe_def
proof (intro allI impI conjI ballI)
  fix w res w' assume ok: "agent_ok uni jcs blake3 V w" and run: "ag_claim P c w = (res, w')"
  show "agent_evolves uni jcs blake3 V w w'" using calm_claim ok run unfolding agent_calm_def by (metis snd_conv)
  fix x r assume x: "res = Inr x" and "r \<in> (case x of ClaimNew r \<Rightarrow> {r} | ClaimExisting r \<Rightarrow> {r})"
  then show "durable uni jcs blake3 (gv_ledger V w') r"
    using claim_new [OF ok] claim_existing [OF ok] run by (auto split: claim_outcome.splits)
qed auto

lemma safe_validate_active:
  "agent_safe uni jcs blake3 V R (validate_active_assignment P r) (\<lambda>_. True) (\<lambda>_. {})"
  unfolding validate_active_assignment_def
  by (intro agent_safe_then [OF agent_safe_calm] calm_now calm_validate agent_safe_ok) auto

lemma safe_send_accepted:
  assumes "r \<in> R" shows "agent_safe uni jcs blake3 V R (send_accepted P r) (\<lambda>_. True) (\<lambda>_. {})"
  unfolding send_accepted_def
proof (rule agent_safe_then [OF agent_safe_of])
  fix t assume "ok_or AeInvalidState (lr_accepted_at_unix_ms r) = Inr t"
  then have "report_backed uni jcs blake3 [lr_key r \<mapsto> r] (ReportAccepted (accepted_report r t))"
    by (auto simp: ok_or_def split: option.splits)
  then show "agent_safe uni jcs blake3 V (R \<union> {}) (ag_send P (ReportAccepted (accepted_report r t))) (\<lambda>_. True) (\<lambda>_. {})"
    using safe_send assms by simp
qed

lemma safe_send_running:
  assumes "r \<in> R" "lr_accepted_at_unix_ms r \<noteq> None"
  shows "agent_safe uni jcs blake3 V R (send_running P r) (\<lambda>_. True) (\<lambda>_. {})"
  unfolding send_running_def using assms by (intro safe_send [of r]) auto

lemma failure_of_identity:
  "job_failed_validate (failure_of r stage code e msg now) = Inr () \<Longrightarrow>
   validate_failure_identity r (failure_of r stage code e msg now) = Inr ()"
  by (simp add: validate_failure_identity_def map_err_def) (simp add: failure_of_def Let_def)

lemma from_protocol_Inr [simp]: "from_protocol_error r = Inr a \<longleftrightarrow> r = Inr a"
  by (cases r) (auto simp: from_protocol_error_def map_err_def)

lemma safe_record_failure:
  assumes "r \<in> R" "lr_state r \<in> {Accepted, Recovering, Running, Prepared, Finalizing}"
  shows "agent_safe uni jcs blake3 V R (record_failure P r stage e msg) (\<lambda>_. True) (\<lambda>_. {})"
  unfolding record_failure_def Let_def
proof (rule agent_safe_then [OF agent_safe_calm [OF calm_now]], rule agent_safe_then [OF agent_safe_of],
    rule agent_safe_then [OF agent_safe_of])
  fix now :: u64 and code :: error_code_text and u :: unit
  define f where "f = failure_of r stage code e msg now"
  assume "from_protocol_error (job_failed_validate (failure_of r stage code e msg now)) = Inr u"
  then have f: "validate_failure_identity r f = Inr ()" using failure_of_identity by (simp add: f_def)
  have step: "agent_step uni jcs blake3 r (advance r FailedReported now \<lparr> lr_failure := Some f \<rparr>)"
    if "checked_add (lr_revision r) 1 = Some v" for v
    using step_fail [OF assms(2) that f] .
  show "agent_safe uni jcs blake3 V (R \<union> {} \<union> {} \<union> {})
      (io_then (persist_transition P r (lr_state r) FailedReported now
          (\<lambda>nxt. nxt \<lparr> lr_failure := Some (failure_of r stage code e msg now) \<rparr>))
        (\<lambda>failed. io_then (io_of (ok_or AeInternal (lr_failure failed))) (\<lambda>persisted. ag_send P (ReportFailed persisted))))
      (\<lambda>_. True) (\<lambda>_. {})"
    unfolding f_def [symmetric]
  proof (rule agent_safe_then [OF safe_transition [of r]], goal_cases)
    case (4 s)
    show ?case
    proof (rule agent_safe_then [OF agent_safe_of], rule safe_send [of s])
      fix g assume "ok_or AeInternal (lr_failure s) = Inr g"
      then have "g = f" using 4 by (simp add: ok_or_def)
      moreover have "validate_failure_identity s f = Inr ()"
        using 4 f by (simp add: validate_failure_identity_def)
      ultimately show "report_backed uni jcs blake3 [lr_key s \<mapsto> s] (ReportFailed g)" by auto
    qed simp
  qed (use assms step in auto)
qed

lemma safe_persist_failure:
  assumes "r \<in> R" "lr_state r \<in> {Accepted, Recovering, Running, Prepared, Finalizing}"
  shows "agent_safe uni jcs blake3 V R (persist_failure P r stage e) post D"
  unfolding agent_safe_def
proof (intro allI impI)
  fix w and res :: "agent_error_code + 'a" and w'
  assume a: "agent_ok uni jcs blake3 V w" "\<forall>r \<in> R. durable uni jcs blake3 (gv_ledger V w) r"
    and "persist_failure P r stage e w = (res, w')"
  then have "res = Inl e" "w' = snd (record_failure P r stage e (ag_message P e w) w)" by (auto simp: persist_failure_def)
  moreover obtain u w1 where "record_failure P r stage e (ag_message P e w) w = (u, w1)" by fastforce
  ultimately show "agent_evolves uni jcs blake3 V w w'
      \<and> (\<forall>a. res = Inr a \<longrightarrow> post a \<and> (\<forall>r \<in> D a. durable uni jcs blake3 (gv_ledger V w') r))"
    using agent_safeD(1) [OF safe_record_failure [OF assms] a] by simp
qed

lemma safe_report_failure:
  assumes "r \<in> R" shows "agent_safe uni jcs blake3 V R (report_failure P r) (\<lambda>_. True) (\<lambda>s. {s})"
  unfolding report_failure_def
  by (rule agent_safe_then [OF agent_safe_of], rule agent_safe_then [OF agent_safe_of],
      rule agent_safe_then [OF safe_send [of r]], use assms in \<open>auto intro: agent_safe_ok\<close>)

lemma safe_report_prepared:
  assumes "r \<in> R" shows "agent_safe uni jcs blake3 V R (report_prepared uni jcs blake3 P r) (\<lambda>_. True) (\<lambda>s. {s})"
proof (cases "lr_state r = Prepared")
  case True
  have stop: "agent_safe uni jcs blake3 V Q (persist_transition P r Prepared AwaitingDecision now id) (\<lambda>_. True) (\<lambda>s. {s})"
    if "r \<in> Q" for Q now
    by (rule agent_safe_weaken [OF safe_transition [OF that] subset_refl]) (use step_report in auto)
  have send: "agent_safe uni jcs blake3 V Q (ag_send P (ReportPrepared x)) (\<lambda>_. True) (\<lambda>_. {})"
    if "r \<in> Q" "lr_prepared r = Some px" "prepared_report uni jcs blake3 r px = Inr x" for Q px x
    using that by (intro safe_send [of r]) auto
  show ?thesis
    unfolding report_prepared_def
    using True assms
    by (auto intro!: agent_safe_else [OF safe_validate_active] safe_persist_failure agent_safe_then [OF agent_safe_of]
        agent_safe_then [OF send] agent_safe_then [OF agent_safe_calm [OF calm_stage]]
        agent_safe_then [OF agent_safe_calm [OF calm_now]] stop)
qed (simp add: report_prepared_def agent_safe_err)

lemma safe_acknowledge:
  assumes "r \<in> R" shows "agent_safe uni jcs blake3 V R (acknowledge P r d) (\<lambda>_. True) (\<lambda>s. {s})"
proof -
  have stop: "agent_safe uni jcs blake3 V Q
      (persist_transition P r Finalizing Completed now (\<lambda>nxt. nxt \<lparr> lr_failure := None \<rparr>)) (\<lambda>_. True) (\<lambda>s. {s})"
    if "r \<in> Q" for Q now
    by (rule agent_safe_weaken [OF safe_transition [OF that] subset_refl]) (use step_complete in auto)
  have send: "agent_safe uni jcs blake3 V Q (ag_send P (ReportFinalized x)) (\<lambda>_. True) (\<lambda>_. {})"
    if "r \<in> Q" "lr_finalized r = Some x" for Q x
    using that by (intro safe_send [of r]) auto
  show ?thesis
    unfolding acknowledge_def
    using assms
    by (auto intro!: agent_safe_then [OF agent_safe_of] agent_safe_then [OF send]
        agent_safe_then [OF agent_safe_calm [OF calm_now]] stop)
qed

lemma safe_finalize:
  assumes "r \<in> R" shows "agent_safe uni jcs blake3 V R (finalize uni blake3 P r) (\<lambda>_. True) (\<lambda>s. {s})"
  unfolding finalize_def
  using assms
  by (auto intro!: agent_safe_then [OF agent_safe_of] agent_safe_else [OF agent_safe_calm] calm_finalize
      safe_persist_failure safe_acknowledge agent_safe_err split: option.split)

lemma safe_accept_claimed:
  assumes "r \<in> R" shows "agent_safe uni jcs blake3 V R (accept_claimed P now r) (\<lambda>_. True) (\<lambda>s. {s})"
  unfolding accept_claimed_def
proof (rule agent_safe_then [OF safe_transition [OF assms]], goal_cases)
  case (3 s)
  show ?case by (rule agent_safe_then [OF safe_send_accepted], simp, rule agent_safe_ok) auto
qed (use step_accept in auto)

lemma safe_accept_assignment:
  "agent_safe uni jcs blake3 V R (accept_assignment P a) (\<lambda>_. True) (\<lambda>x. {aa_record x})"
proof -
  have replay: "agent_safe uni jcs blake3 V Q (io_then (send_accepted P r) (\<lambda>_. io_ok r)) (\<lambda>_. True) (\<lambda>s. {s})"
    if "r \<in> Q" for Q r
    by (rule agent_safe_then [OF safe_send_accepted [OF that]], rule agent_safe_ok) (use that in auto)
  have keep: "agent_safe uni jcs blake3 V Q (io_ok r) (\<lambda>_. True) (\<lambda>s. {s})" if "r \<in> Q" for Q r
    by (rule agent_safe_ok) (use that in auto)
  have fin: "agent_safe uni jcs blake3 V Q (io_ok \<lparr> aa_disposition = z, aa_record = r \<rparr>) (\<lambda>_. True) (\<lambda>x. {aa_record x})"
    if "r \<in> Q" for Q r z
    by (rule agent_safe_ok) (use that in auto)
  have wrap: "agent_safe uni jcs blake3 V Q (io_then m (\<lambda>r. io_ok \<lparr> aa_disposition = z, aa_record = r \<rparr>))
      (\<lambda>_. True) (\<lambda>x. {aa_record x})" if "agent_safe uni jcs blake3 V Q m (\<lambda>_. True) (\<lambda>s. {s})" for Q m z
    by (rule agent_safe_then [OF that], rule fin) simp
  show ?thesis
    unfolding accept_assignment_def Let_def
    by (auto intro!: agent_safe_then [OF agent_safe_calm [OF calm_now]] agent_safe_then [OF safe_load]
        agent_safe_then [OF agent_safe_of] agent_safe_then [OF agent_safe_calm [OF calm_validate]]
        agent_safe_then [OF safe_claim] wrap safe_accept_claimed replay keep
        split: option.split claim_outcome.split)
qed

lemma safe_run_assignment:
  assumes "r \<in> R" "lr_state r = Running" "lr_accepted_at_unix_ms r \<noteq> None"
  shows "agent_safe uni jcs blake3 V R (run_assignment uni jcs blake3 P r) (\<lambda>_. True) (\<lambda>s. {s})"
proof -
  have prepared: "agent_safe uni jcs blake3 V Q
      (io_then (persist_transition P r Running Prepared now
         (\<lambda>nxt. nxt \<lparr> lr_prepared := Some \<lparr> px_candidate = c, px_transfer = t \<rparr> \<rparr>))
         (report_prepared uni jcs blake3 P)) (\<lambda>_. True) (\<lambda>s. {s})"
    if "r \<in> Q" "validate_candidate uni blake3 r c = Inr ()"
      "transfer_receipt_validate_for uni jcs blake3 t (lr_assignment r) c = Inr ()" for Q now c t
  proof (rule agent_safe_then [OF safe_transition [OF that(1)]], goal_cases)
    case (2 v)
    then show ?case using step_prepare [of r v uni blake3 "\<lparr> px_candidate = c, px_transfer = t \<rparr>" jcs now] that by simp
  qed (simp_all add: safe_report_prepared)
  show ?thesis
    unfolding run_assignment_def
    using assms
    by (auto intro!: agent_safe_else [OF safe_send_running] agent_safe_else [OF agent_safe_of]
        agent_safe_else [OF agent_safe_calm [OF calm_prepare_add]] agent_safe_else [OF agent_safe_calm [OF calm_transfer]]
        agent_safe_then [OF agent_safe_calm [OF calm_now]] safe_persist_failure prepared)
qed

lemma safe_execute:
  "agent_safe uni jcs blake3 V R (execute uni jcs blake3 P k) (\<lambda>_. True) (\<lambda>s. {s})"
  unfolding execute_def
proof (rule agent_safe_then [OF safe_load_required], rule safe_reached, goal_cases)
  case (1 r)
  then have c: "record_consistent uni jcs blake3 r" using reached_consistent [of uni jcs blake3 "lr_key r" r] by simp
  have run: "agent_safe uni jcs blake3 V Q
      (io_then (persist_transition P r st Running now (\<lambda>nxt. nxt \<lparr> lr_failure := None \<rparr>))
         (run_assignment uni jcs blake3 P)) (\<lambda>_. True) (\<lambda>s. {s})"
    if "r \<in> Q" "st = Accepted \<or> st = Recovering" for Q st now
  proof (rule agent_safe_then [OF safe_transition [OF that(1)]], goal_cases)
    case (2 v)
    then show ?case using step_start [of r v uni jcs blake3 now] that(2) by auto
  next
    case (3 s)
    then show ?case using that(2) c by (auto intro!: safe_run_assignment simp: record_consistent_def accepted_consistent_def)
  qed simp
  show ?case
    by (auto intro!: safe_report_prepared agent_safe_ok agent_safe_err agent_safe_else [OF safe_validate_active]
        safe_persist_failure run)
qed

lemma safe_handle_assignment:
  "agent_safe uni jcs blake3 V R (handle_assignment uni jcs blake3 P a) (\<lambda>_. True) (\<lambda>s. {s})"
  unfolding handle_assignment_def
  by (rule agent_safe_then [OF safe_accept_assignment]) (auto intro!: safe_execute agent_safe_ok)

lemma safe_resume:
  assumes "r \<in> R" "st \<in> {FailedReported, Recovering}" "lr_decision r = Some d"
  shows "agent_safe uni jcs blake3 V R
    (io_then (persist_transition P r st Finalizing now (\<lambda>nxt. nxt \<lparr> lr_failure := None \<rparr>)) (finalize uni blake3 P))
    (\<lambda>_. True) (\<lambda>s. {s})"
proof (rule agent_safe_then [OF safe_transition [OF assms(1)]], goal_cases)
  case (2 v)
  then show ?case using step_resume [of r d v] assms(2,3) by auto
qed (auto intro: safe_finalize)

lemma safe_refail:
  assumes "r \<in> R" "lr_failure r = Some f"
  shows "agent_safe uni jcs blake3 V R (persist_transition P r Recovering FailedReported now id) (\<lambda>_. True) (\<lambda>s. {s})"
  by (rule agent_safe_weaken [OF safe_transition [OF assms(1)] subset_refl]) (use step_refail assms in auto)

lemma safe_recover:
  "agent_safe uni jcs blake3 V R (recover uni jcs blake3 P k) (\<lambda>_. True) (\<lambda>s. {s})"
  unfolding recover_def
proof (rule agent_safe_then [OF safe_load_required], goal_cases)
  case (1 r)
  have r: "r \<in> R \<union> {r}" by simp
  have interrupt: "agent_safe uni jcs blake3 V Q
      (io_then (persist_transition P r Running Recovering now id) (\<lambda>_. execute uni jcs blake3 P k)) (\<lambda>_. True) (\<lambda>s. {s})"
    if "r \<in> Q" for Q now
    by (rule agent_safe_then [OF safe_transition [OF that]]) (use step_interrupt in \<open>auto intro: safe_execute\<close>)
  have refail: "agent_safe uni jcs blake3 V Q
      (io_then (io_then (ag_now P) (\<lambda>now. persist_transition P r Recovering FailedReported now id)) (report_failure P))
      (\<lambda>_. True) (\<lambda>s. {s})"
    if "r \<in> Q" "lr_failure r \<noteq> None" for Q
    by (rule agent_safe_then [where mid = "\<lambda>_. True" and D = "\<lambda>s. {s}"])
      (use that in \<open>auto intro!: agent_safe_then [OF agent_safe_calm [OF calm_now]] safe_refail safe_report_failure\<close>)
  have replay: "agent_safe uni jcs blake3 V Q (io_then (io_ok r) (report_failure P)) (\<lambda>_. True) (\<lambda>s. {s})"
    if "r \<in> Q" for Q
  proof -
    have "io_then (io_ok r) (report_failure P) = report_failure P r" by (simp add: fun_eq_iff)
    then show ?thesis using safe_report_failure [OF that] by simp
  qed
  show ?case
    by (auto intro!: agent_safe_then [OF safe_send_accepted] safe_execute safe_report_prepared agent_safe_ok agent_safe_err
        safe_finalize agent_safe_then [OF agent_safe_calm [OF calm_now]] interrupt refail replay safe_resume
        agent_safe_then [OF agent_safe_of] split: agent_assignment_state.split option.split)
qed

lemma safe_handle_decision:
  "agent_safe uni jcs blake3 V R (handle_decision uni jcs blake3 P tenant d) (\<lambda>_. True) (\<lambda>s. {s})"
proof -
  have decide: "agent_safe uni jcs blake3 V Q
      (io_then (persist_transition P r st Finalizing now
         (\<lambda>nxt. nxt \<lparr> lr_decision := Some d, lr_finalized := Some (finalized_of r d now) \<rparr>)) (finalize uni blake3 P))
      (\<lambda>_. True) (\<lambda>s. {s})"
    if "r \<in> Q" "may_apply r d" "lr_decision r = None" "validate_decision_identity r d = Inr ()"
      "validate_publish_result r d = Inr ()" for Q r st now
  proof (rule agent_safe_then [OF safe_transition [OF that(1)]], goal_cases)
    case (2 v)
    then show ?case using step_decide [OF that(2,3) _ that(4,5), of v] by auto
  qed (auto intro: safe_finalize)
  show ?thesis
    unfolding handle_decision_def Let_def
    by (auto intro!: agent_safe_err agent_safe_ok agent_safe_then [OF safe_load_required] agent_safe_then [OF agent_safe_of]
        safe_finalize safe_recover agent_safe_then [OF agent_safe_calm [OF calm_now]] decide
        split: option.split agent_assignment_state.split)
qed

lemma safe_recover_active:
  "agent_safe uni jcs blake3 V R (recover_active uni jcs blake3 P) (\<lambda>_. True) (\<lambda>rs. set rs)"
proof -
  have "agent_safe uni jcs blake3 V Q
      (io_fold (\<lambda>done record.
         io_then (if lr_state record = Claimed then handle_assignment uni jcs blake3 P (lr_assignment record)
                  else recover uni jcs blake3 P (lr_key record)) (\<lambda>r. io_ok (done @ [r]))) acc rs)
      (\<lambda>_. True) (\<lambda>rs. set rs)" if "set acc \<subseteq> Q" for Q acc rs
    using that
  proof (induction rs arbitrary: acc Q)
    case (Cons r rs)
    have "agent_safe uni jcs blake3 V Q
        (io_then (if lr_state r = Claimed then handle_assignment uni jcs blake3 P (lr_assignment r)
                  else recover uni jcs blake3 P (lr_key r)) (\<lambda>r. io_ok (acc @ [r]))) (\<lambda>_. True) (\<lambda>rs. set rs)"
      using Cons.prems
      by (auto intro!: agent_safe_then [OF safe_handle_assignment] agent_safe_then [OF safe_recover] agent_safe_ok)
    then show ?case unfolding io_fold.simps by (rule agent_safe_then) (rule Cons.IH, simp)
  qed (auto intro: agent_safe_ok)
  note fold = this
  show ?thesis
    unfolding recover_active_def by (rule agent_safe_then [OF agent_safe_calm [OF calm_list_active]], rule fold) simp
qed

end

end
