(* ===== verification/MemoryAgent.thy ===== *)
theory MemoryAgent
  imports AgentSafety
begin

text \<open>
  The adapters of \<open>agent_core\<close> that run in one process: the ledger of \<open>memory.rs\<close>, the baseline
  validator of \<open>ports.rs\<close>, and the scripted executor, object transfer, report sink and clock of \<open>fakes.rs\<close>.
  They satisfy the contract \<open>agent_env\<close>, also when other threads run the same agent in between.
\<close>

section \<open>The adapters\<close>

record 'x memory_agent =
  ma_records :: memory_ledger
  ma_executor_results :: "prepared_add agent_result list"
  ma_executor_calls :: "assignment_key list"
  ma_transfer_results :: "transfer_receipt agent_result list"
  ma_staging_results :: "unit agent_result list"
  ma_finalize_results :: "unit agent_result list"
  ma_transfers :: "assignment_key list"
  ma_stagings :: "(assignment_key \<times> transfer_receipt) list"
  ma_staged_receipts :: "(assignment_key, transfer_receipt) btree_map"
  ma_finalizations :: "(assignment_key \<times> job_decision) list"
  ma_reports :: "'x agent_report list"
  ma_failures :: "agent_error_code list"
  ma_now :: u64

definition on_records :: "(memory_ledger, 'a) agent_io \<Rightarrow> ('x memory_agent, 'a) agent_io" where
  "on_records m w = (case m (ma_records w) of (r, s) \<Rightarrow> (r, w \<lparr> ma_records := s \<rparr>))"

text \<open>\<open>pop_front().unwrap_or_else(|| Err(..))\<close>.\<close>

definition scripted :: "agent_error_code \<Rightarrow> 'a agent_result list \<Rightarrow> 'a agent_result \<times> 'a agent_result list" where
  "scripted e results = (case results of [] \<Rightarrow> (Inl e, []) | r # rest \<Rightarrow> (r, rest))"

definition fake_prepare_add :: "add_assignment \<Rightarrow> ('x memory_agent, prepared_add) agent_io" where
  "fake_prepare_add a w =
     (case scripted AeExecutionFailed (ma_executor_results w) of (r, rest) \<Rightarrow>
        (r, w \<lparr> ma_executor_calls := ma_executor_calls w @ [key_from_assignment a], ma_executor_results := rest \<rparr>))"

definition fake_transfer :: "add_assignment \<Rightarrow> prepared_add \<Rightarrow> ('x memory_agent, transfer_receipt) agent_io" where
  "fake_transfer a prepared w =
     (case scripted AeObjectTransferFailed (ma_transfer_results w) of (r, rest) \<Rightarrow>
        (r, w \<lparr> ma_transfers := ma_transfers w @ [key_from_assignment a], ma_transfer_results := rest \<rparr>))"

definition fake_stage_metadata ::
  "jcs \<Rightarrow> (byte list \<Rightarrow> content_digest) \<Rightarrow> add_assignment \<Rightarrow> transfer_receipt \<Rightarrow> ('x memory_agent, unit) agent_io" where
  "fake_stage_metadata jcs blake3 a receipt w =
     (case transfer_receipt_validate jcs blake3 receipt a of
        Inl e \<Rightarrow> (Inl e, w)
      | Inr _ \<Rightarrow>
          let key = key_from_assignment a; w = w \<lparr> ma_stagings := ma_stagings w @ [(key, receipt)] \<rparr> in
          case bt_get (ma_staged_receipts w) key of
            Some existing \<Rightarrow> (if existing = receipt then Inr () else Inl AeObjectTransferFailed, w)
          | None \<Rightarrow>
              (case scripted AeObjectTransferFailed (ma_staging_results w) of (r, rest) \<Rightarrow>
                 let w = w \<lparr> ma_staging_results := rest \<rparr> in
                 (r, if is_ok r then w \<lparr> ma_staged_receipts := bt_insert key receipt (ma_staged_receipts w) \<rparr> else w)))"

definition fake_finalize :: "add_assignment \<Rightarrow> prepared_add \<Rightarrow> job_decision \<Rightarrow> ('x memory_agent, unit) agent_io" where
  "fake_finalize a prepared d w =
     (case scripted AeObjectTransferFailed (ma_finalize_results w) of (r, rest) \<Rightarrow>
        (r, w \<lparr> ma_finalizations := ma_finalizations w @ [(key_from_assignment a, d)], ma_finalize_results := rest \<rparr>))"

definition fake_send :: "'x agent_report \<Rightarrow> ('x memory_agent, unit) agent_io" where
  "fake_send report w =
     (case ma_failures w of
        e # rest \<Rightarrow> (Inl e, w \<lparr> ma_failures := rest \<rparr>)
      | [] \<Rightarrow> (Inr (), w \<lparr> ma_reports := ma_reports w @ [report] \<rparr>))"

definition fake_now :: "('x memory_agent, u64) agent_io" where
  "fake_now w = (Inr (ma_now w), w)"

definition memory_agent_ports ::
  "unicode \<Rightarrow> jcs \<Rightarrow> (byte list \<Rightarrow> content_digest) \<Rightarrow> (agent_error_code \<Rightarrow> 'x memory_agent \<Rightarrow> string)
   \<Rightarrow> ('x memory_agent, 'x) agent_ports" where
  "memory_agent_ports uni jcs blake3 message =
     \<lparr> ag_claim = (\<lambda>c. on_records (memory_ledger_claim c)),
       ag_load = (\<lambda>k. on_records (memory_ledger_load k)),
       ag_list_active = on_records memory_ledger_list_active,
       ag_compare_exchange = (\<lambda>expected nxt. on_records (memory_ledger_compare_exchange expected nxt)),
       ag_validate = (\<lambda>a t. io_of (basic_validate uni jcs blake3 a t)),
       ag_prepare_add = fake_prepare_add,
       ag_transfer = fake_transfer,
       ag_stage_metadata = fake_stage_metadata jcs blake3,
       ag_finalize = fake_finalize,
       ag_send = fake_send,
       ag_now = fake_now,
       ag_message = message \<rparr>"

definition memory_agent_view :: "('x memory_agent, 'x) agent_view" where
  "memory_agent_view =
     \<lparr> gv_ledger = (\<lambda>w. bt_get (ma_records w)), gv_sent = (\<lambda>w. set (ma_reports w)), gv_ok = (\<lambda>w. bt_ok (ma_records w)) \<rparr>"

lemma memory_agent_view_simps [simp]:
  "gv_ledger memory_agent_view w = bt_get (ma_records w)" "gv_sent memory_agent_view w = set (ma_reports w)"
  "gv_ok memory_agent_view w \<longleftrightarrow> bt_ok (ma_records w)"
  by (simp_all add: memory_agent_view_def)

section \<open>They satisfy the contract\<close>

lemma agent_calm_idle:
  assumes "\<And>w. ma_records (snd (m w)) = ma_records w" "\<And>w. ma_reports (snd (m w)) = ma_reports w"
  shows "agent_calm uni jcs blake3 memory_agent_view m"
  by (simp add: agent_calm_def agent_ok_def agent_evolves_def agent_sends_def assms)

lemma fakes_idle:
  "ma_records (snd (fake_prepare_add a w)) = ma_records w" "ma_reports (snd (fake_prepare_add a w)) = ma_reports w"
  "ma_records (snd (fake_transfer a c w)) = ma_records w" "ma_reports (snd (fake_transfer a c w)) = ma_reports w"
  "ma_records (snd (fake_finalize a c d w)) = ma_records w" "ma_reports (snd (fake_finalize a c d w)) = ma_reports w"
  "ma_records (snd (fake_stage_metadata jcs blake3 a tr w)) = ma_records w"
  "ma_reports (snd (fake_stage_metadata jcs blake3 a tr w)) = ma_reports w"
  by (simp_all add: fake_prepare_add_def fake_transfer_def fake_finalize_def fake_stage_metadata_def scripted_def Let_def
      split: prod.split sum.split option.split list.split)

lemma memory_claim_cases:
  assumes "memory_ledger_claim c m = (res, m')"
  shows "(m' = m \<and> (\<forall>x. res = Inr x \<longrightarrow> (\<exists>r. x = ClaimExisting r \<and> bt_get m (key_from_assignment (lc_assignment c)) = Some r)))
    \<or> (bt_get m (key_from_assignment (lc_assignment c)) = None
       \<and> res = Inr (ClaimNew (ledger_record_claimed (lc_assignment c) (lc_claimed_at_unix_ms c)))
       \<and> m' = bt_insert (key_from_assignment (lc_assignment c))
           (ledger_record_claimed (lc_assignment c) (lc_claimed_at_unix_ms c)) m)"
  using assms by (auto simp: memory_ledger_claim_def Let_def split: option.splits if_splits)

lemma memory_exchange_cases:
  assumes "memory_ledger_compare_exchange expected nxt m = (res, m')" "bt_ok m"
  shows "(m' = m \<and> (\<exists>e. res = Inl e))
    \<or> (exchanges expected nxt (bt_get m) (bt_get m') \<and> bt_ok m' \<and> (\<exists>s. res = Inr s \<and> bt_get m' (lr_key nxt) = Some s))"
  using assms
  by (auto simp: memory_ledger_compare_exchange_def exchanges_def Let_def split: option.splits if_splits)

lemma memory_calm_claim: "agent_calm uni jcs blake3 memory_agent_view (on_records (memory_ledger_claim c))"
  unfolding agent_calm_def
proof (intro allI impI)
  fix w :: "'x memory_agent" assume ok: "agent_ok uni jcs blake3 memory_agent_view w"
  obtain res m where run: "memory_ledger_claim c (ma_records w) = (res, m)" by fastforce
  have b: "bt_ok (ma_records w)" using ok by (simp add: agent_ok_def)
  have "ledger_evolves uni jcs blake3 (bt_get (ma_records w)) (bt_get m) \<and> bt_ok m"
    using memory_claim_cases [OF run] b ledger_evolves_claim [OF _ reached_claimed] by auto
  then show "agent_evolves uni jcs blake3 memory_agent_view w (snd (on_records (memory_ledger_claim c) w))"
    by (simp add: run on_records_def agent_evolves_def agent_sends_def)
qed

lemma memory_claim_durable:
  assumes "agent_ok uni jcs blake3 memory_agent_view w" "on_records (memory_ledger_claim c) w = (Inr x, w')"
  shows "case x of ClaimNew r \<Rightarrow> durable uni jcs blake3 (bt_get (ma_records w')) r
    | ClaimExisting r \<Rightarrow> durable uni jcs blake3 (bt_get (ma_records w')) r"
proof -
  obtain m where run: "memory_ledger_claim c (ma_records w) = (Inr x, m)" "w' = w \<lparr> ma_records := m \<rparr>"
    using assms(2) by (auto simp: on_records_def split: prod.splits)
  have b: "bt_ok (ma_records w)" "ledger_ok uni jcs blake3 (bt_get (ma_records w))"
    using assms(1) by (simp_all add: agent_ok_def)
  show ?thesis
    using memory_claim_cases [OF run(1)]
  proof
    assume "m = ma_records w \<and> (\<forall>y. Inr x = Inr y \<longrightarrow>
      (\<exists>r. y = ClaimExisting r \<and> bt_get (ma_records w) (key_from_assignment (lc_assignment c)) = Some r))"
    then show ?thesis using durable_held [OF b(2)] run(2) by auto
  next
    assume a: "bt_get (ma_records w) (key_from_assignment (lc_assignment c)) = None
      \<and> Inr x = Inr (ClaimNew (ledger_record_claimed (lc_assignment c) (lc_claimed_at_unix_ms c)))
      \<and> m = bt_insert (key_from_assignment (lc_assignment c))
          (ledger_record_claimed (lc_assignment c) (lc_claimed_at_unix_ms c)) (ma_records w)"
    then show ?thesis
      using run(2) b(1) reached_claimed [of uni jcs blake3]
      by (auto simp: durable_def ledger_record_claimed_def)
  qed
qed

lemma memory_exchange_ok:
  assumes "agent_ok uni jcs blake3 memory_agent_view w"
    "on_records (memory_ledger_compare_exchange expected nxt) w = (res, w')"
  shows "ma_reports w' = ma_reports w \<and> bt_ok (ma_records w')
    \<and> ((\<exists>e. res = Inl e) \<and> ma_records w' = ma_records w
       \<or> exchanges expected nxt (bt_get (ma_records w)) (bt_get (ma_records w'))
         \<and> (\<exists>s. res = Inr s \<and> bt_get (ma_records w') (lr_key nxt) = Some s))"
proof -
  obtain m where run: "memory_ledger_compare_exchange expected nxt (ma_records w) = (res, m)" "w' = w \<lparr> ma_records := m \<rparr>"
    using assms(2) by (auto simp: on_records_def split: prod.splits)
  have "bt_ok (ma_records w)" using assms(1) by (simp add: agent_ok_def)
  then show ?thesis using memory_exchange_cases [OF run(1)] run(2) by auto
qed

interpretation memory_agent: agent_env uni jcs blake3 "memory_agent_ports uni jcs blake3 message" memory_agent_view
  for uni jcs blake3 message
proof unfold_locales
  fix w w' :: "'a memory_agent" and expected nxt e s u k r c
  assume ok: "agent_ok uni jcs blake3 memory_agent_view w"
  show "gv_ok memory_agent_view w'"
    if "ag_compare_exchange (memory_agent_ports uni jcs blake3 message) expected nxt w = (u, w')"
    using memory_exchange_ok [OF ok, of expected nxt u w'] that by (simp add: memory_agent_ports_def)
  show "\<exists>L M. ledger_evolves uni jcs blake3 (gv_ledger memory_agent_view w) L \<and> exchanges expected nxt L M
      \<and> ledger_evolves uni jcs blake3 M (gv_ledger memory_agent_view w') \<and> M (lr_key nxt) = Some s
      \<and> sends_around uni jcs blake3 memory_agent_view L w w'"
    if "ag_compare_exchange (memory_agent_ports uni jcs blake3 message) expected nxt w = (Inr s, w')"
    using memory_exchange_ok [OF ok, of expected nxt "Inr s" w'] that
    by (auto simp: memory_agent_ports_def sends_around_def)
  show "\<exists>L M. ledger_evolves uni jcs blake3 (gv_ledger memory_agent_view w) L \<and> (M = L \<or> exchanges expected nxt L M)
      \<and> ledger_evolves uni jcs blake3 M (gv_ledger memory_agent_view w')
      \<and> sends_around uni jcs blake3 memory_agent_view L w w'"
    if "ag_compare_exchange (memory_agent_ports uni jcs blake3 message) expected nxt w = (Inl e, w')"
    using memory_exchange_ok [OF ok, of expected nxt "Inl e" w'] that
    by (auto simp: memory_agent_ports_def sends_around_def)
  show "durable uni jcs blake3 (gv_ledger memory_agent_view w') r"
    if "ag_claim (memory_agent_ports uni jcs blake3 message) c w = (Inr (ClaimNew r), w')"
    using memory_claim_durable [OF ok, of c "ClaimNew r" w'] that by (simp add: memory_agent_ports_def)
  show "durable uni jcs blake3 (gv_ledger memory_agent_view w') r"
    if "ag_claim (memory_agent_ports uni jcs blake3 message) c w = (Inr (ClaimExisting r), w')"
    using memory_claim_durable [OF ok, of c "ClaimExisting r" w'] that by (simp add: memory_agent_ports_def)
  show "durable uni jcs blake3 (gv_ledger memory_agent_view w') r \<and> lr_key r = k"
    if "ag_load (memory_agent_ports uni jcs blake3 message) k w = (Inr (Some r), w')"
  proof -
    have "w' = w" "bt_get (ma_records w) k = Some r" "ledger_ok uni jcs blake3 (bt_get (ma_records w))"
      using that ok by (auto simp: memory_agent_ports_def on_records_def memory_ledger_load_def agent_ok_def)
    then show ?thesis
      using durable_held reached_consistent [of uni jcs blake3 k r] by (auto simp: ledger_ok_def)
  qed
qed (auto simp: memory_agent_ports_def fakes_idle fake_now_def fake_send_def on_records_def memory_ledger_load_def
      memory_ledger_list_active_def agent_sends_def agent_ok_def
      intro!: agent_calm_idle memory_calm_claim split: list.splits)

section \<open>Other threads\<close>

text \<open>
  An agent is shared by the threads of its process.  In \<open>concurrent_ports\<close> the others run \<open>meanwhile\<close> before
  each port call.
\<close>

definition after_others :: "('w \<Rightarrow> 'w) \<Rightarrow> ('w, 'a) agent_io \<Rightarrow> ('w, 'a) agent_io" where
  "after_others meanwhile m w = m (meanwhile w)"

definition concurrent_ports :: "('w \<Rightarrow> 'w) \<Rightarrow> ('w, 'x) agent_ports \<Rightarrow> ('w, 'x) agent_ports" where
  "concurrent_ports meanwhile P =
     \<lparr> ag_claim = (\<lambda>c. after_others meanwhile (ag_claim P c)),
       ag_load = (\<lambda>k. after_others meanwhile (ag_load P k)),
       ag_list_active = after_others meanwhile (ag_list_active P),
       ag_compare_exchange = (\<lambda>expected nxt. after_others meanwhile (ag_compare_exchange P expected nxt)),
       ag_validate = (\<lambda>a t. after_others meanwhile (ag_validate P a t)),
       ag_prepare_add = (\<lambda>a. after_others meanwhile (ag_prepare_add P a)),
       ag_transfer = (\<lambda>a c. after_others meanwhile (ag_transfer P a c)),
       ag_stage_metadata = (\<lambda>a tr. after_others meanwhile (ag_stage_metadata P a tr)),
       ag_finalize = (\<lambda>a c d. after_others meanwhile (ag_finalize P a c d)),
       ag_send = (\<lambda>x. after_others meanwhile (ag_send P x)),
       ag_now = after_others meanwhile (ag_now P),
       ag_message = ag_message P \<rparr>"

locale shared_agent = agent_env +
  fixes meanwhile :: "'a \<Rightarrow> 'a"
  assumes meanwhile_ok: "agent_ok uni jcs blake3 V w \<Longrightarrow> agent_evolves uni jcs blake3 V w (meanwhile w)"
begin

lemma meanwhile_keeps_ok: "agent_ok uni jcs blake3 V w \<Longrightarrow> agent_ok uni jcs blake3 V (meanwhile w)"
  by (rule agent_evolves_ok [OF _ meanwhile_ok])

lemma evolves_after_others:
  assumes "agent_ok uni jcs blake3 V w" "agent_evolves uni jcs blake3 V (meanwhile w) w'"
  shows "agent_evolves uni jcs blake3 V w w'"
  using assms(1) meanwhile_ok [OF assms(1)] assms(2) by (rule agent_evolves_trans)

lemma calm_after_others: "agent_calm uni jcs blake3 V m \<Longrightarrow> agent_calm uni jcs blake3 V (after_others meanwhile m)"
  by (simp add: agent_calm_def after_others_def evolves_after_others meanwhile_keeps_ok)

lemma ledger_after_others:
  assumes "agent_ok uni jcs blake3 V w" "ledger_evolves uni jcs blake3 (gv_ledger V (meanwhile w)) L"
  shows "ledger_evolves uni jcs blake3 (gv_ledger V w) L"
  using meanwhile_ok [OF assms(1)] assms(2) ledger_evolves_trans unfolding agent_evolves_def by blast

lemma send_after_others:
  assumes ok: "agent_ok uni jcs blake3 V w" and run: "ag_send P x (meanwhile w) = (res, w')"
  shows "gv_ok V w' \<and> ledger_evolves uni jcs blake3 (gv_ledger V w) (gv_ledger V w') \<and> agent_sends uni jcs blake3 V {x} w w'"
proof -
  note s = send_ok [OF meanwhile_keeps_ok [OF ok] run]
  have ok1: "ledger_ok uni jcs blake3 (gv_ledger V (meanwhile w))"
    using meanwhile_keeps_ok [OF ok] by (simp add: agent_ok_def)
  have ev: "ledger_evolves uni jcs blake3 (gv_ledger V (meanwhile w)) (gv_ledger V w')" using s by simp
  have "agent_sends uni jcs blake3 V {x} w w'"
    using s meanwhile_ok [OF ok] report_backed_evolves [OF _ ev ok1]
    unfolding agent_sends_def agent_evolves_def by blast
  then show ?thesis using s ledger_after_others [OF ok ev] by simp
qed

lemma around_after_others:
  assumes ok: "agent_ok uni jcs blake3 V w" and L: "ledger_evolves uni jcs blake3 (gv_ledger V (meanwhile w)) L"
    and s: "sends_around uni jcs blake3 V L (meanwhile w) w'"
  shows "sends_around uni jcs blake3 V L w w'"
proof -
  have ok1: "ledger_ok uni jcs blake3 (gv_ledger V (meanwhile w))"
    using meanwhile_keeps_ok [OF ok] by (simp add: agent_ok_def)
  show ?thesis
    using s meanwhile_ok [OF ok] report_backed_evolves [OF _ L ok1]
    unfolding sends_around_def agent_sends_def agent_evolves_def by blast
qed

end

sublocale shared_agent \<subseteq> threads: agent_env uni jcs blake3 "concurrent_ports meanwhile P" V
proof unfold_locales
  fix w w' expected nxt e s u k r c x res
  assume ok: "agent_ok uni jcs blake3 V w"
  note ok1 = meanwhile_keeps_ok [OF ok]
  show "gv_ok V w'" if "ag_compare_exchange (concurrent_ports meanwhile P) expected nxt w = (u, w')"
    using exchange_world [OF ok1] that by (simp add: concurrent_ports_def after_others_def)
  show "\<exists>L M. ledger_evolves uni jcs blake3 (gv_ledger V w) L \<and> exchanges expected nxt L M
      \<and> ledger_evolves uni jcs blake3 M (gv_ledger V w') \<and> M (lr_key nxt) = Some s \<and> sends_around uni jcs blake3 V L w w'"
    if "ag_compare_exchange (concurrent_ports meanwhile P) expected nxt w = (Inr s, w')"
    using exchange_ok [OF ok1, of expected nxt s w'] that ledger_after_others [OF ok] around_after_others [OF ok]
    by (simp add: concurrent_ports_def after_others_def) blast
  show "\<exists>L M. ledger_evolves uni jcs blake3 (gv_ledger V w) L \<and> (M = L \<or> exchanges expected nxt L M)
      \<and> ledger_evolves uni jcs blake3 M (gv_ledger V w') \<and> sends_around uni jcs blake3 V L w w'"
    if "ag_compare_exchange (concurrent_ports meanwhile P) expected nxt w = (Inl e, w')"
    using exchange_err [OF ok1, of expected nxt e w'] that ledger_after_others [OF ok] around_after_others [OF ok]
    by (simp add: concurrent_ports_def after_others_def) blast
  show "durable uni jcs blake3 (gv_ledger V w') r"
    if "ag_claim (concurrent_ports meanwhile P) c w = (Inr (ClaimNew r), w')"
    using claim_new [OF ok1] that by (simp add: concurrent_ports_def after_others_def)
  show "durable uni jcs blake3 (gv_ledger V w') r"
    if "ag_claim (concurrent_ports meanwhile P) c w = (Inr (ClaimExisting r), w')"
    using claim_existing [OF ok1] that by (simp add: concurrent_ports_def after_others_def)
  show "durable uni jcs blake3 (gv_ledger V w') r \<and> lr_key r = k"
    if "ag_load (concurrent_ports meanwhile P) k w = (Inr (Some r), w')"
    using load_reads [OF ok1] that by (simp add: concurrent_ports_def after_others_def)
  show "gv_ok V w' \<and> ledger_evolves uni jcs blake3 (gv_ledger V w) (gv_ledger V w') \<and> agent_sends uni jcs blake3 V {x} w w'"
    if "ag_send (concurrent_ports meanwhile P) x w = (res, w')"
    using send_after_others [OF ok] that by (simp add: concurrent_ports_def after_others_def)
qed (simp_all add: concurrent_ports_def calm_after_others calm_validate calm_prepare_add calm_transfer calm_stage
      calm_finalize calm_now calm_list_active calm_load calm_claim)

context shared_agent
begin

lemma threads_env: "agent_env uni jcs blake3 (concurrent_ports meanwhile P) V"
  by (rule threads.agent_env_axioms)

end

end
