(* ===== verification/AgentRuns.thy ===== *)
theory AgentRuns
  imports MemoryAgent
begin

text \<open>
  Runs of the agent on the in-process adapters: any sequence of events, preempted at every port call
  by events of other threads.  The records of the ledger keep what they promised, and every report
  is backed by the ledger.
\<close>

section \<open>Events\<close>

datatype agent_event =
    Accepts add_assignment
  | Assigns add_assignment
  | Executes assignment_key
  | Decides resource_id job_decision
  | Recovers assignment_key
  | RecoversActive
  | SetsClock u64

primrec run_event ::
  "unicode \<Rightarrow> jcs \<Rightarrow> (byte list \<Rightarrow> content_digest) \<Rightarrow> ('x memory_agent, 'x) agent_ports \<Rightarrow> agent_event
   \<Rightarrow> 'x memory_agent \<Rightarrow> 'x memory_agent" where
  "run_event uni jcs blake3 P (Accepts a) w = snd (accept_assignment P a w)"
| "run_event uni jcs blake3 P (Assigns a) w = snd (handle_assignment uni jcs blake3 P a w)"
| "run_event uni jcs blake3 P (Executes k) w = snd (execute uni jcs blake3 P k w)"
| "run_event uni jcs blake3 P (Decides tenant d) w = snd (handle_decision uni jcs blake3 P tenant d w)"
| "run_event uni jcs blake3 P (Recovers k) w = snd (recover uni jcs blake3 P k w)"
| "run_event uni jcs blake3 P RecoversActive w = snd (recover_active uni jcs blake3 P w)"
| "run_event uni jcs blake3 P (SetsClock t) w = w \<lparr> ma_now := t \<rparr>"

definition agent_run ::
  "unicode \<Rightarrow> jcs \<Rightarrow> (byte list \<Rightarrow> content_digest) \<Rightarrow> ('x memory_agent, 'x) agent_ports \<Rightarrow> agent_event list
   \<Rightarrow> 'x memory_agent \<Rightarrow> 'x memory_agent" where
  "agent_run uni jcs blake3 P evs w = fold (run_event uni jcs blake3 P) evs w"

text \<open>
  The ports as a thread sees them when others run: before every port call, a thread of level \<open>n\<close> is
  preempted by the events that \<open>pick n\<close> picks, run by a thread of the level below.
\<close>

primrec agent_threads ::
  "unicode \<Rightarrow> jcs \<Rightarrow> (byte list \<Rightarrow> content_digest) \<Rightarrow> (agent_error_code \<Rightarrow> 'x memory_agent \<Rightarrow> string)
   \<Rightarrow> (nat \<Rightarrow> 'x memory_agent \<Rightarrow> agent_event list) \<Rightarrow> nat \<Rightarrow> ('x memory_agent, 'x) agent_ports" where
  "agent_threads uni jcs blake3 message pick 0 = memory_agent_ports uni jcs blake3 message"
| "agent_threads uni jcs blake3 message pick (Suc n) =
     concurrent_ports (\<lambda>w. agent_run uni jcs blake3 (agent_threads uni jcs blake3 message pick n) (pick n w) w)
       (memory_agent_ports uni jcs blake3 message)"

section \<open>Runs move the ledger along steps\<close>

lemma safe_evolves:
  assumes "agent_safe uni jcs blake3 V {} m post D" "agent_ok uni jcs blake3 V w"
  shows "agent_evolves uni jcs blake3 V w (snd (m w))"
proof -
  obtain res w' where "m w = (res, w')" by fastforce
  then show ?thesis using agent_safeD(1) [OF assms(1,2)] by simp
qed

lemma run_event_evolves:
  assumes "agent_env uni jcs blake3 P memory_agent_view" "agent_ok uni jcs blake3 memory_agent_view w"
  shows "agent_evolves uni jcs blake3 memory_agent_view w (run_event uni jcs blake3 P ev w)"
proof (cases ev)
  case (SetsClock t)
  then show ?thesis using assms(2) by (simp add: agent_evolves_def agent_ok_def agent_sends_def)
qed (auto intro: safe_evolves [OF _ assms(2)] agent_env.safe_accept_assignment [OF assms(1)]
    agent_env.safe_handle_assignment [OF assms(1)] agent_env.safe_execute [OF assms(1)]
    agent_env.safe_handle_decision [OF assms(1)] agent_env.safe_recover [OF assms(1)]
    agent_env.safe_recover_active [OF assms(1)])

lemma agent_run_evolves:
  assumes "agent_env uni jcs blake3 P memory_agent_view" "agent_ok uni jcs blake3 memory_agent_view w"
  shows "agent_evolves uni jcs blake3 memory_agent_view w (agent_run uni jcs blake3 P evs w)"
  using assms(2)
proof (induction evs arbitrary: w)
  case (Cons ev evs)
  note e = run_event_evolves [OF assms(1) Cons.prems, of ev]
  show ?case
    using agent_evolves_trans [OF Cons.prems e] Cons.IH [OF agent_evolves_ok [OF Cons.prems e]]
    by (simp add: agent_run_def)
qed (simp add: agent_run_def agent_evolves_refl)

lemma agent_threads_env: "agent_env uni jcs blake3 (agent_threads uni jcs blake3 message pick n) memory_agent_view"
proof (induction n)
  case 0
  show ?case using memory_agent.agent_env_axioms by simp
next
  case (Suc n)
  have "shared_agent uni jcs blake3 (memory_agent_ports uni jcs blake3 message) memory_agent_view
      (\<lambda>w. agent_run uni jcs blake3 (agent_threads uni jcs blake3 message pick n) (pick n w) w)"
    using agent_run_evolves [OF Suc.IH]
    by (intro shared_agent.intro shared_agent_axioms.intro memory_agent.agent_env_axioms)
  then show ?case using shared_agent.threads_env by simp
qed

interpretation preempted: shared_agent uni jcs blake3 "memory_agent_ports uni jcs blake3 message" memory_agent_view
  "\<lambda>w. agent_run uni jcs blake3 (agent_threads uni jcs blake3 message pick n) (pick n w) w"
  for uni jcs blake3 message pick n
  by unfold_locales (rule agent_run_evolves [OF agent_threads_env])

lemma fresh_ok: "ma_records w = [] \<Longrightarrow> agent_ok uni jcs blake3 memory_agent_view w"
  by (simp add: agent_ok_def ledger_ok_def)

lemma agent_run_ok:
  assumes "agent_ok uni jcs blake3 memory_agent_view w"
  shows "agent_ok uni jcs blake3 memory_agent_view
    (agent_run uni jcs blake3 (agent_threads uni jcs blake3 message pick n) evs w)"
  using assms agent_run_evolves [OF agent_threads_env assms] by (rule agent_evolves_ok)

section \<open>Symbolic runs of the adapters\<close>

lemma memory_ports_run:
  "ag_now (memory_agent_ports uni jcs blake3 message) w = (Inr (ma_now w), w)"
  "ag_validate (memory_agent_ports uni jcs blake3 message) a t w = (basic_validate uni jcs blake3 a t, w)"
  "ag_load (memory_agent_ports uni jcs blake3 message) k w = (Inr (bt_get (ma_records w) k), w)"
  "ma_failures w = [] \<Longrightarrow>
     ag_send (memory_agent_ports uni jcs blake3 message) x w = (Inr (), w \<lparr> ma_reports := ma_reports w @ [x] \<rparr>)"
  "ag_prepare_add (memory_agent_ports uni jcs blake3 message) = fake_prepare_add"
  "ag_transfer (memory_agent_ports uni jcs blake3 message) = fake_transfer"
  "ag_stage_metadata (memory_agent_ports uni jcs blake3 message) = fake_stage_metadata jcs blake3"
  "ag_finalize (memory_agent_ports uni jcs blake3 message) = fake_finalize"
  "ag_message (memory_agent_ports uni jcs blake3 message) = message"
  by (simp_all add: memory_agent_ports_def fake_now_def on_records_def memory_ledger_load_def fake_send_def)

lemma memory_claim_run:
  assumes "bt_get (ma_records w) (key_from_assignment a) = None"
  shows "ag_claim (memory_agent_ports uni jcs blake3 message) \<lparr> lc_assignment = a, lc_claimed_at_unix_ms = t \<rparr> w =
    (Inr (ClaimNew (ledger_record_claimed a t)),
     w \<lparr> ma_records := bt_insert (key_from_assignment a) (ledger_record_claimed a t) (ma_records w) \<rparr>)"
  using assms by (simp add: memory_agent_ports_def on_records_def memory_ledger_claim_def Let_def)

text \<open>An update that leaves the identity of a record alone.\<close>

definition keeps_identity :: "(ledger_record \<Rightarrow> ledger_record) \<Rightarrow> bool" where
  "keeps_identity upd \<longleftrightarrow> keeps_revision upd
     \<and> (\<forall>x. lr_key (upd x) = lr_key x \<and> lr_assignment (upd x) = lr_assignment x \<and> lr_request_digest (upd x) = lr_request_digest x)"

lemma keeps_identity_updates [simp]:
  "keeps_identity id"
  "keeps_identity (\<lambda>x. x \<lparr> lr_accepted_at_unix_ms := t \<rparr>)"
  "keeps_identity (\<lambda>x. x \<lparr> lr_prepared := p \<rparr>)"
  "keeps_identity (\<lambda>x. x \<lparr> lr_decision := d, lr_finalized := z \<rparr>)"
  "keeps_identity (\<lambda>x. x \<lparr> lr_failure := f \<rparr>)"
  by (auto simp: keeps_identity_def)

lemma memory_transition_run:
  assumes r: "bt_get (ma_records w) (lr_key r) = Some r" "key_consistent r"
    and "lr_state r = ex" "checked_add (lr_revision r) 1 \<noteq> None" "keeps_identity upd"
  shows "persist_transition (memory_agent_ports uni jcs blake3 message) r ex target now upd w =
    (Inr (upd (advance r target now)),
     w \<lparr> ma_records := bt_insert (lr_key r) (upd (advance r target now)) (ma_records w) \<rparr>)"
proof -
  obtain v where v: "checked_add (lr_revision r) 1 = Some v" using assms(4) by blast
  let ?n = "upd (r \<lparr> lr_state := target, lr_updated_at_unix_ms := now \<rparr>)"
  have id: "lr_key ?n = lr_key r" "lr_assignment ?n = lr_assignment r" "lr_request_digest ?n = lr_request_digest r"
    using assms(5) by (simp_all add: keeps_identity_def)
  have n: "?n \<lparr> lr_revision := v \<rparr> = upd (advance r target now)"
    using assms(5) next_revision [OF v] by (simp add: keeps_identity_def keeps_revision_def advance_def)
  have "ag_compare_exchange (memory_agent_ports uni jcs blake3 message) (lr_revision r) ?n w =
      (Inr (upd (advance r target now)), w \<lparr> ma_records := bt_insert (lr_key r) (upd (advance r target now)) (ma_records w) \<rparr>)"
    using r v id n
    by (simp add: memory_agent_ports_def on_records_def memory_ledger_compare_exchange_def key_consistent_def Let_def)
      (metis ledger_record.select_convs(1) ledger_record.surjective ledger_record.update_convs(5))
  then show ?thesis using assms(3) by (simp add: persist_transition_def)
qed

lemma claimed_fields [simp]:
  "lr_key (ledger_record_claimed a t) = key_from_assignment a" "lr_state (ledger_record_claimed a t) = Claimed"
  "lr_assignment (ledger_record_claimed a t) = a" "lr_request_digest (ledger_record_claimed a t) = as_request_digest a"
  "lr_revision (ledger_record_claimed a t) = 1" "lr_prepared (ledger_record_claimed a t) = None"
  "lr_decision (ledger_record_claimed a t) = None" "lr_finalized (ledger_record_claimed a t) = None"
  "lr_failure (ledger_record_claimed a t) = None" "lr_accepted_at_unix_ms (ledger_record_claimed a t) = None"
  by (simp_all add: ledger_record_claimed_def)

definition accepted_record :: "add_assignment \<Rightarrow> u64 \<Rightarrow> ledger_record" where
  "accepted_record a t = advance (ledger_record_claimed a t) Accepted t \<lparr> lr_accepted_at_unix_ms := Some t \<rparr>"

lemma accepted_record_fields [simp]:
  "lr_key (accepted_record a t) = key_from_assignment a" "lr_state (accepted_record a t) = Accepted"
  "lr_assignment (accepted_record a t) = a" "lr_request_digest (accepted_record a t) = as_request_digest a"
  "lr_revision (accepted_record a t) = 2" "lr_prepared (accepted_record a t) = None"
  "lr_decision (accepted_record a t) = None" "lr_finalized (accepted_record a t) = None"
  "lr_failure (accepted_record a t) = None" "lr_accepted_at_unix_ms (accepted_record a t) = Some t"
  by (simp_all add: accepted_record_def)

lemma memory_accept_run:
  assumes "bt_ok (ma_records w)" "bt_get (ma_records w) (key_from_assignment a) = None"
    "basic_validate uni jcs blake3 a (ma_now w) = Inr ()" "ma_failures w = []"
  shows "accept_assignment (memory_agent_ports uni jcs blake3 message) a w =
    (Inr \<lparr> aa_disposition = DispositionNew, aa_record = accepted_record a (ma_now w) \<rparr>,
     w \<lparr> ma_records := bt_insert (key_from_assignment a) (accepted_record a (ma_now w)) (ma_records w),
         ma_reports := ma_reports w @ [ReportAccepted (accepted_report (accepted_record a (ma_now w)) (ma_now w))] \<rparr>)"
proof -
  let ?c = "ledger_record_claimed a (ma_now w)"
  let ?w = "w \<lparr> ma_records := bt_insert (key_from_assignment a) ?c (ma_records w) \<rparr>"
  have "persist_transition (memory_agent_ports uni jcs blake3 message) ?c Claimed Accepted (ma_now w)
      (\<lambda>nxt. nxt \<lparr> lr_accepted_at_unix_ms := Some (ma_now w) \<rparr>) ?w =
    (Inr (accepted_record a (ma_now w)),
     w \<lparr> ma_records := bt_insert (key_from_assignment a) (accepted_record a (ma_now w)) (ma_records w) \<rparr>)"
    using assms(1) by (subst memory_transition_run) (simp_all add: key_consistent_def checked_add_def accepted_record_def)
  then show ?thesis
    using assms
    by (simp add: accept_assignment_def io_then_def memory_ports_run memory_claim_run verify_claim_identity_def
        accept_claimed_def send_accepted_def)
qed

section \<open>A sample run\<close>

text \<open>
  An assignment is accepted and then rejected by the centre, while another thread replays it.  The
  canonical JSON of the sample is constant.
\<close>

definition flat_jcs :: jcs where
  "flat_jcs v = Inr [1]"

definition sample_fence :: task_fence where
  "sample_fence = \<lparr> tf_task_id = ResourceId ''task'', tf_attempt = 1, tf_stage_key = ''add'', tf_stage_attempt = 1, tf_plan_revision = 1 \<rparr>"

definition sample_wire_version :: wire_index_version where
  "sample_wire_version = \<lparr> wv_revision = iv_revision (pd_base_index_version sample_candidate),
     wv_digest = iv_digest (pd_base_index_version sample_candidate), wv_extensions = [] \<rparr>"

definition sample_assignment :: add_assignment where
  "sample_assignment =
     \<lparr> as_job_id = ResourceId ''j'', as_task_fence = sample_fence, as_assignment_id = ResourceId ''as'',
       as_assignment_generation = 1, as_agent_id = ResourceId ''ag'',
       as_principal = \<lparr> pn_kind = PrincipalUser, pn_id = ResourceId ''u'', pn_extensions = [] \<rparr>,
       as_tenant_id = ResourceId ''t'', as_project_id = ResourceId ''p'', as_artifact_id = ResourceId ''a'',
       as_workspace_id = ResourceId ''w'', as_edge_cluster_id = ResourceId ''e'', as_storage_volume_id = ResourceId ''v'',
       as_artifact_placement_id = ResourceId ''ap'', as_placement_generation = 1, as_agent_mount_id = ResourceId ''m'',
       as_mount_generation = 1, as_owner_generation = 1, as_expected_index_version = sample_wire_version,
       as_data_layout = LayoutFastCdc, as_max_whole_file_bytes = 0, as_lease = None,
       as_request_digest = sum_hash [1], as_deadline_unix_ms = 100, as_paths = [], as_all = True, as_extensions = [] \<rparr>"

definition sample_agent :: "unit memory_agent" where
  "sample_agent =
     \<lparr> ma_records = [], ma_executor_results = [], ma_executor_calls = [], ma_transfer_results = [], ma_staging_results = [],
       ma_finalize_results = [], ma_transfers = [], ma_stagings = [], ma_staged_receipts = [], ma_finalizations = [],
       ma_reports = [], ma_failures = [], ma_now = 5 \<rparr>"

lemma sample_agent_fields:
  "ma_records sample_agent = []" "ma_failures sample_agent = []" "ma_now sample_agent = 5" "ma_reports sample_agent = []"
  by (simp_all add: sample_agent_def)

definition sample_error :: control_error where
  "sample_error = \<lparr> ce_code = ErrorCode ''REJECTED'', ce_message = ''no'', ce_retryable = False, ce_retry_after_ms = None, ce_extensions = [] \<rparr>"

definition sample_reject :: job_decision where
  "sample_reject =
     \<lparr> jd_job_id = ResourceId ''j'', jd_task_fence = sample_fence, jd_assignment_id = ResourceId ''as'', jd_assignment_generation = 1,
       jd_decision_generation = 1, jd_decision = DecReject sample_error [], jd_final_state = JsRejected, jd_extensions = [] \<rparr>"

definition sample_message :: "agent_error_code \<Rightarrow> unit memory_agent \<Rightarrow> string" where
  "sample_message e w = agent_error_str e"

lemma sample_assignment_valid: "basic_validate ascii_unicode flat_jcs sum_hash sample_assignment 5 = Inr ()"
proof -
  have f: "task_fence_validate sample_fence = Inr ()" by code_simp
  have p: "validate_path_set ascii_unicode [] = Inr ()" by code_simp
  show ?thesis
    by (simp add: basic_validate_def add_assignment_validate_def sample_assignment_def f validate_positive_def
        add_operation_request_digest_def add_operation_validate_def add_assignment_operation_def validate_collection_limit_def
        p wire_index_version_validate_def sample_wire_version_def validate_extension_keys_def bt_keys_def
        principal_ref_validate_def jcs_blake3_def flat_jcs_def map_err_def)
qed

definition sample_key :: assignment_key where
  "sample_key = AssignmentKey (ResourceId ''t'') (ResourceId ''j'')"

lemma sample_accept:
  "ma_records (agent_run ascii_unicode flat_jcs sum_hash (memory_agent_ports ascii_unicode flat_jcs sum_hash sample_message)
     [Accepts sample_assignment] sample_agent) = [(sample_key, accepted_record sample_assignment 5)]"
  "ma_reports (agent_run ascii_unicode flat_jcs sum_hash (memory_agent_ports ascii_unicode flat_jcs sum_hash sample_message)
     [Accepts sample_assignment] sample_agent) = [ReportAccepted (accepted_report (accepted_record sample_assignment 5) 5)]"
proof -
  have k: "key_from_assignment sample_assignment = sample_key"
    by (simp add: key_from_assignment_def sample_assignment_def sample_key_def)
  have "accept_assignment (memory_agent_ports ascii_unicode flat_jcs sum_hash sample_message) sample_assignment sample_agent =
    (Inr \<lparr> aa_disposition = DispositionNew, aa_record = accepted_record sample_assignment 5 \<rparr>,
     sample_agent \<lparr> ma_records := [(sample_key, accepted_record sample_assignment 5)],
         ma_reports := [ReportAccepted (accepted_report (accepted_record sample_assignment 5) 5)] \<rparr>)"
    using memory_accept_run [of sample_agent sample_assignment ascii_unicode flat_jcs sum_hash sample_message]
      sample_assignment_valid by (simp add: sample_agent_fields k)
  then show
    "ma_records (agent_run ascii_unicode flat_jcs sum_hash (memory_agent_ports ascii_unicode flat_jcs sum_hash sample_message)
       [Accepts sample_assignment] sample_agent) = [(sample_key, accepted_record sample_assignment 5)]"
    "ma_reports (agent_run ascii_unicode flat_jcs sum_hash (memory_agent_ports ascii_unicode flat_jcs sum_hash sample_message)
       [Accepts sample_assignment] sample_agent) = [ReportAccepted (accepted_report (accepted_record sample_assignment 5) 5)]"
    by (simp_all add: agent_run_def)
qed

section \<open>Properties\<close>

text \<open>
  C9: An agent never takes back what its ledger says.  Start from an empty ledger and run any events,
  each port call preempted by any events of other threads, up to any depth; then run more.  A
  record that was there after the first part is still there after the second, for the same
  assignment; its acceptance time, its candidate, its decision and its acknowledgement are
  unchanged once written; its revision has not gone down and the same revision means the same
  record; and a completed record is final.
\<close>

theorem ledger_records_extend:
  fixes w :: "'x memory_agent"
  assumes "ma_records w = []"
    and "v = agent_run uni jcs blake3 (agent_threads uni jcs blake3 message pick n) evs w"
    and "v' = agent_run uni jcs blake3 (agent_threads uni jcs blake3 message pick' n') evs' v"
    and "bt_get (ma_records v) k = Some r"
  shows "\<exists>s. bt_get (ma_records v') k = Some s \<and> record_extends r s"
proof -
  have v: "agent_ok uni jcs blake3 memory_agent_view v"
    using assms(1,2) fresh_ok agent_run_ok by blast
  have "ledger_evolves uni jcs blake3 (bt_get (ma_records v)) (bt_get (ma_records v'))"
    using agent_run_evolves [OF agent_threads_env v] assms(3) by (simp add: agent_evolves_def)
  then obtain s where s: "bt_get (ma_records v') k = Some s" "agent_steps uni jcs blake3 r s"
    using ledger_evolvesD assms(4) by blast
  have "record_consistent uni jcs blake3 r"
    using v assms(4) reached_consistent [of uni jcs blake3 k r] by (auto simp: agent_ok_def ledger_ok_def)
  then show ?thesis using s agent_steps_extends by blast
qed

theorem ledger_records_extend_witness:
  "\<exists>s. bt_get (ma_records (agent_run ascii_unicode flat_jcs sum_hash
        (agent_threads ascii_unicode flat_jcs sum_hash sample_message (\<lambda>_ _. [RecoversActive]) 1)
        [Decides (ResourceId ''t'') sample_reject]
        (agent_run ascii_unicode flat_jcs sum_hash (agent_threads ascii_unicode flat_jcs sum_hash sample_message (\<lambda>_ _. []) 0)
           [Accepts sample_assignment] sample_agent))) sample_key = Some s
     \<and> record_extends (accepted_record sample_assignment 5) s"
  by (rule ledger_records_extend [OF _ refl refl]) (simp_all add: sample_accept sample_agent_fields bt_get_def)

text \<open>
  C10: Every record an agent can write is consistent: it is stored under the key of its assignment
  with the assignment's request digest; a record between acceptance and the wait for its
  decision has its acceptance time; a prepared or waiting record has a candidate that validates
  against the assignment and a transfer receipt that reproduces the candidate's publication; a finalizing or completed record has a
  decision for this assignment, consistent with the candidate, and the acknowledgement that
  matches it; a failed record has a failure report for this assignment.  So the branches of the
  state machine for records that lack their data are never taken.
\<close>

theorem ledger_records_consistent:
  fixes w :: "'x memory_agent"
  assumes "ma_records w = []"
    and "bt_get (ma_records (agent_run uni jcs blake3 (agent_threads uni jcs blake3 message pick n) evs w)) k = Some r"
  shows "lr_key r = k \<and> record_consistent uni jcs blake3 r"
  using agent_run_ok [OF fresh_ok [OF assms(1)]] assms(2) reached_consistent [of uni jcs blake3 k r]
  by (auto simp: agent_ok_def ledger_ok_def)

theorem ledger_records_consistent_witness:
  "lr_key (accepted_record sample_assignment 5) = sample_key
   \<and> record_consistent ascii_unicode flat_jcs sum_hash (accepted_record sample_assignment 5)"
  by (rule ledger_records_consistent [where w = sample_agent and n = 0 and evs = "[Accepts sample_assignment]"
        and message = sample_message])
    (simp_all add: sample_accept sample_agent_fields bt_get_def)

text \<open>
  C11: An agent reports only what is durable.  Whatever the events and the other threads, every report
  in the sink is backed by the ledger at that time: an acceptance by the recorded acceptance
  time, a prepared report by the recorded candidate, with the digests computed from it, a
  finalized report by the recorded acknowledgement (so every retry sends the same one), a failure
  by an assignment it identifies; and the state machine sends no other kinds of report.
\<close>

theorem reports_are_backed:
  fixes w :: "'x memory_agent"
  assumes "ma_records w = []" "ma_reports w = []"
    and "v = agent_run uni jcs blake3 (agent_threads uni jcs blake3 message pick n) evs w"
    and "x \<in> set (ma_reports v)"
  shows "report_backed uni jcs blake3 (bt_get (ma_records v)) x"
  using agent_run_evolves [OF agent_threads_env fresh_ok [OF assms(1)]] assms(2,3,4)
  by (auto simp: agent_evolves_def agent_sends_def)

theorem reports_are_backed_witness:
  "report_backed ascii_unicode flat_jcs sum_hash [sample_key \<mapsto> accepted_record sample_assignment 5]
     (ReportAccepted (accepted_report (accepted_record sample_assignment 5) 5) :: unit agent_report)"
proof -
  define v where "v = agent_run ascii_unicode flat_jcs sum_hash
      (agent_threads ascii_unicode flat_jcs sum_hash sample_message (\<lambda>_ _. []) 0) [Accepts sample_assignment] sample_agent"
  have v: "ma_records v = [(sample_key, accepted_record sample_assignment 5)]"
      "ma_reports v = [ReportAccepted (accepted_report (accepted_record sample_assignment 5) 5)]"
    using sample_accept by (simp_all add: v_def)
  have "report_backed ascii_unicode flat_jcs sum_hash (bt_get (ma_records v))
      (ReportAccepted (accepted_report (accepted_record sample_assignment 5) 5) :: unit agent_report)"
    by (rule reports_are_backed [OF _ _ v_def]) (simp_all add: v sample_agent_fields)
  moreover have "bt_get (ma_records v) = [sample_key \<mapsto> accepted_record sample_assignment 5]"
    by (simp add: v bt_get_def fun_eq_iff)
  ultimately show ?thesis by simp
qed

end
