(* ===== verification/Transfers.thy ===== *)
theory Transfers
  imports Receipts AgentRuns
begin

text \<open>
  The contract between the sender and the reader of metadata batches: what \<open>metadata_receipt\<close> builds from
  a candidate passes \<open>TransferReceipt::validate_for\<close>, and the pages give the candidate's publication back.
\<close>

section \<open>The digest of the republished content\<close>

lemma length_by_identity:
  assumes "distinct (map (id_of_manifest blake3) ms)" shows "length (by_identity blake3 ms) = length ms"
  using length_bt_collect [of "map (manifest_pair blake3) ms"] assms unfolding map_fst_manifest_pair
  by (simp add: by_identity_def bt_values_def)

lemma length_by_object:
  assumes "distinct (map os_id os)" shows "length (by_object os) = length os"
  using length_bt_collect [of "map spec_pair os"] assms unfolding map_fst_spec_pair by (simp add: by_object_def)

lemma republished_closed:
  assumes c: "publication_closed uni blake3 sc base d ms os"
    and d': "delta_iter d' = delta_iter d" "dl_base_version d' = base" "delta_validate uni d' = Inr ()"
  shows "publication_closed uni blake3 sc base d' (by_identity blake3 ms) (by_object os)"
proof -
  have mc: "manifests_collect blake3 ms" and d: "distinct (map (id_of_manifest blake3) ms)" and o: "distinct (map os_id os)"
    using c by (simp_all add: publication_closed_def manifests_collect_def)
  have cs: "set (all_chunks (by_identity blake3 ms)) = set (all_chunks ms)"
    by (simp add: all_chunks_def by_identity_collected(2) [OF d])
  show ?thesis
    using c by_identity_collect [OF mc] d' by_object_ids [of os]
    unfolding publication_closed_def by_identity_collected(2) [OF d] by_object_set [OF o] cs by simp
qed

lemma republished_digest:
  assumes x: "add_publication_digest uni blake3 sc base d ms os = Inr x"
    and pages: "(length (delta_iter d) + 4095) div 4096 \<le> 2 ^ 32"
  shows "\<exists>d'. delta_new uni base (delta_iter d) (dl_result_digest d) = Inr d'
    \<and> add_publication_digest uni blake3 sc base d' (by_identity blake3 ms) (by_object os) = Inr x"
proof -
  have c: "publication_closed uni blake3 sc base d ms os" and ok: "delta_ok uni d"
    and fits: "list_all str_fits (scope_fields sc)" "length ms < 2 ^ 64" "length os < 2 ^ 64"
    and x': "x = blake3 (publication_encoding (publication_content blake3 sc d ms os))"
    using x by (simp_all add: add_publication_digest_iff)
  have di: "distinct (map (id_of_manifest blake3) ms)" and o: "distinct (map os_id os)" and base: "dl_base_version d = base"
    and muts: "mutations_ok uni (delta_iter d)"
    using c by (simp_all add: publication_closed_def manifests_collect_def delta_validate_iff)
  obtain d' where d': "delta_new uni base (delta_iter d) (dl_result_digest d) = Inr d'"
    using delta_new_ok [OF muts pages, of base "dl_result_digest d"] unfolding is_ok_iff by blast
  note r = delta_new_result [OF d']
  have "delta_content d' = delta_content d" using r(1,3,4) base by (simp add: delta_content_def)
  moreover have "bts_collect (map (id_of_manifest blake3) (by_identity blake3 ms)) = bts_collect (map (id_of_manifest blake3) ms)"
    by (simp add: bts_collect_eq by_identity_collected(2) [OF di])
  ultimately have "publication_content blake3 sc d' (by_identity blake3 ms) (by_object os) = publication_content blake3 sc d ms os"
    using r(3) base by (simp add: publication_content_def by_object_collect [OF o])
  moreover have "delta_ok uni d'" using ok r(1,2) by (simp add: delta_ok_def)
  ultimately have "add_publication_digest uni blake3 sc base d' (by_identity blake3 ms) (by_object os) = Inr x"
    using republished_closed [OF c r(1,3,2)] fits x'
    by (simp add: add_publication_digest_iff length_by_identity [OF di] length_by_object [OF o])
  with d' show ?thesis by blast
qed

section \<open>Descriptors\<close>

definition describes ::
  "jcs \<Rightarrow> (byte list \<Rightarrow> content_digest) \<Rightarrow> metadata_batch_page \<Rightarrow> metadata_page_descriptor \<Rightarrow> bool" where
  "describes jcs blake3 p e \<longleftrightarrow>
     unat (pgd_record_count e) = page_record_count p \<and> pgd_page_digest e = mp_page_digest p
     \<and> (\<exists>enc. jcs (CanonPage p) = Inr enc \<and> u64_try_from (length enc) = Some (pgd_encoded_bytes e))"

lemma describe_pages:
  assumes "try_fold (describe_page jcs blake3 bid sc kind n) st ps = Inr (es, rc, b)"
  shows "\<exists>es'. es = fst st @ es' \<and> list_all2 (describes jcs blake3) ps es'
    \<and> (\<forall>p \<in> set ps. page_kind p = kind \<and> mp_page_count p = n)"
  using assms
proof (induction ps arbitrary: st)
  case (Cons p ps)
  obtain st' where s: "describe_page jcs blake3 bid sc kind n st p = Inr st'"
    and rest: "try_fold (describe_page jcs blake3 bid sc kind n) st' ps = Inr (es, rc, b)"
    using Cons.prems by (auto simp: and_then_eq_Inr)
  have "\<exists>e. fst st' = fst st @ [e] \<and> describes jcs blake3 p e \<and> page_kind p = kind \<and> mp_page_count p = n"
    using s by (cases st) (auto simp: describe_page_def describes_def and_then_eq_Inr ok_or_eq_Inr u32_try_from_eq_Some split: if_splits)
  then obtain e where e: "fst st' = fst st @ [e]" "describes jcs blake3 p e" "page_kind p = kind" "mp_page_count p = n"
    by blast
  show ?case using Cons.IH [OF rest] e by auto
qed simp

lemma batch_descriptor_ok:
  assumes b: "batch_pages jcs blake3 bid sc wrap parts ps" and d: "batch_descriptor jcs blake3 sc ps = Inr d"
  shows "metadata_descriptor_validate jcs blake3 d = Inr ()" "bd_batch_id d = bid" "bd_scope d = sc"
    "bd_kind d = page_kind (hd ps)" "unat (bd_page_count d) = length ps"
    "p \<in> set ps \<Longrightarrow> descriptor_validate_page jcs blake3 d p = Inr ()"
proof -
  have ne: "ps \<noteq> []" and id: "mp_batch_id (hd ps) = bid" using b by (auto simp: batch_pages_def hd_conv_nth)
  then have f: "metadata_descriptor_from_pages jcs blake3 bid sc ps [] = Inr d"
    using d by (cases ps) (simp_all add: batch_descriptor_def)
  obtain n es rc bytes where n: "unat n = length ps" "bd_page_count d = n"
    and es: "try_fold (describe_page jcs blake3 bid sc (page_kind (hd ps)) n) ([], 0, 0) ps = Inr (es, rc, bytes)" "bd_pages d = es"
    and fields: "metadata_descriptor_validate jcs blake3 d = Inr ()" "bd_batch_id d = bid" "bd_scope d = sc"
      "bd_kind d = page_kind (hd ps)" "bd_schema_version d = METADATA_SCHEMA_VERSION_V1"
    using f ne by (cases ps) (auto simp: metadata_descriptor_from_pages_def Let_def u32_try_from_eq_Some simp del: try_fold.simps)
  show "metadata_descriptor_validate jcs blake3 d = Inr ()" "bd_batch_id d = bid" "bd_scope d = sc"
    "bd_kind d = page_kind (hd ps)" "unat (bd_page_count d) = length ps"
    using fields n by simp_all
  assume "p \<in> set ps"
  then obtain i where i: "i < length ps" "p = ps ! i" by (auto simp: in_set_conv_nth)
  have all: "list_all2 (describes jcs blake3) ps es" and same: "page_kind p = page_kind (hd ps)" "mp_page_count p = n"
    using describe_pages [OF es(1)] \<open>p \<in> set ps\<close> by auto
  have number: "unat (mp_page_number p) = i" and v: "metadata_page_validate jcs blake3 p = Inr ()"
    and at: "mp_batch_id p = bid" "mp_scope p = sc"
    using b i by (simp_all add: batch_pages_def)
  have "describes jcs blake3 p (es ! i)" "length es = length ps" using all i by (auto simp: list_all2_conv_all_nth)
  moreover have "mp_schema_version p = METADATA_SCHEMA_VERSION_V1"
    using v by (simp add: metadata_page_validate_def split: if_splits)
  ultimately show "descriptor_validate_page jcs blake3 d p = Inr ()"
    using fields v at same number n es(2) i(1) by (auto simp: descriptor_validate_page_def describes_def)
qed

section \<open>The checks on a receipt\<close>

lemma count_of_up: "bt_ok m \<Longrightarrow> count_of (count_up k m) k' = count_of m k' + (if k = k' then 1 else 0)"
  by (simp add: count_of_def count_up_def)

lemma bt_ok_count_up: "bt_ok m \<Longrightarrow> bt_ok (count_up k m)"
  by (simp add: count_up_def)

lemma count_of_Nil: "count_of [] k = 0"
  by (simp add: count_of_def)

definition receipts_match :: "add_assignment \<Rightarrow> metadata_batch_page \<Rightarrow> bool" where
  "receipts_match a p \<longleftrightarrow> (\<forall>rs. mp_records p = ObjectReceiptRecords rs \<longrightarrow> list_all (receipt_matches a) rs)"

lemma receipt_pages_fold:
  assumes "\<forall>p \<in> set ps. (\<exists>d. bt_get descriptors (mp_batch_id p) = Some d \<and> descriptor_validate_page jcs blake3 d p = Inr ())
      \<and> receipts_match a p"
    and "distinct (map (\<lambda>p. (mp_batch_id p, mp_page_number p)) ps)"
    and "\<forall>p \<in> set ps. (mp_batch_id p, mp_page_number p) \<notin> set seen" and "bt_ok counts"
  shows "\<exists>counts' seen'. try_fold (receipt_page jcs blake3 a descriptors) (counts, seen) ps = Inr (counts', seen')
    \<and> (\<forall>k. count_of counts' k = count_of counts k + length (filter (\<lambda>p. mp_batch_id p = k) ps))"
  using assms
proof (induction ps arbitrary: counts seen)
  case (Cons p ps)
  have rs: "(case mp_records p of
                  ObjectReceiptRecords rs \<Rightarrow> if \<not> list_all (receipt_matches a) rs then Inl AeObjectTransferFailed else Inr ()
                | _ \<Rightarrow> Inr ()) = (Inr () :: unit agent_result)"
    using Cons.prems(1) by (simp add: receipts_match_def split: metadata_batch_records.split)
  have step: "receipt_page jcs blake3 a descriptors (counts, seen) p =
      Inr (count_up (mp_batch_id p) counts, bts_insert (mp_batch_id p, mp_page_number p) seen)"
    using Cons.prems(1,3) rs by (auto simp: receipt_page_def)
  have "\<exists>counts' seen'. try_fold (receipt_page jcs blake3 a descriptors)
        (count_up (mp_batch_id p) counts, bts_insert (mp_batch_id p, mp_page_number p) seen) ps = Inr (counts', seen')
      \<and> (\<forall>k. count_of counts' k = count_of (count_up (mp_batch_id p) counts) k + length (filter (\<lambda>p. mp_batch_id p = k) ps))"
  proof (rule Cons.IH)
    show "\<forall>q \<in> set ps. (mp_batch_id q, mp_page_number q) \<notin> set (bts_insert (mp_batch_id p, mp_page_number p) seen)"
      using Cons.prems(2,3) by (simp add: image_iff) metis
  qed (use Cons.prems in \<open>simp_all add: bt_ok_count_up\<close>)
  then obtain counts' seen' where rest: "try_fold (receipt_page jcs blake3 a descriptors)
        (count_up (mp_batch_id p) counts, bts_insert (mp_batch_id p, mp_page_number p) seen) ps = Inr (counts', seen')"
    and n: "\<forall>k. count_of counts' k = count_of (count_up (mp_batch_id p) counts) k + length (filter (\<lambda>p. mp_batch_id p = k) ps)"
    by blast
  have "\<forall>k. count_of counts' k = count_of counts k + length (filter (\<lambda>p. mp_batch_id p = k) (p # ps))"
    using n by (simp add: count_of_up [OF Cons.prems(4)])
  then show ?case using step rest by simp
qed simp

lemma receipt_descriptor_next:
  assumes "metadata_descriptor_validate jcs blake3 d = Inr ()" "bd_scope d = assignment_batch_scope a"
    and "bd_batch_id d \<notin> fst ` set descriptors"
  shows "receipt_descriptor jcs blake3 a (descriptors, kinds) d =
    Inr (bt_insert (bd_batch_id d) d descriptors, count_up (kind_name (bd_kind d)) kinds)"
  using assms by (simp add: receipt_descriptor_def assignment_batch_scope_def)

lemma distinct_page_keys:
  assumes "batch_pages jcs blake3 bid sc wrap parts ps"
  shows "distinct (map (\<lambda>p. (mp_batch_id p, mp_page_number p)) ps)"
proof -
  have "distinct (map mp_page_number ps)"
    using batch_pages_numbers(1) [OF assms] by (simp add: strict_sorted_iff)
  then show ?thesis by (auto simp: distinct_map inj_on_def)
qed

lemma batch_kind:
  assumes "batch_pages jcs blake3 bid sc wrap parts ps" "\<And>part. records_kind (wrap part) = kind"
  shows "page_kind (hd ps) = kind"
  using assms by (auto simp: batch_pages_def page_kind_def hd_conv_nth)

lemma length_filter_batch:
  assumes "\<forall>p \<in> set ps. mp_batch_id p = bid"
  shows "length (filter (\<lambda>p. mp_batch_id p = k) ps) = (if k = bid then length ps else 0)"
  using assms by (induction ps) auto

lemma transfer_receipt_valid:
  fixes a :: add_assignment
  defines "sc \<equiv> assignment_batch_scope a"
  assumes m: "batch_pages jcs blake3 mid sc ManifestRecords mparts mps" "batch_descriptor jcs blake3 sc mps = Inr md"
    and x: "batch_pages jcs blake3 xid sc IndexDeltaRecords xparts xps" "batch_descriptor jcs blake3 sc xps = Inr xd"
    and r: "batch_pages jcs blake3 rid sc ObjectReceiptRecords rparts rps" "batch_descriptor jcs blake3 sc rps = Inr rd"
    and ids: "distinct [mid, xid, rid]" and own: "\<forall>p \<in> set rps. receipts_match a p"
  shows "transfer_receipt_validate jcs blake3
    \<lparr> tr_metadata_batches = [md, xd, rd], tr_metadata_pages = mps @ xps @ rps \<rparr> a = Inr ()"
proof -
  note md = batch_descriptor_ok [OF m] and xd = batch_descriptor_ok [OF x] and rd = batch_descriptor_ok [OF r]
  have kinds: "bd_kind md = KindManifest" "bd_kind xd = KindIndexDelta" "bd_kind rd = KindObjectReceipt"
    using md(4) xd(4) rd(4) batch_kind [OF m(1)] batch_kind [OF x(1)] batch_kind [OF r(1)] by simp_all
  have ids': "xid \<noteq> mid" "rid \<noteq> mid" "rid \<noteq> xid" using ids by auto
  define ds where "ds = bt_insert rid rd (bt_insert xid xd (bt_insert mid md []))"
  define ks where "ks = count_up ''object_receipt'' (count_up ''index_delta'' (count_up ''manifest'' []))"
  have fold_ds: "try_fold (receipt_descriptor jcs blake3 a) ([], []) [md, xd, rd] = Inr (ds, ks)"
    using ids ids' md(1-3) xd(1-3) rd(1-3) kinds
    by (simp add: receipt_descriptor_next sc_def ds_def ks_def del: bt_insert.simps)
  have ks: "count_of ks ''manifest'' = 1" "count_of ks ''index_delta'' = 1" "count_of ks ''object_receipt'' = 1"
    by (simp_all add: ks_def count_of_up bt_ok_count_up count_of_Nil)
  have get: "bt_get ds mid = Some md" "bt_get ds xid = Some xd" "bt_get ds rid = Some rd"
    using ids by (simp_all add: ds_def del: bt_insert.simps)
  let ?ps = "mps @ xps @ rps"
  note in_m = batch_pages_numbers(2) [OF m(1)] and in_x = batch_pages_numbers(2) [OF x(1)] and in_r = batch_pages_numbers(2) [OF r(1)]
  have pages: "(\<exists>d. bt_get ds (mp_batch_id p) = Some d \<and> descriptor_validate_page jcs blake3 d p = Inr ()) \<and> receipts_match a p"
    if "p \<in> set ?ps" for p
    using that get in_m [of p] in_x [of p] in_r [of p] md(6) xd(6) rd(6) own by (auto simp: receipts_match_def)
  have keys: "distinct (map (\<lambda>p. (mp_batch_id p, mp_page_number p)) ?ps)"
    using ids distinct_page_keys [OF m(1)] distinct_page_keys [OF x(1)] distinct_page_keys [OF r(1)] in_m in_x in_r
    by auto
  obtain cs seen where cs: "try_fold (receipt_page jcs blake3 a ds) ([], []) ?ps = Inr (cs, seen)"
    "\<forall>k. count_of cs k = count_of [] k + length (filter (\<lambda>p. mp_batch_id p = k) ?ps)"
    using receipt_pages_fold [of ?ps ds jcs blake3 a "[]" "[]"] pages keys by force
  have "count_of cs mid = length mps" "count_of cs xid = length xps" "count_of cs rid = length rps"
    using cs(2) ids ids' length_filter_batch [of mps mid] length_filter_batch [of xps xid] length_filter_batch [of rps rid] in_m in_x in_r
    by (simp_all add: count_of_Nil)
  then show ?thesis
    using ks cs(1) md(2,5) xd(2,5) rd(2,5)
    by (simp add: transfer_receipt_validate_def fold_ds del: try_fold.simps)
qed

section \<open>The round trip\<close>

lemma object_receipts_fields:
  assumes "list_all2 (\<lambda>s r. object_receipt jcs blake3 a verified_at s = Inr r) os rs"
  shows "list_all2 (\<lambda>s r. or_object_id r = os_id s \<and> or_size r = os_size s) os rs" "list_all (receipt_matches a) rs"
    "map (object_receipt_id jcs blake3 a) os = map (\<lambda>r. Inr (or_receipt_id r)) rs"
  using assms by (induction rule: list_all2_induct) (auto simp: object_receipt_def receipt_matches_def)

lemma distinct_receipt_ids:
  assumes "map f os = map (\<lambda>r. Inr (or_receipt_id r)) rs" "distinct (map f os)"
  shows "distinct (map or_receipt_id rs)"
  using assms by (simp add: distinct_map inj_on_def)

lemma pages_republish:
  assumes c: "publication_closed uni blake3 psc base d ms os"
    and m: "batch_pages jcs blake3 mid sc ManifestRecords (page_parts (concat frss)) mps"
      "list_all2 (\<lambda>m frs. manifest_fragments blake3 m = Inr frs) ms frss"
    and x: "batch_pages jcs blake3 xid sc IndexDeltaRecords (page_parts (map delta_record (delta_iter d))) xps"
    and r: "batch_pages jcs blake3 rid sc ObjectReceiptRecords (page_parts rs) rps"
      "list_all2 (\<lambda>s r. or_object_id r = os_id s \<and> or_size r = os_size s) os rs" "distinct (map or_receipt_id rs)"
  shows "publication_from_pages uni jcs blake3 (mps @ xps @ rps) =
    Inr \<lparr> mpub_index_mutations = delta_iter d, mpub_manifests = by_identity blake3 ms, mpub_object_specs = by_object os \<rparr>"
proof -
  let ?p0 = "\<lparr> px_fragments = [], px_mutations = [], px_object_specs = [], px_receipt_ids = [] \<rparr> :: publication_records"
  let ?p1 = "?p0 \<lparr> px_fragments := bt_collect (map (fragments_pair blake3) ms) \<rparr>"
  let ?p2 = "?p1 \<lparr> px_mutations := delta_iter d \<rparr>"
  have valid: "\<forall>m \<in> set ms. manifest_validate m = Inr ()" "distinct (map (id_of_manifest blake3) ms)" "distinct (map os_id os)"
    "\<forall>m \<in> set (delta_iter d). mutation_validate m = Inr ()"
    using c by (simp_all add: publication_closed_def manifests_collect_def delta_validate_iff mutations_ok_def)
  have "try_fold collect_page ?p0 mps = Inr ?p1"
    using collect_batch [OF m(1), of collect_fragment ?p0] collect_all_fragments [OF m(2) valid(1), of "[]" ?p0] valid(2)
    by (simp add: collect_page_def bt_collect_Nil)
  moreover have "try_fold collect_page ?p1 xps = Inr ?p2"
    using collect_batch [OF x, of collect_mutation ?p1] collect_mutations [OF valid(4), of ?p1] by (simp add: collect_page_def)
  moreover obtain ids where "try_fold collect_page ?p2 rps =
      Inr (?p2 \<lparr> px_receipt_ids := ids, px_object_specs := bt_collect (map spec_pair os) \<rparr>)"
    using collect_batch [OF r(1), of collect_receipt ?p2] collect_receipts [OF r(2), of "[]" "[]" ?p2] valid(3) r(3)
    by (auto simp: collect_page_def bt_collect_Nil)
  ultimately have collect: "try_fold collect_page ?p0 (mps @ xps @ rps) =
      Inr (?p2 \<lparr> px_receipt_ids := ids, px_object_specs := bt_collect (map spec_pair os) \<rparr>)"
    by (simp add: try_fold_append)
  have ordered: "bt_values (keyed 0 mps @ keyed 1 xps @ keyed 2 rps) = mps @ xps @ rps"
    using bt_values_keyed [of 0 mps] bt_values_keyed [of 1 xps] bt_values_keyed [of 2 rps] by (simp add: bt_values_def)
  show ?thesis
    using order_three_batches [OF m(1) x r(1)] three_batches_complete [OF m(1) x r(1)] collect assemble_collected [OF c] ordered
    by (simp add: publication_from_pages_def start_pages_def)
qed

lemma batch_ids_distinct:
  assumes "resource_id_new (CHR ''m'' # CHR ''-'' # h) = Inr mid" "resource_id_new (CHR ''i'' # CHR ''-'' # h) = Inr xid"
    "resource_id_new (CHR ''o'' # CHR ''-'' # h) = Inr rid"
  shows "distinct [mid, xid, rid]"
  using assms by (auto simp: resource_id_new_def)

lemma candidate_scope:
  assumes "validate_candidate uni blake3 record p = Inr ()"
  shows "scope_of_batch (assignment_batch_scope (lr_assignment record)) = resource_scope (pd_resource p)"
    "index_version_of_wire (as_expected_index_version (lr_assignment record)) = pd_base_index_version p"
    "prepared_validate uni blake3 p = Inr ()"
  using assms
  by (auto simp: validate_candidate_def Let_def from_engine_error_def scope_of_batch_def assignment_batch_scope_def
      resource_scope_def index_version_of_wire_def split: if_splits intro: index_version.equality)

lemma receipt_pages_match:
  assumes b: "batch_pages jcs blake3 rid sc ObjectReceiptRecords (page_parts rs) rps" and rs: "list_all (receipt_matches a) rs"
  shows "\<forall>p \<in> set rps. receipts_match a p"
proof
  fix p assume "p \<in> set rps"
  then obtain i where i: "i < length rps" "p = rps ! i" by (auto simp: in_set_conv_nth)
  then have "mp_records p = ObjectReceiptRecords (page_parts rs ! i)" and "page_parts rs ! i \<in> set (page_parts rs)"
    using b by (simp_all add: batch_pages_def)
  moreover have "set (page_parts rs ! i) \<subseteq> set (concat (page_parts rs))" using calculation(2) by (simp only: set_concat) blast
  ultimately show "receipts_match a p"
    using rs by (auto simp: receipts_match_def list_all_iff)
qed

lemma by_object_specs:
  assumes "distinct (map os_id os)" shows "set (by_object os) = set os"
proof -
  have "inj spec_pair" by (auto simp: inj_def spec_pair_def intro: object_spec.equality)
  then show ?thesis using by_object_set [OF assms] by (simp add: inj_image_eq_iff)
qed

lemma index_pages_bound:
  assumes "batch_pages jcs blake3 xid sc wrap (page_parts rs) xps" "length rs = n"
  shows "(n + 4095) div 4096 \<le> 2 ^ 32"
proof (cases "rs = []")
  case False
  then show ?thesis
    using assms length_chunks_of [of MAX_RECORDS_PER_PAGE rs]
    by (auto simp: batch_pages_def page_parts_def MAX_RECORDS_PER_PAGE_def)
qed (use assms in simp)

lemma receipt_parts:
  assumes "metadata_receipt uni jcs blake3 a p verified_at = Inr receipt"
  obtains digest mid xid rid frss rs mps xps rps md xd rd where
    "prepared_publication_digest uni blake3 p = Inr digest" "distinct [mid, xid, rid]"
    "list_all2 (\<lambda>m frs. manifest_fragments blake3 m = Inr frs) (pd_manifests p) frss"
    "list_all2 (\<lambda>s r. object_receipt jcs blake3 a verified_at s = Inr r) (pd_object_specs p) rs"
    "batch_pages jcs blake3 mid (assignment_batch_scope a) ManifestRecords (page_parts (concat frss)) mps"
    "batch_pages jcs blake3 xid (assignment_batch_scope a) IndexDeltaRecords
       (page_parts (map delta_record (delta_iter (pd_index_delta p)))) xps"
    "batch_pages jcs blake3 rid (assignment_batch_scope a) ObjectReceiptRecords (page_parts rs) rps"
    "batch_descriptor jcs blake3 (assignment_batch_scope a) mps = Inr md"
    "batch_descriptor jcs blake3 (assignment_batch_scope a) xps = Inr xd"
    "batch_descriptor jcs blake3 (assignment_batch_scope a) rps = Inr rd"
    "receipt = \<lparr> tr_metadata_batches = [md, xd, rd], tr_metadata_pages = mps @ xps @ rps \<rparr>"
proof -
  show thesis
    using assms
    by (clarsimp simp: metadata_receipt_def Let_def try_map_iff)
       (rule that; (assumption | erule build_pages_ok | erule (2) batch_ids_distinct | rule refl))
qed

lemma receipt_reads_back:
  assumes "validate_candidate uni blake3 record p = Inr ()"
    and "metadata_receipt uni jcs blake3 (lr_assignment record) p verified_at = Inr receipt"
    and "distinct (map (object_receipt_id jcs blake3 (lr_assignment record)) (pd_object_specs p))"
  shows "transfer_receipt_validate_for uni jcs blake3 receipt (lr_assignment record) p = Inr ()"
    and "publication_from_pages uni jcs blake3 (tr_metadata_pages receipt) =
      Inr \<lparr> mpub_index_mutations = delta_iter (pd_index_delta p), mpub_manifests = by_identity blake3 (pd_manifests p),
            mpub_object_specs = by_object (pd_object_specs p) \<rparr>"
proof -
  let ?a = "lr_assignment record" and ?d = "pd_index_delta p" and ?ms = "pd_manifests p" and ?os = "pd_object_specs p"
  obtain digest mid xid rid frss rs mps xps rps md xd rd where digest: "prepared_publication_digest uni blake3 p = Inr digest" and ids: "distinct [mid, xid, rid]"
    and frss: "list_all2 (\<lambda>m frs. manifest_fragments blake3 m = Inr frs) ?ms frss"
    and rs: "list_all2 (\<lambda>s r. object_receipt jcs blake3 ?a verified_at s = Inr r) ?os rs"
    and m: "batch_pages jcs blake3 mid (assignment_batch_scope ?a) ManifestRecords (page_parts (concat frss)) mps"
    and x: "batch_pages jcs blake3 xid (assignment_batch_scope ?a) IndexDeltaRecords (page_parts (map delta_record (delta_iter ?d))) xps"
    and r: "batch_pages jcs blake3 rid (assignment_batch_scope ?a) ObjectReceiptRecords (page_parts rs) rps"
    and ds: "batch_descriptor jcs blake3 (assignment_batch_scope ?a) mps = Inr md"
      "batch_descriptor jcs blake3 (assignment_batch_scope ?a) xps = Inr xd"
      "batch_descriptor jcs blake3 (assignment_batch_scope ?a) rps = Inr rd"
    and receipt: "receipt = \<lparr> tr_metadata_batches = [md, xd, rd], tr_metadata_pages = mps @ xps @ rps \<rparr>"
    using assms(2) by (rule receipt_parts)
  note scope = candidate_scope [OF assms(1)] and fields = object_receipts_fields [OF rs]
  have pub: "add_publication_digest uni blake3 (resource_scope (pd_resource p)) (pd_base_index_version p) ?d ?ms ?os = Inr digest"
    using digest by (auto simp: prepared_publication_digest_def)
  then have closed: "publication_closed uni blake3 (resource_scope (pd_resource p)) (pd_base_index_version p) ?d ?ms ?os"
    by (simp add: add_publication_digest_iff)
  then have dist: "distinct (map (id_of_manifest blake3) ?ms)" "distinct (map os_id ?os)"
    by (simp_all add: publication_closed_def manifests_collect_def)
  have valid: "transfer_receipt_validate jcs blake3 receipt ?a = Inr ()"
    unfolding receipt by (rule transfer_receipt_valid [OF m ds(1) x ds(2) r ds(3) ids receipt_pages_match [OF r fields(2)]])
  show pages: "publication_from_pages uni jcs blake3 (tr_metadata_pages receipt) =
      Inr \<lparr> mpub_index_mutations = delta_iter ?d, mpub_manifests = by_identity blake3 ?ms, mpub_object_specs = by_object ?os \<rparr>"
    using pages_republish [OF closed m frss x r fields(1) distinct_receipt_ids [OF fields(3) assms(3)]] by (simp add: receipt)
  obtain d' where "delta_new uni (pd_base_index_version p) (delta_iter ?d) (dl_result_digest ?d) = Inr d'"
    "add_publication_digest uni blake3 (resource_scope (pd_resource p)) (pd_base_index_version p) d'
       (by_identity blake3 ?ms) (by_object ?os) = Inr digest"
    using republished_digest [OF pub index_pages_bound [OF x]] by auto
  then show "transfer_receipt_validate_for uni jcs blake3 receipt ?a p = Inr ()"
    using valid pages digest scope
    by (simp add: transfer_receipt_validate_for_def metadata_publication_digest_def Let_def invalid_publication_def
        assignment_batch_scope_def)
qed

text \<open>
  C12: The sender and the reader of metadata batches agree.  When the candidate of an assignment passes the
  agent's checks, its receipt could be built, and no two of its objects get the same receipt identifier,
  then the receipt passes every check that a reader runs on it, and reading the pages gives back exactly the
  candidate's index mutations in order, its manifests and its objects, although manifests were cut into
  fragments and the records into pages.
\<close>

theorem transfer_receipt_round_trip:
  assumes "validate_candidate uni blake3 record p = Inr ()"
    and "metadata_receipt uni jcs blake3 (lr_assignment record) p verified_at = Inr receipt"
    and "distinct (map (object_receipt_id jcs blake3 (lr_assignment record)) (pd_object_specs p))"
  shows "transfer_receipt_validate_for uni jcs blake3 receipt (lr_assignment record) p = Inr ()
    \<and> (\<exists>pub. publication_from_pages uni jcs blake3 (tr_metadata_pages receipt) = Inr pub
         \<and> mpub_index_mutations pub = delta_iter (pd_index_delta p)
         \<and> set (mpub_manifests pub) = set (pd_manifests p) \<and> length (mpub_manifests pub) = length (pd_manifests p)
         \<and> set (mpub_object_specs pub) = set (pd_object_specs p) \<and> length (mpub_object_specs pub) = length (pd_object_specs p))"
proof -
  have "prepared_validate uni blake3 p = Inr ()" by (rule candidate_scope(3) [OF assms(1)])
  then have "distinct (map (id_of_manifest blake3) (pd_manifests p))" "distinct (map os_id (pd_object_specs p))"
    by (auto simp: prepared_validate_iff prepared_content_iff publication_closed_def manifests_collect_def)
  then show ?thesis
    using receipt_reads_back [OF assms]
    by (simp add: by_identity_collected(2) by_object_specs length_by_identity length_by_object)
qed

section \<open>A sample transfer\<close>

definition receipt_jcs :: jcs where
  "receipt_jcs v = (case v of CanonReceipt r \<Rightarrow> Inr [ucast (rs_object_size r)] | _ \<Rightarrow> Inr [1])"

definition file_delta :: index_delta where
  "file_delta = \<lparr> dl_base_version = \<lparr> iv_revision = 1, iv_digest = ContentDigest 0 \<rparr>,
     dl_pages = [\<lparr> pg_number = 0, pg_mutations =
       [Upsert \<lparr> fr_path = sample_path, fr_manifest_id = id_of_manifest sum_hash sample_manifest, fr_total_size = 7,
                 fr_chunk_count = 2 \<rparr>] \<rparr>],
     dl_result_digest = ContentDigest 1 \<rparr>"

definition file_candidate :: prepared_add where
  "file_candidate =
     (let p = sample_candidate \<lparr> pd_index_delta := file_delta, pd_manifests := [sample_manifest],
         pd_object_specs := [\<lparr> os_id = ObjectId (ContentDigest 1), os_size = 4 \<rparr>, \<lparr> os_id = ObjectId (ContentDigest 2), os_size = 3 \<rparr>] \<rparr>
      in p \<lparr> pd_candidate_digest := sum_hash (candidate_encoding sum_hash p) \<rparr>)"

lemma file_candidate_fields:
  "pd_resource file_candidate = pd_resource sample_candidate" "pd_base_index_version file_candidate = dl_base_version file_delta"
  "pd_candidate_batch_id file_candidate = ''b''" "pd_index_delta file_candidate = file_delta"
  "pd_manifests file_candidate = [sample_manifest]"
  "pd_object_specs file_candidate = [\<lparr> os_id = ObjectId (ContentDigest 1), os_size = 4 \<rparr>, \<lparr> os_id = ObjectId (ContentDigest 2), os_size = 3 \<rparr>]"
  by (simp_all add: file_candidate_def sample_candidate_def Let_def file_delta_def sample_delta_def)

lemma file_delta_valid: "delta_validate ascii_unicode file_delta = Inr ()"
  by (simp add: delta_validate_iff file_delta_def delta_iter_def mutations_ok_def MAX_INDEX_MUTATIONS_PER_PAGE_def
      mutation_validate_def file_record_validate_def)

lemma file_candidate_valid: "prepared_validate ascii_unicode sum_hash file_candidate = Inr ()"
proof -
  have enc: "candidate_encoding sum_hash (p \<lparr> pd_candidate_digest := d \<rparr>) = candidate_encoding sum_hash p" for p d
    by (simp add: candidate_encoding_def)
  have "pd_candidate_digest file_candidate = sum_hash (candidate_encoding sum_hash file_candidate)"
    unfolding file_candidate_def Let_def enc by simp
  moreover have "candidate_fits file_candidate"
    by (simp add: candidate_fits_def file_candidate_fields scope_fields_def resource_scope_def file_delta_def sample_candidate_def Let_def
        delta_iter_def mutation_fits_def str_fits_def sample_path_def sample_manifest_def)
  moreover have "publication_closed ascii_unicode sum_hash (resource_scope (pd_resource file_candidate))
      (pd_base_index_version file_candidate) (pd_index_delta file_candidate) (pd_manifests file_candidate)
      (pd_object_specs file_candidate)"
    unfolding publication_closed_def file_candidate_fields
    using file_delta_valid sample_manifest_valid
    by (simp add: manifests_collect_def sizes_agree_def sample_candidate_def Let_def scope_fields_def resource_scope_def)
       (simp add: file_delta_def delta_iter_def sample_manifest_def sample_chunk_def all_chunks_def spec_pair_def chunk_pair_def)
  ultimately show ?thesis by (simp add: prepared_validate_iff prepared_content_iff file_candidate_fields)
qed

lemma file_candidate_matches:
  "validate_candidate ascii_unicode sum_hash (accepted_record sample_assignment 5) file_candidate = Inr ()"
  using file_candidate_valid
  by (simp add: validate_candidate_def from_engine_error_def accepted_record_fields file_candidate_fields)
     (simp add: sample_assignment_def sample_candidate_def Let_def sample_wire_version_def sample_delta_def file_delta_def)

lemma hex_id_valid:
  assumes "ascii_alphanumeric c"
  shows "resource_id_new (c # CHR ''-'' # digest_to_hex d) = Inr (ResourceId (c # CHR ''-'' # digest_to_hex d))"
proof -
  have "is_lower_hex x \<Longrightarrow> ascii_alphanumeric x" for x
    using order_trans [of x "CHR ''f''" "CHR ''z''"]
    by (auto simp: is_lower_hex_def ascii_alphanumeric_def ascii_digit_def)
  then have "list_all (\<lambda>x. ascii_alphanumeric x \<or> x \<in> set ''._:-'') (digest_to_hex d)"
    using digest_to_hex_shape(2) [of d] by (auto simp: list_all_iff)
  then show ?thesis
    using assms digest_to_hex_shape(1) [of d]
    by (simp add: resource_id_new_def validate_resource_id_def MAX_RESOURCE_ID_BYTES_def Let_def)
qed

lemma one_page_batch:
  assumes sc: "metadata_batch_scope_validate sc = Inr ()" and v: "records_validate (wrap rs) = Inr ()"
    and len: "records_len (wrap rs) = length rs" "length rs \<le> 4096"
  shows "\<exists>p d. build_pages receipt_jcs blake3 bid sc rs wrap = Inr [p] \<and> batch_descriptor receipt_jcs blake3 sc [p] = Inr d"
proof -
  let ?p = "\<lparr> mp_batch_id = bid, mp_scope = sc, mp_schema_version = METADATA_SCHEMA_VERSION_V1, mp_page_number = 0,
      mp_page_count = 1, mp_records = wrap rs, mp_page_digest = blake3 [1], mp_extensions = [] \<rparr>"
  have valid: "metadata_page_validate receipt_jcs blake3 ?p = Inr ()"
    using sc v len by (simp add: metadata_page_validate_def page_record_count_def MAX_RECORDS_PER_PAGE_def validate_extension_keys_def
        bt_keys_def page_computed_digest_def jcs_blake3_def receipt_jcs_def MAX_METADATA_PAGE_BYTES_def)
  then have new: "metadata_page_new receipt_jcs blake3 bid sc 0 1 (wrap rs) [] = Inr ?p"
    by (simp add: metadata_page_new_def empty_digest_def page_computed_digest_def jcs_blake3_def receipt_jcs_def Let_def)
  have "chunks_of MAX_RECORDS_PER_PAGE rs = [rs]" if "rs \<noteq> []"
    using that len(2) by (subst chunks_of.simps) (simp add: MAX_RECORDS_PER_PAGE_def)
  moreover have "max ((length rs + 4095) div 4096) 1 = 1" using len(2) by simp
  ultimately have "build_pages receipt_jcs blake3 bid sc rs wrap = Inr [?p]"
    using new by (cases "rs = []") (simp_all add: build_pages_def MAX_RECORDS_PER_PAGE_def u32_try_from_def try_map_def)
  moreover have "unat (of_nat (length rs) :: u32) = length rs" using len(2) by (simp add: unat_of_nat)
  then have "\<exists>d. batch_descriptor receipt_jcs blake3 sc [?p] = Inr d"
    using valid sc len
    by (simp add: unsigned_ucast_eq take_bit_nat_eq_self MAX_RECORDS_PER_PAGE_def MAX_METADATA_PAGE_BYTES_def batch_descriptor_def metadata_descriptor_from_pages_def u32_try_from_def describe_page_def page_record_count_def
        u64_try_from_def checked_add_def receipt_jcs_def empty_digest_def jcs_blake3_def descriptor_computed_digest_def
        metadata_descriptor_validate_def descriptor_page_step_def metadata_page_descriptor_validate_def
        validate_extension_keys_def bt_keys_def Let_def)
  ultimately show ?thesis by blast
qed

lemma file_receipts:
  "\<exists>rs. try_map (object_receipt receipt_jcs sum_hash sample_assignment
     [(ObjectId (ContentDigest 1), 5), (ObjectId (ContentDigest 2), 5)]) (pd_object_specs file_candidate) = Inr rs
     \<and> length rs = 2 \<and> (\<forall>r \<in> set rs. or_extensions r = [])"
proof -
  have d: "list_all (\<lambda>c. CHR 0x21 \<le> c \<and> c \<le> CHR 0x7E) ''neoengram.object-receipt-id.v1''" by code_simp
  have a: "ascii_alphanumeric (CHR ''r'')" by code_simp
  show ?thesis
    by (simp add: try_map_def file_candidate_fields object_receipt_def object_receipt_id_def domain_separated_jcs_bytes_def
        d hex_id_valid [OF a] receipt_jcs_def bt_get_def)
qed

lemma file_receipt_ids_distinct:
  "distinct (map (object_receipt_id receipt_jcs sum_hash sample_assignment) (pd_object_specs file_candidate))"
proof -
  have d: "list_all (\<lambda>c. CHR 0x21 \<le> c \<and> c \<le> CHR 0x7E) ''neoengram.object-receipt-id.v1''" by code_simp
  have a: "ascii_alphanumeric (CHR ''r'')" by code_simp
  have hex: "digest_to_hex x = digest_to_hex y \<longleftrightarrow> x = y" for x y
    using digest_from_str_iff [OF hex_decode_decodes] by (metis sum.inject(2))
  show ?thesis
    by (simp add: file_candidate_fields object_receipt_id_def domain_separated_jcs_bytes_def
        d hex_id_valid [OF a] receipt_jcs_def hex sum_hash_def from_protocol_error_def)
qed

lemma file_candidate_digest: "\<exists>digest. prepared_publication_digest ascii_unicode sum_hash file_candidate = Inr digest"
proof -
  have c: "prepared_validate_content ascii_unicode sum_hash file_candidate = Inr ()" "candidate_fits file_candidate"
    using file_candidate_valid by (simp_all add: prepared_validate_iff)
  have "delta_ok ascii_unicode file_delta"
    using file_delta_valid
    by (simp add: delta_ok_def) (simp add: file_delta_def delta_iter_def sample_path_def str_fits_def record_encodable_def)
  with c show ?thesis
    by (simp add: prepared_publication_digest_def prepared_content_iff add_publication_digest_iff candidate_fits_def
        file_candidate_fields)
qed

lemma file_fragments:
  "\<exists>frs. manifest_fragments sum_hash sample_manifest = Inr frs \<and> length frs = 1 \<and> records_validate (ManifestRecords frs) = Inr ()"
proof -
  have c: "chunks_of MAX_RECORDS_PER_PAGE (m_chunks sample_manifest) = [m_chunks sample_manifest]" "m_chunks sample_manifest \<noteq> []"
    by (simp_all add: sample_manifest_def MAX_RECORDS_PER_PAGE_def) (subst chunks_of.simps, simp)
  show ?thesis
    using sample_manifest_valid
    by (simp add: manifest_fragments_def manifest_id_eq c try_map_def manifest_fragment_def u64_try_from_def)
       (simp add: manifest_record_validate_def wire_chunk_def wire_chunk_ref_validate_def validate_extension_keys_def bt_keys_def
        sample_manifest_def sample_chunk_def u64_try_from_def checked_add_def fragment_step_def)
qed

lemma file_receipt:
  "\<exists>receipt. metadata_receipt ascii_unicode receipt_jcs sum_hash sample_assignment file_candidate
     [(ObjectId (ContentDigest 1), 5), (ObjectId (ContentDigest 2), 5)] = Inr receipt"
proof -
  let ?sc = "assignment_batch_scope sample_assignment"
  have sc: "metadata_batch_scope_validate ?sc = Inr ()"
    by (simp add: metadata_batch_scope_validate_def assignment_batch_scope_def sample_assignment_def sample_wire_version_def
        wire_index_version_validate_def validate_extension_keys_def bt_keys_def)
  obtain digest where digest: "prepared_publication_digest ascii_unicode sum_hash file_candidate = Inr digest"
    using file_candidate_digest by blast
  have ids: "ascii_alphanumeric (CHR ''m'')" "ascii_alphanumeric (CHR ''i'')" "ascii_alphanumeric (CHR ''o'')" by code_simp+
  obtain frs where frs: "manifest_fragments sum_hash sample_manifest = Inr frs" "length frs = 1"
    "records_validate (ManifestRecords frs) = Inr ()"
    using file_fragments by blast
  obtain rs where rs: "try_map (object_receipt receipt_jcs sum_hash sample_assignment
     [(ObjectId (ContentDigest 1), 5), (ObjectId (ContentDigest 2), 5)]) (pd_object_specs file_candidate) = Inr rs"
     "length rs = 2" "\<forall>r \<in> set rs. or_extensions r = []"
    using file_receipts by blast
  have v: "records_validate (ObjectReceiptRecords rs) = Inr ()"
    using rs(3) by (simp add: try_fold_unit object_receipt_record_validate_def validate_extension_keys_def bt_keys_def)
  let ?xs = "map delta_record (delta_iter file_delta)"
  have xs: "records_validate (IndexDeltaRecords ?xs) = Inr ()" "length ?xs = 1"
    by (simp_all add: file_delta_def delta_iter_def validate_extension_keys_def bt_keys_def)
  let ?id = "\<lambda>c. ResourceId (c # CHR ''-'' # digest_to_hex digest)"
  obtain m md where m: "build_pages receipt_jcs sum_hash (?id (CHR ''m'')) ?sc frs ManifestRecords = Inr [m]"
    "batch_descriptor receipt_jcs sum_hash ?sc [m] = Inr md"
    using one_page_batch [where wrap = ManifestRecords, OF sc frs(3), of sum_hash "?id (CHR ''m'')"] frs(2) by auto
  obtain x xd where x: "build_pages receipt_jcs sum_hash (?id (CHR ''i'')) ?sc ?xs IndexDeltaRecords = Inr [x]"
    "batch_descriptor receipt_jcs sum_hash ?sc [x] = Inr xd"
    using one_page_batch [where wrap = IndexDeltaRecords, OF sc xs(1), of sum_hash "?id (CHR ''i'')"] xs(2) by auto
  obtain r rd where r: "build_pages receipt_jcs sum_hash (?id (CHR ''o'')) ?sc rs ObjectReceiptRecords = Inr [r]"
    "batch_descriptor receipt_jcs sum_hash ?sc [r] = Inr rd"
    using one_page_batch [where wrap = ObjectReceiptRecords, OF sc v, of sum_hash "?id (CHR ''o'')"] rs(2) by auto
  have "try_map (manifest_fragments sum_hash) (pd_manifests file_candidate) = Inr [frs]"
    using frs(1) by (simp add: file_candidate_fields try_map_def)
  then show ?thesis
    using digest hex_id_valid [OF ids(1), of digest] hex_id_valid [OF ids(2), of digest] hex_id_valid [OF ids(3), of digest]
      rs(1) m x r by (simp add: metadata_receipt_def file_candidate_fields(4) Let_def)
qed

theorem transfer_receipt_round_trip_witness:
  "\<exists>receipt pub. metadata_receipt ascii_unicode receipt_jcs sum_hash sample_assignment file_candidate
       [(ObjectId (ContentDigest 1), 5), (ObjectId (ContentDigest 2), 5)] = Inr receipt
     \<and> publication_from_pages ascii_unicode receipt_jcs sum_hash (tr_metadata_pages receipt) = Inr pub
     \<and> set (mpub_manifests pub) = {sample_manifest}"
proof -
  obtain receipt where receipt: "metadata_receipt ascii_unicode receipt_jcs sum_hash sample_assignment file_candidate
       [(ObjectId (ContentDigest 1), 5), (ObjectId (ContentDigest 2), 5)] = Inr receipt"
    using file_receipt by blast
  have a: "lr_assignment (accepted_record sample_assignment 5) = sample_assignment" by (simp add: accepted_record_fields)
  from transfer_receipt_round_trip [OF file_candidate_matches, unfolded a, OF receipt file_receipt_ids_distinct]
  show ?thesis using receipt by (auto simp: file_candidate_fields)
qed

end
