(* ===== verification/Completion.thy ===== *)
theory Completion
  imports Transfers
begin

text \<open>
  An assignment runs to its end: on adapters that do not fail, the agent accepts, executes and reports an
  assignment with the receipt that the object transfer builds, and a publish decision completes it.
\<close>

section \<open>The prepared report exists\<close>

lemma assignment_parts:
  assumes "basic_validate uni jcs blake3 a now = Inr ()"
  shows "task_fence_validate (as_task_fence a) = Inr ()" "validate_positive (as_assignment_generation a) = Inr ()"
  using assms by (auto simp: basic_validate_def add_assignment_validate_def split: if_splits)

lemma receipt_batches:
  assumes "metadata_receipt uni jcs blake3 a p verified_at = Inr receipt"
  shows "\<forall>d \<in> set (tr_metadata_batches receipt). metadata_descriptor_validate jcs blake3 d = Inr ()"
    "length (tr_metadata_batches receipt) = 3" "metadata_batch_scope_validate (assignment_batch_scope a) = Inr ()"
    "is_ok (prepared_publication_digest uni blake3 p)"
proof -
  obtain digest mid xid rid frss rs mps xps rps md xd rd where digest: "prepared_publication_digest uni blake3 p = Inr digest"
    and m: "batch_pages jcs blake3 mid (assignment_batch_scope a) ManifestRecords (page_parts (concat frss)) mps"
    and x: "batch_pages jcs blake3 xid (assignment_batch_scope a) IndexDeltaRecords (page_parts (map delta_record (delta_iter (pd_index_delta p)))) xps"
    and r: "batch_pages jcs blake3 rid (assignment_batch_scope a) ObjectReceiptRecords (page_parts rs) rps"
    and ds: "batch_descriptor jcs blake3 (assignment_batch_scope a) mps = Inr md"
      "batch_descriptor jcs blake3 (assignment_batch_scope a) xps = Inr xd"
      "batch_descriptor jcs blake3 (assignment_batch_scope a) rps = Inr rd"
    and receipt: "receipt = \<lparr> tr_metadata_batches = [md, xd, rd], tr_metadata_pages = mps @ xps @ rps \<rparr>"
    using assms by (rule receipt_parts)
  note d = batch_descriptor_ok(1,3) [OF m ds(1)] batch_descriptor_ok(1) [OF x ds(2)] batch_descriptor_ok(1) [OF r ds(3)]
  show "\<forall>d \<in> set (tr_metadata_batches receipt). metadata_descriptor_validate jcs blake3 d = Inr ()"
    "length (tr_metadata_batches receipt) = 3" "is_ok (prepared_publication_digest uni blake3 p)"
    using d digest by (simp_all add: receipt is_ok_iff)
  show "metadata_batch_scope_validate (assignment_batch_scope a) = Inr ()"
    using d(1,2) by (auto simp: metadata_descriptor_validate_def split: if_splits)
qed

lemma prepared_report_ok:
  assumes a: "basic_validate uni jcs blake3 (lr_assignment record) now = Inr ()"
    and c: "validate_candidate uni blake3 record p = Inr ()"
    and r: "metadata_receipt uni jcs blake3 (lr_assignment record) p verified_at = Inr receipt"
    and d: "distinct (map (object_receipt_id jcs blake3 (lr_assignment record)) (pd_object_specs p))"
    and jcs: "\<forall>x. is_ok (jcs (CanonPrepared x))"
  shows "\<exists>report. prepared_report uni jcs blake3 record \<lparr> px_candidate = p, px_transfer = receipt \<rparr> = Inr report"
proof -
  note batches = receipt_batches [OF r]
  obtain digest where digest: "prepared_publication_digest uni blake3 p = Inr digest" using batches(4) by (auto simp: is_ok_iff)
  have version: "wire_index_version_validate (as_expected_index_version (lr_assignment record)) = Inr ()"
    using batches(3) by (auto simp: metadata_batch_scope_validate_def assignment_batch_scope_def)
  have all: "try_fold (\<lambda>_ d. metadata_descriptor_validate jcs blake3 d) () (tr_metadata_batches receipt) = Inr ()"
    unfolding try_fold_unit by (rule batches(1))
  have "\<exists>y. job_prepared_new jcs blake3 i (as_task_fence (lr_assignment record)) j (as_assignment_generation (lr_assignment record))
      (as_expected_index_version (lr_assignment record)) x z (tr_metadata_batches receipt) [] = Inr y" for i j x z
    using jcs assignment_parts [OF a] version all batches(2)
    by (auto simp: job_prepared_new_def job_prepared_validate_def job_prepared_computed_digest_def jcs_blake3_def Let_def
        validate_collection_limit_def MAX_RECORDS_PER_PAGE_def validate_extension_keys_def bt_keys_def is_ok_iff)
  then show ?thesis
    using c receipt_reads_back(1) [OF c r d] digest by (simp add: prepared_report_def from_engine_error_def Let_def)
qed

section \<open>The records of a run that succeeds\<close>

definition running_record :: "add_assignment \<Rightarrow> u64 \<Rightarrow> ledger_record" where
  "running_record a t = advance (accepted_record a t) Running t \<lparr> lr_failure := None \<rparr>"

definition prepared_record :: "add_assignment \<Rightarrow> u64 \<Rightarrow> prepared_execution \<Rightarrow> ledger_record" where
  "prepared_record a t px = advance (running_record a t) Prepared t \<lparr> lr_prepared := Some px \<rparr>"

definition awaiting_record :: "add_assignment \<Rightarrow> u64 \<Rightarrow> prepared_execution \<Rightarrow> ledger_record" where
  "awaiting_record a t px = advance (prepared_record a t px) AwaitingDecision t"

definition finalizing_record :: "add_assignment \<Rightarrow> u64 \<Rightarrow> prepared_execution \<Rightarrow> job_decision \<Rightarrow> ledger_record" where
  "finalizing_record a t px d = advance (awaiting_record a t px) Finalizing t
     \<lparr> lr_decision := Some d, lr_finalized := Some (finalized_of (awaiting_record a t px) d t) \<rparr>"

definition completed_record :: "add_assignment \<Rightarrow> u64 \<Rightarrow> prepared_execution \<Rightarrow> job_decision \<Rightarrow> ledger_record" where
  "completed_record a t px d = advance (finalizing_record a t px d) Completed t \<lparr> lr_failure := None \<rparr>"

lemma run_record_fields [simp]:
  "lr_key (running_record a t) = key_from_assignment a" "lr_assignment (running_record a t) = a"
  "lr_request_digest (running_record a t) = as_request_digest a" "lr_state (running_record a t) = Running" "lr_revision (running_record a t) = 3"
  "lr_key (prepared_record a t px) = key_from_assignment a" "lr_assignment (prepared_record a t px) = a"
  "lr_request_digest (prepared_record a t px) = as_request_digest a" "lr_state (prepared_record a t px) = Prepared"
  "lr_revision (prepared_record a t px) = 4" "lr_prepared (prepared_record a t px) = Some px"
  "lr_key (awaiting_record a t px) = key_from_assignment a" "lr_assignment (awaiting_record a t px) = a"
  "lr_request_digest (awaiting_record a t px) = as_request_digest a" "lr_state (awaiting_record a t px) = AwaitingDecision"
  "lr_revision (awaiting_record a t px) = 5" "lr_prepared (awaiting_record a t px) = Some px" "lr_decision (awaiting_record a t px) = None"
  "lr_key (finalizing_record a t px d) = key_from_assignment a" "lr_assignment (finalizing_record a t px d) = a"
  "lr_request_digest (finalizing_record a t px d) = as_request_digest a" "lr_state (finalizing_record a t px d) = Finalizing"
  "lr_revision (finalizing_record a t px d) = 6" "lr_prepared (finalizing_record a t px d) = Some px"
  "lr_decision (finalizing_record a t px d) = Some d"
  "lr_finalized (finalizing_record a t px d) = Some (finalized_of (awaiting_record a t px) d t)"
  "lr_state (completed_record a t px d) = Completed" "lr_decision (completed_record a t px d) = Some d"
  by (simp_all add: running_record_def prepared_record_def awaiting_record_def finalizing_record_def completed_record_def)

text \<open>The checks on a record look at its assignment and its candidate only.\<close>

lemma run_record_checks:
  "lr_assignment r = lr_assignment s \<Longrightarrow> validate_candidate uni blake3 r p = validate_candidate uni blake3 s p"
  "lr_assignment r = lr_assignment s \<Longrightarrow> prepared_report uni jcs blake3 r px = prepared_report uni jcs blake3 s px"
  "lr_assignment r = lr_assignment s \<Longrightarrow> validate_decision_identity r d = validate_decision_identity s d"
  "lr_prepared r = lr_prepared s \<Longrightarrow> validate_publish_result r d = validate_publish_result s d"
  by (simp_all add: validate_candidate_def prepared_report_def validate_decision_identity_def validate_publish_result_def Let_def
      split: publish_decision.split)

lemma memory_step_run:
  assumes "bt_ok (ma_records w)" "bt_get (ma_records w) (key_from_assignment a) = Some r"
    "lr_key r = key_from_assignment a" "lr_assignment r = a" "lr_request_digest r = as_request_digest a"
    "lr_state r = ex" "unat (lr_revision r) < 100" "keeps_identity upd"
  shows "persist_transition (memory_agent_ports uni jcs blake3 message) r ex target now upd w =
    (Inr (upd (advance r target now)),
     w \<lparr> ma_records := bt_insert (key_from_assignment a) (upd (advance r target now)) (ma_records w) \<rparr>)"
proof -
  have "checked_add (lr_revision r) 1 \<noteq> None" using assms(7) by (simp add: checked_add_def)
  then show ?thesis
    using memory_transition_run [of w r ex upd uni jcs blake3 message target now] assms by (simp add: key_consistent_def)
qed

section \<open>The run\<close>

text \<open>Adapters that will do what the agent asks for this assignment.\<close>

definition willing :: "'x memory_agent \<Rightarrow> add_assignment \<Rightarrow> prepared_add \<Rightarrow> transfer_receipt \<Rightarrow> bool" where
  "willing w a p receipt \<longleftrightarrow>
     bt_ok (ma_records w) \<and> ma_failures w = [] \<and> bt_get (ma_staged_receipts w) (key_from_assignment a) = None
     \<and> (\<exists>rest. ma_executor_results w = Inr p # rest) \<and> (\<exists>rest. ma_transfer_results w = Inr receipt # rest)
     \<and> (\<exists>rest. ma_staging_results w = Inr () # rest) \<and> (\<exists>rest. ma_finalize_results w = Inr () # rest)"

lemma memory_report_prepared_run:
  fixes w :: "'x memory_agent"
  assumes ok: "bt_ok (ma_records w)" "ma_failures w = []" "bt_get (ma_staged_receipts w) (key_from_assignment a) = None"
    and staging: "ma_staging_results w = Inr () # rest"
    and r: "bt_get (ma_records w) (key_from_assignment a) = Some (prepared_record a (ma_now w) px)"
    and v: "basic_validate uni jcs blake3 a (ma_now w) = Inr ()" "transfer_receipt_validate jcs blake3 (px_transfer px) a = Inr ()"
    and rep: "prepared_report uni jcs blake3 (prepared_record a (ma_now w) px) px = Inr report"
  shows "\<exists>w'. report_prepared uni jcs blake3 (memory_agent_ports uni jcs blake3 message) (prepared_record a (ma_now w) px) w =
      (Inr (awaiting_record a (ma_now w) px), w')
    \<and> ma_records w' = bt_insert (key_from_assignment a) (awaiting_record a (ma_now w) px) (ma_records w)
    \<and> ma_reports w' = ma_reports w @ [ReportPrepared report] \<and> ma_failures w' = [] \<and> ma_now w' = ma_now w
    \<and> ma_finalize_results w' = ma_finalize_results w \<and> ma_finalizations w' = ma_finalizations w"
proof -
  let ?P = "memory_agent_ports uni jcs blake3 message" and ?r = "prepared_record a (ma_now w) px"
  let ?w1 = "w \<lparr> ma_reports := ma_reports w @ [ReportPrepared report] \<rparr>"
  obtain w2 where stage: "fake_stage_metadata jcs blake3 a (px_transfer px) ?w1 = (Inr (), w2)"
    and w2: "ma_records w2 = ma_records w" "ma_reports w2 = ma_reports ?w1" "ma_failures w2 = []" "ma_now w2 = ma_now w"
      "ma_finalize_results w2 = ma_finalize_results w" "ma_finalizations w2 = ma_finalizations w"
    using v(2) staging ok by (simp add: fake_stage_metadata_def scripted_def Let_def)
  have step: "persist_transition ?P ?r Prepared AwaitingDecision (ma_now w) id w2 =
      (Inr (awaiting_record a (ma_now w) px),
       w2 \<lparr> ma_records := bt_insert (key_from_assignment a) (awaiting_record a (ma_now w) px) (ma_records w) \<rparr>)"
    using memory_step_run [of w2 a ?r Prepared id uni jcs blake3 message AwaitingDecision "ma_now w"] ok r w2
    by (simp add: awaiting_record_def)
  have "validate_active_assignment ?P ?r w = (Inr (ma_now w), w)"
    using v(1) by (simp add: validate_active_assignment_def io_then_def memory_ports_run)
  then show ?thesis
    using rep stage step w2 ok(2)
    by (simp add: report_prepared_def io_else_def io_then_def memory_ports_run)
qed

lemma memory_execute_run:
  fixes w :: "'x memory_agent"
  assumes w: "willing w a p receipt"
    and r: "bt_get (ma_records w) (key_from_assignment a) = Some (accepted_record a (ma_now w))"
    and v: "basic_validate uni jcs blake3 a (ma_now w) = Inr ()"
    and c: "validate_candidate uni blake3 (accepted_record a (ma_now w)) p = Inr ()"
    and t: "transfer_receipt_validate_for uni jcs blake3 receipt a p = Inr ()"
    and rep: "prepared_report uni jcs blake3 (accepted_record a (ma_now w)) \<lparr> px_candidate = p, px_transfer = receipt \<rparr> = Inr report"
  shows "\<exists>w'. execute uni jcs blake3 (memory_agent_ports uni jcs blake3 message) (key_from_assignment a) w =
      (Inr (awaiting_record a (ma_now w) \<lparr> px_candidate = p, px_transfer = receipt \<rparr>), w')
    \<and> ma_records w' = bt_insert (key_from_assignment a)
        (awaiting_record a (ma_now w) \<lparr> px_candidate = p, px_transfer = receipt \<rparr>) (ma_records w)
    \<and> ma_reports w' = ma_reports w @ [ReportProgress (running_report (running_record a (ma_now w))), ReportPrepared report]
    \<and> ma_failures w' = [] \<and> ma_now w' = ma_now w
    \<and> ma_finalize_results w' = ma_finalize_results w \<and> ma_finalizations w' = ma_finalizations w"
proof -
  let ?P = "memory_agent_ports uni jcs blake3 message" and ?k = "key_from_assignment a" and ?t = "ma_now w"
  let ?px = "\<lparr> px_candidate = p, px_transfer = receipt \<rparr>"
  let ?w1 = "w \<lparr> ma_records := bt_insert ?k (running_record a ?t) (ma_records w) \<rparr>"
  have ok: "bt_ok (ma_records w)" "ma_failures w = []" "bt_get (ma_staged_receipts w) ?k = None" using w by (simp_all add: willing_def)
  obtain es ts ss where scripts: "ma_executor_results w = Inr p # es" "ma_transfer_results w = Inr receipt # ts"
    "ma_staging_results w = Inr () # ss" using w by (auto simp: willing_def)
  have start: "persist_transition ?P (accepted_record a ?t) Accepted Running ?t (\<lambda>nxt. nxt \<lparr> lr_failure := None \<rparr>) w =
      (Inr (running_record a ?t), ?w1)"
    using memory_step_run [of w a "accepted_record a ?t" Accepted "\<lambda>nxt. nxt \<lparr> lr_failure := None \<rparr>" uni jcs blake3 message Running ?t] ok r
    by (simp add: running_record_def)
  have active: "validate_active_assignment ?P (accepted_record a ?t) w = (Inr ?t, w)"
    using v by (simp add: validate_active_assignment_def io_then_def memory_ports_run)
  let ?w2 = "?w1 \<lparr> ma_reports := ma_reports w @ [ReportProgress (running_report (running_record a ?t))],
      ma_executor_calls := ma_executor_calls w @ [?k], ma_executor_results := es,
      ma_transfers := ma_transfers w @ [?k], ma_transfer_results := ts \<rparr>"
  let ?w3 = "?w2 \<lparr> ma_records := bt_insert ?k (prepared_record a ?t ?px) (ma_records w) \<rparr>"
  have prepared: "persist_transition ?P (running_record a ?t) Running Prepared ?t (\<lambda>nxt. nxt \<lparr> lr_prepared := Some ?px \<rparr>) ?w2 =
      (Inr (prepared_record a ?t ?px), ?w3)"
    using memory_step_run [of ?w2 a "running_record a ?t" Running "\<lambda>nxt. nxt \<lparr> lr_prepared := Some ?px \<rparr>" uni jcs blake3 message Prepared ?t] ok
    by (simp add: prepared_record_def)
  have tv: "transfer_receipt_validate jcs blake3 receipt a = Inr ()"
    using t by (auto simp: transfer_receipt_validate_for_def)
  obtain w' where w': "report_prepared uni jcs blake3 ?P (prepared_record a ?t ?px) ?w3 = (Inr (awaiting_record a ?t ?px), w')"
    "ma_records w' = bt_insert ?k (awaiting_record a ?t ?px) (ma_records ?w3)" "ma_reports w' = ma_reports ?w3 @ [ReportPrepared report]"
    "ma_failures w' = []" "ma_now w' = ?t" "ma_finalize_results w' = ma_finalize_results w" "ma_finalizations w' = ma_finalizations w"
    using memory_report_prepared_run [of ?w3 a ss ?px uni jcs blake3 report message] ok scripts v tv rep
      run_record_checks(2) [of "prepared_record a ?t ?px" "accepted_record a ?t"] by auto
  have run: "run_assignment uni jcs blake3 ?P (running_record a ?t) ?w1 = (Inr (awaiting_record a ?t ?px), w')"
    using scripts c t prepared w'(1) ok(2) run_record_checks(1) [of "running_record a ?t" "accepted_record a ?t"]
    by (simp add: run_assignment_def io_else_def io_then_def memory_ports_run send_running_def fake_prepare_add_def fake_transfer_def scripted_def)
  have "execute uni jcs blake3 ?P ?k w = (Inr (awaiting_record a ?t ?px), w')"
    using active start run r by (simp add: execute_def io_else_def io_then_def load_required_def memory_ports_run)
  then show ?thesis using w' by simp
qed

text \<open>The decision that publishes the candidate of an assignment.\<close>

definition publishes :: "add_assignment \<Rightarrow> prepared_add \<Rightarrow> job_decision \<Rightarrow> bool" where
  "publishes a p d \<longleftrightarrow>
     jd_job_id d = as_job_id a \<and> jd_assignment_id d = as_assignment_id a
     \<and> jd_assignment_generation d = as_assignment_generation a \<and> job_decision_validate d = Inr ()
     \<and> (\<exists>v ext. jd_decision d = DecPublish v ext \<and> wv_digest v = dl_result_digest (pd_index_delta p)
          \<and> checked_add (iv_revision (pd_base_index_version p)) 1 = Some (wv_revision v))"

lemma memory_decision_run:
  fixes w :: "'x memory_agent"
  assumes ok: "bt_ok (ma_records w)" "ma_failures w = []" and fin: "ma_finalize_results w = Inr () # rest"
    and r: "bt_get (ma_records w) (key_from_assignment a) = Some (awaiting_record a (ma_now w) px)"
    and c: "validate_candidate uni blake3 (accepted_record a (ma_now w)) (px_candidate px) = Inr ()"
    and d: "publishes a (px_candidate px) d"
  shows "\<exists>w'. handle_decision uni jcs blake3 (memory_agent_ports uni jcs blake3 message) (as_tenant_id a) d w =
      (Inr (completed_record a (ma_now w) px d), w')
    \<and> ma_records w' = bt_insert (key_from_assignment a) (completed_record a (ma_now w) px d) (ma_records w)
    \<and> ma_reports w' = ma_reports w @ [ReportFinalized (finalized_of (awaiting_record a (ma_now w) px) d (ma_now w))]
    \<and> ma_finalizations w' = ma_finalizations w @ [(key_from_assignment a, d)]"
proof -
  let ?P = "memory_agent_ports uni jcs blake3 message" and ?k = "key_from_assignment a" and ?t = "ma_now w"
  let ?a = "awaiting_record a ?t px" and ?f = "finalizing_record a ?t px d" and ?z = "finalized_of (awaiting_record a ?t px) d ?t"
  have key: "AssignmentKey (as_tenant_id a) (jd_job_id d) = ?k" using d by (simp add: publishes_def key_from_assignment_def)
  have identity: "validate_decision_identity r d = Inr ()" if "lr_assignment r = a" for r
    using d that by (simp add: publishes_def validate_decision_identity_def)
  have result: "validate_publish_result r d = Inr ()" if "lr_prepared r = Some px" for r
    using d that by (auto simp: publishes_def validate_publish_result_def)
  have generation: "jd_decision_generation d \<noteq> 0"
    using d by (auto simp: publishes_def job_decision_validate_def validate_positive_def split: if_splits)
  let ?w1 = "w \<lparr> ma_records := bt_insert ?k ?f (ma_records w) \<rparr>"
  have start: "persist_transition ?P ?a AwaitingDecision Finalizing ?t (\<lambda>nxt. nxt \<lparr> lr_decision := Some d, lr_finalized := Some ?z \<rparr>) w =
      (Inr ?f, ?w1)"
    using memory_step_run [of w a ?a AwaitingDecision "\<lambda>nxt. nxt \<lparr> lr_decision := Some d, lr_finalized := Some ?z \<rparr>"
        uni jcs blake3 message Finalizing ?t] ok r
    by (simp add: finalizing_record_def)
  let ?w2 = "?w1 \<lparr> ma_finalizations := ma_finalizations w @ [(?k, d)], ma_finalize_results := rest,
      ma_reports := ma_reports w @ [ReportFinalized ?z] \<rparr>"
  let ?w3 = "?w2 \<lparr> ma_records := bt_insert ?k (completed_record a ?t px d) (ma_records w) \<rparr>"
  have last: "persist_transition ?P ?f Finalizing Completed ?t (\<lambda>nxt. nxt \<lparr> lr_failure := None \<rparr>) ?w2 =
      (Inr (completed_record a ?t px d), ?w3)"
    using memory_step_run [of ?w2 a ?f Finalizing "\<lambda>nxt. nxt \<lparr> lr_failure := None \<rparr>" uni jcs blake3 message Completed ?t] ok
    by (simp add: completed_record_def)
  have "validate_finalized_identity ?f d ?z = Inr ()" by (simp add: validate_finalized_identity_def finalized_of_def Let_def)
  then have ack: "acknowledge ?P ?f d (?w1 \<lparr> ma_finalizations := ma_finalizations w @ [(?k, d)], ma_finalize_results := rest \<rparr>) =
      (Inr (completed_record a ?t px d), ?w3)"
    using last ok(2) by (simp add: acknowledge_def io_then_def memory_ports_run)
  have "finalize uni blake3 ?P ?f ?w1 = (Inr (completed_record a ?t px d), ?w3)"
    using identity [of ?f] result [of ?f] c run_record_checks(1) [of ?f "accepted_record a ?t"] fin ack
    by (simp add: finalize_def io_else_def io_then_def memory_ports_run fake_finalize_def scripted_def)
  then have "handle_decision uni jcs blake3 ?P (as_tenant_id a) d w = (Inr (completed_record a ?t px d), ?w3)"
    using key identity [of ?a] result [of ?a] generation start r
    by (simp add: handle_decision_def Let_def io_then_def load_required_def memory_ports_run may_apply_def)
  then show ?thesis by simp
qed

text \<open>
  C13: An assignment runs to its end.  Take adapters that do not fail, a valid assignment that the ledger does
  not know, a candidate that matches it, the receipt that the object transfer builds for the candidate, with
  distinct receipt identifiers, a canonical JSON writer that does not fail on prepared candidates, and a decision
  that publishes the candidate.  After the assignment and the
  decision are handled, the ledger holds the assignment as completed with this decision, the candidate and the
  receipt; the reports sent are the acceptance, the progress, the prepared candidate and the finalization,
  each once and in this order; and the decision was applied once.
\<close>

theorem assignment_completes:
  fixes w :: "'x memory_agent"
  assumes "willing w a p receipt" and "bt_get (ma_records w) (key_from_assignment a) = None"
    and "basic_validate uni jcs blake3 a (ma_now w) = Inr ()"
    and "validate_candidate uni blake3 (ledger_record_claimed a (ma_now w)) p = Inr ()"
    and "metadata_receipt uni jcs blake3 a p verified_at = Inr receipt"
    and "distinct (map (object_receipt_id jcs blake3 a) (pd_object_specs p))"
    and "\<forall>x. is_ok (jcs (CanonPrepared x))" and "publishes a p d"
    and "w' = agent_run uni jcs blake3 (memory_agent_ports uni jcs blake3 message) [Assigns a, Decides (as_tenant_id a) d] w"
  shows "\<exists>r accepted progress prepared finalized.
      bt_get (ma_records w') (key_from_assignment a) = Some r \<and> lr_state r = Completed \<and> lr_decision r = Some d
      \<and> lr_prepared r = Some \<lparr> px_candidate = p, px_transfer = receipt \<rparr>
      \<and> ma_reports w' = ma_reports w @ [ReportAccepted accepted, ReportProgress progress, ReportPrepared prepared, ReportFinalized finalized]
      \<and> jz_final_state finalized = jd_final_state d
      \<and> ma_finalizations w' = ma_finalizations w @ [(key_from_assignment a, d)]"
proof -
  let ?P = "memory_agent_ports uni jcs blake3 message" and ?k = "key_from_assignment a" and ?t = "ma_now w"
  let ?acc = "accepted_record a ?t" and ?px = "\<lparr> px_candidate = p, px_transfer = receipt \<rparr>"
  have ok: "bt_ok (ma_records w)" "ma_failures w = []" using assms(1) by (simp_all add: willing_def)
  obtain fs where fs: "ma_finalize_results w = Inr () # fs" using assms(1) by (auto simp: willing_def)
  have c: "validate_candidate uni blake3 ?acc p = Inr ()"
    using assms(4) run_record_checks(1) [of ?acc "ledger_record_claimed a ?t"] by simp
  have t: "transfer_receipt_validate_for uni jcs blake3 receipt a p = Inr ()"
    using receipt_reads_back(1) [OF c] assms(5,6) by simp
  obtain report where rep: "prepared_report uni jcs blake3 ?acc ?px = Inr report"
    using prepared_report_ok [of uni jcs blake3 ?acc ?t p verified_at receipt] assms(3,5,6,7) c by auto
  let ?w1 = "w \<lparr> ma_records := bt_insert ?k ?acc (ma_records w), ma_reports := ma_reports w @ [ReportAccepted (accepted_report ?acc ?t)] \<rparr>"
  have accept: "accept_assignment ?P a w = (Inr \<lparr> aa_disposition = DispositionNew, aa_record = ?acc \<rparr>, ?w1)"
    by (rule memory_accept_run [OF ok(1) assms(2,3) ok(2)])
  have "willing ?w1 a p receipt" using assms(1) by (simp add: willing_def)
  then obtain w2 where w2: "execute uni jcs blake3 ?P ?k ?w1 = (Inr (awaiting_record a ?t ?px), w2)"
    "ma_records w2 = bt_insert ?k (awaiting_record a ?t ?px) (ma_records w)"
    "ma_reports w2 = ma_reports ?w1 @ [ReportProgress (running_report (running_record a ?t)), ReportPrepared report]"
    "ma_failures w2 = []" "ma_now w2 = ?t" "ma_finalize_results w2 = Inr () # fs" "ma_finalizations w2 = ma_finalizations w"
    using memory_execute_run [of ?w1 a p receipt uni jcs blake3 report message] ok assms(3) c t rep fs by auto
  have run1: "run_event uni jcs blake3 ?P (Assigns a) w = w2"
    using accept w2(1) by (simp add: handle_assignment_def io_then_def)
  obtain w3 where w3: "handle_decision uni jcs blake3 ?P (as_tenant_id a) d w2 = (Inr (completed_record a ?t ?px d), w3)"
    "ma_records w3 = bt_insert ?k (completed_record a ?t ?px d) (ma_records w2)"
    "ma_reports w3 = ma_reports w2 @ [ReportFinalized (finalized_of (awaiting_record a ?t ?px) d ?t)]"
    "ma_finalizations w3 = ma_finalizations w2 @ [(?k, d)]"
    using memory_decision_run [of w2 fs a ?px uni blake3 d jcs message] w2 ok(1) c assms(8) by auto
  have "w' = w3" using assms(9) run1 w3(1) by (simp add: agent_run_def del: run_event.simps(2))
  moreover have "lr_prepared (completed_record a ?t ?px d) = Some ?px" by (simp add: completed_record_def)
  moreover have "jz_final_state (finalized_of (awaiting_record a ?t ?px) d ?t) = jd_final_state d" by (simp add: finalized_of_def Let_def)
  ultimately show ?thesis using w3 w2 ok(1) by simp
qed

lemma sample_assignment_accepted: "basic_validate ascii_unicode receipt_jcs sum_hash sample_assignment 5 = Inr ()"
proof -
  have f: "task_fence_validate sample_fence = Inr ()" by code_simp
  have p: "validate_path_set ascii_unicode [] = Inr ()" by code_simp
  show ?thesis
    by (simp add: basic_validate_def add_assignment_validate_def sample_assignment_def f validate_positive_def
        add_operation_request_digest_def add_operation_validate_def add_assignment_operation_def validate_collection_limit_def
        p wire_index_version_validate_def sample_wire_version_def validate_extension_keys_def bt_keys_def
        principal_ref_validate_def jcs_blake3_def receipt_jcs_def map_err_def)
qed

definition sample_publish :: job_decision where
  "sample_publish =
     \<lparr> jd_job_id = ResourceId ''j'', jd_task_fence = sample_fence, jd_assignment_id = ResourceId ''as'', jd_assignment_generation = 1,
       jd_decision_generation = 1,
       jd_decision = DecPublish \<lparr> wv_revision = 2, wv_digest = ContentDigest 1, wv_extensions = [] \<rparr> [],
       jd_final_state = JsSucceeded, jd_extensions = [] \<rparr>"

lemma sample_publishes: "publishes sample_assignment file_candidate sample_publish"
proof -
  have "task_fence_validate sample_fence = Inr ()" by code_simp
  then show ?thesis
    by (simp add: publishes_def sample_publish_def sample_assignment_def job_decision_validate_def validate_positive_def
        wire_index_version_validate_def validate_extension_keys_def bt_keys_def file_candidate_fields file_delta_def checked_add_def)
qed

theorem assignment_completes_witness:
  "\<exists>(w :: unit memory_agent) w' r.
      w' = agent_run ascii_unicode receipt_jcs sum_hash (memory_agent_ports ascii_unicode receipt_jcs sum_hash sample_message)
        [Assigns sample_assignment, Decides (as_tenant_id sample_assignment) sample_publish] w
      \<and> ma_records w = [] \<and> bt_get (ma_records w') (key_from_assignment sample_assignment) = Some r \<and> lr_state r = Completed"
proof -
  obtain receipt where receipt: "metadata_receipt ascii_unicode receipt_jcs sum_hash sample_assignment file_candidate
      [(ObjectId (ContentDigest 1), 5), (ObjectId (ContentDigest 2), 5)] = Inr receipt"
    using file_receipt by blast
  let ?w = "sample_agent \<lparr> ma_executor_results := [Inr file_candidate], ma_transfer_results := [Inr receipt],
      ma_staging_results := [Inr ()], ma_finalize_results := [Inr ()] \<rparr>"
  have w: "willing ?w sample_assignment file_candidate receipt" "ma_now ?w = 5" "ma_records ?w = []"
    by (simp_all add: willing_def sample_agent_def)
  have c: "validate_candidate ascii_unicode sum_hash (ledger_record_claimed sample_assignment 5) file_candidate = Inr ()"
    using file_candidate_matches run_record_checks(1) [of "ledger_record_claimed sample_assignment 5" "accepted_record sample_assignment 5"]
    by simp
  have jcs: "\<forall>x. is_ok (receipt_jcs (CanonPrepared x))" by (simp add: receipt_jcs_def)
  let ?w' = "agent_run ascii_unicode receipt_jcs sum_hash (memory_agent_ports ascii_unicode receipt_jcs sum_hash sample_message)
        [Assigns sample_assignment, Decides (as_tenant_id sample_assignment) sample_publish] ?w"
  have "\<exists>r. bt_get (ma_records ?w') (key_from_assignment sample_assignment) = Some r \<and> lr_state r = Completed"
    using assignment_completes [OF w(1) _ _ _ receipt file_receipt_ids_distinct jcs sample_publishes refl, of sample_message]
      w(2,3) c sample_assignment_accepted by auto
  then show ?thesis using w(3) by blast
qed

end
