(* ===== verification/Oversize.thy ===== *)
theory Oversize
  imports Transfers
begin

text \<open>
  A limit of the object transfer: pages are cut by the number of records, while a manifest record holds up to
  4096 chunks and a page may not exceed 8 MiB.
\<close>

definition page_chunks :: "metadata_batch_page \<Rightarrow> nat" where
  "page_chunks p = (case mp_records p of ManifestRecords rs \<Rightarrow> sum_list (map (\<lambda>r. length (mr_chunks r)) rs) | _ \<Rightarrow> 0)"

text \<open>The chunks and the fragments of the manifests of a candidate.\<close>

definition manifest_chunk_total :: "manifest list \<Rightarrow> nat" where
  "manifest_chunk_total ms = sum_list (map (\<lambda>m. length (m_chunks m)) ms)"

definition fragment_total :: "manifest list \<Rightarrow> nat" where
  "fragment_total ms = sum_list (map (\<lambda>m. max 1 ((length (m_chunks m) + 4095) div 4096)) ms)"

lemma fragments_counts:
  assumes "manifest_fragments blake3 m = Inr frs"
  shows "sum_list (map (\<lambda>r. length (mr_chunks r)) frs) = length (m_chunks m)"
    "length frs = max 1 ((length (m_chunks m) + 4095) div 4096)"
proof -
  have "sum_list (map (\<lambda>r. length (mr_chunks r)) frs) = length (m_chunks m) \<and> length frs = max 1 ((length (m_chunks m) + 4095) div 4096)"
  proof (cases "m_chunks m = []")
    case True
    then show ?thesis using assms by (auto simp: manifest_fragments_def)
  next
    case False
    let ?css = "chunks_of MAX_RECORDS_PER_PAGE (m_chunks m)"
    obtain i where "list_all2 (\<lambda>nc r. manifest_fragment i m nc = Inr r) (enumerate 0 ?css) frs"
      using assms False by (auto simp: manifest_fragments_def try_map_iff)
    then have "list_all2 (\<lambda>nc r. length (mr_chunks r) = length (snd nc)) (enumerate 0 ?css) frs"
      by (rule list_all2_mono) (auto simp: manifest_fragment_def split: prod.splits)
    then have "map (\<lambda>r. length (mr_chunks r)) frs = map (\<lambda>nc. length (snd nc)) (enumerate 0 ?css)"
      by (induction rule: list_all2_induct) auto
    then have lens: "map (\<lambda>r. length (mr_chunks r)) frs = map length ?css"
      by (metis (no_types, lifting) map_map comp_def map_snd_enumerate map_cong)
    then have "sum_list (map (\<lambda>r. length (mr_chunks r)) frs) = length (concat ?css)" by (simp add: length_concat)
    moreover have "length frs = length ?css" using lens by (metis length_map)
    moreover have "1 \<le> (length (m_chunks m) + 4095) div 4096"
      using div_le_mono [of 4096 "length (m_chunks m) + 4095" 4096] False by (simp add: Suc_le_eq)
    ultimately show ?thesis
      by (simp add: concat_chunks_of length_chunks_of MAX_RECORDS_PER_PAGE_def max_def)
  qed
  then show "sum_list (map (\<lambda>r. length (mr_chunks r)) frs) = length (m_chunks m)"
    "length frs = max 1 ((length (m_chunks m) + 4095) div 4096)" by simp_all
qed

lemma all_fragments_counts:
  assumes "list_all2 (\<lambda>m frs. manifest_fragments blake3 m = Inr frs) ms frss"
  shows "sum_list (map (\<lambda>r. length (mr_chunks r)) (concat frss)) = manifest_chunk_total ms" "length (concat frss) = fragment_total ms"
  using assms
  by (induction rule: list_all2_induct)
     (simp_all add: manifest_chunk_total_def fragment_total_def fragments_counts)

text \<open>
  C40: The object transfer cannot describe every candidate it may get.  A page encodes at least the 64 hexadecimal
  digits of every chunk's object.  When the manifests of a candidate have more than 131072 chunks and their
  fragments fit into one page by count, no receipt can be built, for any assignment and any verification times:
  pages are cut by the number of records only, and the page that holds all fragments exceeds 8 MiB.
\<close>

theorem oversized_manifests_have_no_receipt:
  assumes "\<forall>page enc. jcs (CanonPage page) = Inr enc \<longrightarrow> 64 * page_chunks page \<le> length enc"
    and "131072 < manifest_chunk_total (pd_manifests p)" and "fragment_total (pd_manifests p) \<le> MAX_RECORDS_PER_PAGE"
  shows "metadata_receipt uni jcs blake3 a p verified_at \<noteq> Inr receipt"
proof
  assume "metadata_receipt uni jcs blake3 a p verified_at = Inr receipt"
  then obtain mid frss mps
    where frss: "list_all2 (\<lambda>m frs. manifest_fragments blake3 m = Inr frs) (pd_manifests p) frss"
      and m: "batch_pages jcs blake3 mid (assignment_batch_scope a) ManifestRecords (page_parts (concat frss)) mps"
    by (rule receipt_parts)
  note counts = all_fragments_counts [OF frss]
  have "length (concat frss) \<le> MAX_RECORDS_PER_PAGE" using counts(2) assms(3) by simp
  then have "page_parts (concat frss) = [concat frss]"
    by (auto simp: page_parts_def) (subst chunks_of.simps, auto simp: MAX_RECORDS_PER_PAGE_def)
  then have "mp_records (mps ! 0) = ManifestRecords (concat frss)" and v: "metadata_page_validate jcs blake3 (mps ! 0) = Inr ()"
    using m by (auto simp: batch_pages_def)
  then have chunks: "page_chunks (mps ! 0) = manifest_chunk_total (pd_manifests p)" using counts(1) by (simp add: page_chunks_def)
  obtain enc where "jcs (CanonPage (mps ! 0)) = Inr enc" "length enc \<le> MAX_METADATA_PAGE_BYTES"
    using v by (auto simp: metadata_page_validate_def split: if_splits)
  then have "64 * manifest_chunk_total (pd_manifests p) \<le> MAX_METADATA_PAGE_BYTES"
    using assms(1) chunks by (metis le_trans)
  with assms(2) show False by (simp add: MAX_METADATA_PAGE_BYTES_def)
qed

definition big_manifest :: manifest where
  "big_manifest = \<lparr> m_total_size = 135168, m_chunking = FastCdc,
     m_chunks = map (\<lambda>i. sample_chunk 1 (of_nat i) 1) [0..<135168] \<rparr>"

definition dense_jcs :: jcs where
  "dense_jcs v = (case v of CanonPage page \<Rightarrow> Inr (replicate (64 * page_chunks page) 0) | _ \<Rightarrow> Inr [1])"

lemma big_tiles: "k \<le> n \<Longrightarrow> n < 2 ^ 64 \<Longrightarrow> tiles k (map (\<lambda>i. sample_chunk 1 (of_nat i) 1) [k..<n]) n"
proof (induction "n - k" arbitrary: k)
  case (Suc d)
  then have k: "k < n" by simp
  have "unat (of_nat k :: u64) = k" using k Suc.prems(2) by (simp only: fits_word [symmetric]) simp
  then show ?case using Suc.hyps(1) [of "Suc k"] Suc.hyps(2) Suc.prems k by (simp add: upt_conv_Cons sample_chunk_def)
qed simp

theorem oversized_manifests_have_no_receipt_witness:
  "manifest_validate big_manifest = Inr ()
   \<and> \<not> is_ok (metadata_receipt ascii_unicode dense_jcs sum_hash sample_assignment (sample_candidate \<lparr> pd_manifests := [big_manifest] \<rparr>) [])"
proof -
  have "manifest_validate big_manifest = Inr ()"
    using big_tiles [of 0 135168] by (simp add: manifest_validate_iff big_manifest_def whole_file_ok_def)
  moreover have "length (m_chunks big_manifest) = 135168" by (simp add: big_manifest_def)
  ultimately show ?thesis
    using oversized_manifests_have_no_receipt [of dense_jcs "sample_candidate \<lparr> pd_manifests := [big_manifest] \<rparr>"]
    by (auto simp: is_ok_iff manifest_chunk_total_def fragment_total_def MAX_RECORDS_PER_PAGE_def dense_jcs_def)
qed

end
