(* ===== verification/CentralState.thy ===== *)
theory CentralState
  imports Control WirePublication
begin

text \<open>
  The records of the central authority for managed adds (\<open>neoengram-central/src/model.rs\<close>, \<open>authority_error.rs\<close> and
  the outcome types of \<open>ports.rs\<close>): job specifications and job records, assignment targets, staged metadata batches,
  placement evidence and index publications.
\<close>

section \<open>Errors\<close>

text \<open>An error is its code; the text for operators is not part of the model.\<close>

datatype central_error_code =
    CcUnauthorized | CcEnrollmentNotFound | CcEnrollmentIdReused | CcEnrollmentExpired | CcEnrollmentDecisionConflict
  | CcEnrollmentProbeFailed | CcBootstrapDenied | CcApprovalRequired | CcAgentIdentityMismatch | CcAgentSessionActive
  | CcVolumeOwnerConflict | CcGatewayPoolNotFound | CcGatewayReplicaNotFound | CcGatewayIdentityConflict
  | CcGatewayRouteUnavailable | CcGatewayRouteFenced | CcArtifactNotFound | CcStorageVolumeNotFound | CcResourceNotFound
  | CcArtifactHeadMismatch | CcStorageVolumeNotReady | CcSnapshotDeliveryUnavailable | CcSnapshotDeliveryUnsupported
  | CcStorageVolumeRegionMismatch | CcJobNotFound | CcJobAlreadyExists | CcJobIdReused | CcReplicationAlreadyActive
  | CcReplicationRetryRequestReused | CcInvalidState | CcAssignmentMismatch | CcGenerationMismatch | CcDeadlineExceeded
  | CcProtocolInvalid | CcBatchUndeclared | CcBatchIncomplete | CcBatchTampered | CcObjectNotDurable | CcMetadataInvalid
  | CcConcurrentUpdate | CcStorageFailure | CcInternal

type_synonym 'a central_result = "central_error_code + 'a"

type_synonym ('w, 'a) central_io = "(central_error_code, 'w, 'a) io"

primrec central_as_str :: "central_error_code \<Rightarrow> string" where
  "central_as_str CcUnauthorized = ''AUTHORIZATION_DENIED''"
| "central_as_str CcEnrollmentNotFound = ''AGENT_ENROLLMENT_NOT_FOUND''"
| "central_as_str CcEnrollmentIdReused = ''AGENT_ENROLLMENT_ID_REUSED''"
| "central_as_str CcEnrollmentExpired = ''AGENT_ENROLLMENT_EXPIRED''"
| "central_as_str CcEnrollmentDecisionConflict = ''AGENT_ENROLLMENT_DECISION_CONFLICT''"
| "central_as_str CcEnrollmentProbeFailed = ''AGENT_ENROLLMENT_PROBE_FAILED''"
| "central_as_str CcBootstrapDenied = ''AGENT_BOOTSTRAP_DENIED''"
| "central_as_str CcApprovalRequired = ''AGENT_APPROVAL_REQUIRED''"
| "central_as_str CcAgentIdentityMismatch = ''AGENT_IDENTITY_MISMATCH''"
| "central_as_str CcAgentSessionActive = ''AGENT_SESSION_ACTIVE''"
| "central_as_str CcVolumeOwnerConflict = ''VOLUME_OWNER_CONFLICT''"
| "central_as_str CcGatewayPoolNotFound = ''GATEWAY_POOL_NOT_FOUND''"
| "central_as_str CcGatewayReplicaNotFound = ''GATEWAY_REPLICA_NOT_FOUND''"
| "central_as_str CcGatewayIdentityConflict = ''GATEWAY_IDENTITY_CONFLICT''"
| "central_as_str CcGatewayRouteUnavailable = ''GATEWAY_ROUTE_UNAVAILABLE''"
| "central_as_str CcGatewayRouteFenced = ''GATEWAY_ROUTE_FENCED''"
| "central_as_str CcArtifactNotFound = ''ARTIFACT_NOT_FOUND''"
| "central_as_str CcStorageVolumeNotFound = ''STORAGE_VOLUME_NOT_FOUND''"
| "central_as_str CcResourceNotFound = ''RESOURCE_NOT_FOUND''"
| "central_as_str CcArtifactHeadMismatch = ''ARTIFACT_HEAD_MISMATCH''"
| "central_as_str CcStorageVolumeNotReady = ''STORAGE_VOLUME_NOT_READY''"
| "central_as_str CcSnapshotDeliveryUnavailable = ''SNAPSHOT_DELIVERY_UNAVAILABLE''"
| "central_as_str CcSnapshotDeliveryUnsupported = ''SNAPSHOT_DELIVERY_UNSUPPORTED''"
| "central_as_str CcStorageVolumeRegionMismatch = ''STORAGE_VOLUME_REGION_MISMATCH''"
| "central_as_str CcJobNotFound = ''JOB_NOT_FOUND''"
| "central_as_str CcJobAlreadyExists = ''JOB_ALREADY_EXISTS''"
| "central_as_str CcJobIdReused = ''JOB_ID_REUSED''"
| "central_as_str CcReplicationAlreadyActive = ''REPLICATION_ALREADY_ACTIVE''"
| "central_as_str CcReplicationRetryRequestReused = ''REPLICATION_RETRY_REQUEST_ID_REUSED''"
| "central_as_str CcInvalidState = ''JOB_INVALID_STATE''"
| "central_as_str CcAssignmentMismatch = ''ASSIGNMENT_MISMATCH''"
| "central_as_str CcGenerationMismatch = ''GENERATION_MISMATCH''"
| "central_as_str CcDeadlineExceeded = ''JOB_DEADLINE_EXCEEDED''"
| "central_as_str CcProtocolInvalid = ''PROTOCOL_INVALID''"
| "central_as_str CcBatchUndeclared = ''METADATA_BATCH_UNDECLARED''"
| "central_as_str CcBatchIncomplete = ''METADATA_BATCH_INCOMPLETE''"
| "central_as_str CcBatchTampered = ''METADATA_BATCH_TAMPERED''"
| "central_as_str CcObjectNotDurable = ''OBJECT_NOT_DURABLE''"
| "central_as_str CcMetadataInvalid = ''METADATA_INVALID''"
| "central_as_str CcConcurrentUpdate = ''CONCURRENT_UPDATE''"
| "central_as_str CcStorageFailure = ''STORAGE_FAILURE''"
| "central_as_str CcInternal = ''INTERNAL''"

definition central_retryable :: "central_error_code \<Rightarrow> bool" where
  "central_retryable code \<longleftrightarrow>
     code \<in> {CcConcurrentUpdate, CcGatewayRouteUnavailable, CcSnapshotDeliveryUnavailable, CcStorageFailure, CcInternal}"

definition central_of_protocol_error :: "protocol_error \<Rightarrow> central_error_code" where
  "central_of_protocol_error e =
     (if protocol_stable_code e = ''PROTOCOL_DIGEST_MISMATCH'' then CcBatchTampered else CcProtocolInvalid)"

definition central_of_protocol :: "'a protocol_result \<Rightarrow> 'a central_result" where
  "central_of_protocol r = map_err central_of_protocol_error r"

section \<open>Jobs\<close>

record add_job_spec =
  sp_job_id :: resource_id
  sp_principal :: principal_ref
  sp_tenant_id :: resource_id
  sp_project_id :: resource_id
  sp_artifact_id :: resource_id
  sp_workspace_id :: resource_id
  sp_expected_index_version :: wire_index_version
  sp_data_layout :: commit_data_layout
  sp_request_digest :: content_digest
  sp_deadline_unix_ms :: u64
  sp_paths :: "logical_path list"
  sp_all :: bool
  sp_operation_task_id :: "resource_id option"
  sp_extensions :: extensions

definition spec_operation :: "add_job_spec \<Rightarrow> add_operation" where
  "spec_operation s =
     \<lparr> ao_job_id = sp_job_id s, ao_principal = sp_principal s, ao_tenant_id = sp_tenant_id s, ao_project_id = sp_project_id s,
       ao_artifact_id = sp_artifact_id s, ao_workspace_id = sp_workspace_id s,
       ao_expected_index_version = sp_expected_index_version s, ao_data_layout = sp_data_layout s,
       ao_deadline_unix_ms = sp_deadline_unix_ms s, ao_paths = sp_paths s, ao_all = sp_all s, ao_extensions = sp_extensions s \<rparr>"

definition spec_computed_request_digest ::
  "unicode \<Rightarrow> jcs \<Rightarrow> (byte list \<Rightarrow> content_digest) \<Rightarrow> add_job_spec \<Rightarrow> content_digest protocol_result" where
  "spec_computed_request_digest uni jcs blake3 s = add_operation_request_digest uni jcs blake3 (spec_operation s)"

datatype job_key = JobKey (jk_tenant_id: resource_id) (jk_job_id: resource_id)

instantiation job_key :: linorder
begin

definition less_eq_job_key :: "job_key \<Rightarrow> job_key \<Rightarrow> bool" where
  "less_eq_job_key a b \<longleftrightarrow> (jk_tenant_id a, jk_job_id a) \<le> (jk_tenant_id b, jk_job_id b)"

definition less_job_key :: "job_key \<Rightarrow> job_key \<Rightarrow> bool" where
  "less_job_key a b \<longleftrightarrow> (jk_tenant_id a, jk_job_id a) < (jk_tenant_id b, jk_job_id b)"

instance
proof
  fix x y z :: job_key
  show "(x < y) = (x \<le> y \<and> \<not> y \<le> x)" by (auto simp: less_eq_job_key_def less_job_key_def)
  show "x \<le> x" by (simp add: less_eq_job_key_def)
  show "x \<le> y \<Longrightarrow> y \<le> z \<Longrightarrow> x \<le> z" unfolding less_eq_job_key_def by (rule order_trans)
  show "x \<le> y \<Longrightarrow> y \<le> x \<Longrightarrow> x = y" by (cases x; cases y) (auto simp: less_eq_job_key_def)
  show "x \<le> y \<or> y \<le> x" unfolding less_eq_job_key_def by (rule linear)
qed

end

datatype index_key =
  IndexKey (ik_tenant_id: resource_id) (ik_project_id: resource_id) (ik_artifact_id: resource_id) (ik_workspace_id: resource_id)

instantiation index_key :: linorder
begin

definition less_eq_index_key :: "index_key \<Rightarrow> index_key \<Rightarrow> bool" where
  "less_eq_index_key a b \<longleftrightarrow>
     (ik_tenant_id a, ik_project_id a, ik_artifact_id a, ik_workspace_id a)
     \<le> (ik_tenant_id b, ik_project_id b, ik_artifact_id b, ik_workspace_id b)"

definition less_index_key :: "index_key \<Rightarrow> index_key \<Rightarrow> bool" where
  "less_index_key a b \<longleftrightarrow>
     (ik_tenant_id a, ik_project_id a, ik_artifact_id a, ik_workspace_id a)
     < (ik_tenant_id b, ik_project_id b, ik_artifact_id b, ik_workspace_id b)"

instance
proof
  fix x y z :: index_key
  show "(x < y) = (x \<le> y \<and> \<not> y \<le> x)" by (auto simp: less_eq_index_key_def less_index_key_def)
  show "x \<le> x" by (simp add: less_eq_index_key_def)
  show "x \<le> y \<Longrightarrow> y \<le> z \<Longrightarrow> x \<le> z" unfolding less_eq_index_key_def by (rule order_trans)
  show "x \<le> y \<Longrightarrow> y \<le> x \<Longrightarrow> x = y" by (cases x; cases y) (auto simp: less_eq_index_key_def)
  show "x \<le> y \<or> y \<le> x" unfolding less_eq_index_key_def by (rule linear)
qed

end

record assignment_target =
  at_assignment_id :: resource_id
  at_assignment_generation :: u64
  at_agent_id :: resource_id
  at_edge_cluster_id :: resource_id
  at_storage_volume_id :: resource_id
  at_artifact_placement_id :: resource_id
  at_placement_generation :: u64
  at_agent_mount_id :: resource_id
  at_mount_generation :: u64
  at_owner_generation :: u64
  at_max_whole_file_bytes :: u64
  at_lease :: "lease_grant option"

record publication_candidate =
  pc_expected_index_version :: wire_index_version
  pc_result_index_digest :: content_digest
  pc_publication_digest :: content_digest
  pc_manifests :: "manifest list"
  pc_mutations :: "index_delta_record list"

datatype job_operation = OperationAdd | OperationWorkspaceMaterialize | OperationSnapshotDelivery

text \<open>
  A job record.  Specification and assignment of the two other operations are the type \<open>'o\<close>: the add path
  neither reads nor writes them.
\<close>

record 'o job_record =
  jb_spec :: add_job_spec
  jb_operation :: job_operation
  jb_other :: "'o option"
  jb_state :: job_state
  jb_resource_version :: u64
  jb_assignment :: "add_assignment option"
  jb_accepted :: "job_accepted option"
  jb_progress :: "job_progress option"
  jb_prepared :: "job_prepared option"
  jb_publication_candidate :: "publication_candidate option"
  jb_decision :: "job_decision option"
  jb_finalized :: "job_finalized option"
  jb_finalized_ack :: "job_finalized option"
  jb_failure :: "job_failed option"

definition job_record_key :: "'o job_record \<Rightarrow> job_key" where
  "job_record_key j = JobKey (sp_tenant_id (jb_spec j)) (sp_job_id (jb_spec j))"

definition job_index_key :: "'o job_record \<Rightarrow> index_key" where
  "job_index_key j =
     (let s = jb_spec j in IndexKey (sp_tenant_id s) (sp_project_id s) (sp_artifact_id s) (sp_workspace_id s))"

datatype 'o job_insert_outcome = JobInserted "'o job_record" | JobExisting "'o job_record"

datatype central_report =
    CentralAccepted job_accepted
  | CentralProgress job_progress
  | CentralPrepared job_prepared
  | CentralFinalized job_finalized
  | CentralFailed job_failed

primrec report_job_id :: "central_report \<Rightarrow> resource_id" where
  "report_job_id (CentralAccepted r) = ja_job_id r"
| "report_job_id (CentralProgress r) = jp_job_id r"
| "report_job_id (CentralPrepared r) = jq_job_id r"
| "report_job_id (CentralFinalized r) = jz_job_id r"
| "report_job_id (CentralFailed r) = jf_job_id r"

section \<open>Staged metadata and evidence\<close>

datatype metadata_batch_submission = SubmitDescriptor metadata_batch_descriptor | SubmitPage metadata_batch_page

primrec submission_batch_id :: "metadata_batch_submission \<Rightarrow> resource_id" where
  "submission_batch_id (SubmitDescriptor d) = bd_batch_id d"
| "submission_batch_id (SubmitPage p) = mp_batch_id p"

record staged_metadata_batch =
  sb_descriptor :: metadata_batch_descriptor
  sb_pages :: "(u32, metadata_batch_page) btree_map"

definition staged_is_complete :: "staged_metadata_batch \<Rightarrow> bool" where
  "staged_is_complete b \<longleftrightarrow> length (sb_pages b) = unat (bd_page_count (sb_descriptor b))"

record object_placement_evidence =
  oe_receipt :: object_receipt_record
  oe_placement_generation :: u64

record validated_metadata =
  vm_manifests :: "manifest list"
  vm_mutations :: "index_delta_record list"
  vm_placements :: "object_receipt_record list"

section \<open>Index publications\<close>

record index_publish_request =
  rq_job_key :: job_key
  rq_index_key :: index_key
  rq_expected_index_version :: wire_index_version
  rq_expected_result_digest :: content_digest
  rq_manifests :: "manifest list"
  rq_mutations :: "index_delta_record list"

record initialize_index_request =
  ri_index_key :: index_key
  ri_version :: wire_index_version
  ri_records :: "file_record list"

text \<open>Why metadata is invalid: what the message of the rejection says.\<close>

datatype publish_problem =
    ProblemManifest validation_error_kind
  | ProblemRepeatedManifest manifest_id
  | ProblemUpsertDiffers manifest_id
  | ProblemNotExactSet
  | ProblemCatalogDiffers manifest_id
  | ProblemUpsert validation_error_kind
  | ProblemIndex validation_error_kind

datatype index_publish_rejection =
    InvalidMetadata publish_problem
  | ResultDigestMismatch content_digest content_digest
  | RevisionExhausted

datatype index_publish_outcome =
    Published wire_index_version
  | PublishConflict wire_index_version
  | PublishRejected index_publish_rejection

definition same_index_version :: "wire_index_version \<Rightarrow> wire_index_version \<Rightarrow> bool" where
  "same_index_version a b \<longleftrightarrow> wv_revision a = wv_revision b \<and> wv_digest a = wv_digest b"

definition wire_of_index_version :: "index_version \<Rightarrow> wire_index_version" where
  "wire_of_index_version v = \<lparr> wv_revision = iv_revision v, wv_digest = iv_digest v, wv_extensions = [] \<rparr>"

end
