(* ===== verification/CentralIndex.thy ===== *)
theory CentralIndex
  imports CentralState
begin

text \<open>
  The index publisher of the central authority (\<open>InMemoryIndexPublisher\<close> of \<open>neoengram-central/src/memory.rs\<close>).  It
  holds one index per workspace, a catalog of manifests per artifact and, for every job, the publication the job asked
  for with its outcome.  \<open>compare_and_swap\<close> publishes a delta against an expected version.

  The lemmas describe every branch.  The section on histories shows that any interleaving of publications leaves each
  index as the fold of the publications that took effect, one revision per publication, and that every record of every
  index has its manifest in the catalog.
\<close>

section \<open>State\<close>

record index_snapshot =
  ix_version :: wire_index_version
  ix_records :: "(logical_path, file_record) btree_map"

record publisher_state =
  pb_indexes :: "(index_key, index_snapshot) btree_map"
  pb_manifests :: "(resource_id \<times> resource_id \<times> manifest_id, manifest) btree_map"
  pb_publications :: "(job_key, index_publish_request \<times> index_publish_outcome) btree_map"

record published_index =
  pi_version :: wire_index_version
  pi_records :: "file_record list"

definition publisher_new :: publisher_state where
  "publisher_new = \<lparr> pb_indexes = [], pb_manifests = [], pb_publications = [] \<rparr>"

definition empty_snapshot :: "unicode \<Rightarrow> (byte list \<Rightarrow> content_digest) \<Rightarrow> index_snapshot central_result" where
  "empty_snapshot uni blake3 =
     and_then (map_err (\<lambda>_. CcInternal) (index_version_from_snapshot uni blake3 0 [])) (\<lambda>v.
       Inr \<lparr> ix_version = wire_of_index_version v, ix_records = [] \<rparr>)"

definition current_snapshot ::
  "unicode \<Rightarrow> (byte list \<Rightarrow> content_digest) \<Rightarrow> publisher_state \<Rightarrow> index_key \<Rightarrow> index_snapshot central_result" where
  "current_snapshot uni blake3 st key =
     and_then (empty_snapshot uni blake3) (\<lambda>empty. Inr (case bt_get (pb_indexes st) key of Some s \<Rightarrow> s | None \<Rightarrow> empty))"

section \<open>Reads and initialisation\<close>

definition records_by_path :: "file_record list \<Rightarrow> (logical_path, file_record) btree_map" where
  "records_by_path rs = bt_collect (map (\<lambda>r. (fr_path r, r)) rs)"

definition publisher_seed ::
  "unicode \<Rightarrow> (byte list \<Rightarrow> content_digest) \<Rightarrow> index_key \<Rightarrow> u64 \<Rightarrow> file_record list
   \<Rightarrow> (publisher_state, wire_index_version) central_io" where
  "publisher_seed uni blake3 key revision records st =
     (case map_err (\<lambda>_. CcMetadataInvalid) (index_version_from_snapshot uni blake3 revision records) of
        Inl e \<Rightarrow> (Inl e, st)
      | Inr v \<Rightarrow>
          (let version = wire_of_index_version v in
           (Inr version,
            st \<lparr> pb_indexes := bt_insert key \<lparr> ix_version = version, ix_records = records_by_path records \<rparr> (pb_indexes st) \<rparr>)))"

definition publisher_snapshot ::
  "unicode \<Rightarrow> (byte list \<Rightarrow> content_digest) \<Rightarrow> index_key \<Rightarrow> publisher_state \<Rightarrow> published_index central_result" where
  "publisher_snapshot uni blake3 key st =
     and_then (current_snapshot uni blake3 st key) (\<lambda>s.
       Inr \<lparr> pi_version = ix_version s, pi_records = bt_values (ix_records s) \<rparr>)"

definition publisher_current_version ::
  "unicode \<Rightarrow> (byte list \<Rightarrow> content_digest) \<Rightarrow> index_key \<Rightarrow> publisher_state \<Rightarrow> wire_index_version central_result" where
  "publisher_current_version uni blake3 key st =
     and_then (empty_snapshot uni blake3) (\<lambda>empty.
       Inr (case bt_get (pb_indexes st) key of Some s \<Rightarrow> ix_version s | None \<Rightarrow> ix_version empty))"

definition publisher_manifest ::
  "resource_id \<Rightarrow> resource_id \<Rightarrow> manifest_id \<Rightarrow> publisher_state \<Rightarrow> manifest option" where
  "publisher_manifest tenant_id artifact_id mid st = bt_get (pb_manifests st) (tenant_id, artifact_id, mid)"

definition validate_initial_index_snapshot ::
  "unicode \<Rightarrow> (byte list \<Rightarrow> content_digest) \<Rightarrow> wire_index_version \<Rightarrow> file_record list \<Rightarrow> unit central_result" where
  "validate_initial_index_snapshot uni blake3 version records =
     and_then (central_of_protocol (wire_index_version_validate version)) (\<lambda>_.
     and_then (map_err (\<lambda>_. CcMetadataInvalid) (index_version_from_snapshot uni blake3 (wv_revision version) records))
       (\<lambda>computed. if iv_digest computed \<noteq> wv_digest version then Inl CcMetadataInvalid else Inr ()))"

definition initialize_snapshot ::
  "unicode \<Rightarrow> (byte list \<Rightarrow> content_digest) \<Rightarrow> initialize_index_request \<Rightarrow> (publisher_state, wire_index_version) central_io" where
  "initialize_snapshot uni blake3 request st =
     (case validate_initial_index_snapshot uni blake3 (ri_version request) (ri_records request) of
        Inl e \<Rightarrow> (Inl e, st)
      | Inr _ \<Rightarrow>
          (let snapshot = \<lparr> ix_version = ri_version request, ix_records = records_by_path (ri_records request) \<rparr> in
           case bt_get (pb_indexes st) (ri_index_key request) of
             Some existing \<Rightarrow>
               (if same_index_version (ix_version existing) (ix_version snapshot) \<and> ix_records existing = ix_records snapshot
                then Inr (ix_version existing) else Inl CcConcurrentUpdate, st)
           | None \<Rightarrow>
               (Inr (ix_version snapshot), st \<lparr> pb_indexes := bt_insert (ri_index_key request) snapshot (pb_indexes st) \<rparr>)))"

section \<open>Compare and swap\<close>

definition publication_manifest ::
  "(byte list \<Rightarrow> content_digest) \<Rightarrow> (manifest_id, manifest) btree_map \<Rightarrow> manifest
   \<Rightarrow> publish_problem + (manifest_id, manifest) btree_map" where
  "publication_manifest blake3 manifests m =
     (case manifest_id blake3 m of
        Inl e \<Rightarrow> Inl (ProblemManifest e)
      | Inr mid \<Rightarrow> if bt_contains manifests mid then Inl (ProblemRepeatedManifest mid) else Inr (bt_insert mid m manifests))"

definition publication_upsert ::
  "(manifest_id, manifest) btree_map \<Rightarrow> manifest_id btree_set \<Rightarrow> index_delta_record \<Rightarrow> publish_problem + manifest_id btree_set" where
  "publication_upsert manifests referenced mut =
     (case mut of
        WireDelete _ _ \<Rightarrow> Inr referenced
      | WireUpsert _ mid total_size chunk_count _ \<Rightarrow>
          (case bt_get manifests mid of
             None \<Rightarrow> Inr (bts_insert mid referenced)
           | Some m \<Rightarrow>
               (case manifest_chunk_count m of
                  Inl e \<Rightarrow> Inl (ProblemManifest e)
                | Inr observed \<Rightarrow>
                    if m_total_size m = total_size \<and> observed = chunk_count then Inr (bts_insert mid referenced)
                    else Inl (ProblemUpsertDiffers mid))))"

definition catalog_conflict ::
  "index_key \<Rightarrow> (resource_id \<times> resource_id \<times> manifest_id, manifest) btree_map \<Rightarrow> unit \<Rightarrow> manifest_id \<times> manifest
   \<Rightarrow> publish_problem + unit" where
  "catalog_conflict key catalog u entry =
     (case entry of (mid, m) \<Rightarrow>
      case bt_get catalog (ik_tenant_id key, ik_artifact_id key, mid) of
        None \<Rightarrow> Inr ()
      | Some existing \<Rightarrow> if existing \<noteq> m then Inl (ProblemCatalogDiffers mid) else Inr ())"

definition apply_delta_record ::
  "(logical_path, file_record) btree_map \<Rightarrow> index_delta_record \<Rightarrow> publish_problem + (logical_path, file_record) btree_map" where
  "apply_delta_record records mut =
     (case mut of
        WireUpsert path mid total_size chunk_count _ \<Rightarrow>
          (case file_record_new path mid total_size chunk_count of
             Inl e \<Rightarrow> Inl (ProblemUpsert e)
           | Inr r \<Rightarrow> Inr (bt_insert path r records))
      | WireDelete path _ \<Rightarrow> Inr (bt_remove path records))"

text \<open>The checks of one publication against the current snapshot: the snapshot and the manifests to publish.\<close>

definition publication_candidate_index ::
  "unicode \<Rightarrow> (byte list \<Rightarrow> content_digest) \<Rightarrow> publisher_state \<Rightarrow> index_snapshot \<Rightarrow> index_publish_request
   \<Rightarrow> index_publish_rejection + index_snapshot \<times> (manifest_id, manifest) btree_map" where
  "publication_candidate_index uni blake3 st current request =
     and_then (map_err InvalidMetadata (try_fold (publication_manifest blake3) [] (rq_manifests request))) (\<lambda>manifests.
     and_then (map_err InvalidMetadata (try_fold (publication_upsert manifests) [] (rq_mutations request))) (\<lambda>referenced.
     and_then (ensure (bt_keys manifests = referenced) (InvalidMetadata ProblemNotExactSet)) (\<lambda>_.
     and_then (map_err InvalidMetadata
       (try_fold (catalog_conflict (rq_index_key request) (pb_manifests st)) () manifests)) (\<lambda>_.
     and_then (map_err InvalidMetadata (try_fold apply_delta_record (ix_records current) (rq_mutations request))) (\<lambda>records.
     and_then (ok_or RevisionExhausted (checked_add (wv_revision (ix_version current)) 1)) (\<lambda>revision.
     and_then (map_err (\<lambda>e. InvalidMetadata (ProblemIndex e))
       (index_version_from_snapshot uni blake3 revision (bt_values records))) (\<lambda>v.
     let version = wire_of_index_version v in
     if wv_digest version \<noteq> rq_expected_result_digest request
     then Inl (ResultDigestMismatch (rq_expected_result_digest request) (wv_digest version))
     else Inr (\<lparr> ix_version = version, ix_records = records \<rparr>, manifests))))))))"

definition publish_manifests ::
  "index_key \<Rightarrow> (manifest_id, manifest) btree_map \<Rightarrow> (resource_id \<times> resource_id \<times> manifest_id, manifest) btree_map
   \<Rightarrow> (resource_id \<times> resource_id \<times> manifest_id, manifest) btree_map" where
  "publish_manifests key manifests catalog =
     fold (\<lambda>(mid, m) cat.
       let k = (ik_tenant_id key, ik_artifact_id key, mid) in if bt_contains cat k then cat else bt_insert k m cat)
     manifests catalog"

definition record_publication :: "index_publish_request \<Rightarrow> index_publish_outcome \<Rightarrow> publisher_state \<Rightarrow> publisher_state" where
  "record_publication request outcome st =
     st \<lparr> pb_publications := bt_insert (rq_job_key request) (request, outcome) (pb_publications st) \<rparr>"

definition compare_and_swap ::
  "unicode \<Rightarrow> (byte list \<Rightarrow> content_digest) \<Rightarrow> index_publish_request \<Rightarrow> (publisher_state, index_publish_outcome) central_io" where
  "compare_and_swap uni blake3 request st =
     (if jk_tenant_id (rq_job_key request) \<noteq> ik_tenant_id (rq_index_key request) then (Inl CcMetadataInvalid, st)
      else case bt_get (pb_publications st) (rq_job_key request) of
        Some (existing_request, outcome) \<Rightarrow>
          (if existing_request = request then Inr outcome else Inl CcJobIdReused, st)
      | None \<Rightarrow>
          (case current_snapshot uni blake3 st (rq_index_key request) of
             Inl e \<Rightarrow> (Inl e, st)
           | Inr current \<Rightarrow>
               if \<not> same_index_version (ix_version current) (rq_expected_index_version request)
               then (let outcome = PublishConflict (ix_version current) in
                     (Inr outcome, record_publication request outcome st))
               else case publication_candidate_index uni blake3 st current request of
                 Inl rejection \<Rightarrow>
                   (let outcome = PublishRejected rejection in (Inr outcome, record_publication request outcome st))
               | Inr (snapshot, manifests) \<Rightarrow>
                   (let outcome = Published (ix_version snapshot) in
                    (Inr outcome,
                     record_publication request outcome
                       (st \<lparr> pb_indexes := bt_insert (rq_index_key request) snapshot (pb_indexes st),
                             pb_manifests := publish_manifests (rq_index_key request) manifests (pb_manifests st) \<rparr>)))))"

section \<open>Branches of a publication\<close>

lemma empty_snapshot_ok [simp]:
  "empty_snapshot uni blake3 =
     Inr \<lparr> ix_version = \<lparr> wv_revision = 0, wv_digest = index_snapshot_hasher_finish blake3 index_snapshot_hasher_new,
                         wv_extensions = [] \<rparr>, ix_records = [] \<rparr>"
  by (simp add: empty_snapshot_def index_version_from_snapshot_def index_snapshot_digest_def wire_of_index_version_def)

lemma current_snapshot_total: "\<exists>s. current_snapshot uni blake3 st key = Inr s"
  by (simp add: current_snapshot_def)

lemma current_snapshot_cong:
  "bt_get (pb_indexes st) key = bt_get (pb_indexes st') key \<Longrightarrow>
     current_snapshot uni blake3 st key = current_snapshot uni blake3 st' key"
  by (simp add: current_snapshot_def)

definition snapshot_of ::
  "unicode \<Rightarrow> (byte list \<Rightarrow> content_digest) \<Rightarrow> publisher_state \<Rightarrow> index_key \<Rightarrow> index_snapshot" where
  "snapshot_of uni blake3 st key = (case current_snapshot uni blake3 st key of Inr s \<Rightarrow> s)"

lemma current_snapshot_eq: "current_snapshot uni blake3 st key = Inr (snapshot_of uni blake3 st key)"
  using current_snapshot_total [of uni blake3 st key] by (auto simp: snapshot_of_def)

lemma publisher_reads:
  "publisher_snapshot uni blake3 key st =
     (let s = snapshot_of uni blake3 st key in Inr \<lparr> pi_version = ix_version s, pi_records = bt_values (ix_records s) \<rparr>)"
  "publisher_current_version uni blake3 key st = Inr (ix_version (snapshot_of uni blake3 st key))"
  by (auto simp: publisher_snapshot_def publisher_current_version_def snapshot_of_def current_snapshot_def
      split: option.splits)

text \<open>What a wire delta means for an index, as a map from paths to records.\<close>

primrec wire_effect :: "index_delta_record \<Rightarrow> (logical_path \<rightharpoonup> file_record) \<Rightarrow> (logical_path \<rightharpoonup> file_record)" where
  "wire_effect (WireUpsert path mid total_size chunk_count ext) m =
     m(path \<mapsto> \<lparr> fr_path = path, fr_manifest_id = mid, fr_total_size = total_size, fr_chunk_count = chunk_count \<rparr>)"
| "wire_effect (WireDelete path ext) m = m(path := None)"

lemma apply_delta_record_effect:
  "bt_ok m \<Longrightarrow> apply_delta_record m mut = Inr m' \<Longrightarrow> bt_ok m' \<and> bt_get m' = wire_effect mut (bt_get m)"
  by (cases mut) (auto simp: apply_delta_record_def file_record_new_def Let_def split: sum.splits)

lemma apply_delta_effect:
  "bt_ok m \<Longrightarrow> try_fold apply_delta_record m muts = Inr m' \<Longrightarrow> bt_ok m' \<and> bt_get m' = fold wire_effect muts (bt_get m)"
  by (induction muts arbitrary: m) (auto dest: apply_delta_record_effect)

lemma publication_candidate_parts:
  assumes "publication_candidate_index uni blake3 st current request = Inr (snapshot, manifests)"
  shows "try_fold (publication_manifest blake3) [] (rq_manifests request) = Inr manifests"
    and "try_fold (publication_upsert manifests) [] (rq_mutations request) = Inr (bt_keys manifests)"
    and "try_fold (catalog_conflict (rq_index_key request) (pb_manifests st)) () manifests = Inr ()"
    and "try_fold apply_delta_record (ix_records current) (rq_mutations request) = Inr (ix_records snapshot)"
    and "unat (wv_revision (ix_version snapshot)) = unat (wv_revision (ix_version current)) + 1"
    and "index_snapshot_digest uni blake3 (bt_values (ix_records snapshot)) = Inr (wv_digest (ix_version snapshot))"
    and "wv_digest (ix_version snapshot) = rq_expected_result_digest request"
  using assms
  by (auto simp: publication_candidate_index_def Let_def err_if_Inr index_version_from_snapshot_def
      wire_of_index_version_def checked_add_eq_Some)

text \<open>The four answers that are recorded, and the two errors, which change nothing.\<close>

lemma compare_and_swap_cases:
  obtains
    (tenants) "jk_tenant_id (rq_job_key request) \<noteq> ik_tenant_id (rq_index_key request)"
      "compare_and_swap uni blake3 request st = (Inl CcMetadataInvalid, st)"
  | (replay) outcome where "jk_tenant_id (rq_job_key request) = ik_tenant_id (rq_index_key request)"
      "bt_get (pb_publications st) (rq_job_key request) = Some (request, outcome)"
      "compare_and_swap uni blake3 request st = (Inr outcome, st)"
  | (reused) request' outcome where "jk_tenant_id (rq_job_key request) = ik_tenant_id (rq_index_key request)"
      "bt_get (pb_publications st) (rq_job_key request) = Some (request', outcome)" "request' \<noteq> request"
      "compare_and_swap uni blake3 request st = (Inl CcJobIdReused, st)"
  | (conflict) "jk_tenant_id (rq_job_key request) = ik_tenant_id (rq_index_key request)"
      "bt_get (pb_publications st) (rq_job_key request) = None"
      "\<not> same_index_version (ix_version (snapshot_of uni blake3 st (rq_index_key request))) (rq_expected_index_version request)"
      "compare_and_swap uni blake3 request st =
         (let outcome = PublishConflict (ix_version (snapshot_of uni blake3 st (rq_index_key request)))
          in (Inr outcome, record_publication request outcome st))"
  | (rejected) rejection where "jk_tenant_id (rq_job_key request) = ik_tenant_id (rq_index_key request)"
      "bt_get (pb_publications st) (rq_job_key request) = None"
      "same_index_version (ix_version (snapshot_of uni blake3 st (rq_index_key request))) (rq_expected_index_version request)"
      "publication_candidate_index uni blake3 st (snapshot_of uni blake3 st (rq_index_key request)) request = Inl rejection"
      "compare_and_swap uni blake3 request st =
         (Inr (PublishRejected rejection), record_publication request (PublishRejected rejection) st)"
  | (published) snapshot manifests where "jk_tenant_id (rq_job_key request) = ik_tenant_id (rq_index_key request)"
      "bt_get (pb_publications st) (rq_job_key request) = None"
      "same_index_version (ix_version (snapshot_of uni blake3 st (rq_index_key request))) (rq_expected_index_version request)"
      "publication_candidate_index uni blake3 st (snapshot_of uni blake3 st (rq_index_key request)) request
         = Inr (snapshot, manifests)"
      "compare_and_swap uni blake3 request st =
         (Inr (Published (ix_version snapshot)),
          record_publication request (Published (ix_version snapshot))
            (st \<lparr> pb_indexes := bt_insert (rq_index_key request) snapshot (pb_indexes st),
                  pb_manifests := publish_manifests (rq_index_key request) manifests (pb_manifests st) \<rparr>))"
proof -
  let ?cas = "compare_and_swap uni blake3 request st"
  show thesis
  proof (cases "jk_tenant_id (rq_job_key request) = ik_tenant_id (rq_index_key request)")
    case False
    then show thesis by (intro tenants) (simp_all add: compare_and_swap_def)
  next
    case True
    show thesis
    proof (cases "bt_get (pb_publications st) (rq_job_key request)")
      case (Some known)
      then show thesis
        using True replay reused by (cases known) (force simp: compare_and_swap_def)
    next
      case None
      show thesis
      proof (cases "same_index_version (ix_version (snapshot_of uni blake3 st (rq_index_key request)))
          (rq_expected_index_version request)")
        case False
        then show thesis
          using True None by (intro conflict) (simp_all add: compare_and_swap_def current_snapshot_eq)
      next
        case same: True
        show thesis
        proof (cases "publication_candidate_index uni blake3 st (snapshot_of uni blake3 st (rq_index_key request)) request")
          case (Inl rejection)
          then show thesis
            using True None same by (intro rejected) (simp_all add: compare_and_swap_def current_snapshot_eq Let_def)
        next
          case (Inr sm)
          then show thesis
            using True None same
            by (cases sm) (intro published, auto simp: compare_and_swap_def current_snapshot_eq Let_def)
        qed
      qed
    qed
  qed
qed

section \<open>Histories of publications\<close>

primrec run_requests :: "('r \<Rightarrow> ('e, 's, 'o) io) \<Rightarrow> 'r list \<Rightarrow> 's \<Rightarrow> 's" where
  "run_requests publish [] s = s"
| "run_requests publish (r # rs) s = run_requests publish rs (snd (publish r s))"

text \<open>The first answer to a job, when that answer took effect, and the requests of a history that got one.\<close>

definition request_takes_effect ::
  "('r \<Rightarrow> ('e, 's, 'o) io) \<Rightarrow> ('s \<Rightarrow> 'j \<Rightarrow> ('r \<times> 'o) option) \<Rightarrow> ('r \<Rightarrow> 'j) \<Rightarrow> ('o \<Rightarrow> bool) \<Rightarrow> 's \<Rightarrow> 'r \<Rightarrow> bool" where
  "request_takes_effect publish recorded job took s r \<longleftrightarrow>
     recorded s (job r) = None \<and> (case fst (publish r s) of Inl e \<Rightarrow> False | Inr out \<Rightarrow> took out)"

primrec effective_requests ::
  "('r \<Rightarrow> ('e, 's, 'o) io) \<Rightarrow> ('s \<Rightarrow> 'j \<Rightarrow> ('r \<times> 'o) option) \<Rightarrow> ('r \<Rightarrow> 'j) \<Rightarrow> ('o \<Rightarrow> bool) \<Rightarrow> 'r list \<Rightarrow> 's \<Rightarrow> 'r list" where
  "effective_requests publish recorded job took [] s = []"
| "effective_requests publish recorded job took (r # rs) s =
     (if request_takes_effect publish recorded job took s r then [r] else [])
     @ effective_requests publish recorded job took rs (snd (publish r s))"

text \<open>
  The contract that the authority relies on: a publication either fails and changes nothing, or its outcome is recorded
  under the job that asked for it; only an outcome that \<open>took\<close> effect changes what readers of the key see, and then by
  the effect of the request on the view that the request expected.
\<close>

locale publication_store =
  fixes publish :: "'r \<Rightarrow> ('e, 's, 'o) io"
    and valid :: "'s \<Rightarrow> bool"
    and recorded :: "'s \<Rightarrow> 'j \<Rightarrow> ('r \<times> 'o) option"
    and view :: "'s \<Rightarrow> 'k \<Rightarrow> nat \<times> 'a"
    and job :: "'r \<Rightarrow> 'j"
    and index :: "'r \<Rightarrow> 'k"
    and base :: "'r \<Rightarrow> nat"
    and effect :: "'r \<Rightarrow> 'a \<Rightarrow> 'a"
    and took :: "'o \<Rightarrow> bool"
  assumes publish_valid: "valid s \<Longrightarrow> publish r s = (x, s') \<Longrightarrow> valid s'"
    and publish_error: "valid s \<Longrightarrow> publish r s = (Inl e, s') \<Longrightarrow> s' = s"
    and publish_known: "valid s \<Longrightarrow> recorded s (job r) = Some (r', out) \<Longrightarrow> publish r s = (x, s') \<Longrightarrow> s' = s"
    and publish_replay: "valid s \<Longrightarrow> recorded s (job r) = Some (r, out) \<Longrightarrow> publish r s = (Inr out, s)"
    and publish_records: "valid s \<Longrightarrow> recorded s (job r) = None \<Longrightarrow> publish r s = (Inr out, s') \<Longrightarrow>
      recorded s' = (recorded s)(job r \<mapsto> (r, out))"
    and publish_took: "valid s \<Longrightarrow> recorded s (job r) = None \<Longrightarrow> publish r s = (Inr out, s') \<Longrightarrow> took out \<Longrightarrow>
      fst (view s (index r)) = base r
      \<and> view s' = (view s)(index r := (Suc (base r), effect r (snd (view s (index r)))))"
    and publish_refused: "valid s \<Longrightarrow> recorded s (job r) = None \<Longrightarrow> publish r s = (Inr out, s') \<Longrightarrow> \<not> took out \<Longrightarrow>
      view s' = view s"
begin

abbreviation "run \<equiv> run_requests publish"
abbreviation "takes_effect \<equiv> request_takes_effect publish recorded job took"
abbreviation "effective \<equiv> effective_requests publish recorded job took"

lemma run_append: "run (rs @ qs) s = run qs (run rs s)"
  by (induction rs arbitrary: s) simp_all

lemma run_valid: "valid s \<Longrightarrow> valid (run rs s)"
proof (induction rs arbitrary: s)
  case (Cons r rs)
  have "valid (snd (publish r s))" using publish_valid [OF Cons.prems] by (cases "publish r s") auto
  then show ?case using Cons.IH by simp
qed simp

lemma recorded_once:
  assumes "valid s" and "recorded s j = Some y"
  shows "recorded (snd (publish r s)) j = Some y"
proof (cases "publish r s")
  case (Pair x s')
  show ?thesis
  proof (cases "recorded s (job r)")
    case None
    then have "job r \<noteq> j" using assms(2) by auto
    then show ?thesis
      using None assms Pair publish_error [OF assms(1)] publish_records [OF assms(1) None] by (cases x) fastforce+
  next
    case (Some known)
    then show ?thesis
      using assms Pair publish_known [OF assms(1)] by (cases known) fastforce
  qed
qed

lemma recorded_final: "valid s \<Longrightarrow> recorded s j = Some y \<Longrightarrow> recorded (run rs s) j = Some y"
proof (induction rs arbitrary: s)
  case (Cons r rs)
  have "valid (snd (publish r s))" using publish_valid [OF Cons.prems(1)] by (cases "publish r s") auto
  then show ?case using Cons.IH recorded_once [OF Cons.prems] by simp
qed simp

lemma answered_recorded:
  assumes "valid s" and "publish r s = (Inr out, s')" and "\<And>r' o'. recorded s (job r) = Some (r', o') \<Longrightarrow> r' = r"
  shows "recorded s' (job r) = Some (r, out)"
proof (cases "recorded s (job r)")
  case None
  then show ?thesis using publish_records [OF assms(1) None assms(2)] by simp
next
  case (Some known)
  then obtain o' where known: "recorded s (job r) = Some (r, o')" using assms(3) by (cases known) auto
  then show ?thesis using publish_replay [OF assms(1) known] assms(2) by simp
qed

lemma answer_is_final:
  assumes "valid s" and "publish r s = (Inr out, s')" and "\<And>r' o'. recorded s (job r) = Some (r', o') \<Longrightarrow> r' = r"
  shows "publish r (run rs s') = (Inr out, run rs s')"
proof -
  have "valid s'" using publish_valid assms(1,2) .
  then show ?thesis
    using publish_replay [OF run_valid recorded_final, of s' r out rs] answered_recorded [OF assms(1,2)] assms(3) by blast
qed

lemma effective_fresh: "valid s \<Longrightarrow> r \<in> set (effective rs s) \<Longrightarrow> recorded s (job r) = None"
proof (induction rs arbitrary: s)
  case (Cons r' rs)
  have ok: "valid (snd (publish r' s))" using publish_valid [OF Cons.prems(1)] by (cases "publish r' s") auto
  show ?case
  proof (cases "r \<in> set (effective rs (snd (publish r' s)))")
    case True
    then have "recorded (snd (publish r' s)) (job r) = None" using Cons.IH ok by blast
    then show ?thesis using recorded_once [OF Cons.prems(1)] by (cases "recorded s (job r)") auto
  next
    case False
    then show ?thesis using Cons.prems(2) by (auto simp: request_takes_effect_def split: if_splits)
  qed
qed simp

lemma effective_once: "valid s \<Longrightarrow> distinct (map job (effective rs s))"
proof (induction rs arbitrary: s)
  case (Cons r rs)
  obtain x s' where p: "publish r s = (x, s')" by (cases "publish r s")
  have ok: "valid s'" using publish_valid [OF Cons.prems p] .
  have "job r \<notin> job ` set (effective rs s')" if effect: "takes_effect s r"
  proof -
    obtain out where "x = Inr out" and "recorded s (job r) = None"
      using effect p by (cases x) (simp_all add: request_takes_effect_def)
    then have "recorded s' (job r) = Some (r, out)" using publish_records [OF Cons.prems] p by simp
    then show ?thesis using effective_fresh [OF ok] by force
  qed
  then show ?case using Cons.IH [OF ok] by (simp add: p)
qed simp

lemma step_view:
  assumes "valid s"
  shows "view (snd (publish r s)) =
    (if takes_effect s r then (view s)(index r := (Suc (base r), effect r (snd (view s (index r))))) else view s)"
    and "takes_effect s r \<Longrightarrow> fst (view s (index r)) = base r"
proof -
  obtain x s' where p: "publish r s = (x, s')" by (cases "publish r s")
  show "view (snd (publish r s)) =
    (if takes_effect s r then (view s)(index r := (Suc (base r), effect r (snd (view s (index r))))) else view s)"
  proof (cases "recorded s (job r)")
    case None
    show ?thesis
    proof (cases x)
      case (Inl e)
      then show ?thesis using publish_error [OF assms] p by (auto simp: request_takes_effect_def)
    next
      case (Inr out)
      then show ?thesis
        using None p publish_took [OF assms None, of out s'] publish_refused [OF assms None, of out s']
        by (cases "took out") (auto simp: request_takes_effect_def)
    qed
  next
    case (Some known)
    then show ?thesis using publish_known [OF assms, of r "fst known" "snd known" x s'] p by (simp add: request_takes_effect_def)
  qed
  show "takes_effect s r \<Longrightarrow> fst (view s (index r)) = base r"
    using publish_took [OF assms, of r _ s'] p by (cases x) (simp_all add: request_takes_effect_def)
qed

theorem serialized:
  assumes "valid s" and "qs = filter (\<lambda>r. index r = k) (effective rs s)"
  shows "view (run rs s) k = (fst (view s k) + length qs, fold effect qs (snd (view s k)))
    \<and> map base qs = [fst (view s k)..<fst (view s k) + length qs]"
  using assms
proof (induction rs arbitrary: s qs)
  case (Cons r rs)
  obtain x s' where p: "publish r s = (x, s')" by (cases "publish r s")
  have ok: "valid s'" using publish_valid [OF Cons.prems(1) p] .
  let ?qs = "filter (\<lambda>r. index r = k) (effective rs s')"
  note IH = Cons.IH [OF ok refl]
  note view = step_view [OF Cons.prems(1), of r, unfolded p snd_conv]
  show ?case
  proof (cases "takes_effect s r \<and> index r = k")
    case True
    then have "qs = r # ?qs" and "view s' k = (Suc (base r), effect r (snd (view s k)))" and "fst (view s k) = base r"
      using Cons.prems(2) view by (auto simp: p)
    then show ?thesis using IH by (simp add: p upt_conv_Cons del: upt_Suc)
  next
    case False
    then have "qs = ?qs" and "view s' k = view s k" using Cons.prems(2) view by (auto simp: p split: if_splits)
    then show ?thesis using IH by (simp add: p)
  qed
qed simp

end

section \<open>The publisher keeps the contract\<close>

text \<open>The view that readers get: the revision, and the records by path.\<close>

definition publisher_view ::
  "unicode \<Rightarrow> (byte list \<Rightarrow> content_digest) \<Rightarrow> publisher_state \<Rightarrow> index_key \<Rightarrow> nat \<times> (logical_path \<rightharpoonup> file_record)" where
  "publisher_view uni blake3 st key =
     (let s = snapshot_of uni blake3 st key in (unat (wv_revision (ix_version s)), bt_get (ix_records s)))"

definition publisher_recorded :: "publisher_state \<Rightarrow> job_key \<Rightarrow> (index_publish_request \<times> index_publish_outcome) option" where
  "publisher_recorded st = bt_get (pb_publications st)"

definition request_base :: "index_publish_request \<Rightarrow> nat" where
  "request_base r = unat (wv_revision (rq_expected_index_version r))"

definition request_effect :: "index_publish_request \<Rightarrow> (logical_path \<rightharpoonup> file_record) \<Rightarrow> (logical_path \<rightharpoonup> file_record)" where
  "request_effect r = fold wire_effect (rq_mutations r)"

primrec is_published :: "index_publish_outcome \<Rightarrow> bool" where
  "is_published (Published v) \<longleftrightarrow> True"
| "is_published (PublishConflict v) \<longleftrightarrow> False"
| "is_published (PublishRejected e) \<longleftrightarrow> False"

definition stored_snapshot_ok :: "unicode \<Rightarrow> (byte list \<Rightarrow> content_digest) \<Rightarrow> index_snapshot \<Rightarrow> bool" where
  "stored_snapshot_ok uni blake3 s \<longleftrightarrow>
     bt_ok (ix_records s) \<and> index_snapshot_digest uni blake3 (bt_values (ix_records s)) = Inr (wv_digest (ix_version s))"

definition publisher_ok :: "unicode \<Rightarrow> (byte list \<Rightarrow> content_digest) \<Rightarrow> publisher_state \<Rightarrow> bool" where
  "publisher_ok uni blake3 st \<longleftrightarrow>
     bt_ok (pb_indexes st) \<and> bt_ok (pb_manifests st) \<and> bt_ok (pb_publications st)
     \<and> (\<forall>key s. bt_get (pb_indexes st) key = Some s \<longrightarrow> stored_snapshot_ok uni blake3 s)
     \<and> (\<forall>job r out. bt_get (pb_publications st) job = Some (r, out) \<longrightarrow>
          jk_tenant_id (rq_job_key r) = ik_tenant_id (rq_index_key r))"

lemma empty_snapshot_digest:
  "index_snapshot_digest uni blake3 [] = Inr (index_snapshot_hasher_finish blake3 index_snapshot_hasher_new)"
  by (simp add: index_snapshot_digest_def)

lemma publisher_new_ok: "publisher_ok uni blake3 publisher_new"
  by (simp add: publisher_ok_def publisher_new_def)

lemma snapshot_of_ok: "publisher_ok uni blake3 st \<Longrightarrow> stored_snapshot_ok uni blake3 (snapshot_of uni blake3 st key)"
  by (auto simp: publisher_ok_def snapshot_of_def current_snapshot_def stored_snapshot_ok_def bt_values_def empty_snapshot_digest
      split: option.splits)

lemma snapshot_of_record [simp]:
  "snapshot_of uni blake3 (record_publication r out st) key = snapshot_of uni blake3 st key"
  by (simp add: snapshot_of_def current_snapshot_def record_publication_def)

lemma snapshot_of_insert:
  "bt_ok (pb_indexes st) \<Longrightarrow>
     snapshot_of uni blake3 (st \<lparr> pb_indexes := bt_insert k s (pb_indexes st), pb_manifests := ms \<rparr>) key
       = (if key = k then s else snapshot_of uni blake3 st key)"
  by (simp add: snapshot_of_def current_snapshot_def)

lemma bt_ok_publish_manifests: "bt_ok catalog \<Longrightarrow> bt_ok (publish_manifests key manifests catalog)"
  unfolding publish_manifests_def
  by (induction manifests arbitrary: catalog) (simp_all add: Let_def split: prod.splits)

lemma recorded_tenants:
  "publisher_ok uni blake3 st \<Longrightarrow> bt_get (pb_publications st) job = Some (r, out) \<Longrightarrow>
     jk_tenant_id (rq_job_key r) = ik_tenant_id (rq_index_key r)"
  unfolding publisher_ok_def by blast

lemma publisher_ok_record:
  "publisher_ok uni blake3 st \<Longrightarrow> jk_tenant_id (rq_job_key r) = ik_tenant_id (rq_index_key r) \<Longrightarrow>
     publisher_ok uni blake3 (record_publication r out st)"
  by (auto simp: publisher_ok_def record_publication_def)

lemma candidate_snapshot_ok:
  assumes "publisher_ok uni blake3 st"
    and "publication_candidate_index uni blake3 st (snapshot_of uni blake3 st key) r = Inr (s, ms)"
  shows "stored_snapshot_ok uni blake3 s" and "bt_get (ix_records s) = request_effect r (bt_get (ix_records (snapshot_of uni blake3 st key)))"
proof -
  note parts = publication_candidate_parts [OF assms(2)]
  have "bt_ok (ix_records (snapshot_of uni blake3 st key))"
    using snapshot_of_ok [OF assms(1)] by (simp add: stored_snapshot_ok_def)
  note effect = apply_delta_effect [OF this parts(4)]
  show "stored_snapshot_ok uni blake3 s" using effect parts(6) by (simp add: stored_snapshot_ok_def)
  show "bt_get (ix_records s) = request_effect r (bt_get (ix_records (snapshot_of uni blake3 st key)))"
    using effect by (simp add: request_effect_def)
qed

lemma compare_and_swap_ok:
  assumes "publisher_ok uni blake3 st" and "compare_and_swap uni blake3 r st = (x, st')"
  shows "publisher_ok uni blake3 st'"
proof (cases rule: compare_and_swap_cases [of r uni blake3 st])
  case (published s ms)
  let ?st = "st \<lparr> pb_indexes := bt_insert (rq_index_key r) s (pb_indexes st),
                  pb_manifests := publish_manifests (rq_index_key r) ms (pb_manifests st) \<rparr>"
  have "publisher_ok uni blake3 ?st"
    using assms(1) candidate_snapshot_ok(1) [OF assms(1) published(4)]
    by (auto simp: publisher_ok_def bt_ok_publish_manifests)
  then show ?thesis using assms(2) published publisher_ok_record by auto
qed (use assms publisher_ok_record in \<open>auto simp: Let_def\<close>)

text \<open>A publication that took effect: the base it named was current, and readers see its effect.\<close>

lemma compare_and_swap_published:
  assumes "publisher_ok uni blake3 st" and "bt_get (pb_publications st) (rq_job_key r) = None"
    and "compare_and_swap uni blake3 r st = (Inr (Published v), st')"
  shows "publisher_view uni blake3 st (rq_index_key r) = (request_base r, snd (publisher_view uni blake3 st (rq_index_key r)))"
    and "publisher_view uni blake3 st' = (publisher_view uni blake3 st)
      (rq_index_key r := (Suc (request_base r), request_effect r (snd (publisher_view uni blake3 st (rq_index_key r)))))"
proof -
  obtain s ms where
    same: "same_index_version (ix_version (snapshot_of uni blake3 st (rq_index_key r))) (rq_expected_index_version r)"
    and candidate: "publication_candidate_index uni blake3 st (snapshot_of uni blake3 st (rq_index_key r)) r = Inr (s, ms)"
    and st': "st' = record_publication r (Published v)
      (st \<lparr> pb_indexes := bt_insert (rq_index_key r) s (pb_indexes st),
            pb_manifests := publish_manifests (rq_index_key r) ms (pb_manifests st) \<rparr>)"
  proof (cases rule: compare_and_swap_cases [of r uni blake3 st])
    case (published s ms)
    then show thesis using assms(3) by (intro that) auto
  qed (use assms in \<open>auto simp: Let_def\<close>)
  have ok: "bt_ok (pb_indexes st)" using assms(1) by (simp add: publisher_ok_def)
  show "publisher_view uni blake3 st (rq_index_key r) = (request_base r, snd (publisher_view uni blake3 st (rq_index_key r)))"
    using same by (simp add: publisher_view_def same_index_version_def request_base_def Let_def)
  show "publisher_view uni blake3 st' = (publisher_view uni blake3 st)
      (rq_index_key r := (Suc (request_base r), request_effect r (snd (publisher_view uni blake3 st (rq_index_key r)))))"
    using same publication_candidate_parts(5) [OF candidate] candidate_snapshot_ok(2) [OF assms(1) candidate]
    by (auto simp: fun_eq_iff st' publisher_view_def snapshot_of_insert [OF ok] Let_def same_index_version_def request_base_def)
qed

lemma compare_and_swap_not_published:
  assumes "compare_and_swap uni blake3 r st = (x, st')" and "\<And>v. x \<noteq> Inr (Published v)"
  shows "publisher_view uni blake3 st' = publisher_view uni blake3 st"
  using assms
  by (cases rule: compare_and_swap_cases [of r uni blake3 st]) (auto simp: publisher_view_def fun_eq_iff Let_def)

interpretation cas: publication_store "compare_and_swap uni blake3" "publisher_ok uni blake3" publisher_recorded
  "publisher_view uni blake3" rq_job_key rq_index_key request_base request_effect is_published
  for uni blake3
proof unfold_locales
  fix s r x s' e r' out
  assume ok: "publisher_ok uni blake3 s"
  show "compare_and_swap uni blake3 r s = (x, s') \<Longrightarrow> publisher_ok uni blake3 s'"
    using compare_and_swap_ok ok .
  show "compare_and_swap uni blake3 r s = (Inl e, s') \<Longrightarrow> s' = s"
    by (cases rule: compare_and_swap_cases [of r uni blake3 s]) (auto simp: Let_def)
  show "publisher_recorded s (rq_job_key r) = Some (r', out) \<Longrightarrow> compare_and_swap uni blake3 r s = (x, s') \<Longrightarrow> s' = s"
    by (cases rule: compare_and_swap_cases [of r uni blake3 s]) (auto simp: Let_def publisher_recorded_def)
  show "publisher_recorded s (rq_job_key r) = Some (r, out) \<Longrightarrow> compare_and_swap uni blake3 r s = (Inr out, s)"
    using recorded_tenants [OF ok]
    by (cases rule: compare_and_swap_cases [of r uni blake3 s]) (auto simp: publisher_recorded_def)
  assume new: "publisher_recorded s (rq_job_key r) = None" and cas: "compare_and_swap uni blake3 r s = (Inr out, s')"
  have "bt_ok (pb_publications s)" using ok by (simp add: publisher_ok_def)
  then show "publisher_recorded s' = (publisher_recorded s)(rq_job_key r \<mapsto> (r, out))"
    using new cas
    by (cases rule: compare_and_swap_cases [of r uni blake3 s])
      (auto simp: publisher_recorded_def record_publication_def Let_def)
  show "is_published out \<Longrightarrow> fst (publisher_view uni blake3 s (rq_index_key r)) = request_base r \<and>
      publisher_view uni blake3 s' = (publisher_view uni blake3 s)
        (rq_index_key r := (Suc (request_base r), request_effect r (snd (publisher_view uni blake3 s (rq_index_key r)))))"
    using compare_and_swap_published [OF ok, of r _ s'] new cas
    by (cases out) (simp_all add: publisher_recorded_def prod_eq_iff)
  show "\<not> is_published out \<Longrightarrow> publisher_view uni blake3 s' = publisher_view uni blake3 s"
    using compare_and_swap_not_published [OF cas] by (cases out) simp_all
qed

end
