(* ===== verification/CentralHistory.thy ===== *)
theory CentralHistory
  imports CentralIndex Execution
begin

text \<open>
  What readers of the central indexes can rely on, whatever requests arrive and in whatever order: the step relation of
  the publisher, the invariant that every index is closed over the manifest catalog, and the serialisation of
  publications.
\<close>

section \<open>The catalog only grows\<close>

lemma publish_manifests_get:
  assumes "bt_ok catalog"
  shows "bt_get (publish_manifests key manifests catalog) (t, a, mid) =
    (case bt_get catalog (t, a, mid) of
       Some m \<Rightarrow> Some m
     | None \<Rightarrow> if t = ik_tenant_id key \<and> a = ik_artifact_id key then map_of manifests mid else None)"
  using assms
proof (induction manifests arbitrary: catalog)
  case (Cons im manifests)
  obtain i m where im: "im = (i, m)" by (cases im)
  let ?k = "(ik_tenant_id key, ik_artifact_id key, i)"
  let ?catalog = "if bt_contains catalog ?k then catalog else bt_insert ?k m catalog"
  have "bt_ok ?catalog" using Cons.prems by simp
  note IH = Cons.IH [OF this]
  have "publish_manifests key (im # manifests) catalog = publish_manifests key manifests ?catalog"
    by (simp add: publish_manifests_def im Let_def)
  then show ?case
    using IH Cons.prems bt_get_None_iff [of catalog ?k] by (auto simp: im split: option.splits)
qed (simp add: publish_manifests_def split: option.splits)

lemma publication_manifests_fold:
  assumes "try_fold (publication_manifest blake3) [] ms = Inr manifests"
  shows "bt_ok manifests" and "\<forall>(i, m) \<in> set manifests. manifest_id blake3 m = Inr i"
proof -
  have "bt_ok manifests \<and> (\<forall>(i, m) \<in> set manifests. manifest_id blake3 m = Inr i)"
    using assms
    by (rule try_fold_invariant)
      (auto simp: publication_manifest_def split: sum.splits if_splits dest!: subsetD [OF set_bt_insert_subset])
  then show "bt_ok manifests" "\<forall>(i, m) \<in> set manifests. manifest_id blake3 m = Inr i" by simp_all
qed

text \<open>What the check of the upserts establishes about one of them.\<close>

lemma publication_upsert_mono:
  "try_fold (publication_upsert manifests) refs muts = Inr refs' \<Longrightarrow> set refs \<subseteq> set refs'"
  by (erule try_fold_invariant)
    (auto simp: publication_upsert_def split: index_delta_record.splits option.splits sum.splits if_splits)

lemma publication_upserts_checked:
  "try_fold (publication_upsert manifests) refs muts = Inr refs' \<Longrightarrow>
     WireUpsert p mid total_size chunk_count ext \<in> set muts \<Longrightarrow>
     mid \<in> set refs' \<and> (\<forall>m. bt_get manifests mid = Some m \<longrightarrow>
       m_total_size m = total_size \<and> manifest_chunk_count m = Inr chunk_count)"
proof (induction muts arbitrary: refs)
  case (Cons mut muts)
  then obtain refs1 where step: "publication_upsert manifests refs mut = Inr refs1"
    and rest: "try_fold (publication_upsert manifests) refs1 muts = Inr refs'" by auto
  show ?case
  proof (cases "mut = WireUpsert p mid total_size chunk_count ext")
    case True
    then show ?thesis
      using step publication_upsert_mono [OF rest]
      by (auto simp: publication_upsert_def split: option.splits sum.splits if_splits)
  next
    case False
    then show ?thesis using Cons.IH [OF rest] Cons.prems(2) by simp
  qed
qed simp

lemma catalog_conflict_fold:
  assumes "try_fold (catalog_conflict key catalog) () manifests = Inr u" and "(i, m) \<in> set manifests"
    and "bt_get catalog (ik_tenant_id key, ik_artifact_id key, i) = Some m'"
  shows "m' = m"
  using assms
  by (induction manifests) (auto simp: catalog_conflict_def split: if_splits)

lemma wire_effect_ran:
  "r \<in> ran (wire_effect mut m) \<Longrightarrow> r \<in> ran m \<or>
     (\<exists>p mid total_size chunk_count ext. mut = WireUpsert p mid total_size chunk_count ext
        \<and> r = \<lparr> fr_path = p, fr_manifest_id = mid, fr_total_size = total_size, fr_chunk_count = chunk_count \<rparr>)"
  by (cases mut) (auto simp: ran_def split: if_splits)

lemma request_effect_ran:
  "r \<in> ran (fold wire_effect muts m) \<Longrightarrow> r \<in> ran m \<or>
     (\<exists>ext. WireUpsert (fr_path r) (fr_manifest_id r) (fr_total_size r) (fr_chunk_count r) ext \<in> set muts)"
proof (induction muts arbitrary: m)
  case (Cons mut muts)
  have "r \<in> ran (fold wire_effect muts (wire_effect mut m))" using Cons.prems by simp
  from Cons.IH [OF this] show ?case
  proof
    assume "r \<in> ran (wire_effect mut m)"
    from wire_effect_ran [OF this] show ?thesis by (cases "r \<in> ran m") auto
  qed auto
qed simp

section \<open>Every record has its manifest\<close>

definition record_backed ::
  "(byte list \<Rightarrow> content_digest) \<Rightarrow> publisher_state \<Rightarrow> index_key \<Rightarrow> file_record \<Rightarrow> bool" where
  "record_backed blake3 st key r \<longleftrightarrow>
     (case publisher_manifest (ik_tenant_id key) (ik_artifact_id key) (fr_manifest_id r) st of
        None \<Rightarrow> False
      | Some m \<Rightarrow> manifest_id blake3 m = Inr (fr_manifest_id r) \<and> m_total_size m = fr_total_size r
                  \<and> manifest_chunk_count m = Inr (fr_chunk_count r))"

definition catalog_closed :: "(byte list \<Rightarrow> content_digest) \<Rightarrow> publisher_state \<Rightarrow> bool" where
  "catalog_closed blake3 st \<longleftrightarrow>
     (\<forall>key s r. bt_get (pb_indexes st) key = Some s \<longrightarrow> r \<in> ran (bt_get (ix_records s)) \<longrightarrow> record_backed blake3 st key r)"

lemma record_backed_grows:
  assumes "record_backed blake3 st key r"
    and "\<And>k m. bt_get (pb_manifests st) k = Some m \<Longrightarrow> bt_get (pb_manifests st') k = Some m"
  shows "record_backed blake3 st' key r"
  using assms(1)
  by (auto simp: record_backed_def publisher_manifest_def split: option.splits dest!: assms(2))

lemma published_record_backed:
  assumes "bt_ok (pb_manifests st)"
    and "publication_candidate_index uni blake3 st current req = Inr (s, ms)"
    and "WireUpsert (fr_path r) (fr_manifest_id r) (fr_total_size r) (fr_chunk_count r) ext \<in> set (rq_mutations req)"
    and "pb_manifests st' = publish_manifests (rq_index_key req) ms (pb_manifests st)"
  shows "record_backed blake3 st' (rq_index_key req) r"
proof -
  note parts = publication_candidate_parts [OF assms(2)]
  note ms = publication_manifests_fold [OF parts(1)]
  have checked: "fr_manifest_id r \<in> set (bt_keys ms)"
    "\<And>m. bt_get ms (fr_manifest_id r) = Some m \<Longrightarrow>
       m_total_size m = fr_total_size r \<and> manifest_chunk_count m = Inr (fr_chunk_count r)"
    using publication_upserts_checked [OF parts(2) assms(3)] by blast+
  then obtain m where m: "(fr_manifest_id r, m) \<in> set ms" by (auto simp: bt_keys_def)
  then have get: "bt_get ms (fr_manifest_id r) = Some m" using ms(1) by (simp add: bt_get_iff)
  have "bt_get (pb_manifests st') (ik_tenant_id (rq_index_key req), ik_artifact_id (rq_index_key req), fr_manifest_id r) = Some m"
    using get catalog_conflict_fold [OF parts(3) m]
    by (auto simp: assms(4) publish_manifests_get [OF assms(1)] get [unfolded bt_get_def] split: option.splits)
  then show ?thesis
    using m ms(2) checked(2) [OF get] by (auto simp: record_backed_def publisher_manifest_def)
qed

section \<open>Steps and reachable states\<close>

text \<open>
  A step is a publication, whatever its outcome, or the initialisation of a derived workspace from records whose
  manifests the catalog of the artifact has.
\<close>

inductive publisher_step :: "unicode \<Rightarrow> (byte list \<Rightarrow> content_digest) \<Rightarrow> publisher_state \<Rightarrow> publisher_state \<Rightarrow> bool"
  for uni blake3 where
  publish: "compare_and_swap uni blake3 req st = (x, st') \<Longrightarrow> publisher_step uni blake3 st st'"
| initialize: "initialize_snapshot uni blake3 req st = (x, st') \<Longrightarrow>
    (\<And>r. r \<in> set (ri_records req) \<Longrightarrow> record_backed blake3 st (ri_index_key req) r) \<Longrightarrow> publisher_step uni blake3 st st'"

inductive publisher_reachable :: "unicode \<Rightarrow> (byte list \<Rightarrow> content_digest) \<Rightarrow> publisher_state \<Rightarrow> bool"
  for uni blake3 where
  start: "publisher_reachable uni blake3 publisher_new"
| step: "publisher_reachable uni blake3 st \<Longrightarrow> publisher_step uni blake3 st st' \<Longrightarrow> publisher_reachable uni blake3 st'"

inductive_cases publisher_stepE: "publisher_step uni blake3 st st'"

lemma initialize_cases:
  assumes "initialize_snapshot uni blake3 req st = (x, st')"
  shows "st' = st \<or>
    (st' = st \<lparr> pb_indexes := bt_insert (ri_index_key req)
        \<lparr> ix_version = ri_version req, ix_records = records_by_path (ri_records req) \<rparr> (pb_indexes st) \<rparr>
     \<and> index_snapshot_digest uni blake3 (ri_records req) = Inr (wv_digest (ri_version req)))"
  using assms
  by (auto simp: initialize_snapshot_def validate_initial_index_snapshot_def index_version_from_snapshot_def Let_def
      err_if_Inr split: sum.splits option.splits if_splits)

lemma bt_collect_sorted:
  assumes "sorted_wrt (<) (map fst kvs)"
  shows "bt_collect kvs = kvs"
proof (rule sorted_keys_unique)
  have d: "distinct (map fst kvs)" using assms by (simp add: strict_sorted_iff)
  show "map_of (bt_collect kvs) = map_of kvs"
    using d set_bt_collect [OF d] bt_ok_distinct [OF bt_ok_collect [of kvs]] by (simp add: map_of_inject_set)
qed (use assms bt_ok_collect [of kvs] in \<open>simp_all add: bt_ok_def\<close>)

lemma bt_ok_records_by_path: "bt_ok (records_by_path rs)"
  by (simp add: records_by_path_def)

lemma records_by_path_values:
  assumes "index_snapshot_digest uni blake3 rs = Inr d"
  shows "bt_values (records_by_path rs) = rs"
proof -
  have "sorted_wrt (<) (map fr_path rs)"
    using assms by (auto simp: index_snapshot_digest_iff snapshot_ok_def validate_index_snapshot_iff portable_path_set_def)
  then show ?thesis by (simp add: records_by_path_def bt_collect_sorted bt_values_def comp_def)
qed

lemma publisher_step_ok:
  assumes "publisher_step uni blake3 st st'" and "publisher_ok uni blake3 st"
  shows "publisher_ok uni blake3 st'"
  using assms(1)
proof cases
  case (publish req x)
  then show ?thesis using compare_and_swap_ok assms(2) by blast
next
  case (initialize req x)
  let ?s = "\<lparr> ix_version = ri_version req, ix_records = records_by_path (ri_records req) \<rparr>"
  from initialize_cases [OF initialize(1)] show ?thesis
  proof
    assume st': "st' = st \<lparr> pb_indexes := bt_insert (ri_index_key req) ?s (pb_indexes st) \<rparr>
      \<and> index_snapshot_digest uni blake3 (ri_records req) = Inr (wv_digest (ri_version req))"
    then have "stored_snapshot_ok uni blake3 ?s"
      using records_by_path_values bt_ok_records_by_path by (fastforce simp: stored_snapshot_ok_def)
    then show ?thesis
      using assms(2) st' unfolding publisher_ok_def by (clarsimp split: if_splits)
  qed (use assms(2) in simp)
qed

lemma publisher_step_closed:
  assumes "publisher_step uni blake3 st st'" and "publisher_ok uni blake3 st" and "catalog_closed blake3 st"
  shows "catalog_closed blake3 st'"
  using assms(1)
proof cases
  case (publish req x)
  show ?thesis
  proof (cases rule: compare_and_swap_cases [of req uni blake3 st])
    case (published s ms)
    have ok: "bt_ok (pb_indexes st)" "bt_ok (pb_manifests st)" using assms(2) by (simp_all add: publisher_ok_def)
    from published publish have st': "bt_get (pb_indexes st') = (bt_get (pb_indexes st))(rq_index_key req \<mapsto> s)"
      "pb_manifests st' = publish_manifests (rq_index_key req) ms (pb_manifests st)"
      using ok by (auto simp: record_publication_def)
    have grows: "bt_get (pb_manifests st') k = Some m" if "bt_get (pb_manifests st) k = Some m" for k m
      using that by (cases k) (simp add: st'(2) publish_manifests_get [OF ok(2)])
    have old: "record_backed blake3 st (rq_index_key req) r"
      if "r \<in> ran (bt_get (ix_records (snapshot_of uni blake3 st (rq_index_key req))))" for r
      using that assms(3)
      by (auto simp: catalog_closed_def snapshot_of_def current_snapshot_def split: option.splits)
    have "record_backed blake3 st' (rq_index_key req) r" if "r \<in> ran (bt_get (ix_records s))" for r
    proof -
      from that request_effect_ran [of r "rq_mutations req"]
      have "r \<in> ran (bt_get (ix_records (snapshot_of uni blake3 st (rq_index_key req))))
        \<or> (\<exists>ext. WireUpsert (fr_path r) (fr_manifest_id r) (fr_total_size r) (fr_chunk_count r) ext \<in> set (rq_mutations req))"
        by (simp add: candidate_snapshot_ok(2) [OF assms(2) published(4)] request_effect_def)
      then show ?thesis
        using record_backed_grows [OF old grows] published_record_backed [OF ok(2) published(4) _ st'(2)] by blast
    qed
    then show ?thesis
      using assms(3) record_backed_grows [OF _ grows] by (simp add: catalog_closed_def st'(1)) blast
  qed (use publish assms(3) in \<open>auto simp: catalog_closed_def record_backed_def publisher_manifest_def record_publication_def Let_def\<close>)
next
  case (initialize req x)
  have ok: "bt_ok (pb_indexes st)" using assms(2) by (simp add: publisher_ok_def)
  have ran: "ran (bt_get (records_by_path (ri_records req))) \<subseteq> set (ri_records req)"
    by (auto simp: records_by_path_def bt_get_collect ran_def dest!: map_of_SomeD)
  from initialize_cases [OF initialize(1)] show ?thesis
  proof
    assume "st' = st"
    then show ?thesis using assms(3) by simp
  next
    let ?s = "\<lparr> ix_version = ri_version req, ix_records = records_by_path (ri_records req) \<rparr>"
    assume st': "st' = st \<lparr> pb_indexes := bt_insert (ri_index_key req) ?s (pb_indexes st) \<rparr>
      \<and> index_snapshot_digest uni blake3 (ri_records req) = Inr (wv_digest (ri_version req))"
    have same: "record_backed blake3 st' = record_backed blake3 st"
      using st' by (simp add: fun_eq_iff record_backed_def publisher_manifest_def)
    show ?thesis
      using assms(3) initialize(2) ran st' unfolding catalog_closed_def same by (auto simp: ok)
  qed
qed

lemma reachable_ok:
  "publisher_reachable uni blake3 st \<Longrightarrow> publisher_ok uni blake3 st \<and> catalog_closed blake3 st"
proof (induction rule: publisher_reachable.induct)
  case start
  then show ?case by (simp add: publisher_new_ok) (simp add: catalog_closed_def publisher_new_def)
next
  case (step st st')
  then show ?case using publisher_step_ok publisher_step_closed by blast
qed

section \<open>Properties\<close>

text \<open>
  C7: Whatever jobs published and in whatever order, and whatever workspaces were derived from cataloged records, the
  snapshot that a reader gets of an index has the digest its version names, and every record in it has a manifest in
  the catalog of the artifact that has the record's identity, size and chunk count.
\<close>

theorem published_indexes_closed:
  assumes "publisher_reachable uni blake3 st" and "publisher_snapshot uni blake3 key st = Inr index"
  shows "index_snapshot_digest uni blake3 (pi_records index) = Inr (wv_digest (pi_version index))
    \<and> (\<forall>r \<in> set (pi_records index). record_backed blake3 st key r)"
proof -
  have ok: "publisher_ok uni blake3 st" and closed: "catalog_closed blake3 st" using reachable_ok [OF assms(1)] by simp_all
  let ?s = "snapshot_of uni blake3 st key"
  have index: "pi_version index = ix_version ?s" "pi_records index = bt_values (ix_records ?s)"
    using assms(2) by (auto simp: publisher_reads Let_def)
  have s: "stored_snapshot_ok uni blake3 ?s" using snapshot_of_ok [OF ok] .
  have "record_backed blake3 st key r" if r: "r \<in> set (bt_values (ix_records ?s))" for r
  proof -
    obtain p where "(p, r) \<in> set (ix_records ?s)" using r by (auto simp: bt_values_def)
    then have ran: "r \<in> ran (bt_get (ix_records ?s))" using s by (auto simp: stored_snapshot_ok_def ran_def bt_get_iff)
    then show ?thesis
      using closed by (auto simp: catalog_closed_def snapshot_of_def current_snapshot_def split: option.splits)
  qed
  then show ?thesis using s by (simp add: index stored_snapshot_ok_def)
qed

text \<open>
  A publication that adds one file to an empty index.
\<close>

definition sample_index_key :: index_key where
  "sample_index_key = IndexKey (ResourceId ''t'') (ResourceId ''p'') (ResourceId ''a'') (ResourceId ''w'')"

definition sample_published_record :: file_record where
  "sample_published_record = \<lparr> fr_path = sample_path, fr_manifest_id = sample_file_id, fr_total_size = 2, fr_chunk_count = 1 \<rparr>"

definition sample_publish_request :: "string \<Rightarrow> index_publish_request" where
  "sample_publish_request job =
     \<lparr> rq_job_key = JobKey (ResourceId ''t'') (ResourceId job), rq_index_key = sample_index_key,
       rq_expected_index_version = ix_version (snapshot_of ascii_unicode sum_hash publisher_new sample_index_key),
       rq_expected_result_digest = sum_hash (snapshot_encoding [sample_published_record]),
       rq_manifests = [sample_file], rq_mutations = [WireUpsert sample_path sample_file_id 2 1 []] \<rparr>"

definition sample_published_version :: wire_index_version where
  "sample_published_version =
     \<lparr> wv_revision = 1, wv_digest = sum_hash (snapshot_encoding [sample_published_record]), wv_extensions = [] \<rparr>"

lemma sample_published_digest:
  "index_snapshot_digest ascii_unicode sum_hash [sample_published_record] = Inr (sum_hash (snapshot_encoding [sample_published_record]))"
proof -
  have "validate_index_snapshot ascii_unicode [sample_published_record] = Inr ()"
    by (simp add: validate_index_snapshot_iff sample_published_record_def file_record_validate_def) code_simp
  then show ?thesis
    by (simp add: index_snapshot_digest_iff snapshot_ok_def record_encodable_def sample_published_record_def sample_path_def str_fits_def)
qed

lemma sample_candidate_index:
  "publication_candidate_index ascii_unicode sum_hash publisher_new
     (snapshot_of ascii_unicode sum_hash publisher_new sample_index_key) (sample_publish_request job) =
   Inr (\<lparr> ix_version = sample_published_version, ix_records = [(sample_path, sample_published_record)] \<rparr>,
        [(sample_file_id, sample_file)])"
proof -
  let ?empty = "snapshot_of ascii_unicode sum_hash publisher_new sample_index_key"
  have empty: "ix_records ?empty = []" "wv_revision (ix_version ?empty) = 0"
    by (simp_all add: snapshot_of_def current_snapshot_def publisher_new_def)
  have catalog: "pb_manifests publisher_new = []" by (simp add: publisher_new_def)
  have mid: "manifest_id sum_hash sample_file = Inr sample_file_id"
    by (simp add: manifest_id_eq sample_file_valid sample_file_id_def)
  have count: "manifest_chunk_count sample_file = Inr 1" "m_total_size sample_file = 2"
    by (simp_all add: manifest_chunk_count_def sample_file_def u64_try_from_def)
  have new: "file_record_new sample_path sample_file_id 2 1 = Inr sample_published_record"
    by (simp add: file_record_new_def sample_published_record_def file_record_validate_def)
  have "checked_add (0 :: u64) 1 = Some 1" by (simp add: checked_add_eq_Some)
  then show ?thesis
    by (simp add: publication_candidate_index_def sample_publish_request_def empty publication_manifest_def mid bt_contains_def
        publication_upsert_def bt_get_def count bt_keys_def catalog_conflict_def catalog apply_delta_record_def new Let_def
        bt_values_def index_version_from_snapshot_def sample_published_digest wire_of_index_version_def
        sample_published_version_def)
qed

lemma sample_swap:
  "compare_and_swap ascii_unicode sum_hash (sample_publish_request job) publisher_new =
     (Inr (Published sample_published_version),
      \<lparr> pb_indexes = [(sample_index_key,
            \<lparr> ix_version = sample_published_version, ix_records = [(sample_path, sample_published_record)] \<rparr>)],
        pb_manifests = [((ResourceId ''t'', ResourceId ''a'', sample_file_id), sample_file)],
        pb_publications = [(JobKey (ResourceId ''t'') (ResourceId job),
            (sample_publish_request job, Published sample_published_version))] \<rparr>)"
proof -
  have fields: "jk_tenant_id (rq_job_key (sample_publish_request job)) = ik_tenant_id (rq_index_key (sample_publish_request job))"
    "rq_index_key (sample_publish_request job) = sample_index_key"
    "rq_job_key (sample_publish_request job) = JobKey (ResourceId ''t'') (ResourceId job)"
    "same_index_version (ix_version (snapshot_of ascii_unicode sum_hash publisher_new sample_index_key))
       (rq_expected_index_version (sample_publish_request job))"
    "ik_tenant_id sample_index_key = ResourceId ''t''" "ik_artifact_id sample_index_key = ResourceId ''a''"
    by (simp_all add: sample_publish_request_def sample_index_key_def same_index_version_def)
  have new: "bt_get (pb_publications publisher_new) key = None" for key by (simp add: publisher_new_def)
  show ?thesis
    unfolding compare_and_swap_def fields(2-6) new current_snapshot_eq
    by (simp add: fields(4) sample_candidate_index record_publication_def fields(2,3,5,6) publish_manifests_def Let_def)
      (simp add: publisher_new_def bt_contains_def bt_get_def)
qed

theorem published_indexes_closed_witness:
  "\<exists>st index. publisher_reachable ascii_unicode sum_hash st
     \<and> publisher_snapshot ascii_unicode sum_hash sample_index_key st = Inr index
     \<and> pi_records index = [sample_published_record]
     \<and> index_snapshot_digest ascii_unicode sum_hash (pi_records index) = Inr (wv_digest (pi_version index))
     \<and> record_backed sum_hash st sample_index_key sample_published_record"
proof -
  define st where "st = snd (compare_and_swap ascii_unicode sum_hash (sample_publish_request ''j'') publisher_new)"
  have "publisher_step ascii_unicode sum_hash publisher_new st"
    using sample_swap [of "''j''"] by (intro publisher_step.publish) (simp add: st_def)
  then have reachable: "publisher_reachable ascii_unicode sum_hash st"
    by (intro publisher_reachable.step [OF publisher_reachable.start])
  have "\<exists>index. publisher_snapshot ascii_unicode sum_hash sample_index_key st = Inr index
      \<and> pi_records index = [sample_published_record]"
    by (simp add: st_def sample_swap publisher_snapshot_def current_snapshot_def bt_get_def bt_values_def)
  then show ?thesis using reachable published_indexes_closed [OF reachable, of sample_index_key] by fastforce
qed

text \<open>
  C6: Publications are serialised.  After any history of requests, an index is the fold of the requests that took
  effect on it, in their order, over what it held before; their base revisions are consecutive, one revision each, so
  that no two of them were built on the same version; and no job takes effect twice.
\<close>

theorem publications_serialize:
  assumes "publisher_reachable uni blake3 st"
    and "qs = filter (\<lambda>r. rq_index_key r = key)
      (effective_requests (compare_and_swap uni blake3) publisher_recorded rq_job_key is_published rs st)"
  shows "publisher_view uni blake3 (run_requests (compare_and_swap uni blake3) rs st) key =
      (fst (publisher_view uni blake3 st key) + length qs, fold request_effect qs (snd (publisher_view uni blake3 st key)))
    \<and> map request_base qs = [fst (publisher_view uni blake3 st key)..<fst (publisher_view uni blake3 st key) + length qs]
    \<and> distinct (map rq_job_key qs)"
proof -
  have ok: "publisher_ok uni blake3 st" using reachable_ok [OF assms(1)] by simp
  show ?thesis
    using cas.serialized [OF ok assms(2)] cas.effective_once [OF ok, of rs] by (simp add: assms(2) distinct_map_filter)
qed

definition sample_history :: "index_publish_request list" where
  "sample_history = [sample_publish_request ''j'', sample_publish_request ''k'', sample_publish_request ''j'']"

lemma sample_history_conflict:
  assumes "st = snd (compare_and_swap ascii_unicode sum_hash (sample_publish_request ''j'') publisher_new)"
  shows "\<not> request_takes_effect (compare_and_swap ascii_unicode sum_hash) publisher_recorded rq_job_key is_published st
      (sample_publish_request ''k'')"
    and "publisher_recorded (snd (compare_and_swap ascii_unicode sum_hash (sample_publish_request ''k'') st))
      (rq_job_key (sample_publish_request ''j'')) \<noteq> None"
proof -
  let ?r = "sample_publish_request ''k''"
  have job: "rq_job_key (sample_publish_request j) = JobKey (ResourceId ''t'') (ResourceId j)" for j
    by (simp add: sample_publish_request_def)
  have st: "publisher_recorded st (JobKey (ResourceId ''t'') (ResourceId ''j'')) \<noteq> None"
    using assms by (simp add: sample_swap publisher_recorded_def bt_get_def)
  have "wv_revision (ix_version (snapshot_of ascii_unicode sum_hash st sample_index_key)) = 1"
    using assms by (simp add: sample_swap snapshot_of_def current_snapshot_def bt_get_def sample_published_version_def)
  moreover have "wv_revision (rq_expected_index_version ?r) = 0"
    by (simp add: sample_publish_request_def snapshot_of_def current_snapshot_def publisher_new_def)
  ultimately have stale: "\<not> same_index_version (ix_version (snapshot_of ascii_unicode sum_hash st (rq_index_key ?r))) (rq_expected_index_version ?r)"
    by (simp add: same_index_version_def sample_publish_request_def)
  have new: "bt_get (pb_publications st) (rq_job_key ?r) = None"
    using assms by (simp add: sample_swap bt_get_def job)
  have "\<exists>v. compare_and_swap ascii_unicode sum_hash ?r st = (Inr (PublishConflict v), record_publication ?r (PublishConflict v) st)"
    by (cases rule: compare_and_swap_cases [of ?r ascii_unicode sum_hash st])
      (use stale new in \<open>auto simp: Let_def sample_publish_request_def sample_index_key_def\<close>)
  then obtain v where cas: "compare_and_swap ascii_unicode sum_hash ?r st = (Inr (PublishConflict v), record_publication ?r (PublishConflict v) st)" ..
  show "\<not> request_takes_effect (compare_and_swap ascii_unicode sum_hash) publisher_recorded rq_job_key is_published st ?r"
    by (simp add: request_takes_effect_def cas)
  have "publisher_ok ascii_unicode sum_hash st"
    using compare_and_swap_ok [OF publisher_new_ok] assms by (metis surjective_pairing)
  then show "publisher_recorded (snd (compare_and_swap ascii_unicode sum_hash ?r st)) (rq_job_key (sample_publish_request ''j'')) \<noteq> None"
    using st cas.recorded_once by (auto simp: job)
qed

lemma sample_history_effective:
  "effective_requests (compare_and_swap ascii_unicode sum_hash) publisher_recorded rq_job_key is_published sample_history publisher_new
     = [sample_publish_request ''j'']"
proof -
  define st where "st = snd (compare_and_swap ascii_unicode sum_hash (sample_publish_request ''j'') publisher_new)"
  note later = sample_history_conflict [OF st_def]
  have "request_takes_effect (compare_and_swap ascii_unicode sum_hash) publisher_recorded rq_job_key is_published publisher_new
      (sample_publish_request ''j'')"
    by (simp add: request_takes_effect_def sample_swap) (simp add: publisher_recorded_def publisher_new_def)
  moreover have "\<not> request_takes_effect (compare_and_swap ascii_unicode sum_hash) publisher_recorded rq_job_key is_published
      (snd (compare_and_swap ascii_unicode sum_hash (sample_publish_request ''k'') st)) (sample_publish_request ''j'')"
    using later(2) by (simp add: request_takes_effect_def)
  ultimately show ?thesis using later(1) by (simp add: sample_history_def st_def)
qed

theorem publications_serialize_witness:
  "publisher_view ascii_unicode sum_hash
     (run_requests (compare_and_swap ascii_unicode sum_hash) sample_history publisher_new) sample_index_key
   = (1, [sample_path \<mapsto> sample_published_record])"
proof -
  have "publisher_view ascii_unicode sum_hash publisher_new sample_index_key = (0, Map.empty)"
    by (simp add: publisher_view_def snapshot_of_def current_snapshot_def publisher_new_def)
  moreover have "filter (\<lambda>r. rq_index_key r = sample_index_key) [sample_publish_request ''j''] = [sample_publish_request ''j'']"
    by (simp add: sample_publish_request_def)
  ultimately show ?thesis
    using publications_serialize [OF publisher_reachable.start, of "[sample_publish_request ''j'']" sample_index_key
        ascii_unicode sum_hash sample_history]
    by (simp add: sample_history_effective request_effect_def sample_publish_request_def sample_published_record_def)
qed

text \<open>
  C8: The answer to a publication is final.  Asked again after any further requests, the publisher gives the same
  answer and changes nothing, so a retry after a lost answer neither publishes twice nor learns a different outcome.
\<close>

theorem publication_answers_final:
  assumes "publisher_reachable uni blake3 st" and "compare_and_swap uni blake3 r st = (Inr out, st')"
    and "st'' = run_requests (compare_and_swap uni blake3) rs st'"
  shows "compare_and_swap uni blake3 r st'' = (Inr out, st'')"
proof -
  have ok: "publisher_ok uni blake3 st" using reachable_ok [OF assms(1)] by simp
  have "r' = r" if "publisher_recorded st (rq_job_key r) = Some (r', o')" for r' o'
    using that assms(2)
    by (cases rule: compare_and_swap_cases [of r uni blake3 st]) (auto simp: publisher_recorded_def)
  from cas.answer_is_final [OF ok assms(2) this] show ?thesis by (simp add: assms(3))
qed

theorem publication_answers_final_witness:
  "\<exists>st. compare_and_swap ascii_unicode sum_hash (sample_publish_request ''j'') st = (Inr (Published sample_published_version), st)
     \<and> fst (publisher_view ascii_unicode sum_hash st sample_index_key) = 1"
proof -
  define st where "st = run_requests (compare_and_swap ascii_unicode sum_hash) []
    (snd (compare_and_swap ascii_unicode sum_hash (sample_publish_request ''j'') publisher_new))"
  have "compare_and_swap ascii_unicode sum_hash (sample_publish_request ''j'') st = (Inr (Published sample_published_version), st)"
    by (rule publication_answers_final [OF publisher_reachable.start, where rs = "[]"])
      (simp_all add: sample_swap st_def)
  moreover have "fst (publisher_view ascii_unicode sum_hash st sample_index_key) = 1"
    by (simp add: st_def sample_swap publisher_view_def snapshot_of_def current_snapshot_def bt_get_def
        sample_published_version_def Let_def)
  ultimately show ?thesis by blast
qed

end
