(* ===== verification/CentralStaging.thy ===== *)
theory CentralStaging
  imports CentralState ObjectTransfer
begin

text \<open>
  Staging and checking of prepared metadata at the central authority: the batch stager and the placement catalog of
  \<open>neoengram-central/src/memory.rs\<close>, and the checks of \<open>validation.rs\<close> that a job must pass before its index delta is
  published.
\<close>

section \<open>Requests and reports\<close>

definition validate_job_spec ::
  "unicode \<Rightarrow> jcs \<Rightarrow> (byte list \<Rightarrow> content_digest) \<Rightarrow> add_job_spec \<Rightarrow> u64 \<Rightarrow> unit central_result" where
  "validate_job_spec uni jcs blake3 s now_ms =
     and_then (central_of_protocol (spec_computed_request_digest uni jcs blake3 s)) (\<lambda>computed.
     if sp_request_digest s \<noteq> computed then Inl CcMetadataInvalid
     else if sp_deadline_unix_ms s \<le> now_ms then Inl CcDeadlineExceeded
     else Inr ())"

definition validate_assignment_target :: "assignment_target \<Rightarrow> u64 \<Rightarrow> unit central_result" where
  "validate_assignment_target t now_ms =
     and_then (try_fold (\<lambda>_ g. if g = 0 then Inl CcGenerationMismatch else Inr ()) ()
       [at_assignment_generation t, at_placement_generation t, at_mount_generation t, at_owner_generation t]) (\<lambda>_.
     case at_lease t of
       None \<Rightarrow> Inr ()
     | Some lease \<Rightarrow>
         if lg_expires_at_unix_ms lease \<le> now_ms then Inl CcDeadlineExceeded
         else (case (lg_mode lease, lg_fencing_token lease) of
             (ExclusiveWrite, Some token) \<Rightarrow> if token > 0 then Inr () else Inl CcGenerationMismatch
           | (ExclusiveWrite, None) \<Rightarrow> Inl CcGenerationMismatch
           | (SharedRead, None) \<Rightarrow> Inr ()
           | (SharedRead, Some _) \<Rightarrow> Inl CcMetadataInvalid))"

definition validate_descriptor_scope :: "add_assignment \<Rightarrow> metadata_batch_descriptor \<Rightarrow> unit central_result" where
  "validate_descriptor_scope a d =
     (let sc = bd_scope d in
      if sc_tenant_id sc \<noteq> as_tenant_id a \<or> sc_project_id sc \<noteq> as_project_id a \<or> sc_artifact_id sc \<noteq> as_artifact_id a
         \<or> sc_workspace_id sc \<noteq> as_workspace_id a \<or> sc_job_id sc \<noteq> as_job_id a
         \<or> \<not> same_index_version (sc_base_index_version sc) (as_expected_index_version a)
      then Inl CcMetadataInvalid else Inr ())"

definition validate_report_identity ::
  "add_assignment \<Rightarrow> resource_id \<Rightarrow> resource_id \<Rightarrow> u64 \<Rightarrow> task_fence \<Rightarrow> unit central_result" where
  "validate_report_identity a job_id assignment_id generation fence =
     (if job_id \<noteq> as_job_id a \<or> assignment_id \<noteq> as_assignment_id a then Inl CcAssignmentMismatch
      else if generation \<noteq> as_assignment_generation a then Inl CcGenerationMismatch
      else if fence \<noteq> as_task_fence a then Inl CcGenerationMismatch
      else Inr ())"

definition validate_terminal_state :: "job_state \<Rightarrow> unit central_result" where
  "validate_terminal_state s =
     (if s \<in> {JsFailed, JsCancelled, JsTimedOut, JsRecoveryRequired, JsRejected} then Inr () else Inl CcInvalidState)"

definition prepared_descriptor ::
  "jcs \<Rightarrow> (byte list \<Rightarrow> content_digest) \<Rightarrow> add_assignment \<Rightarrow> resource_id btree_set \<times> bool list \<Rightarrow> metadata_batch_descriptor
   \<Rightarrow> (resource_id btree_set \<times> bool list) central_result" where
  "prepared_descriptor jcs blake3 a st d =
     (case st of (batch_ids, kinds) \<Rightarrow>
      and_then (central_of_protocol (metadata_descriptor_validate jcs blake3 d)) (\<lambda>_.
      and_then (validate_descriptor_scope a d) (\<lambda>_.
      if bd_batch_id d \<in> set batch_ids then Inl CcMetadataInvalid
      else let kind = metadata_kind_index (bd_kind d) in
        if kinds ! kind then Inl CcMetadataInvalid
        else Inr (bts_insert (bd_batch_id d) batch_ids, kinds[kind := True]))))"

definition validate_prepared ::
  "jcs \<Rightarrow> (byte list \<Rightarrow> content_digest) \<Rightarrow> 'o job_record \<Rightarrow> job_prepared \<Rightarrow> unit central_result" where
  "validate_prepared jcs blake3 job prepared =
     and_then (central_of_protocol (job_prepared_validate jcs blake3 prepared)) (\<lambda>_.
     and_then (ok_or CcInvalidState (jb_assignment job)) (\<lambda>a.
     and_then (validate_report_identity a (jq_job_id prepared) (jq_assignment_id prepared)
       (jq_assignment_generation prepared) (jq_task_fence prepared)) (\<lambda>_.
     if \<not> same_index_version (jq_base_index_version prepared) (as_expected_index_version a) then Inl CcMetadataInvalid
     else
       and_then (try_fold (prepared_descriptor jcs blake3 a) ([], [False, False, False]) (jq_metadata_batches prepared))
         (\<lambda>(_, kinds). if kinds \<noteq> [True, True, True] then Inl CcMetadataInvalid else Inr ()))))"

section \<open>The batch stager\<close>

type_synonym stager_state = "(resource_id \<times> resource_id, staged_metadata_batch) btree_map"

definition stage_descriptor ::
  "jcs \<Rightarrow> (byte list \<Rightarrow> content_digest) \<Rightarrow> metadata_batch_descriptor \<Rightarrow> (stager_state, bool) central_io" where
  "stage_descriptor jcs blake3 d batches =
     (case central_of_protocol (metadata_descriptor_validate jcs blake3 d) of
        Inl e \<Rightarrow> (Inl e, batches)
      | Inr _ \<Rightarrow>
          (let key = (sc_tenant_id (bd_scope d), bd_batch_id d) in
           case bt_get batches key of
             Some existing \<Rightarrow> (if sb_descriptor existing = d then Inr True else Inl CcBatchTampered, batches)
           | None \<Rightarrow> (Inr False, bt_insert key \<lparr> sb_descriptor = d, sb_pages = [] \<rparr> batches)))"

definition stage_page ::
  "jcs \<Rightarrow> (byte list \<Rightarrow> content_digest) \<Rightarrow> metadata_batch_descriptor \<Rightarrow> metadata_batch_page \<Rightarrow> (stager_state, bool) central_io" where
  "stage_page jcs blake3 d page batches =
     (case central_of_protocol (descriptor_validate_page jcs blake3 d page) of
        Inl e \<Rightarrow> (Inl e, batches)
      | Inr _ \<Rightarrow>
          (let key = (sc_tenant_id (bd_scope d), bd_batch_id d) in
           case bt_get batches key of
             None \<Rightarrow> (Inl CcBatchIncomplete, batches)
           | Some staged \<Rightarrow>
               if sb_descriptor staged \<noteq> d then (Inl CcBatchTampered, batches)
               else (case bt_get (sb_pages staged) (mp_page_number page) of
                   Some existing \<Rightarrow> (if existing = page then Inr True else Inl CcBatchTampered, batches)
                 | None \<Rightarrow>
                     (Inr False,
                      bt_insert key (staged \<lparr> sb_pages := bt_insert (mp_page_number page) page (sb_pages staged) \<rparr>) batches))))"

definition stager_get :: "resource_id \<Rightarrow> resource_id \<Rightarrow> stager_state \<Rightarrow> staged_metadata_batch option" where
  "stager_get tenant_id batch_id batches = bt_get batches (tenant_id, batch_id)"

section \<open>The placement catalog\<close>

type_synonym placement_state = "(resource_id \<times> resource_id, object_placement_evidence) btree_map"

definition placement_conflicts :: "object_placement_evidence \<Rightarrow> object_placement_evidence \<Rightarrow> bool" where
  "placement_conflicts e existing \<longleftrightarrow>
     (let r = oe_receipt e; x = oe_receipt existing in
      or_tenant_id x = or_tenant_id r \<and> or_artifact_id x = or_artifact_id r
      \<and> or_storage_volume_id x = or_storage_volume_id r \<and> or_artifact_placement_id x = or_artifact_placement_id r
      \<and> oe_placement_generation existing = oe_placement_generation e
      \<and> or_object_id x = or_object_id r \<and> or_size x \<noteq> or_size r)"

definition record_placement :: "object_placement_evidence \<Rightarrow> (placement_state, unit) central_io" where
  "record_placement e placements =
     (let r = oe_receipt e; key = (or_tenant_id r, or_receipt_id r) in
      case bt_get placements key of
        Some existing \<Rightarrow> (if existing = e then Inr () else Inl CcMetadataInvalid, placements)
      | None \<Rightarrow>
          if list_ex (placement_conflicts e) (bt_values placements) then (Inl CcMetadataInvalid, placements)
          else (Inr (), bt_insert key e placements))"

definition max_by_verified :: "object_placement_evidence option \<Rightarrow> object_placement_evidence \<Rightarrow> object_placement_evidence option" where
  "max_by_verified best e =
     (case best of
        None \<Rightarrow> Some e
      | Some b \<Rightarrow> if or_verified_at_unix_ms (oe_receipt b) \<le> or_verified_at_unix_ms (oe_receipt e) then Some e else Some b)"

definition catalog_object_placement ::
  "resource_id \<Rightarrow> resource_id \<Rightarrow> resource_id \<Rightarrow> resource_id \<Rightarrow> u64 \<Rightarrow> object_id \<Rightarrow> placement_state
   \<Rightarrow> object_placement_evidence option" where
  "catalog_object_placement tenant_id artifact_id volume_id placement_id generation oid placements =
     foldl max_by_verified None
       (filter (\<lambda>e. let r = oe_receipt e in
          or_tenant_id r = tenant_id \<and> or_artifact_id r = artifact_id \<and> or_storage_volume_id r = volume_id
          \<and> or_artifact_placement_id r = placement_id \<and> oe_placement_generation e = generation \<and> or_object_id r = oid)
        (bt_values placements))"

definition artifact_placement_volumes :: "resource_id \<Rightarrow> resource_id \<Rightarrow> placement_state \<Rightarrow> resource_id btree_set" where
  "artifact_placement_volumes tenant_id artifact_id placements =
     bts_collect (map (\<lambda>e. or_storage_volume_id (oe_receipt e))
       (filter (\<lambda>e. or_tenant_id (oe_receipt e) = tenant_id \<and> or_artifact_id (oe_receipt e) = artifact_id)
        (bt_values placements)))"

definition volume_unique_artifact_replicas :: "resource_id \<Rightarrow> resource_id \<Rightarrow> placement_state \<Rightarrow> resource_id btree_set" where
  "volume_unique_artifact_replicas tenant_id volume_id placements =
     bts_collect (map (\<lambda>e. or_artifact_id (oe_receipt e))
       (filter (\<lambda>e. let c = oe_receipt e in
          or_tenant_id c = tenant_id \<and> or_storage_volume_id c = volume_id
          \<and> \<not> list_ex (\<lambda>x. let x = oe_receipt x in
               or_tenant_id x = or_tenant_id c \<and> or_artifact_id x = or_artifact_id c \<and> or_object_id x = or_object_id c
               \<and> or_size x = or_size c \<and> or_storage_volume_id x \<noteq> volume_id) (bt_values placements))
        (bt_values placements)))"

section \<open>Checking staged metadata\<close>

definition insert_object_requirement ::
  "(object_id, u64) btree_map \<Rightarrow> object_id \<Rightarrow> u64 \<Rightarrow> (object_id, u64) btree_map central_result" where
  "insert_object_requirement objects oid sz =
     (if (case bt_get objects oid of None \<Rightarrow> False | Some existing \<Rightarrow> existing \<noteq> sz) then Inl CcMetadataInvalid
      else Inr (bt_insert oid sz objects))"

definition collect_manifest_fragment ::
  "(manifest_id, publication_manifest_fragments) btree_map \<Rightarrow> manifest_record
   \<Rightarrow> (manifest_id, publication_manifest_fragments) btree_map central_result" where
  "collect_manifest_fragment manifests r =
     and_then (map_err (\<lambda>_. CcMetadataInvalid)
       (try_map (\<lambda>c. chunk_new (wc_object_id c) (wc_offset c) (wc_size c)) (mr_chunks r))) (\<lambda>chunks.
     let fragments = (case bt_get manifests (mr_manifest_id r) of
           Some f \<Rightarrow> f
         | None \<Rightarrow> \<lparr> pf_total_size = mr_total_size r, pf_chunking = chunking_of_wire (mr_chunking r), pf_chunks_by_start = [] \<rparr>) in
     if pf_total_size fragments \<noteq> mr_total_size r \<or> pf_chunking fragments \<noteq> chunking_of_wire (mr_chunking r)
     then Inl CcMetadataInvalid
     else if bt_contains (pf_chunks_by_start fragments) (mr_chunk_start r) then Inl CcMetadataInvalid
     else Inr (bt_insert (mr_manifest_id r)
       (fragments \<lparr> pf_chunks_by_start := bt_insert (mr_chunk_start r) chunks (pf_chunks_by_start fragments) \<rparr>) manifests))"

definition assemble_fragment :: "u64 \<times> chunk_ref list \<Rightarrow> u64 \<times> chunk_ref list \<Rightarrow> (u64 \<times> chunk_ref list) central_result" where
  "assemble_fragment st f =
     (case st of (next_chunk_start, chunks) \<Rightarrow> case f of (chunk_start, fragment) \<Rightarrow>
      if chunk_start \<noteq> next_chunk_start then Inl CcMetadataInvalid
      else
        and_then (ok_or CcMetadataInvalid (u64_try_from (length fragment))) (\<lambda>fragment_len.
        and_then (ok_or CcMetadataInvalid (checked_add next_chunk_start fragment_len)) (\<lambda>next_chunk_start.
        Inr (next_chunk_start, chunks @ fragment))))"

definition assemble_manifest ::
  "(byte list \<Rightarrow> content_digest) \<Rightarrow> (manifest_id, u64 \<times> u64) btree_map \<times> (object_id, u64) btree_map
   \<Rightarrow> manifest_id \<times> publication_manifest_fragments
   \<Rightarrow> ((manifest_id, u64 \<times> u64) btree_map \<times> (object_id, u64) btree_map) central_result" where
  "assemble_manifest blake3 st mf =
     (case st of (manifests, objects) \<Rightarrow> case mf of (mid, fragments) \<Rightarrow>
      and_then (try_fold assemble_fragment (0, []) (pf_chunks_by_start fragments)) (\<lambda>(next_chunk_start, chunks).
      and_then (map_err (\<lambda>_. CcMetadataInvalid) (manifest_new (pf_total_size fragments) (pf_chunking fragments) chunks)) (\<lambda>m.
      and_then (map_err (\<lambda>_. CcMetadataInvalid) (manifest_id blake3 m)) (\<lambda>observed.
      if observed \<noteq> mid then Inl CcMetadataInvalid
      else
        and_then (try_fold (\<lambda>objects c. insert_object_requirement objects (cr_object_id c) (cr_size c)) objects (m_chunks m))
          (\<lambda>objects. Inr (bt_insert mid (m_total_size m, next_chunk_start) manifests, objects))))))"

definition assemble_manifest_fragments ::
  "(byte list \<Rightarrow> content_digest) \<Rightarrow> (manifest_id, publication_manifest_fragments) btree_map
   \<Rightarrow> ((manifest_id, u64 \<times> u64) btree_map \<times> (object_id, u64) btree_map) central_result" where
  "assemble_manifest_fragments blake3 fragments = try_fold (assemble_manifest blake3) ([], []) fragments"

primrec index_delta_path :: "index_delta_record \<Rightarrow> logical_path" where
  "index_delta_path (WireUpsert path mid total_size chunk_count ext) = path"
| "index_delta_path (WireDelete path ext) = path"

definition validate_index_delta_order :: "unicode \<Rightarrow> index_delta_record list \<Rightarrow> unit central_result" where
  "validate_index_delta_order uni mutations =
     map_err (\<lambda>_. CcMetadataInvalid) (validate_index_mutation_paths uni (map index_delta_path mutations))"

text \<open>The accumulators of \<open>validate_staged_metadata\<close>.\<close>

record staged_metadata =
  sm_manifest_fragments :: "(manifest_id, publication_manifest_fragments) btree_map"
  sm_receipt_objects :: "(object_id, u64) btree_map"
  sm_receipt_ids :: "resource_id btree_set"
  sm_placements :: "object_receipt_record list"
  sm_mutations :: "index_delta_record list"
  sm_publication_pages :: "metadata_batch_page list"

definition staged_metadata_new :: staged_metadata where
  "staged_metadata_new =
     \<lparr> sm_manifest_fragments = [], sm_receipt_objects = [], sm_receipt_ids = [], sm_placements = [], sm_mutations = [],
       sm_publication_pages = [] \<rparr>"

definition collect_placement ::
  "add_assignment \<Rightarrow> staged_metadata \<Rightarrow> object_receipt_record \<Rightarrow> staged_metadata central_result" where
  "collect_placement a st r =
     (if or_tenant_id r \<noteq> as_tenant_id a \<or> or_artifact_id r \<noteq> as_artifact_id a \<or> or_job_id r \<noteq> as_job_id a
         \<or> or_storage_volume_id r \<noteq> as_storage_volume_id a \<or> or_artifact_placement_id r \<noteq> as_artifact_placement_id a
      then Inl CcMetadataInvalid
      else if or_receipt_id r \<in> set (sm_receipt_ids st) then Inl CcMetadataInvalid
      else if bt_contains (sm_receipt_objects st) (or_object_id r) then Inl CcMetadataInvalid
      else
        and_then (insert_object_requirement (sm_receipt_objects st) (or_object_id r) (or_size r)) (\<lambda>objects.
        Inr (st \<lparr> sm_receipt_objects := objects, sm_receipt_ids := bts_insert (or_receipt_id r) (sm_receipt_ids st),
                  sm_placements := sm_placements st @ [r] \<rparr>)))"

definition collect_staged_page ::
  "jcs \<Rightarrow> (byte list \<Rightarrow> content_digest) \<Rightarrow> add_assignment \<Rightarrow> metadata_batch_descriptor \<Rightarrow> staged_metadata
   \<Rightarrow> metadata_batch_page \<Rightarrow> staged_metadata central_result" where
  "collect_staged_page jcs blake3 a declared st page =
     and_then (central_of_protocol (descriptor_validate_page jcs blake3 declared page)) (\<lambda>_.
     let st = st \<lparr> sm_publication_pages := sm_publication_pages st @ [page] \<rparr> in
     case mp_records page of
       ManifestRecords rs \<Rightarrow>
         and_then (try_fold collect_manifest_fragment (sm_manifest_fragments st) rs) (\<lambda>fragments.
         Inr (st \<lparr> sm_manifest_fragments := fragments \<rparr>))
     | IndexDeltaRecords rs \<Rightarrow> Inr (st \<lparr> sm_mutations := sm_mutations st @ rs \<rparr>)
     | ObjectReceiptRecords rs \<Rightarrow> try_fold (collect_placement a) st rs)"

definition collect_staged_batch ::
  "jcs \<Rightarrow> (byte list \<Rightarrow> content_digest) \<Rightarrow> add_assignment \<Rightarrow> metadata_batch_descriptor \<Rightarrow> staged_metadata
   \<Rightarrow> staged_metadata_batch option \<Rightarrow> staged_metadata central_result" where
  "collect_staged_batch jcs blake3 a declared st found =
     and_then (ok_or CcBatchIncomplete found) (\<lambda>staged.
     if sb_descriptor staged \<noteq> declared then Inl CcBatchTampered
     else if \<not> staged_is_complete staged then Inl CcBatchIncomplete
     else
       try_fold (\<lambda>st n. and_then (ok_or CcBatchIncomplete (bt_get (sb_pages staged) (of_nat n)))
         (collect_staged_page jcs blake3 a declared st)) st [0..<unat (bd_page_count declared)])"

definition delta_in_scope :: "add_assignment \<Rightarrow> logical_path \<Rightarrow> bool" where
  "delta_in_scope a path \<longleftrightarrow> list_ex (\<lambda>sc. sc = path \<or> is_ancestor_of sc path) (as_paths a)"

definition check_staged_upsert ::
  "(manifest_id, u64 \<times> u64) btree_map \<Rightarrow> manifest_id btree_set \<Rightarrow> index_delta_record \<Rightarrow> manifest_id btree_set central_result" where
  "check_staged_upsert manifests referenced mut =
     (case mut of
        WireDelete _ _ \<Rightarrow> Inr referenced
      | WireUpsert _ mid total_size chunk_count _ \<Rightarrow>
          and_then (ok_or CcMetadataInvalid (bt_get manifests mid)) (\<lambda>expected.
          if expected \<noteq> (total_size, chunk_count) then Inl CcMetadataInvalid else Inr (bts_insert mid referenced)))"

text \<open>The checks after the pages have been read.\<close>

definition validate_collected ::
  "unicode \<Rightarrow> jcs \<Rightarrow> (byte list \<Rightarrow> content_digest) \<Rightarrow> add_assignment \<Rightarrow> job_prepared \<Rightarrow> staged_metadata
   \<Rightarrow> validated_metadata central_result" where
  "validate_collected uni jcs blake3 a prepared st =
     (if list_ex (\<lambda>f. pf_chunking f \<noteq> chunking_of_layout (as_data_layout a)) (bt_values (sm_manifest_fragments st))
      then Inl CcMetadataInvalid
      else
        and_then (assemble_manifest_fragments blake3 (sm_manifest_fragments st)) (\<lambda>(manifests, manifest_objects).
        if manifest_objects \<noteq> sm_receipt_objects st then Inl CcMetadataInvalid
        else
          and_then (validate_index_delta_order uni (sm_mutations st)) (\<lambda>_.
          if \<not> as_all a \<and> \<not> list_all (\<lambda>m. delta_in_scope a (index_delta_path m)) (sm_mutations st) then Inl CcMetadataInvalid
          else
            and_then (try_fold (check_staged_upsert manifests) [] (sm_mutations st)) (\<lambda>referenced.
            if bt_keys manifests \<noteq> referenced then Inl CcMetadataInvalid
            else
              and_then (map_err (\<lambda>_. CcMetadataInvalid) (publication_from_pages uni jcs blake3 (sm_publication_pages st)))
                (\<lambda>publication.
              case jq_metadata_batches prepared of
                [] \<Rightarrow> Inl CcMetadataInvalid
              | first # _ \<Rightarrow>
                  and_then (map_err (\<lambda>_. CcMetadataInvalid)
                    (metadata_publication_digest uni blake3 publication (bd_scope first) (jq_result_index_digest prepared)))
                    (\<lambda>observed.
                  if observed \<noteq> jq_publication_digest prepared then Inl CcMetadataInvalid
                  else Inr \<lparr> vm_manifests = mpub_manifests publication, vm_mutations = sm_mutations st,
                             vm_placements = sm_placements st \<rparr>))))))"

definition validate_staged_metadata ::
  "unicode \<Rightarrow> jcs \<Rightarrow> (byte list \<Rightarrow> content_digest)
   \<Rightarrow> (resource_id \<Rightarrow> resource_id \<Rightarrow> ('w, staged_metadata_batch option) central_io) \<Rightarrow> 'o job_record
   \<Rightarrow> ('w, validated_metadata) central_io" where
  "validate_staged_metadata uni jcs blake3 get job =
     io_then (io_of (ok_or CcInvalidState (jb_assignment job))) (\<lambda>a.
     io_then (io_of (ok_or CcInvalidState (jb_prepared job))) (\<lambda>prepared.
     io_then (io_fold (\<lambda>st declared.
         io_then (get (as_tenant_id a) (bd_batch_id declared)) (\<lambda>found.
         io_of (collect_staged_batch jcs blake3 a declared st found)))
       staged_metadata_new (jq_metadata_batches prepared)) (\<lambda>st.
     io_of (validate_collected uni jcs blake3 a prepared st))))"

end
