(* ===== verification/ControlPlane.thy ===== *)
theory ControlPlane
  imports CentralStaging Agent
begin

text \<open>
  The managed add operations of the central control plane (\<open>ControlPlane\<close> of \<open>neoengram-central/src/control_plane.rs\<close>):
  creating and assigning a job, the reports of the agent, staging of metadata, expiry, and finalisation, which freezes
  a publication and swaps the index.  The repositories behind the traits of \<open>ports.rs\<close> are fields of \<open>central_ports\<close>.
\<close>

section \<open>Ports\<close>

datatype central_actor = ActorPrincipal principal_ref | ActorAgent resource_id

datatype central_action =
    ActCreateAddJob | ActQueryJob | ActAssignJob | ActReceiveReport | ActStageMetadataBatch | ActExpireAddJob | ActFinalizeAdd

record authorization_request =
  az_actor :: central_actor
  az_action :: central_action
  az_tenant_id :: resource_id
  az_artifact_id :: resource_id
  az_workspace_id :: resource_id
  az_job_id :: resource_id

datatype audit_kind = AuditJobCreated | AuditAssignmentQueued | AuditReportReceived | AuditMetadataStaged | AuditAddExpired | AuditAddFinalized

record audit_event =
  ae_event_id :: string
  ae_kind :: audit_kind
  ae_job_key :: job_key
  ae_state :: job_state
  ae_occurred_at_unix_ms :: u64

text \<open>What an assignment reads of its operation task.\<close>

record operation_task =
  ot_task_id :: resource_id
  ot_attempt :: u64
  ot_stages :: "(string \<times> u64) list"

text \<open>The placement record of the object placement authority; encoding and state are the constants that an add uses.\<close>

record verified_placement =
  vp_placement_id :: resource_id
  vp_tenant_id :: resource_id
  vp_object_namespace_id :: resource_id
  vp_object_id :: object_id
  vp_size :: u64
  vp_verified_digest :: content_digest
  vp_storage_volume_id :: resource_id
  vp_placement_generation :: u64
  vp_failure_domain :: string

text \<open>
  The outbox carries the assignment of an add; its envelope has no further content.  Reports for jobs of the two other
  operations go to \<open>cp_other_report\<close>.  \<open>cp_problem_text\<close> is the text of a rejection.
\<close>

record ('w, 'o) central_ports =
  cp_now :: "'w \<Rightarrow> u64 \<times> 'w"
  cp_authorize :: "authorization_request \<Rightarrow> ('w, unit) central_io"
  cp_task :: "(resource_id \<Rightarrow> resource_id \<Rightarrow> ('w, operation_task option) central_io) option"
  cp_job_get :: "job_key \<Rightarrow> ('w, 'o job_record option) central_io"
  cp_job_insert_or_load :: "'o job_record \<Rightarrow> ('w, 'o job_insert_outcome) central_io"
  cp_job_replace :: "u64 \<Rightarrow> 'o job_record \<Rightarrow> ('w, 'o job_record) central_io"
  cp_outbox_reserve :: "add_assignment \<Rightarrow> ('w, unit) central_io"
  cp_outbox_publish :: "add_assignment \<Rightarrow> ('w, unit) central_io"
  cp_outbox_retire :: "resource_id \<Rightarrow> resource_id \<Rightarrow> ('w, unit) central_io"
  cp_stage_descriptor :: "metadata_batch_descriptor \<Rightarrow> ('w, bool) central_io"
  cp_stage_page :: "metadata_batch_descriptor \<Rightarrow> metadata_batch_page \<Rightarrow> ('w, bool) central_io"
  cp_staged :: "resource_id \<Rightarrow> resource_id \<Rightarrow> ('w, staged_metadata_batch option) central_io"
  cp_record_placement :: "object_placement_evidence \<Rightarrow> ('w, unit) central_io"
  cp_object_placement :: "resource_id \<Rightarrow> resource_id \<Rightarrow> resource_id \<Rightarrow> resource_id \<Rightarrow> u64 \<Rightarrow> object_id
    \<Rightarrow> ('w, object_placement_evidence option) central_io"
  cp_insert_placement :: "(verified_placement \<Rightarrow> ('w, unit) central_io) option"
  cp_compare_and_swap :: "index_publish_request \<Rightarrow> ('w, index_publish_outcome) central_io"
  cp_audit :: "audit_event \<Rightarrow> ('w, bool) central_io"
  cp_other_report :: "'o job_record \<Rightarrow> resource_id \<Rightarrow> resource_id \<Rightarrow> central_report \<Rightarrow> ('w, 'o job_record \<times> bool) central_io"
  cp_problem_text :: "publish_problem \<Rightarrow> string"

definition io_now :: "('w, 'o) central_ports \<Rightarrow> ('w, u64) central_io" where
  "io_now P w = (case cp_now P w of (t, w') \<Rightarrow> (Inr t, w'))"

abbreviation io_check :: "'e + 'a \<Rightarrow> ('e, 'w, 'b) io \<Rightarrow> ('e, 'w, 'b) io" where
  "io_check r m \<equiv> io_then (io_of r) (\<lambda>_. m)"

abbreviation io_ensure :: "bool \<Rightarrow> 'e \<Rightarrow> ('e, 'w, 'b) io \<Rightarrow> ('e, 'w, 'b) io" where
  "io_ensure b e m \<equiv> io_check (ensure b e) m"

fun decimal :: "nat \<Rightarrow> string" where
  "decimal n = (if n < 10 then [char_of (48 + n)] else decimal (n div 10) @ [char_of (48 + n mod 10)])"

declare decimal.simps [simp del]

section \<open>Shared steps\<close>

definition load_job :: "('w, 'o) central_ports \<Rightarrow> resource_id \<Rightarrow> resource_id \<Rightarrow> ('w, 'o job_record) central_io" where
  "load_job P tenant_id job_id =
     io_then (cp_job_get P (JobKey tenant_id job_id)) (\<lambda>found. io_of (ok_or CcJobNotFound found))"

definition replace_job :: "('w, 'o) central_ports \<Rightarrow> u64 \<Rightarrow> 'o job_record \<Rightarrow> ('w, 'o job_record) central_io" where
  "replace_job P expected job =
     io_then (io_of (ok_or CcInternal (checked_add expected 1))) (\<lambda>nxt.
     cp_job_replace P expected (job \<lparr> jb_resource_version := nxt \<rparr>))"

definition authorize :: "('w, 'o) central_ports \<Rightarrow> central_actor \<Rightarrow> central_action \<Rightarrow> add_job_spec \<Rightarrow> ('w, unit) central_io" where
  "authorize P actor action s =
     cp_authorize P \<lparr> az_actor = actor, az_action = action, az_tenant_id = sp_tenant_id s, az_artifact_id = sp_artifact_id s,
       az_workspace_id = sp_workspace_id s, az_job_id = sp_job_id s \<rparr>"

definition audit_event_id :: "'o job_record \<Rightarrow> string \<Rightarrow> string" where
  "audit_event_id job sfx =
     id_str (sp_tenant_id (jb_spec job)) @ '':'' @ id_str (sp_job_id (jb_spec job)) @ '':''
     @ decimal (unat (jb_resource_version job)) @ '':'' @ sfx"

definition audit_job :: "('w, 'o) central_ports \<Rightarrow> 'o job_record \<Rightarrow> audit_kind \<Rightarrow> string \<Rightarrow> ('w, unit) central_io" where
  "audit_job P job kind sfx =
     io_then (io_now P) (\<lambda>now.
     io_then (cp_audit P \<lparr> ae_event_id = audit_event_id job sfx, ae_kind = kind, ae_job_key = job_record_key job,
       ae_state = jb_state job, ae_occurred_at_unix_ms = now \<rparr>) (\<lambda>_. io_ok ()))"

definition operation_task_fence_fallback ::
  "resource_id option \<Rightarrow> string \<Rightarrow> u64 \<Rightarrow> string \<Rightarrow> task_fence central_result" where
  "operation_task_fence_fallback operation_task_id source_id attempt stage_key =
     and_then (central_of_protocol (resource_id_new (''task-'' @ source_id))) (\<lambda>default_id.
     Inr \<lparr> tf_task_id = (case operation_task_id of Some i \<Rightarrow> i | None \<Rightarrow> default_id), tf_attempt = max attempt 1,
           tf_stage_key = stage_key, tf_stage_attempt = 1, tf_plan_revision = 1 \<rparr>)"

definition operation_task_fence ::
  "('w, 'o) central_ports \<Rightarrow> resource_id option \<Rightarrow> resource_id \<Rightarrow> string \<Rightarrow> u64 \<Rightarrow> string \<Rightarrow> ('w, task_fence) central_io" where
  "operation_task_fence P operation_task_id tenant_id source_id fallback_attempt stage_key =
     (case operation_task_id of
        None \<Rightarrow> io_of (operation_task_fence_fallback None source_id fallback_attempt stage_key)
      | Some task_id \<Rightarrow>
          (case cp_task P of
             None \<Rightarrow> io_of (operation_task_fence_fallback (Some task_id) source_id fallback_attempt stage_key)
           | Some get_task \<Rightarrow>
               io_then (get_task tenant_id task_id) (\<lambda>found.
               io_then (io_of (ok_or CcResourceNotFound found)) (\<lambda>task.
               io_then (io_of (ok_or CcInvalidState (find (\<lambda>(key, _). key = stage_key) (ot_stages task)))) (\<lambda>(key, stage_attempt).
               io_ok \<lparr> tf_task_id = ot_task_id task, tf_attempt = ot_attempt task, tf_stage_key = key,
                       tf_stage_attempt = stage_attempt, tf_plan_revision = 1 \<rparr>)))))"

section \<open>Creating a job\<close>

definition queued_job :: "add_job_spec \<Rightarrow> 'o job_record" where
  "queued_job s =
     \<lparr> jb_spec = s, jb_operation = OperationAdd, jb_other = None, jb_state = JsQueued, jb_resource_version = 1,
       jb_assignment = None, jb_accepted = None, jb_progress = None, jb_prepared = None, jb_publication_candidate = None,
       jb_decision = None, jb_finalized = None, jb_finalized_ack = None, jb_failure = None \<rparr>"

definition persist_add_job ::
  "unicode \<Rightarrow> jcs \<Rightarrow> (byte list \<Rightarrow> content_digest) \<Rightarrow> ('w, 'o) central_ports \<Rightarrow> add_job_spec \<Rightarrow> string
   \<Rightarrow> ('w, 'o job_record \<times> bool) central_io" where
  "persist_add_job uni jcs blake3 P s audit_action =
     io_then (cp_job_get P (JobKey (sp_tenant_id s) (sp_job_id s))) (\<lambda>found.
     case found of
       Some existing \<Rightarrow>
         io_ensure (jb_spec existing = s) CcJobIdReused
           (io_then (audit_job P existing AuditJobCreated audit_action) (\<lambda>_. io_ok (existing, True)))
     | None \<Rightarrow>
         io_then (io_now P) (\<lambda>now.
         io_check (validate_job_spec uni jcs blake3 s now)
           (io_then (cp_job_insert_or_load P (queued_job s)) (\<lambda>outcome.
            io_then (case outcome of
                JobInserted job \<Rightarrow> io_ok (job, False)
              | JobExisting existing \<Rightarrow> io_ensure (jb_spec existing = s) CcJobIdReused (io_ok (existing, True))) (\<lambda>(job, replayed).
            io_then (audit_job P job AuditJobCreated audit_action) (\<lambda>_. io_ok (job, replayed)))))))"

definition create_add_job ::
  "unicode \<Rightarrow> jcs \<Rightarrow> (byte list \<Rightarrow> content_digest) \<Rightarrow> ('w, 'o) central_ports \<Rightarrow> principal_ref \<Rightarrow> add_job_spec
   \<Rightarrow> ('w, 'o job_record \<times> bool) central_io" where
  "create_add_job uni jcs blake3 P actor s =
     io_then (authorize P (ActorPrincipal actor) ActCreateAddJob s) (\<lambda>_. persist_add_job uni jcs blake3 P s ''create'')"

definition create_precommit_add_job ::
  "unicode \<Rightarrow> jcs \<Rightarrow> (byte list \<Rightarrow> content_digest) \<Rightarrow> ('w, 'o) central_ports \<Rightarrow> add_job_spec
   \<Rightarrow> ('w, 'o job_record \<times> bool) central_io" where
  "create_precommit_add_job uni jcs blake3 P s =
     io_ensure (pn_kind (sp_principal s) = PrincipalSystem \<and> id_str (pn_id (sp_principal s)) = ''precommit-scanner'')
       CcProtocolInvalid (persist_add_job uni jcs blake3 P s ''precommit-create'')"

definition query_job :: "('w, 'o) central_ports \<Rightarrow> principal_ref \<Rightarrow> resource_id \<Rightarrow> resource_id \<Rightarrow> ('w, 'o job_record) central_io" where
  "query_job P actor tenant_id job_id =
     io_then (load_job P tenant_id job_id) (\<lambda>job.
     io_else (authorize P (ActorPrincipal actor) ActQueryJob (jb_spec job))
       (\<lambda>e. io_err (if e = CcUnauthorized then CcJobNotFound else e)) (\<lambda>_. io_ok job))"

section \<open>Assigning a job\<close>

definition assignment_of :: "add_job_spec \<Rightarrow> task_fence \<Rightarrow> assignment_target \<Rightarrow> add_assignment" where
  "assignment_of s fence t =
     \<lparr> as_job_id = sp_job_id s, as_task_fence = fence, as_assignment_id = at_assignment_id t,
       as_assignment_generation = at_assignment_generation t, as_agent_id = at_agent_id t, as_principal = sp_principal s,
       as_tenant_id = sp_tenant_id s, as_project_id = sp_project_id s, as_artifact_id = sp_artifact_id s,
       as_workspace_id = sp_workspace_id s, as_edge_cluster_id = at_edge_cluster_id t,
       as_storage_volume_id = at_storage_volume_id t, as_artifact_placement_id = at_artifact_placement_id t,
       as_placement_generation = at_placement_generation t, as_agent_mount_id = at_agent_mount_id t,
       as_mount_generation = at_mount_generation t, as_owner_generation = at_owner_generation t,
       as_expected_index_version = sp_expected_index_version s, as_data_layout = sp_data_layout s,
       as_max_whole_file_bytes = at_max_whole_file_bytes t, as_lease = at_lease t, as_request_digest = sp_request_digest s,
       as_deadline_unix_ms = sp_deadline_unix_ms s, as_paths = sp_paths s, as_all = sp_all s, as_extensions = sp_extensions s \<rparr>"

definition publish_assignment ::
  "('w, 'o) central_ports \<Rightarrow> 'o job_record \<Rightarrow> add_assignment \<Rightarrow> ('w, unit) central_io" where
  "publish_assignment P job a =
     io_then (cp_outbox_publish P a) (\<lambda>_. audit_job P job AuditAssignmentQueued ''assignment'')"

definition assign_job ::
  "('w, 'o) central_ports \<Rightarrow> principal_ref \<Rightarrow> resource_id \<Rightarrow> resource_id \<Rightarrow> assignment_target
   \<Rightarrow> ('w, 'o job_record \<times> add_assignment \<times> bool) central_io" where
  "assign_job P actor tenant_id job_id target =
     io_then (load_job P tenant_id job_id) (\<lambda>job.
     io_then (authorize P (ActorPrincipal actor) ActAssignJob (jb_spec job)) (\<lambda>_.
     io_then (operation_task_fence P (sp_operation_task_id (jb_spec job)) (sp_tenant_id (jb_spec job))
       (id_str (sp_job_id (jb_spec job))) 1 ''scan_changes'') (\<lambda>fence.
     let a = assignment_of (jb_spec job) fence target in
     case jb_assignment job of
       Some existing \<Rightarrow>
         io_ensure (existing = a) CcJobIdReused
           (io_then (cp_outbox_reserve P a) (\<lambda>_.
            io_then (publish_assignment P job a) (\<lambda>_. io_ok (job, a, True))))
     | None \<Rightarrow>
         io_then (io_now P) (\<lambda>now.
         io_check (validate_assignment_target target now)
           (io_then (io_now P) (\<lambda>now.
            io_ensure (now < sp_deadline_unix_ms (jb_spec job)) CcDeadlineExceeded
              (io_ensure (jb_state job = JsQueued) CcInvalidState
                (io_then (cp_outbox_reserve P a) (\<lambda>_.
                 io_else (replace_job P (jb_resource_version job) (job \<lparr> jb_assignment := Some a, jb_state := JsAssigned \<rparr>))
                   (\<lambda>e. if e = CcConcurrentUpdate
                     then io_then (load_job P tenant_id job_id) (\<lambda>persisted.
                       io_ensure (jb_assignment persisted = Some a) e
                         (io_then (cp_outbox_reserve P a) (\<lambda>_.
                          io_then (publish_assignment P persisted a) (\<lambda>_. io_ok (persisted, a, True)))))
                     else io_err e)
                   (\<lambda>job. io_then (publish_assignment P job a) (\<lambda>_. io_ok (job, a, False))))))))))))"

section \<open>Reports of the agent\<close>

text \<open>The decision and its acknowledgement record, for an assignment.\<close>

definition decision_for :: "add_assignment \<Rightarrow> publish_decision \<Rightarrow> job_state \<Rightarrow> job_decision" where
  "decision_for a d s =
     \<lparr> jd_job_id = as_job_id a, jd_task_fence = as_task_fence a, jd_assignment_id = as_assignment_id a,
       jd_assignment_generation = as_assignment_generation a, jd_decision_generation = 1, jd_decision = d,
       jd_final_state = s, jd_extensions = [] \<rparr>"

definition finalized_for :: "add_assignment \<Rightarrow> job_state \<Rightarrow> u64 \<Rightarrow> job_finalized" where
  "finalized_for a s now =
     \<lparr> jz_job_id = as_job_id a, jz_task_fence = as_task_fence a, jz_assignment_id = as_assignment_id a,
       jz_assignment_generation = as_assignment_generation a, jz_decision_generation = 1, jz_final_state = s,
       jz_finalized_at_unix_ms = now, jz_extensions = [] \<rparr>"

text \<open>A report either is a replay (None) or gives the next record.\<close>

definition apply_accepted :: "'o job_record \<Rightarrow> add_assignment \<Rightarrow> job_accepted \<Rightarrow> 'o job_record option central_result" where
  "apply_accepted job a r =
     and_then (central_of_protocol (job_accepted_validate r)) (\<lambda>_.
     and_then (validate_report_identity a (ja_job_id r) (ja_assignment_id r) (ja_assignment_generation r) (ja_task_fence r)) (\<lambda>_.
     if ja_request_digest r \<noteq> as_request_digest a then Inl CcAssignmentMismatch
     else case jb_accepted job of
       Some existing \<Rightarrow> if existing = r then Inr None else Inl CcAssignmentMismatch
     | None \<Rightarrow>
         if jb_state job \<noteq> JsAssigned then Inl CcInvalidState
         else Inr (Some (job \<lparr> jb_accepted := Some r, jb_state := JsAccepted \<rparr>))))"

definition apply_progress :: "'o job_record \<Rightarrow> add_assignment \<Rightarrow> job_progress \<Rightarrow> 'o job_record option central_result" where
  "apply_progress job a r =
     and_then (central_of_protocol (job_progress_validate r)) (\<lambda>_.
     and_then (validate_report_identity a (jp_job_id r) (jp_assignment_id r) (jp_assignment_generation r) (jp_task_fence r)) (\<lambda>_.
     if jp_state r \<noteq> JsRunning then Inl CcInvalidState
     else if jb_progress job = Some r then Inr None
     else if jb_state job \<notin> {JsAccepted, JsRunning} then Inl CcInvalidState
     else Inr (Some (job \<lparr> jb_progress := Some r, jb_state := JsRunning \<rparr>))))"

definition apply_prepared ::
  "jcs \<Rightarrow> (byte list \<Rightarrow> content_digest) \<Rightarrow> 'o job_record \<Rightarrow> job_prepared \<Rightarrow> 'o job_record option central_result" where
  "apply_prepared jcs blake3 job r =
     and_then (validate_prepared jcs blake3 job r) (\<lambda>_.
     case jb_prepared job of
       Some existing \<Rightarrow> if existing = r then Inr None else Inl CcBatchTampered
     | None \<Rightarrow>
         if jb_state job \<noteq> JsRunning then Inl CcInvalidState
         else Inr (Some (job \<lparr> jb_prepared := Some r, jb_state := JsPrepared \<rparr>)))"

definition apply_finalized :: "'o job_record \<Rightarrow> add_assignment \<Rightarrow> job_finalized \<Rightarrow> 'o job_record option central_result" where
  "apply_finalized job a r =
     and_then (central_of_protocol (job_finalized_validate r)) (\<lambda>_.
     and_then (validate_report_identity a (jz_job_id r) (jz_assignment_id r) (jz_assignment_generation r) (jz_task_fence r)) (\<lambda>_.
     and_then (ok_or CcInvalidState (jb_finalized job)) (\<lambda>finalized.
     if jz_decision_generation r \<noteq> jz_decision_generation finalized \<or> jz_final_state r \<noteq> jz_final_state finalized
     then Inl CcGenerationMismatch
     else case jb_finalized_ack job of
       Some existing \<Rightarrow> if existing = r then Inr None else Inl CcAssignmentMismatch
     | None \<Rightarrow> Inr (Some (job \<lparr> jb_finalized_ack := Some r \<rparr>)))))"

definition apply_failed ::
  "'o job_record \<Rightarrow> add_assignment \<Rightarrow> resource_id \<Rightarrow> job_failed \<Rightarrow> 'o job_record option central_result" where
  "apply_failed job a tenant_id r =
     and_then (central_of_protocol (job_failed_validate r)) (\<lambda>_.
     if jf_tenant_id r \<noteq> tenant_id then Inl CcAssignmentMismatch
     else
       and_then (validate_report_identity a (jf_job_id r) (jf_assignment_id r) (jf_assignment_generation r) (jf_task_fence r)) (\<lambda>_.
       and_then (validate_terminal_state (jf_final_state r)) (\<lambda>_.
       if jb_state job = JsPublishing then Inl CcInvalidState
       else case jb_failure job of
         Some existing \<Rightarrow> if existing = r then Inr None else Inl CcAssignmentMismatch
       | None \<Rightarrow>
           if job_state_is_terminal (jb_state job) then Inl CcInvalidState
           else
             let decision = decision_for a (DecReject (jf_error r) []) (jf_final_state r);
                 finalized = finalized_for a (jf_final_state r) (jf_failed_at_unix_ms r) in
             and_then (central_of_protocol (job_decision_validate decision)) (\<lambda>_.
             and_then (central_of_protocol (job_finalized_validate finalized)) (\<lambda>_.
             Inr (Some (job \<lparr> jb_state := jf_final_state r, jb_decision := Some decision, jb_finalized := Some finalized,
                              jb_failure := Some r \<rparr>)))))))"

definition apply_report ::
  "jcs \<Rightarrow> (byte list \<Rightarrow> content_digest) \<Rightarrow> 'o job_record \<Rightarrow> add_assignment \<Rightarrow> resource_id \<Rightarrow> central_report
   \<Rightarrow> 'o job_record option central_result" where
  "apply_report jcs blake3 job a tenant_id report =
     (case report of
        CentralAccepted r \<Rightarrow> apply_accepted job a r
      | CentralProgress r \<Rightarrow> apply_progress job a r
      | CentralPrepared r \<Rightarrow> apply_prepared jcs blake3 job r
      | CentralFinalized r \<Rightarrow> apply_finalized job a r
      | CentralFailed r \<Rightarrow> apply_failed job a tenant_id r)"

definition receive_report ::
  "jcs \<Rightarrow> (byte list \<Rightarrow> content_digest) \<Rightarrow> ('w, 'o) central_ports \<Rightarrow> resource_id \<Rightarrow> resource_id \<Rightarrow> central_report
   \<Rightarrow> ('w, 'o job_record \<times> bool) central_io" where
  "receive_report jcs blake3 P tenant_id agent_id report =
     io_then (load_job P tenant_id (report_job_id report)) (\<lambda>job.
     if jb_operation job \<noteq> OperationAdd then cp_other_report P job tenant_id agent_id report
     else
       io_then (authorize P (ActorAgent agent_id) ActReceiveReport (jb_spec job)) (\<lambda>_.
       io_then (io_of (ok_or CcInvalidState (jb_assignment job))) (\<lambda>a.
       io_ensure (as_agent_id a = agent_id) CcAssignmentMismatch
         (io_then (io_of (apply_report jcs blake3 job a tenant_id report)) (\<lambda>nxt.
          io_then (case nxt of
              None \<Rightarrow> io_ok (job, True)
            | Some job' \<Rightarrow> io_then (replace_job P (jb_resource_version job) job') (\<lambda>job. io_ok (job, False))) (\<lambda>(job, replayed).
          io_then (cp_outbox_retire P tenant_id (as_assignment_id a)) (\<lambda>_.
          io_then (audit_job P job AuditReportReceived ''report'') (\<lambda>_. io_ok (job, replayed)))))))))"

section \<open>Staging metadata\<close>

record stage_result =
  sr_batch_id :: resource_id
  sr_complete :: bool
  sr_replayed :: bool

primrec stage_audit_suffix :: "metadata_batch_submission \<Rightarrow> string" where
  "stage_audit_suffix (SubmitDescriptor d) = ''batch-'' @ id_str (bd_batch_id d) @ ''-descriptor''"
| "stage_audit_suffix (SubmitPage p) = ''batch-'' @ id_str (mp_batch_id p) @ ''-page-'' @ decimal (unat (mp_page_number p))"

definition stage_metadata_batch ::
  "jcs \<Rightarrow> (byte list \<Rightarrow> content_digest) \<Rightarrow> ('w, 'o) central_ports \<Rightarrow> resource_id \<Rightarrow> resource_id \<Rightarrow> resource_id
   \<Rightarrow> metadata_batch_submission \<Rightarrow> ('w, stage_result) central_io" where
  "stage_metadata_batch jcs blake3 P tenant_id job_id agent_id submission =
     io_then (load_job P tenant_id job_id) (\<lambda>job.
     io_then (authorize P (ActorAgent agent_id) ActStageMetadataBatch (jb_spec job)) (\<lambda>_.
     io_ensure (jb_state job \<in> {JsPrepared, JsPublishing, JsSucceeded, JsConflicted}) CcInvalidState
       (io_then (io_of (ok_or CcInvalidState (jb_assignment job))) (\<lambda>a.
        io_ensure (as_agent_id a = agent_id) CcAssignmentMismatch
          (io_then (io_of (ok_or CcInvalidState (jb_prepared job))) (\<lambda>prepared.
           let batch_id = submission_batch_id submission in
           io_then (io_of (ok_or CcBatchUndeclared (find (\<lambda>d. bd_batch_id d = batch_id) (jq_metadata_batches prepared)))) (\<lambda>declared.
           io_check (validate_descriptor_scope a declared)
             (io_then (case submission of
                 SubmitDescriptor d \<Rightarrow> io_ensure (d = declared) CcBatchTampered (cp_stage_descriptor P d)
               | SubmitPage page \<Rightarrow>
                   io_check (central_of_protocol (descriptor_validate_page jcs blake3 declared page))
                     (cp_stage_page P declared page)) (\<lambda>replayed.
              io_then (cp_staged P (as_tenant_id a) batch_id) (\<lambda>found.
              io_then (audit_job P job AuditMetadataStaged (stage_audit_suffix submission)) (\<lambda>_.
              io_ok \<lparr> sr_batch_id = batch_id,
                      sr_complete = (case found of None \<Rightarrow> False | Some batch \<Rightarrow> staged_is_complete batch),
                      sr_replayed = replayed \<rparr>)))))))))))"

section \<open>Expiry\<close>

record 'o expire_result =
  er_job :: "'o job_record"
  er_decision :: "job_decision option"
  er_finalized :: "job_finalized option"
  er_replayed :: bool

definition is_decided_reject :: "publish_decision \<Rightarrow> bool" where
  "is_decided_reject d \<longleftrightarrow> (case d of DecReject _ _ \<Rightarrow> True | _ \<Rightarrow> False)"

definition timed_out_consistent :: "'o job_record \<Rightarrow> unit central_result" where
  "timed_out_consistent job =
     (case (jb_assignment job, jb_decision job, jb_finalized job) of
        (None, None, None) \<Rightarrow> Inr ()
      | (Some a, Some d, Some z) \<Rightarrow>
          and_then (central_of_protocol (job_decision_validate d)) (\<lambda>_.
          and_then (central_of_protocol (job_finalized_validate z)) (\<lambda>_.
          and_then (validate_report_identity a (jd_job_id d) (jd_assignment_id d) (jd_assignment_generation d) (jd_task_fence d)) (\<lambda>_.
          if \<not> is_decided_reject (jd_decision d) \<or> jd_final_state d \<noteq> JsTimedOut \<or> jz_job_id z \<noteq> jd_job_id d
             \<or> jz_assignment_id z \<noteq> jd_assignment_id d \<or> jz_assignment_generation z \<noteq> jd_assignment_generation d
             \<or> jz_decision_generation z \<noteq> jd_decision_generation d \<or> jz_final_state z \<noteq> JsTimedOut
          then Inl CcInternal else Inr ())))
      | _ \<Rightarrow> Inl CcInternal)"

definition retire_assignment :: "('w, 'o) central_ports \<Rightarrow> resource_id \<Rightarrow> 'o job_record \<Rightarrow> ('w, unit) central_io" where
  "retire_assignment P tenant_id job =
     (case jb_assignment job of None \<Rightarrow> io_ok () | Some a \<Rightarrow> cp_outbox_retire P tenant_id (as_assignment_id a))"

definition EXPIRED_MESSAGE :: string where
  "EXPIRED_MESSAGE = ''managed Add deadline elapsed before publication''"

definition control_error_for :: "string \<Rightarrow> string \<Rightarrow> control_error central_result" where
  "control_error_for code message =
     and_then (central_of_protocol (error_code_new code)) (\<lambda>c.
     Inr \<lparr> ce_code = c, ce_message = message, ce_retryable = False, ce_retry_after_ms = None, ce_extensions = [] \<rparr>)"

definition expiry_decision :: "'o job_record \<Rightarrow> u64 \<Rightarrow> (job_decision option \<times> job_finalized option) central_result" where
  "expiry_decision job now =
     (case jb_assignment job of
        Some a \<Rightarrow>
          if jb_state job \<noteq> JsQueued
          then and_then (control_error_for (central_as_str CcDeadlineExceeded) EXPIRED_MESSAGE) (\<lambda>error.
            Inr (Some (decision_for a (DecReject error []) JsTimedOut), Some (finalized_for a JsTimedOut now)))
          else Inl CcInternal
      | None \<Rightarrow> if jb_state job = JsQueued then Inr (None, None) else Inl CcInternal)"

definition expire_add_job ::
  "('w, 'o) central_ports \<Rightarrow> principal_ref \<Rightarrow> resource_id \<Rightarrow> resource_id \<Rightarrow> ('w, 'o expire_result) central_io" where
  "expire_add_job P actor tenant_id job_id =
     io_then (load_job P tenant_id job_id) (\<lambda>job.
     io_then (authorize P (ActorPrincipal actor) ActExpireAddJob (jb_spec job)) (\<lambda>_.
     if jb_state job = JsTimedOut
     then io_check (timed_out_consistent job)
       (io_then (retire_assignment P tenant_id job) (\<lambda>_.
        io_then (audit_job P job AuditAddExpired ''expire'') (\<lambda>_.
        io_ok \<lparr> er_job = job, er_decision = jb_decision job, er_finalized = jb_finalized job, er_replayed = True \<rparr>)))
     else
       io_ensure (jb_state job \<in> {JsQueued, JsAssigned, JsAccepted, JsRunning, JsPrepared, JsCancelRequested}) CcInvalidState
         (io_then (io_now P) (\<lambda>now.
          io_ensure (sp_deadline_unix_ms (jb_spec job) \<le> now) CcInvalidState
            (io_ensure (jb_decision job = None \<and> jb_finalized job = None) CcInternal
              (io_then (io_of (expiry_decision job now)) (\<lambda>(decision, finalized).
               io_check (case decision of None \<Rightarrow> Inr () | Some d \<Rightarrow> central_of_protocol (job_decision_validate d))
                 (io_check (case finalized of None \<Rightarrow> Inr () | Some z \<Rightarrow> central_of_protocol (job_finalized_validate z))
                   (io_then (replace_job P (jb_resource_version job)
                      (job \<lparr> jb_state := JsTimedOut, jb_decision := decision, jb_finalized := finalized \<rparr>)) (\<lambda>job.
                    io_then (retire_assignment P tenant_id job) (\<lambda>_.
                    io_then (audit_job P job AuditAddExpired ''expire'') (\<lambda>_.
                    io_ok \<lparr> er_job = job, er_decision = decision, er_finalized = finalized, er_replayed = False \<rparr>))))))))))))"

section \<open>Finalisation\<close>

record 'o finalize_result =
  fz_job :: "'o job_record"
  fz_decision :: job_decision
  fz_finalized :: job_finalized
  fz_replayed :: bool

definition validate_frozen_publication :: "'o job_record \<Rightarrow> publication_candidate \<Rightarrow> unit central_result" where
  "validate_frozen_publication job c =
     and_then (ok_or CcInternal (jb_prepared job)) (\<lambda>prepared.
     if pc_expected_index_version c \<noteq> sp_expected_index_version (jb_spec job)
        \<or> pc_result_index_digest c \<noteq> jq_result_index_digest prepared
        \<or> pc_publication_digest c \<noteq> jq_publication_digest prepared
     then Inl CcInternal else Inr ())"

definition verified_placement_of ::
  "(byte list \<Rightarrow> content_digest) \<Rightarrow> add_assignment \<Rightarrow> object_receipt_record \<Rightarrow> verified_placement central_result" where
  "verified_placement_of blake3 a r =
     (let nul = [CHR 0x00];
          seed = ''managed-add-v2'' @ nul @ id_str (as_tenant_id a) @ nul @ id_str (as_artifact_id a) @ nul
            @ id_str (as_artifact_placement_id a) @ nul @ digest_to_hex (object_digest (or_object_id r)) in
      and_then (map_err (\<lambda>_. CcMetadataInvalid)
        (resource_id_new (''managed-add-v2-'' @ take 32 (digest_to_hex (blake3 (str_bytes seed)))))) (\<lambda>placement_id.
      Inr \<lparr> vp_placement_id = placement_id, vp_tenant_id = as_tenant_id a, vp_object_namespace_id = as_artifact_id a,
            vp_object_id = or_object_id r, vp_size = or_size r, vp_verified_digest = object_digest (or_object_id r),
            vp_storage_volume_id = as_storage_volume_id a, vp_placement_generation = as_placement_generation a,
            vp_failure_domain = ''volume:'' @ id_str (as_storage_volume_id a) \<rparr>))"

definition place_receipt ::
  "(byte list \<Rightarrow> content_digest) \<Rightarrow> ('w, 'o) central_ports \<Rightarrow> add_assignment \<Rightarrow> unit \<Rightarrow> object_receipt_record
   \<Rightarrow> ('w, unit) central_io" where
  "place_receipt blake3 P a u r =
     io_then (cp_record_placement P \<lparr> oe_receipt = r, oe_placement_generation = as_placement_generation a \<rparr>) (\<lambda>_.
     io_then (case cp_insert_placement P of
         None \<Rightarrow> io_ok ()
       | Some insert_placement \<Rightarrow> io_then (io_of (verified_placement_of blake3 a r)) insert_placement) (\<lambda>_.
     io_then (cp_object_placement P (as_tenant_id a) (as_artifact_id a) (as_storage_volume_id a)
       (as_artifact_placement_id a) (as_placement_generation a) (or_object_id r)) (\<lambda>found.
     io_then (io_of (ok_or CcObjectNotDurable found)) (\<lambda>placed.
     io_ensure (or_size (oe_receipt placed) = or_size r) CcObjectNotDurable (io_ok ())))))"

definition freeze_publication ::
  "unicode \<Rightarrow> jcs \<Rightarrow> (byte list \<Rightarrow> content_digest) \<Rightarrow> ('w, 'o) central_ports \<Rightarrow> 'o job_record \<Rightarrow> add_assignment
   \<Rightarrow> ('w, 'o job_record \<times> publication_candidate) central_io" where
  "freeze_publication uni jcs blake3 P job a =
     io_ensure (jb_publication_candidate job = None) CcInternal
       (io_then (validate_staged_metadata uni jcs blake3 (cp_staged P) job) (\<lambda>metadata.
        io_then (io_fold (place_receipt blake3 P a) () (vm_placements metadata)) (\<lambda>_.
        io_then (io_now P) (\<lambda>now.
        io_ensure (now < sp_deadline_unix_ms (jb_spec job)) CcDeadlineExceeded
          (io_ensure (case as_lease a of None \<Rightarrow> True | Some lease \<Rightarrow> now < lg_expires_at_unix_ms lease) CcDeadlineExceeded
            (io_then (io_of (ok_or CcInternal (jb_prepared job))) (\<lambda>prepared.
             let c = \<lparr> pc_expected_index_version = sp_expected_index_version (jb_spec job),
                       pc_result_index_digest = jq_result_index_digest prepared,
                       pc_publication_digest = jq_publication_digest prepared,
                       pc_manifests = vm_manifests metadata, pc_mutations = vm_mutations metadata \<rparr> in
             io_then (replace_job P (jb_resource_version job)
               (job \<lparr> jb_state := JsPublishing, jb_publication_candidate := Some c \<rparr>)) (\<lambda>job. io_ok (job, c)))))))))"

definition bounded_control_error_message :: "string \<Rightarrow> string" where
  "bounded_control_error_message message =
     (if is_blank message then ''Index publication was rejected by the publisher''
      else if length message \<le> 4096 then message
      else take (boundary_before message (4096 - 3)) message @ ''...'')"

definition digest_mismatch_message :: "content_digest \<Rightarrow> content_digest \<Rightarrow> string" where
  "digest_mismatch_message expected observed =
     ''published Index digest '' @ digest_to_hex observed @ '' differs from prepared result '' @ digest_to_hex expected"

definition publish_decision_of ::
  "(publish_problem \<Rightarrow> string) \<Rightarrow> index_publish_outcome \<Rightarrow> (job_state \<times> publish_decision) central_result" where
  "publish_decision_of problem_text outcome =
     (case outcome of
        Published v \<Rightarrow> Inr (JsSucceeded, DecPublish v [])
      | PublishConflict v \<Rightarrow> Inr (JsConflicted, DecConflict v [])
      | PublishRejected (ResultDigestMismatch expected observed) \<Rightarrow>
          and_then (control_error_for ''INDEX_RESULT_DIGEST_MISMATCH'' (digest_mismatch_message expected observed)) (\<lambda>e.
          Inr (JsFailed, DecReject e []))
      | PublishRejected (InvalidMetadata problem) \<Rightarrow>
          and_then (control_error_for (central_as_str CcMetadataInvalid) (bounded_control_error_message (problem_text problem))) (\<lambda>e.
          Inr (JsFailed, DecReject e []))
      | PublishRejected RevisionExhausted \<Rightarrow>
          and_then (control_error_for ''INDEX_REVISION_EXHAUSTED'' ''Index revision reached its maximum value'') (\<lambda>e.
          Inr (JsFailed, DecReject e [])))"

definition publish_request_of :: "'o job_record \<Rightarrow> publication_candidate \<Rightarrow> index_publish_request" where
  "publish_request_of job c =
     \<lparr> rq_job_key = job_record_key job, rq_index_key = job_index_key job,
       rq_expected_index_version = pc_expected_index_version c, rq_expected_result_digest = pc_result_index_digest c,
       rq_manifests = pc_manifests c, rq_mutations = pc_mutations c \<rparr>"

definition publish_frozen ::
  "('w, 'o) central_ports \<Rightarrow> 'o job_record \<Rightarrow> add_assignment \<Rightarrow> publication_candidate \<Rightarrow> bool
   \<Rightarrow> ('w, 'o finalize_result) central_io" where
  "publish_frozen P job a c resumed =
     io_then (cp_compare_and_swap P (publish_request_of job c)) (\<lambda>outcome.
     io_then (io_of (publish_decision_of (cp_problem_text P) outcome)) (\<lambda>(s, d).
     let decision = decision_for a d s in
     io_then (io_now P) (\<lambda>now.
     let finalized = finalized_for a s now in
     io_check (central_of_protocol (job_decision_validate decision))
       (io_check (central_of_protocol (job_finalized_validate finalized))
         (io_then (replace_job P (jb_resource_version job)
            (job \<lparr> jb_state := s, jb_decision := Some decision, jb_finalized := Some finalized \<rparr>)) (\<lambda>job.
          io_then (audit_job P job AuditAddFinalized ''finalize'') (\<lambda>_.
          io_ok \<lparr> fz_job = job, fz_decision = decision, fz_finalized = finalized, fz_replayed = resumed \<rparr>)))))))"

definition finalize_loaded ::
  "unicode \<Rightarrow> jcs \<Rightarrow> (byte list \<Rightarrow> content_digest) \<Rightarrow> ('w, 'o) central_ports \<Rightarrow> 'o job_record \<Rightarrow> ('w, 'o finalize_result) central_io" where
  "finalize_loaded uni jcs blake3 P job =
     (case (jb_decision job, jb_finalized job, jb_state job \<in> {JsSucceeded, JsConflicted, JsFailed}) of
        (Some d, Some z, True) \<Rightarrow>
          io_then (audit_job P job AuditAddFinalized ''finalize'') (\<lambda>_.
          io_ok \<lparr> fz_job = job, fz_decision = d, fz_finalized = z, fz_replayed = True \<rparr>)
      | _ \<Rightarrow>
          io_ensure (jb_state job \<in> {JsPrepared, JsPublishing}) CcInvalidState
            (io_then (io_of (ok_or CcInternal (jb_assignment job))) (\<lambda>a.
             if jb_state job = JsPublishing
             then io_then (io_of (ok_or CcInternal (jb_publication_candidate job))) (\<lambda>c.
               io_check (validate_frozen_publication job c) (publish_frozen P job a c True))
             else io_then (freeze_publication uni jcs blake3 P job a) (\<lambda>(job, c). publish_frozen P job a c False))))"

definition finalize_add ::
  "unicode \<Rightarrow> jcs \<Rightarrow> (byte list \<Rightarrow> content_digest) \<Rightarrow> ('w, 'o) central_ports \<Rightarrow> principal_ref \<Rightarrow> resource_id \<Rightarrow> resource_id
   \<Rightarrow> ('w, 'o finalize_result) central_io" where
  "finalize_add uni jcs blake3 P actor tenant_id job_id =
     io_then (load_job P tenant_id job_id) (\<lambda>job.
     io_then (authorize P (ActorPrincipal actor) ActFinalizeAdd (jb_spec job)) (\<lambda>_.
     finalize_loaded uni jcs blake3 P job))"

definition finalize_prepared ::
  "unicode \<Rightarrow> jcs \<Rightarrow> (byte list \<Rightarrow> content_digest) \<Rightarrow> ('w, 'o) central_ports \<Rightarrow> resource_id \<Rightarrow> resource_id
   \<Rightarrow> ('w, 'o finalize_result) central_io" where
  "finalize_prepared uni jcs blake3 P tenant_id job_id =
     io_then (load_job P tenant_id job_id) (\<lambda>job.
     io_ensure (jb_state job = JsPrepared) CcInvalidState (finalize_loaded uni jcs blake3 P job))"

definition resume_publication ::
  "unicode \<Rightarrow> jcs \<Rightarrow> (byte list \<Rightarrow> content_digest) \<Rightarrow> ('w, 'o) central_ports \<Rightarrow> resource_id \<Rightarrow> resource_id
   \<Rightarrow> ('w, 'o finalize_result) central_io" where
  "resume_publication uni jcs blake3 P tenant_id job_id =
     io_then (load_job P tenant_id job_id) (\<lambda>job.
     io_ensure (jb_state job = JsPublishing) CcInvalidState (finalize_loaded uni jcs blake3 P job))"

end
