(* ===== verification/Spec2Isabelle.thy ===== *)
theory Spec2Isabelle
  imports CommitGraph AddCapture Completion Oversize CentralHistory ControlPlane
begin

text \<open>
  NeoEngram is a content-addressed version control system for large assets.  A file is a manifest of chunks, a workspace
  has an index from logical paths to manifests, and a commit names a tree of directories built from an index.  Every such
  object is named by the BLAKE3 hash of a canonical encoding.  In the managed setting a central authority owns the indexes:
  it assigns an add job to an agent, the agent scans and chunks the worktree on its volume, uploads objects and metadata,
  and the authority publishes the resulting index delta by compare-and-swap.

  \<^bold>\<open>Conventions.\<close>  A Rust string is the list of its UTF-8 bytes (\<open>string\<close>), \<open>Result\<close> is a sum with the error on the left
  (\<open>Prelude\<close>: \<open>and_then\<close>, \<open>try_fold\<close>, ...), machine integers keep their width (\<open>u64\<close>, \<open>u32\<close> are words, with checked
  arithmetic where the code checks), \<open>BTreeMap\<close> and \<open>BTreeSet\<close> are strictly sorted lists (\<open>BTree\<close>, with the locale of their
  laws), and code that calls ports is a state-passing function on the world behind the ports (\<open>io\<close> in \<open>EngineCore\<close>; the
  value is the result, the state is what the calls left behind, also when they failed).  Errors carry their code, not
  their message.  The hash function, the Unicode tables (case folding, NFC), canonical JSON and the content-defined
  chunker are third-party code and therefore parameters.  Injectivity of hashing is never assumed: theorems about
  identities conclude with equality or with an explicit \<open>collision\<close>.

  \<^bold>\<open>Domain\<close> (\<open>crates/neoengram-domain/src/core\<close>).
  \<^item> \<open>Encoding\<close>, \<open>Digests\<close>: little-endian encodings, digests and their hexadecimal text (\<open>ids.rs\<close>).
  \<^item> \<open>Paths\<close>: components, logical paths, portable keys and the linear path-set scans of \<open>path.rs\<close>; the scans are exact,
    and a parsed path cannot leave the repository.
  \<^item> \<open>Models\<close>, \<open>IndexModel\<close>: manifests, file records, directories, commits, index versions and paged deltas (\<open>models/*.rs\<close>);
    valid manifests tile their file, deltas survive paging.
  \<^item> \<open>Canonical\<close>: every streaming hasher and identity function of \<open>canonical.rs\<close>; \<open>Identity\<close>, \<open>Publication\<close>: the bytes they
    absorb determine the model, and an add publication is accepted exactly when it is closed.

  \<^bold>\<open>Runtime\<close> (\<open>crates/neoengram-runtime/src\<close>).
  \<^item> \<open>EngineCore\<close>, \<open>Paging\<close>: error codes, the canonical hasher, page requests and the paging loop over an index reader
    (a \<open>partial_function\<close>, since a misbehaving reader keeps it running; that it returns is proved separately).
  \<^item> \<open>CommitGraph\<close> (\<open>engine/commit.rs\<close>): the pending directory tree, sealing, graph check and publication; the committed tree
    denotes the index, only closed graphs are published, and an index with sibling names that share a portable key is
    never committed.
  \<^item> \<open>Mutation\<close>, \<open>JournalRuns\<close>, \<open>Adapters\<close>, \<open>Execution\<close> (\<open>engine/mutation.rs\<close>, \<open>fs/memory.rs\<close>, \<open>fs/local.rs\<close>, \<open>fs/objects.rs\<close>):
    plans, the journal, execution under a lock, the in-memory adapters; the journal tells what may have happened to the
    worktree, the files after a plan are those an abstract effect allows, executions return with their lock released, and a
    put either stores exactly the content it reports or nothing.
  \<^item> \<open>PreparedAdd\<close>, \<open>PrepareAdd\<close>, \<open>AddRuns\<close>, \<open>AddEnv\<close>, \<open>MemoryAdd\<close>, \<open>AddCapture\<close> (\<open>engine/add.rs\<close>, \<open>engine/prepare_add.rs\<close>): the
    add use case from request to sealed candidate.  \<open>add_env\<close> is the contract of its ports and \<open>object_tally\<close> that of
    their reports on what is stored; both are interpreted on the memory adapters.  The candidate's delta is exact, its
    statistics count the files, chunks and stored objects, what was captured reads back, and refused requests leave no
    trace.

  \<^bold>\<open>Protocol and agent\<close> (\<open>protocol/*.rs\<close>, \<open>services/neoengram-agent/src\<close>).
  \<^item> \<open>Wire\<close>, \<open>Metadata\<close>, \<open>WirePublication\<close>, \<open>Control\<close>: identifiers, metadata batches and pages, the publication put together
    from them, assignments, reports and decisions, each with its validation.
  \<^item> \<open>AgentState\<close>, \<open>Agent\<close> (\<open>agent_core/state.rs\<close>, \<open>agent_core/agent.rs\<close>): the durable ledger record and every operation of the
    state machine.  \<open>AgentSteps\<close> gives the life of a record as a step relation, \<open>AgentEnv\<close> the contract of the ports as a
    locale, \<open>AgentSafety\<close> proves every operation safe under it, and \<open>MemoryAgent\<close>, \<open>AgentRuns\<close> interpret it on the in-process
    adapters, where a thread may be preempted at every port call by other threads.
  \<^item> \<open>ObjectTransfer\<close>, \<open>Receipts\<close>, \<open>Transfers\<close>, \<open>Completion\<close>, \<open>Oversize\<close> (\<open>execution.rs\<close>): the metadata receipt of a candidate; it
    validates and reads back as the candidate's publication, an assignment runs to its end on willing adapters, and a
    candidate whose first page of manifest records is too large has no receipt at all.

  \<^bold>\<open>Central authority\<close> (\<open>services/neoengram-central/src\<close>).
  \<^item> \<open>CentralState\<close> (\<open>model.rs\<close>, \<open>authority_error.rs\<close>): job records, targets, requests, outcomes and error codes.
  \<^item> \<open>CentralIndex\<close> (\<open>InMemoryIndexPublisher\<close> of \<open>memory.rs\<close>): \<open>compare_and_swap\<close>, \<open>initialize_snapshot\<close> and the reads.  The
    locale \<open>publication_store\<close> is the contract a client relies on; its interpretation \<open>cas\<close> is the publisher.
    \<open>CentralHistory\<close>: in every reachable state each index has the digest its version names and is closed over the
    manifest catalog; any history of publications is serialised, one revision each; answers are final.
  \<^item> \<open>CentralStaging\<close> (\<open>validation.rs\<close>, the stager and the placement catalog of \<open>memory.rs\<close>) and \<open>ControlPlane\<close>
    (\<open>control_plane.rs\<close>): creation, assignment, reports, staging, expiry and finalisation of a managed add.

  \<^bold>\<open>Bounds.\<close>  The only bounds are those of the code: word sizes, page and record limits.  Loops that may not end are
  \<open>partial_function (option)\<close>; their termination on the adapters is a theorem, not an assumption.  Sample data in the
  witnesses uses \<open>ascii_unicode\<close>, the additive \<open>sum_hash\<close> and constant or length-preserving canonical JSON.

  \<^bold>\<open>Not modelled.\<close>  The local repository (directory handles, fsync, SQLite, FUSE mounts), all SQL mappers, HTTP, TLS, QUIC
  and S3 transports, the gateway, the command line and the web console: these are dominated by calls of third-party
  services whose behaviour is not part of the sources.  The Serde derives, diagnostic messages and async scheduling within
  one process (mutexes make each port call atomic) are abstracted.  Of the central authority, the agent and gateway
  registries, catalogs, replication, materialization, snapshot delivery and deletion planning are not modelled.
\<close>

end
